(* ===== verification/Patty_Prelude.thy ===== *)
theory Patty_Prelude
  imports Main "HOL-Library.Word" "HOL-Library.Monad_Syntax"
begin

text \<open>
  Prelude of the development: the machine types of the C code, its error numbers, the
  operating system as a scripted world, C's truncating integer division, and the lemma
  collections the component theories share.
  \<^item> \<open>byte\<close>, \<open>u16\<close>, \<open>u32\<close> and \<open>size_t\<close> are words of 8, 16, 32 and 64 bits
    (the LP64 model of the platforms patty builds on).
  \<^item> A result of type \<open>'a option\<close> at the outermost level separates defined behaviour
    (\<open>Some\<close>) from undefined behaviour of C (\<open>None\<close>: a null or dangling pointer
    followed, an access outside an allocation).
  \<^item> A function that sets \<open>errno\<close> and returns -1 or NULL returns \<open>Inl e\<close>; its normal
    result is \<open>Inr\<close>.
\<close>

unbundle bit_operations_syntax

type_synonym byte = "8 word"
type_synonym u16 = "16 word"
type_synonym u32 = "32 word"
type_synonym size_t = "64 word"

text \<open>The \<open>errno\<close> values the sources assign or test.\<close>

datatype errno = EIO | EINVAL | EOVERFLOW | ENETDOWN | EBADF | EADDRINUSE | EEXIST
  | ENOMEM | ENOTSUP | ENODEV | EISCONN | EOPNOTSUPP | ECONNREFUSED | ETIMEDOUT
  | ENOSYS | EBUSY

type_synonym 'a cres = "errno + 'a"

section \<open>Lemma collections\<close>

named_theorems bits \<open>bitwise extensionality: how each bit of a word expression is computed\<close>
named_theorems ops \<open>definitions of straight-line operations, unfolded by the component proofs\<close>

declare push_bit_Suc [simp del]

lemmas bits_base [bits] = bit_simps bit_double_iff

lemma less_8_cases:
  "n < 8 \<longleftrightarrow> n = 0 \<or> n = 1 \<or> n = 2 \<or> n = 3 \<or> n = 4 \<or> n = 5 \<or> n = 6 \<or> n = (7::nat)"
  by auto

lemma word8_eqI:
  assumes "\<And>n. n \<in> {0, 1, 2, 3, 4, 5, 6, 7} \<Longrightarrow> bit a n = bit (b :: 8 word) n"
  shows "a = b"
  by (rule bit_word_eqI) (use assms in \<open>auto simp: less_8_cases\<close>)

lemma word16_eqI:
  assumes "\<And>n. n \<in> {0, 1, 2, 3, 4, 5, 6, 7, 8, 9, 10, 11, 12, 13, 14, 15}
             \<Longrightarrow> bit a n = bit (b :: 16 word) n"
  shows "a = b"
proof (rule bit_word_eqI)
  fix n :: nat
  assume "n < LENGTH(16)"
  then have "n \<in> {..<16}" by simp
  also have "{..<16} = {0, 1, 2, 3, 4, 5, 6, 7, 8, 9, 10, 11, 12, 13, 14, 15 :: nat}"
    by (simp add: lessThan_nat_numeral insert_commute lessThan_Suc)
  finally show "bit a n = bit b n" by (rule assms)
qed

lemma bit_byte_less: "bit (c :: 8 word) n \<Longrightarrow> n < 8"
  using bit_imp_le_length by force

lemma bit_u16_less: "bit (c :: 16 word) n \<Longrightarrow> n < 16"
  using bit_imp_le_length by force

section \<open>C arithmetic\<close>

text \<open>
  C's \<open>/\<close> and \<open>%\<close> on signed integers truncate towards zero.
\<close>

definition c_div :: "int \<Rightarrow> int \<Rightarrow> int" where
  "c_div a b = sgn a * sgn b * (\<bar>a\<bar> div \<bar>b\<bar>)"

definition c_mod :: "int \<Rightarrow> int \<Rightarrow> int" where
  "c_mod a b = a - c_div a b * b"

lemma c_div_mod: "c_div a b * b + c_mod a b = a"
  by (simp add: c_mod_def)

lemma c_div_nonneg: "0 \<le> a \<Longrightarrow> 0 < b \<Longrightarrow> c_div a b = a div b"
  by (cases "a = 0") (auto simp: c_div_def)

lemma c_mod_nonneg: "0 \<le> a \<Longrightarrow> 0 < b \<Longrightarrow> c_mod a b = a mod b"
  by (simp add: c_mod_def c_div_nonneg minus_div_mult_eq_mod)

lemma c_div_small: "\<bar>a\<bar> < b \<Longrightarrow> c_div a b = 0"
  by (simp add: c_div_def)

lemma c_mod_small: "\<bar>a\<bar> < b \<Longrightarrow> c_mod a b = a"
  by (simp add: c_mod_def c_div_small)

lemma c_mod_neg: "a < 0 \<Longrightarrow> 0 < b \<Longrightarrow> c_mod a b = - ((- a) mod b)"
  by (simp add: c_mod_def c_div_def minus_mult_div_eq_mod [symmetric])

lemma c_mod_bound:
  assumes "0 < b"
  shows "\<bar>c_mod a b\<bar> < b"
proof (cases "a < 0")
  case True
  with assms pos_mod_bound [of b "- a"] pos_mod_sign [of b "- a"] show ?thesis
    by (simp add: c_mod_neg)
next
  case False
  with assms show ?thesis by (simp add: c_mod_nonneg)
qed

section \<open>Buffers\<close>

text \<open>
  A buffer is the list of the bytes of its allocation. Reading or writing outside of it is
  undefined, hence \<open>None\<close>.
\<close>

definition rd :: "byte list \<Rightarrow> nat \<Rightarrow> byte option" where
  "rd buf i = (if i < length buf then Some (buf ! i) else None)"

definition slice :: "byte list \<Rightarrow> nat \<Rightarrow> nat \<Rightarrow> byte list option" where
  "slice buf off n = (if off + n \<le> length buf then Some (take n (drop off buf)) else None)"

lemma rd_append_left: "i < length a \<Longrightarrow> rd (a @ b) i = rd a i"
  by (simp add: rd_def nth_append)

lemma rd_append_right: "length a \<le> i \<Longrightarrow> rd (a @ b) i = rd b (i - length a)"
  by (auto simp: rd_def nth_append)

lemma rd_Cons_0 [simp]: "rd (x # xs) 0 = Some x"
  by (simp add: rd_def)

lemma slice_length: "slice buf off n = Some bs \<Longrightarrow> length bs = n"
  by (auto simp: slice_def split: if_splits)

lemma slice_append: "length a = off \<Longrightarrow> length b = n \<Longrightarrow> slice (a @ b @ c) off n = Some b"
  by (simp add: slice_def)

text \<open>Storing one byte, and \<open>memcpy\<close> into a buffer.\<close>

definition wr :: "byte list \<Rightarrow> nat \<Rightarrow> byte \<Rightarrow> byte list option" where
  "wr buf i b = (if i < length buf then Some (buf[i := b]) else None)"

definition blit :: "byte list \<Rightarrow> nat \<Rightarrow> byte list \<Rightarrow> byte list option" where
  "blit buf off bs =
     (if off + length bs \<le> length buf
      then Some (take off buf @ bs @ drop (off + length bs) buf) else None)"

lemma wr_length: "wr buf i b = Some buf' \<Longrightarrow> length buf' = length buf"
  by (auto simp: wr_def split: if_splits)

lemma blit_length: "blit buf off bs = Some buf' \<Longrightarrow> length buf' = length buf"
  by (auto simp: blit_def split: if_splits)

lemma blit_append:
  "length bs = length cs \<Longrightarrow> length a = off \<Longrightarrow> blit (a @ cs @ rest) off bs = Some (a @ bs @ rest)"
  by (simp add: blit_def)

lemma blit_prefix:
  assumes "length a = off" and "off + length bs \<le> off + length rest"
  shows "blit (a @ rest) off bs = Some (a @ bs @ drop (length bs) rest)"
  using assms by (simp add: blit_def)

lemma wr_prefix:
  "length a = off \<Longrightarrow> rest \<noteq> [] \<Longrightarrow> wr (a @ rest) off b = Some (a @ b # drop 1 rest)"
  by (cases rest) (auto simp: wr_def)

lemma bind_SomeE: "m \<bind> f = Some y \<Longrightarrow> (\<And>x. m = Some x \<Longrightarrow> f x = Some y \<Longrightarrow> P) \<Longrightarrow> P"
  by (cases m) auto

section \<open>The operating system as a scripted world\<close>

text \<open>
  Every call into the operating system takes the next reply of a script, which is arbitrary
  in the theorems: they hold for every behaviour of the system. \<open>RErr e\<close> is a call that
  returns -1 with \<open>errno = e\<close>, \<open>RBytes bs\<close> the data a \<open>read\<close> finds, \<open>RVal n\<close> a
  call that returns \<open>n\<close> (a descriptor), \<open>ROk\<close> a call that succeeds with 0; an exhausted script succeeds everywhere (and \<open>read\<close> finds the end of the
  stream). A \<open>write\<close> either fails or writes all its bytes. \<open>out\<close> is the log of what was
  written, in order: the file descriptor and the bytes; \<open>closed\<close> the descriptors closed.
\<close>

datatype reply = ROk | RErr errno | RBytes "byte list" | RVal int

record world =
  script :: "reply list"
  out :: "(int \<times> byte list) list"
  err :: "errno option"
  closed :: "int list"

definition world0 :: "reply list \<Rightarrow> world" where
  "world0 rs = \<lparr>script = rs, out = [], err = None, closed = []\<rparr>"

text \<open>A call that only succeeds (0) or fails (-1).\<close>

definition sys_call :: "world \<Rightarrow> int \<times> world" where
  "sys_call w = (case script w of
       [] \<Rightarrow> (0, w)
     | r # rs \<Rightarrow> (case r of RErr e \<Rightarrow> (-1, w\<lparr>script := rs, err := Some e\<rparr>)
                          | _ \<Rightarrow> (0, w\<lparr>script := rs\<rparr>)))"

text \<open>A call that returns a descriptor, 0 when the script does not say which.\<close>

definition sys_fd :: "world \<Rightarrow> int \<times> world" where
  "sys_fd w = (case script w of
       [] \<Rightarrow> (0, w)
     | r # rs \<Rightarrow> (case r of RErr e \<Rightarrow> (-1, w\<lparr>script := rs, err := Some e\<rparr>)
                          | RVal n \<Rightarrow> (if n < 0 then 0 else n, w\<lparr>script := rs\<rparr>)
                          | _ \<Rightarrow> (0, w\<lparr>script := rs\<rparr>)))"

definition sys_close :: "int \<Rightarrow> world \<Rightarrow> int \<times> world" where
  "sys_close fd w = (case sys_call w of (r, w) \<Rightarrow> (r, w\<lparr>closed := closed w @ [fd]\<rparr>))"

definition sys_write :: "int \<Rightarrow> byte list \<Rightarrow> world \<Rightarrow> int \<times> world" where
  "sys_write fd bs w = (case sys_call w of (r, w') \<Rightarrow>
     if r < 0 then (-1, w')
     else (int (length bs), w'\<lparr>out := out w' @ [(fd, bs)]\<rparr>))"

definition sys_read :: "nat \<Rightarrow> world \<Rightarrow> (errno + byte list) \<times> world" where
  "sys_read n w = (case script w of
       [] \<Rightarrow> (Inr [], w)
     | r # rs \<Rightarrow> (case r of
           RErr e \<Rightarrow> (Inl e, w\<lparr>script := rs, err := Some e\<rparr>)
         | RBytes bs \<Rightarrow> (Inr (take n bs), w\<lparr>script := rs\<rparr>)
         | _ \<Rightarrow> (Inr [], w\<lparr>script := rs\<rparr>)))"

text \<open>All the bytes the log holds for one file descriptor, in order.\<close>

definition stream_of :: "int \<Rightarrow> (int \<times> byte list) list \<Rightarrow> byte list" where
  "stream_of fd l = concat (map snd (filter (\<lambda>e. fst e = fd) l))"

lemma stream_of_Nil [simp]: "stream_of fd [] = []"
  by (simp add: stream_of_def)

lemma stream_of_append [simp]: "stream_of fd (l @ l') = stream_of fd l @ stream_of fd l'"
  by (simp add: stream_of_def)

lemma stream_of_same [simp]: "stream_of fd [(fd, bs)] = bs"
  by (simp add: stream_of_def)

lemma sys_call_out [simp]: "sys_call w = (r, w') \<Longrightarrow> out w' = out w"
  by (auto simp: sys_call_def split: list.splits reply.splits)

lemma sys_write_ok: "sys_write fd bs w = (r, w') \<Longrightarrow> 0 \<le> r \<Longrightarrow> out w' = out w @ [(fd, bs)]"
  by (auto simp: sys_write_def split: prod.splits if_splits)

lemma sys_write_fail: "sys_write fd bs w = (r, w') \<Longrightarrow> r < 0 \<Longrightarrow> out w' = out w"
  by (auto simp: sys_write_def split: prod.splits if_splits)

lemma sys_write_quiet [simp]:
  "script w = [] \<Longrightarrow> sys_write fd bs w = (int (length bs), w\<lparr>out := out w @ [(fd, bs)]\<rparr>)"
  by (simp add: sys_write_def sys_call_def)

lemma sys_read_bound: "sys_read n w = (Inr bs, w') \<Longrightarrow> length bs \<le> n"
  by (auto simp: sys_read_def split: list.splits reply.splits)

end
