(* ===== verification/Patty_Util.thy ===== *)
theory Patty_Util
  imports Patty_Prelude
begin

text \<open>
  \<open>patty_strlcpy\<close> of \<open>src/src/util.c\<close> and the error object of \<open>src/src/error.c\<close>. A C string
  is the list of its bytes up to, and without, the terminating NUL.
\<close>

type_synonym cstring = "byte list"

definition is_cstring :: "cstring \<Rightarrow> bool" where
  "is_cstring s \<longleftrightarrow> 0 \<notin> set s"

text \<open>A string literal of the sources.\<close>

definition cstr :: "string \<Rightarrow> cstring" where
  "cstr s = map of_char s"

text \<open>
  The loop of \<open>patty_strlcpy\<close>: \<open>k\<close> iterations are left, \<open>src\<close> is the string from index \<open>i\<close>
  on. The result is what is copied before the NUL that ends \<open>dest\<close>.
\<close>

fun strlcpy_loop :: "nat \<Rightarrow> cstring \<Rightarrow> cstring" where
  "strlcpy_loop 0 src = []"
| "strlcpy_loop (Suc k) [] = []"
| "strlcpy_loop (Suc k) (c # src) = (if c = 0 then [] else c # strlcpy_loop k src)"

text \<open>\<open>i < n - 1\<close> is unsigned: \<open>n = 0\<close> wraps around and does not bound the copy.\<close>

definition patty_strlcpy :: "cstring \<Rightarrow> size_t \<Rightarrow> cstring \<times> int" where
  "patty_strlcpy src n =
     (let copied = strlcpy_loop (unat (n - 1)) src in (copied, int (length copied)))"

lemma strlcpy_loop_take: "is_cstring src \<Longrightarrow> strlcpy_loop k src = take k src"
  by (induction k src rule: strlcpy_loop.induct) (auto simp: is_cstring_def)

lemma patty_strlcpy_take:
  "is_cstring src \<Longrightarrow> fst (patty_strlcpy src n) = take (unat (n - 1)) src"
  by (simp add: patty_strlcpy_def Let_def strlcpy_loop_take)

lemma strlcpy_loop_length: "length (strlcpy_loop k src) \<le> k"
  by (induction k src rule: strlcpy_loop.induct) auto

lemma is_cstring_strlcpy: "is_cstring (strlcpy_loop k src)"
  by (induction k src rule: strlcpy_loop.induct) (auto simp: is_cstring_def)

text \<open>\<open>strncmp(a, b, n) == 0\<close> on two strings.\<close>

definition strncmp_eq :: "cstring \<Rightarrow> cstring \<Rightarrow> nat \<Rightarrow> bool" where
  "strncmp_eq a b n \<longleftrightarrow> take n a = take n b"

section \<open>Error objects\<close>

datatype patty_error_state = PATTY_ERROR_OK | PATTY_ERROR_SET

record patty_error =
  e_state :: patty_error_state
  e_err :: cstring

definition PATTY_ERROR_STRLEN :: nat where
  "PATTY_ERROR_STRLEN = 256"

text \<open>
  \<open>vsnprintf\<close> with size \<open>sizeof(e->err) - 1\<close> stores at most that many bytes, the last one the
  NUL; \<open>formatted\<close> is the whole text, or \<open>None\<close> when \<open>vsnprintf\<close> fails.
\<close>

definition patty_error_fmt :: "patty_error \<Rightarrow> cstring option \<Rightarrow> int \<times> patty_error" where
  "patty_error_fmt e formatted =
     (case formatted of
        None \<Rightarrow> (-1, e)
      | Some s \<Rightarrow> (0, e\<lparr>e_err := take (PATTY_ERROR_STRLEN - 1 - 1) s, e_state := PATTY_ERROR_SET\<rparr>))"

definition patty_error_clear :: "patty_error \<Rightarrow> patty_error" where
  "patty_error_clear e = e\<lparr>e_err := [], e_state := PATTY_ERROR_OK\<rparr>"

definition patty_error_set :: "patty_error \<Rightarrow> bool" where
  "patty_error_set e \<longleftrightarrow> e_state e = PATTY_ERROR_SET"

definition patty_error_string :: "patty_error \<Rightarrow> cstring" where
  "patty_error_string e = e_err e"

lemma patty_error_clear_unset [simp]: "\<not> patty_error_set (patty_error_clear e)"
  by (simp add: patty_error_set_def patty_error_clear_def)

lemma patty_error_fmt_set: "patty_error_fmt e (Some s) = (0, e') \<Longrightarrow>
  patty_error_set e' \<and> length (patty_error_string e') < PATTY_ERROR_STRLEN"
  by (auto simp: patty_error_fmt_def patty_error_set_def patty_error_string_def PATTY_ERROR_STRLEN_def)

section \<open>Properties\<close>

text \<open>
  patty_strlcpy copies the longest prefix of a string that leaves room for the NUL and
  returns its length.
\<close>
theorem strlcpy_prefix:
  assumes "is_cstring src" and "0 < n"
  shows "patty_strlcpy src n = (take (unat n - 1) src, int (min (unat n - 1) (length src)))"
proof -
  have "unat (n - 1) = unat n - 1" using assms(2) by (simp add: unat_minus_one word_greater_zero_iff)
  then show ?thesis using strlcpy_loop_take [OF assms(1)] by (simp add: patty_strlcpy_def Let_def)
qed

lemma strlcpy_prefix_witness: "patty_strlcpy [0x6b, 0x69, 0x73, 0x73] 3 = ([0x6b, 0x69], 2)"
  using strlcpy_prefix [of "[0x6b, 0x69, 0x73, 0x73]" 3] by (simp add: is_cstring_def)

end
