(* ===== verification/Patty_Format.thy ===== *)
theory Patty_Format
  imports Patty_Util
begin

text \<open>
  The conversions of the C library that the front ends use: \<open>%d\<close>, \<open>%zu\<close>, \<open>%02x\<close> and \<open>%08zx\<close> of the
  \<open>printf\<close> family, and \<open>atoi\<close>. The lemmas show that reading undoes printing.
\<close>

section \<open>Digits\<close>

text \<open>The digits of a number to a base, the first one first.\<close>

function digits :: "nat \<Rightarrow> nat \<Rightarrow> nat list" where
  "digits b n = (if n < b \<or> b < 2 then [n] else digits b (n div b) @ [n mod b])"
  by pat_completeness auto

termination
proof (relation "measure snd")
  fix b n :: nat
  assume "\<not> (n < b \<or> b < 2)"
  then have "n div b < n" by (intro div_less_dividend) auto
  then show "((b, n div b), b, n) \<in> measure snd" by simp
qed simp

declare digits.simps [simp del]

definition number :: "nat \<Rightarrow> nat list \<Rightarrow> nat" where
  "number b ds = foldl (\<lambda>n d. n * b + d) 0 ds"

lemma number_digits: "number b (digits b n) = n"
proof (induction b n rule: digits.induct)
  case (1 b n)
  then show ?case by (subst digits.simps) (simp add: number_def)
qed

lemma digits_less: "2 \<le> b \<Longrightarrow> d \<in> set (digits b n) \<Longrightarrow> d < b"
proof (induction b n rule: digits.induct)
  case (1 b n)
  then show ?case by (subst (asm) digits.simps) (auto split: if_splits)
qed

lemma digits_length: "2 \<le> b \<Longrightarrow> n < b ^ k \<Longrightarrow> 0 < k \<Longrightarrow> length (digits b n) \<le> k"
proof (induction b n arbitrary: k rule: digits.induct)
  case (1 b n)
  show ?case
  proof (cases "n < b")
    case True
    then show ?thesis using "1.prems" by (subst digits.simps) simp
  next
    case False
    then obtain j where k: "k = Suc j" "0 < j"
      using "1.prems" by (cases k; cases "k = 1") auto
    have "n div b < b ^ j" using "1.prems" k by (simp add: less_mult_imp_div_less mult.commute)
    with "1.IH" [of j] False "1.prems"(1) k show ?thesis by (subst digits.simps) simp
  qed
qed

lemma digits_nonempty [simp]: "digits b n \<noteq> []"
  by (subst digits.simps) simp

lemma number_zeros: "number b (replicate k 0 @ ds) = number b ds"
  by (induction k) (simp_all add: number_def)

section \<open>printf\<close>

definition digit_char :: "nat \<Rightarrow> byte" where
  "digit_char d = of_nat (if d < 10 then 0x30 + d else 0x57 + d)"

text \<open>\<open>%zu\<close>, \<open>%d\<close>, and \<open>%0kx\<close>\<close>

definition fmt_u :: "nat \<Rightarrow> cstring" where
  "fmt_u n = map digit_char (digits 10 n)"

definition fmt_d :: "int \<Rightarrow> cstring" where
  "fmt_d i = (if i < 0 then 0x2d # fmt_u (nat (- i)) else fmt_u (nat i))"

definition fmt_x :: "nat \<Rightarrow> nat \<Rightarrow> cstring" where
  "fmt_x k n = (let ds = digits 16 n in map digit_char (replicate (k - length ds) 0 @ ds))"

lemma fmt_x_length: "n < 16 ^ k \<Longrightarrow> 0 < k \<Longrightarrow> length (fmt_x k n) = k"
  using digits_length [of 16 n k] by (simp add: fmt_x_def Let_def)

section \<open>atoi\<close>

definition is_digit :: "byte \<Rightarrow> bool" where
  "is_digit c \<longleftrightarrow> 0x30 \<le> c \<and> c \<le> 0x39"

text \<open>
  \<open>atoi\<close> of a string that starts with a digit, as all of those that the sources convert. Leaving the
  range of \<open>int\<close> is undefined.
\<close>

definition atoi :: "cstring \<Rightarrow> int option" where
  "atoi s = (let n = number 10 (map (\<lambda>c. unat (c - 0x30)) (takeWhile is_digit s)) in
     if n < 2 ^ 31 then Some (int n) else None)"

definition hex_value :: "byte \<Rightarrow> nat" where
  "hex_value c = (if is_digit c then unat (c - 0x30) else unat (c - 0x57))"

lemma digit_value:
  assumes "d < 10" shows "is_digit (digit_char d)" and "unat (digit_char d - 0x30) = d"
proof -
  have "\<forall>d \<in> set [0..<10]. is_digit (digit_char d) \<and> unat (digit_char d - 0x30) = d" by code_simp
  with assms show "is_digit (digit_char d)" and "unat (digit_char d - 0x30) = d" by simp_all
qed

lemma hex_value_char: "d < 16 \<Longrightarrow> hex_value (digit_char d) = d"
proof -
  have "\<forall>d \<in> set [0..<16]. hex_value (digit_char d) = d" by code_simp
  then show "d < 16 \<Longrightarrow> ?thesis" by simp
qed

lemma hex_char_range: "d < 16 \<Longrightarrow> 0x30 \<le> digit_char d \<and> digit_char d \<le> 0x66"
proof -
  have "\<forall>d \<in> set [0..<16]. 0x30 \<le> digit_char d \<and> digit_char d \<le> 0x66" by code_simp
  then show "d < 16 \<Longrightarrow> ?thesis" by simp
qed

lemma fmt_x_chars:
  assumes "x \<in> set (fmt_x k n)" shows "0x30 \<le> x"
proof -
  from assms obtain d where "x = digit_char d" "d = 0 \<or> d \<in> set (digits 16 n)"
    by (auto simp: fmt_x_def Let_def)
  moreover from this(2) have "d < 16" using digits_less [of 16 d n] by auto
  ultimately show ?thesis using hex_char_range by simp
qed

lemma fmt_u_digits: "c \<in> set (fmt_u n) \<Longrightarrow> is_digit c"
  using digits_less [of 10] digit_value(1) by (auto simp: fmt_u_def)

lemma atoi_fmt_u: "n < 2 ^ 31 \<Longrightarrow> atoi (fmt_u n) = Some (int n)"
proof -
  assume n: "n < 2 ^ 31"
  have w: "takeWhile is_digit (fmt_u n) = fmt_u n"
    using fmt_u_digits by (simp add: takeWhile_eq_all_conv)
  have m: "map (\<lambda>c. unat (c - 0x30)) (fmt_u n) = digits 10 n"
    using digits_less [of 10 _ n] by (auto simp: fmt_u_def digit_value intro!: map_idI)
  show ?thesis using n by (simp only: atoi_def w m) (simp add: number_digits)
qed

lemma hex_fmt_x: "number 16 (map hex_value (fmt_x k n)) = n"
proof -
  have "map (hex_value \<circ> digit_char) ds = ds" if "\<forall>d \<in> set ds. d < 16" for ds
    using that by (auto simp: hex_value_char intro!: map_idI)
  then have "map hex_value (fmt_x k n) = replicate (k - length (digits 16 n)) 0 @ digits 16 n"
    using digits_less [of 16 _ n] by (simp add: fmt_x_def Let_def hex_value_char)
  then show ?thesis by (simp add: number_zeros number_digits)
qed

end
