(* ===== verification/Patty_Hash.thy ===== *)
theory Patty_Hash
  imports Patty_Prelude
begin

text \<open>
  The 32-bit hash of \<open>src/src/hash.c\<close> (Jenkins' one-at-a-time hash), with wrap-around on
  \<open>u32\<close>. The lemmas show that absorbing a byte and finishing are bijections of the running
  value, so two inputs of the same length that differ in exactly one byte never collide.
\<close>

definition patty_hash_init :: u32 where
  "patty_hash_init = 0xffffffdf"

definition hash_byte :: "u32 \<Rightarrow> byte \<Rightarrow> u32" where
  "hash_byte h c =
     (let h1 = h + ucast c;
          h2 = h1 + push_bit 10 h1
      in h2 XOR drop_bit 6 h2)"

definition patty_hash_data :: "u32 \<Rightarrow> byte list \<Rightarrow> u32" where
  "patty_hash_data h data = foldl hash_byte h data"

definition patty_hash_end :: "u32 \<Rightarrow> u32" where
  "patty_hash_end h =
     (let h1 = h + push_bit 3 h;
          h2 = h1 XOR drop_bit 11 h1
      in h2 + push_bit 15 h2)"

definition patty_hash :: "byte list \<Rightarrow> u32" where
  "patty_hash data = patty_hash_end (patty_hash_data patty_hash_init data)"

section \<open>Each stage is injective\<close>

text \<open>The xor-shift \<open>x ^= x >> k\<close> loses nothing: the top bits determine the rest.\<close>

lemma xor_drop_bit_inject:
  fixes x y :: u32
  assumes "0 < k" and eq: "x XOR drop_bit k x = y XOR drop_bit k y"
  shows "x = y"
proof (rule bit_word_eqI)
  have step: "bit x n = bit y n" if "bit x (k + n) = bit y (k + n)" for n
  proof -
    have "bit (x XOR drop_bit k x) n = bit (y XOR drop_bit k y) n" using eq by simp
    with that show ?thesis by (auto simp: bit_xor_iff bit_drop_bit_eq)
  qed
  have high: "bit x n = bit y n" if "32 \<le> n" for n
    using that by (auto dest: bit_imp_le_length)
  have main: "m \<le> 32 \<Longrightarrow> bit x (32 - m) = bit y (32 - m)" for m
  proof (induction m rule: less_induct)
    case (less m)
    show ?case
    proof (cases "k + (32 - m) < 32")
      case True
      with assms(1) less.prems have "k + (32 - m) = 32 - (m - k)" "m - k < m" "m - k \<le> 32" by auto
      with less.IH [of "m - k"] have "bit x (k + (32 - m)) = bit y (k + (32 - m))" by simp
      then show ?thesis by (rule step)
    next
      case False
      then have "bit x (k + (32 - m)) = bit y (k + (32 - m))" by (intro high) simp
      then show ?thesis by (rule step)
    qed
  qed
  show "bit x n = bit y n" if "n < LENGTH(32)" for n
    using main [of "32 - n"] that by simp
qed

text \<open>\<open>x += x << k\<close> multiplies by an odd constant, which has an inverse modulo \<open>2 ^ 32\<close>.\<close>

lemma mult_inject:
  fixes x y c d :: u32
  assumes "c * d = 1" and "x * c = y * c"
  shows "x = y"
proof -
  have "x * c * d = y * c * d" using assms(2) by simp
  then show ?thesis using assms(1) by (simp add: mult.assoc)
qed

lemma shift_10_inject: "(x :: u32) + push_bit 10 x = y + push_bit 10 y \<Longrightarrow> x = y"
  by (rule mult_inject [of 1025 3222273025], code_simp) (simp add: push_bit_eq_mult algebra_simps)

lemma shift_3_inject: "(x :: u32) + push_bit 3 x = y + push_bit 3 y \<Longrightarrow> x = y"
  by (rule mult_inject [of 9 954437177], code_simp) (simp add: push_bit_eq_mult algebra_simps)

lemma shift_15_inject: "(x :: u32) + push_bit 15 x = y + push_bit 15 y \<Longrightarrow> x = y"
  by (rule mult_inject [of 32769 1073709057], code_simp) (simp add: push_bit_eq_mult algebra_simps)

lemma ucast_byte_inject:
  assumes "(ucast (c :: byte) :: u32) = ucast d"
  shows "c = d"
proof (rule word8_eqI)
  fix n :: nat
  assume "n \<in> {0, 1, 2, 3, 4, 5, 6, 7}"
  moreover have "bit (ucast c :: u32) n = bit (ucast d :: u32) n" using assms by simp
  ultimately show "bit c n = bit d n" by (auto simp: bit_simps)
qed

text \<open>The two mixing steps that follow an addition, together.\<close>

lemma mix_inject:
  fixes x y :: u32
  assumes "(x + push_bit 10 x) XOR drop_bit 6 (x + push_bit 10 x)
         = (y + push_bit 10 y) XOR drop_bit 6 (y + push_bit 10 y)"
  shows "x = y"
  by (rule shift_10_inject, rule xor_drop_bit_inject [OF _ assms]) simp

lemma hash_byte_state_inject: "hash_byte h c = hash_byte h' c \<Longrightarrow> h = h'"
  unfolding hash_byte_def Let_def by (drule mix_inject) simp

lemma hash_byte_byte_inject: "hash_byte h c = hash_byte h d \<Longrightarrow> c = d"
  unfolding hash_byte_def Let_def by (drule mix_inject) (auto intro: ucast_byte_inject)

lemma patty_hash_end_inject: "patty_hash_end h = patty_hash_end h' \<Longrightarrow> h = h'"
  unfolding patty_hash_end_def Let_def
  by (drule shift_15_inject, drule xor_drop_bit_inject [rotated]) (auto dest: shift_3_inject)

lemma patty_hash_data_append:
  "patty_hash_data h (xs @ ys) = patty_hash_data (patty_hash_data h xs) ys"
  by (simp add: patty_hash_data_def)

lemma patty_hash_data_state_inject:
  "patty_hash_data h xs = patty_hash_data h' xs \<Longrightarrow> h = h'"
  by (induction xs arbitrary: h h')
     (auto simp: patty_hash_data_def dest: hash_byte_state_inject)

text \<open>Absorbing two byte strings that differ in exactly one position.\<close>

lemma patty_hash_data_differ:
  assumes "c \<noteq> d"
  shows "patty_hash_data h (xs @ c # ys) \<noteq> patty_hash_data h (xs @ d # ys)"
proof
  assume "patty_hash_data h (xs @ c # ys) = patty_hash_data h (xs @ d # ys)"
  then have "patty_hash_data (hash_byte (patty_hash_data h xs) c) ys
      = patty_hash_data (hash_byte (patty_hash_data h xs) d) ys"
    by (simp add: patty_hash_data_def)
  then have "hash_byte (patty_hash_data h xs) c = hash_byte (patty_hash_data h xs) d"
    by (rule patty_hash_data_state_inject)
  with assms show False by (auto dest: hash_byte_byte_inject)
qed

section \<open>Properties\<close>

text \<open>
  Two byte strings that differ in exactly one byte have different hashes.
\<close>
theorem hash_separates_one_byte:
  assumes "c \<noteq> d"
  shows "patty_hash (xs @ c # ys) \<noteq> patty_hash (xs @ d # ys)"
  using patty_hash_data_differ [OF assms] by (auto simp: patty_hash_def dest: patty_hash_end_inject)

lemma hash_separates_one_byte_witness: "patty_hash [0x4b, 0x30] \<noteq> patty_hash [0x4b, 0x31]"
  using hash_separates_one_byte [of "0x30" "0x31" "[0x4b]" "[]"] by simp

end
