(* ===== verification/Patty_Ax25.thy ===== *)
theory Patty_Ax25
  imports Patty_Hash Patty_Util
begin

text \<open>
  Addresses and link parameters: \<open>src/include/patty/ax25.h\<close> and \<open>src/src/ax25.c\<close>. An
  address is six callsign octets (7-bit characters shifted left by one) and an SSID octet;
  the struct is packed, so a store to \<open>callsign[6]\<close> hits the SSID octet.
\<close>

record addr =
  callsign :: "byte list"
  addr_ssid :: byte

definition PATTY_AX25_CALLSTRLEN :: nat where "PATTY_AX25_CALLSTRLEN = 6"
definition PATTY_AX25_ADDRSTRLEN :: nat where "PATTY_AX25_ADDRSTRLEN = 9"
definition PATTY_AX25_IF_NAME_SIZE :: nat where "PATTY_AX25_IF_NAME_SIZE = 8"
definition PATTY_AX25_MAX_HOPS :: nat where "PATTY_AX25_MAX_HOPS = 8"

lemmas ax25_sizes [simp] = PATTY_AX25_CALLSTRLEN_def PATTY_AX25_ADDRSTRLEN_def
  PATTY_AX25_IF_NAME_SIZE_def PATTY_AX25_MAX_HOPS_def

datatype ax25_version = PATTY_AX25_OLD | PATTY_AX25_2_0 | PATTY_AX25_2_2

definition PATTY_AX25_PROTO_FRAGMENT :: byte where "PATTY_AX25_PROTO_FRAGMENT = 0x08"
definition PATTY_AX25_PROTO_NONE :: byte where "PATTY_AX25_PROTO_NONE = 0xf0"

definition PATTY_AX25_ADDR_CHAR_VALID :: "byte \<Rightarrow> bool" where
  "PATTY_AX25_ADDR_CHAR_VALID c \<longleftrightarrow> c \<ge> 0x20 \<and> c \<le> 0x7e"

definition PATTY_AX25_ADDR_OCTET_LAST :: "byte \<Rightarrow> bool" where
  "PATTY_AX25_ADDR_OCTET_LAST c \<longleftrightarrow> c AND 0x01 = 0x01"

definition PATTY_AX25_ADDR_SSID_NUMBER :: "byte \<Rightarrow> byte" where
  "PATTY_AX25_ADDR_SSID_NUMBER c = drop_bit 1 (c AND 0x1e)"

definition PATTY_AX25_ADDR_SSID_C :: "byte \<Rightarrow> bool" where
  "PATTY_AX25_ADDR_SSID_C c \<longleftrightarrow> c AND 0x80 = 0x80"

definition PATTY_AX25_ADDR_SSID_REPEATED :: "byte \<Rightarrow> bool" where
  "PATTY_AX25_ADDR_SSID_REPEATED c \<longleftrightarrow> c AND 0x80 = 0x80"

section \<open>Parameters\<close>

record params =
  p_flags :: u32
  p_classes :: u32
  p_hdlc :: u32
  p_info_tx :: size_t
  p_info_rx :: size_t
  p_window_tx :: size_t
  p_window_rx :: size_t
  p_ack :: size_t
  p_retry :: size_t

definition params_zero :: params where
  "params_zero = \<lparr>p_flags = 0, p_classes = 0, p_hdlc = 0, p_info_tx = 0, p_info_rx = 0,
     p_window_tx = 0, p_window_rx = 0, p_ack = 0, p_retry = 0\<rparr>"

definition PATTY_AX25_PARAM_CLASSES :: nat where "PATTY_AX25_PARAM_CLASSES = 2"
definition PATTY_AX25_PARAM_HDLC :: nat where "PATTY_AX25_PARAM_HDLC = 3"
definition PATTY_AX25_PARAM_INFO_TX :: nat where "PATTY_AX25_PARAM_INFO_TX = 5"
definition PATTY_AX25_PARAM_INFO_RX :: nat where "PATTY_AX25_PARAM_INFO_RX = 6"
definition PATTY_AX25_PARAM_WINDOW_TX :: nat where "PATTY_AX25_PARAM_WINDOW_TX = 7"
definition PATTY_AX25_PARAM_WINDOW_RX :: nat where "PATTY_AX25_PARAM_WINDOW_RX = 8"
definition PATTY_AX25_PARAM_ACK :: nat where "PATTY_AX25_PARAM_ACK = 9"
definition PATTY_AX25_PARAM_RETRY :: nat where "PATTY_AX25_PARAM_RETRY = 10"

lemmas param_types [simp] = PATTY_AX25_PARAM_CLASSES_def PATTY_AX25_PARAM_HDLC_def
  PATTY_AX25_PARAM_INFO_TX_def PATTY_AX25_PARAM_INFO_RX_def PATTY_AX25_PARAM_WINDOW_TX_def
  PATTY_AX25_PARAM_WINDOW_RX_def PATTY_AX25_PARAM_ACK_def PATTY_AX25_PARAM_RETRY_def

definition PATTY_AX25_PARAM_CLASSES_ABM :: u32 where
  "PATTY_AX25_PARAM_CLASSES_ABM = push_bit 8 (push_bit 0 1)"
definition PATTY_AX25_PARAM_CLASSES_HALF_DUPLEX :: u32 where
  "PATTY_AX25_PARAM_CLASSES_HALF_DUPLEX = push_bit 8 (push_bit 5 1)"
definition PATTY_AX25_PARAM_CLASSES_FULL_DUPLEX :: u32 where
  "PATTY_AX25_PARAM_CLASSES_FULL_DUPLEX = push_bit 8 (push_bit 6 1)"

definition PATTY_AX25_PARAM_HDLC_REJ :: u32 where
  "PATTY_AX25_PARAM_HDLC_REJ = push_bit 16 (push_bit 1 1)"
definition PATTY_AX25_PARAM_HDLC_SREJ :: u32 where
  "PATTY_AX25_PARAM_HDLC_SREJ = push_bit 16 (push_bit 2 1)"
definition PATTY_AX25_PARAM_HDLC_XADDR :: u32 where
  "PATTY_AX25_PARAM_HDLC_XADDR = push_bit 16 (push_bit 7 1)"
definition PATTY_AX25_PARAM_HDLC_MODULO_8 :: u32 where
  "PATTY_AX25_PARAM_HDLC_MODULO_8 = push_bit 10 1"
definition PATTY_AX25_PARAM_HDLC_MODULO_128 :: u32 where
  "PATTY_AX25_PARAM_HDLC_MODULO_128 = push_bit 11 1"
definition PATTY_AX25_PARAM_HDLC_TEST :: u32 where
  "PATTY_AX25_PARAM_HDLC_TEST = push_bit 13 1"
definition PATTY_AX25_PARAM_HDLC_FCS_16 :: u32 where
  "PATTY_AX25_PARAM_HDLC_FCS_16 = push_bit 15 1"
definition PATTY_AX25_PARAM_HDLC_SYNC_TX :: u32 where
  "PATTY_AX25_PARAM_HDLC_SYNC_TX = drop_bit 16 (push_bit 17 1)"
definition PATTY_AX25_PARAM_HDLC_SREJ_MULTI :: u32 where
  "PATTY_AX25_PARAM_HDLC_SREJ_MULTI = drop_bit 16 (push_bit 21 1)"

lemmas hdlc_bits = PATTY_AX25_PARAM_HDLC_REJ_def PATTY_AX25_PARAM_HDLC_SREJ_def
  PATTY_AX25_PARAM_HDLC_XADDR_def PATTY_AX25_PARAM_HDLC_MODULO_8_def
  PATTY_AX25_PARAM_HDLC_MODULO_128_def PATTY_AX25_PARAM_HDLC_TEST_def
  PATTY_AX25_PARAM_HDLC_FCS_16_def PATTY_AX25_PARAM_HDLC_SYNC_TX_def
  PATTY_AX25_PARAM_HDLC_SREJ_MULTI_def

section \<open>From text to address\<close>

datatype addr_state = ADDR_CALLSIGN | ADDR_SSID

record pton_state =
  pt_o :: nat
  pt_digits :: nat
  pt_ssid :: int
  pt_state :: addr_state
  pt_c :: byte
  pt_addr :: addr

text \<open>\<open>addr->callsign[o] = b\<close>; index 6 is the SSID octet.\<close>

definition store_callsign :: "addr \<Rightarrow> nat \<Rightarrow> byte \<Rightarrow> addr" where
  "store_callsign a i b =
     (if i < PATTY_AX25_CALLSTRLEN then a\<lparr>callsign := (callsign a)[i := b]\<rparr>
      else if i = PATTY_AX25_CALLSTRLEN then a\<lparr>addr_ssid := b\<rparr> else a)"

text \<open>One iteration of the loop of \<open>patty_ax25_pton\<close>: the flag tells that it goes on.\<close>

definition pton_step :: "byte \<Rightarrow> pton_state \<Rightarrow> bool \<times> pton_state" where
  "pton_step c s0 =
     (let s = s0\<lparr>pt_c := c\<rparr> in
      case pt_state s of
        ADDR_CALLSIGN \<Rightarrow>
          if pt_o s > PATTY_AX25_CALLSTRLEN then (False, s)
          else if c = 0x2d then (True, s\<lparr>pt_state := ADDR_SSID\<rparr>)
          else if PATTY_AX25_ADDR_CHAR_VALID c
          then (True, s\<lparr>pt_addr := store_callsign (pt_addr s) (pt_o s) (push_bit 1 (c AND 0x7f)),
                        pt_o := pt_o s + 1\<rparr>)
          else (False, s)
      | ADDR_SSID \<Rightarrow>
          if pt_digits s = 2 then (False, s)
          else if c \<ge> 0x30 \<and> c \<le> 0x39
          then (True, s\<lparr>pt_ssid := pt_ssid s * 10 + (uint c - 0x30), pt_digits := pt_digits s + 1\<rparr>)
          else (False, s))"

fun pton_loop :: "cstring \<Rightarrow> pton_state \<Rightarrow> bool \<times> pton_state" where
  "pton_loop [] s = (True, s)"
| "pton_loop (c # cs) s = (case pton_step c s of (ok, s') \<Rightarrow> if ok then pton_loop cs s' else (False, s'))"

text \<open>\<open>while (o < PATTY_AX25_CALLSTRLEN) addr->callsign[o++] = ' ' << 1;\<close>\<close>

function pad_callsign :: "nat \<Rightarrow> addr \<Rightarrow> addr" where
  "pad_callsign i a =
     (if i < PATTY_AX25_CALLSTRLEN then pad_callsign (i + 1) (store_callsign a i (push_bit 1 0x20)) else a)"
  by auto
termination by (relation "measure (\<lambda>(i, a). 6 - i)") auto

declare pad_callsign.simps [simp del]

definition patty_ax25_pton :: "cstring \<Rightarrow> addr \<Rightarrow> unit cres \<times> addr" where
  "patty_ax25_pton text addr =
     (if length text = 0 then (Inl EINVAL, addr)
      else let len = min (length text) PATTY_AX25_ADDRSTRLEN;
               s0 = \<lparr>pt_o = 0, pt_digits = 0, pt_ssid = 0, pt_state = ADDR_CALLSIGN, pt_c = 0,
                     pt_addr = addr\<rparr>
           in case pton_loop (take len text) s0 of (ok, s) \<Rightarrow>
             if \<not> ok then (Inl EINVAL, pt_addr s)
             else if pt_ssid s > 15 then (Inl EINVAL, pt_addr s)
             else if pt_c s = 0x2d then (Inl EINVAL, pt_addr s)
             else (Inr (), (pad_callsign (pt_o s) (pt_addr s))
                             \<lparr>addr_ssid := push_bit 1 (word_of_int (pt_ssid s) AND 0x0f)\<rparr>))"

section \<open>From address to text\<close>

definition expt :: "int \<Rightarrow> nat \<Rightarrow> int" where
  "expt base e = (if e = 0 then 1 else fold (\<lambda>_ ret. ret * base) [1..<e] base)"

text \<open>The first loop of \<open>patty_ax25_ntop\<close>: \<open>w\<close> is what has been written to \<open>dest\<close>.\<close>

fun ntop_loop :: "byte list \<Rightarrow> nat \<Rightarrow> cstring \<Rightarrow> bool \<times> cstring" where
  "ntop_loop [] len w = (True, w)"
| "ntop_loop (b # bs) len w =
     (if length w = len then (False, w)
      else let c = drop_bit 1 (b AND 0xfe)
           in if c = 0x20 then (True, w) else ntop_loop bs len (w @ [c]))"

definition ntop_digit :: "int \<Rightarrow> nat \<Rightarrow> nat \<Rightarrow> byte" where
  "ntop_digit ssid digits d =
     (let place = expt 10 (digits - d - 1)
      in word_of_int (c_div (c_mod ssid (place * 10)) place + 0x30))"

text \<open>The result and everything written to \<open>dest\<close>, the terminating NUL included.\<close>

definition patty_ax25_ntop :: "addr \<Rightarrow> nat \<Rightarrow> unit cres \<times> byte list" where
  "patty_ax25_ntop addr len =
     (let ssid = uint (drop_bit 1 (addr_ssid addr AND 0x1e)) in
      case ntop_loop (callsign addr) len [] of (ok, w) \<Rightarrow>
        if \<not> ok then (Inl EOVERFLOW, w)
        else let digits = (if ssid > 9 then 2 else 1) in
             if ssid \<noteq> 0 \<and> length w + 1 + digits > len then (Inl EOVERFLOW, w)
             else let w' = (if ssid \<noteq> 0 then w @ 0x2d # map (ntop_digit ssid digits) [0..<digits] else w)
                  in if length w' > len then (Inl EOVERFLOW, w') else (Inr (), w' @ [0]))"

section \<open>Hash and copy\<close>

text \<open>
  \<open>callsign\<close> is an array of \<open>char\<close>, signed on the platforms patty builds on, so
  \<open>callsign[i] >> 1\<close> shifts arithmetically before it is cut to \<open>uint8_t\<close>. The loop and
  \<open>hash_byte\<close> of ax25.c are those of hash.c.
\<close>

definition patty_ax25_addr_hash :: "u32 \<Rightarrow> addr \<Rightarrow> u32" where
  "patty_ax25_addr_hash hash addr =
     hash_byte (fold (\<lambda>c h. hash_byte h (signed_drop_bit 1 c)) (take PATTY_AX25_CALLSTRLEN (callsign addr)) hash)
       (PATTY_AX25_ADDR_SSID_NUMBER (addr_ssid addr))"

text \<open>The bytes stored in the buffer; their number is the value returned.\<close>

definition patty_ax25_addr_copy :: "addr \<Rightarrow> byte \<Rightarrow> byte list" where
  "patty_ax25_addr_copy addr ssid_flags =
     callsign addr @ [ssid_flags OR 0x60 OR (addr_ssid addr AND 0x1e)]"

section \<open>Well-formed addresses\<close>

text \<open>
  Six octets with a free low bit, and an SSID octet that holds the number only: what
  \<open>patty_ax25_pton\<close> produces, and \<open>patty_ax25_addr_copy\<close> puts on the air.
\<close>

definition addr_zero :: addr where
  "addr_zero = \<lparr>callsign = replicate 6 0, addr_ssid = 0\<rparr>"

definition addr_wf :: "addr \<Rightarrow> bool" where
  "addr_wf a \<longleftrightarrow> length (callsign a) = 6 \<and> (\<forall>c \<in> set (callsign a). \<not> bit c 0)
     \<and> addr_ssid a AND 0xe1 = 0"

text \<open>The invariant of the loop of \<open>patty_ax25_pton\<close>.\<close>

definition pton_inv :: "pton_state \<Rightarrow> bool" where
  "pton_inv s \<longleftrightarrow> length (callsign (pt_addr s)) = 6 \<and> pt_o s \<le> 7 \<and> 0 \<le> pt_ssid s
     \<and> (\<forall>i < min 6 (pt_o s). \<not> bit (callsign (pt_addr s) ! i) 0)"

lemma not_bit_0_push: "\<not> bit (push_bit 1 (c :: byte)) 0"
  by (simp add: bit_simps)

lemma pton_step_inv:
  assumes "pton_inv s"
  shows "pton_inv (snd (pton_step c s))"
proof (cases "pt_state s")
  case ADDR_CALLSIGN
  have "\<not> bit ((callsign (pt_addr s))[pt_o s := push_bit 1 (c AND 0x7f)] ! i) 0"
    if "i < 6" "i < Suc (pt_o s)" for i
    using assms that not_bit_0_push [of "c AND 0x7f"]
    by (cases "i = pt_o s") (auto simp: pton_inv_def simp del: push_bit_and)
  with assms ADDR_CALLSIGN show ?thesis
    by (auto simp: pton_inv_def pton_step_def Let_def store_callsign_def)
next
  case ADDR_SSID
  have "0x30 \<le> uint c" if "0x30 \<le> c" using that by (simp add: word_le_def)
  with assms ADDR_SSID show ?thesis
    by (auto simp: pton_inv_def pton_step_def Let_def)
qed

lemma pton_loop_inv: "pton_inv s \<Longrightarrow> pton_inv (snd (pton_loop cs s))"
proof (induction cs arbitrary: s)
  case (Cons c cs)
  then show ?case using pton_step_inv [of s c] by (auto split: prod.splits)
qed simp

lemma store_callsign_length [simp]: "length (callsign (store_callsign a i b)) = length (callsign a)"
  by (simp add: store_callsign_def)

lemma pad_callsign_spec:
  "length (callsign a) = 6 \<Longrightarrow> i \<le> 6 \<Longrightarrow>
   callsign (pad_callsign i a) = take i (callsign a) @ replicate (6 - i) 0x40"
proof (induction i a rule: pad_callsign.induct)
  case (1 i a)
  show ?case
  proof (cases "i < 6")
    case True
    with 1 have "callsign (pad_callsign (i + 1) (store_callsign a i (push_bit 1 0x20)))
        = take (i + 1) ((callsign a)[i := 0x40]) @ replicate (6 - (i + 1)) 0x40"
      by (simp add: store_callsign_def)
    also have "take (i + 1) ((callsign a)[i := 0x40]) = take i (callsign a) @ [0x40]"
      using True 1 by (simp add: take_Suc_conv_app_nth)
    also have "(take i (callsign a) @ [0x40 :: byte]) @ replicate (6 - (i + 1)) 0x40
        = take i (callsign a) @ replicate (6 - i) 0x40"
      using True by (simp add: Suc_diff_Suc flip: replicate_Suc)
    finally show ?thesis using True by (simp add: pad_callsign.simps [of i])
  next
    case False
    with 1 show ?thesis by (simp add: pad_callsign.simps)
  qed
qed

lemma pad_callsign_7: "pad_callsign 7 a = a"
  by (simp add: pad_callsign.simps)

lemma ssid_octet_wf: "push_bit 1 (w AND 0x0f) AND 0xe1 = (0 :: byte)"
  by (rule word8_eqI) (auto simp: bits)

lemma patty_ax25_pton_wf:
  assumes "patty_ax25_pton text addr = (Inr (), a)" and "length (callsign addr) = 6"
  shows "addr_wf a"
proof -
  let ?init = "\<lparr>pt_o = 0, pt_digits = 0, pt_ssid = 0, pt_state = ADDR_CALLSIGN, pt_c = 0, pt_addr = addr\<rparr>"
  obtain ok s where loop: "pton_loop (take (min (length text) 9) text) ?init = (ok, s)"
    by (cases "pton_loop (take (min (length text) 9) text) ?init")
  have "pton_inv ?init" using assms(2) by (simp add: pton_inv_def)
  from pton_loop_inv [OF this] loop have inv: "pton_inv s" by (metis snd_conv)
  from assms(1) loop have a: "a = (pad_callsign (pt_o s) (pt_addr s))
      \<lparr>addr_ssid := push_bit 1 (word_of_int (pt_ssid s) AND 0x0f)\<rparr>"
    by (auto simp: patty_ax25_pton_def Let_def split: if_splits)
  have "length (callsign a) = 6 \<and> (\<forall>c \<in> set (callsign a). \<not> bit c 0)"
  proof (cases "pt_o s \<le> 6")
    case True
    with inv a have cs: "callsign a = take (pt_o s) (callsign (pt_addr s)) @ replicate (6 - pt_o s) 0x40"
      by (simp add: pton_inv_def pad_callsign_spec)
    have "\<not> bit c 0" if c: "c \<in> set (take (pt_o s) (callsign (pt_addr s)))" for c
    proof -
      from c obtain i where "i < pt_o s" "i < 6" "c = callsign (pt_addr s) ! i"
        using inv by (auto simp: pton_inv_def in_set_conv_nth)
      with inv show ?thesis by (auto simp: pton_inv_def)
    qed
    with cs True inv show ?thesis
      by (auto simp: pton_inv_def bit_0)
  next
    case False
    with inv have "pt_o s = 7" by (simp add: pton_inv_def)
    with a inv show ?thesis
      by (auto simp: pad_callsign_7 pton_inv_def in_set_conv_nth)
  qed
  with a ssid_octet_wf [of "word_of_int (pt_ssid s)"] show ?thesis
    by (simp add: addr_wf_def del: push_bit_and)
qed

section \<open>Text round trip\<close>

text \<open>
  The addresses in canonical form: up to six characters other than space and \<open>-\<close>, and a
  number up to 15.
\<close>

definition callsign_char :: "byte \<Rightarrow> bool" where
  "callsign_char c \<longleftrightarrow> 0x20 < c \<and> c \<le> 0x7e \<and> c \<noteq> 0x2d"

definition canonical_text :: "cstring \<Rightarrow> nat \<Rightarrow> bool" where
  "canonical_text cs n \<longleftrightarrow> cs \<noteq> [] \<and> length cs \<le> 6 \<and> (\<forall>c \<in> set cs. callsign_char c) \<and> n \<le> 15"

definition ssid_text :: "nat \<Rightarrow> cstring" where
  "ssid_text n = (if n = 0 then []
     else if n < 10 then [0x2d, of_nat (0x30 + n)] else [0x2d, 0x31, of_nat (0x30 + n - 10)])"

definition addr_of :: "cstring \<Rightarrow> nat \<Rightarrow> addr" where
  "addr_of cs n = \<lparr>callsign = map (push_bit 1) cs @ replicate (6 - length cs) 0x40,
                   addr_ssid = push_bit 1 (of_nat n)\<rparr>"

lemma callsign_char_7: "callsign_char c \<Longrightarrow> \<not> bit c 7"
proof
  assume *: "callsign_char c" "bit c 7"
  then have "uint c \<le> 0x7e" by (simp add: callsign_char_def word_le_def)
  then have "uint c div 128 = 0" by simp
  moreover have "bit (uint c) 7" using * by (simp add: bit_uint_iff)
  ultimately show False by (simp add: bit_iff_odd)
qed

lemma callsign_char_valid:
  "callsign_char c \<Longrightarrow> PATTY_AX25_ADDR_CHAR_VALID c \<and> c \<noteq> 0x2d \<and> c \<noteq> 0x20"
  by (auto simp: callsign_char_def PATTY_AX25_ADDR_CHAR_VALID_def)

lemma callsign_char_mask: "callsign_char c \<Longrightarrow> c AND 0x7f = c"
  by (rule word8_eqI) (auto simp: bits dest: callsign_char_7)

lemma callsign_char_unshift: "callsign_char c \<Longrightarrow> drop_bit 1 (push_bit 1 c AND 0xfe) = c"
  by (rule word8_eqI) (auto simp: bits dest: callsign_char_7)

text \<open>The loop over the callsign part copies it.\<close>

lemma pton_loop_callsign:
  assumes "\<forall>c \<in> set cs. callsign_char c" and "pt_state s = ADDR_CALLSIGN"
    and "pt_o s + length cs \<le> 6" and "length (callsign (pt_addr s)) = 6"
  shows "pton_loop (cs @ rest) s = pton_loop rest
    (s\<lparr>pt_o := pt_o s + length cs, pt_c := (if cs = [] then pt_c s else last cs),
       pt_addr := (pt_addr s)\<lparr>callsign := take (pt_o s) (callsign (pt_addr s)) @ map (push_bit 1) cs
          @ drop (pt_o s + length cs) (callsign (pt_addr s))\<rparr>\<rparr>)"
  using assms
proof (induction cs arbitrary: s)
  case Nil
  then show ?case by simp
next
  case (Cons c cs)
  have c: "callsign_char c" using Cons.prems by simp
  let ?s = "s\<lparr>pt_c := c, pt_o := pt_o s + 1,
      pt_addr := (pt_addr s)\<lparr>callsign := (callsign (pt_addr s))[pt_o s := push_bit 1 c]\<rparr>\<rparr>"
  have "pton_step c s = (True, ?s)"
    using Cons.prems callsign_char_valid [OF c]
    by (simp add: pton_step_def Let_def store_callsign_def callsign_char_mask [OF c])
  moreover have "take (Suc (pt_o s)) ((callsign (pt_addr s))[pt_o s := push_bit 1 c])
      = take (pt_o s) (callsign (pt_addr s)) @ [push_bit 1 c]"
    using Cons.prems by (simp add: take_Suc_conv_app_nth)
  moreover have "pton_loop (cs @ rest) ?s = pton_loop rest
    (?s\<lparr>pt_o := pt_o ?s + length cs, pt_c := (if cs = [] then pt_c ?s else last cs),
       pt_addr := (pt_addr ?s)\<lparr>callsign := take (pt_o ?s) (callsign (pt_addr ?s)) @ map (push_bit 1) cs
          @ drop (pt_o ?s + length cs) (callsign (pt_addr ?s))\<rparr>\<rparr>)"
    by (rule Cons.IH) (use Cons.prems in simp_all)
  ultimately show ?case by simp
qed

lemma le_15_cases:
  "n \<le> 15 \<Longrightarrow> n \<in> {0, 1, 2, 3, 4, 5, 6, 7, 8, 9, 10, 11, 12, 13, 14, 15 :: nat}"
  unfolding insert_iff empty_iff by arith

text \<open>The loop over the SSID part reads the number.\<close>

lemma pton_loop_ssid:
  assumes "n \<le> 15" and "pt_state s = ADDR_CALLSIGN" and "pt_digits s = 0" and "pt_ssid s = 0"
    and "pt_o s \<le> 6" and "pt_c s \<noteq> 0x2d"
  shows "\<exists>s'. pton_loop (ssid_text n) s = (True, s') \<and> pt_ssid s' = int n \<and> pt_c s' \<noteq> 0x2d
            \<and> pt_o s' = pt_o s \<and> pt_addr s' = pt_addr s"
  using le_15_cases [OF assms(1)] assms(2-6)
  by (elim insertE emptyE) (simp_all add: ssid_text_def pton_step_def Let_def)

lemma ssid_text_length: "length (ssid_text n) \<le> 3"
  by (simp add: ssid_text_def)

lemma pton_canonical:
  assumes "canonical_text cs n" and "length (callsign addr) = 6"
  shows "patty_ax25_pton (cs @ ssid_text n) addr = (Inr (), addr_of cs n)"
proof -
  let ?init = "\<lparr>pt_o = 0, pt_digits = 0, pt_ssid = 0, pt_state = ADDR_CALLSIGN, pt_c = 0, pt_addr = addr\<rparr>"
  let ?a = "addr\<lparr>callsign := map (push_bit 1) cs @ drop (length cs) (callsign addr)\<rparr>"
  let ?s = "?init\<lparr>pt_o := length cs, pt_c := last cs, pt_addr := ?a\<rparr>"
  from assms(1) have cs: "cs \<noteq> []" "length cs \<le> 6" "\<forall>c \<in> set cs. callsign_char c" "n \<le> 15"
    by (auto simp: canonical_text_def)
  then have "callsign_char (last cs)" by auto
  then have "last cs \<noteq> 0x2d" by (simp add: callsign_char_def)
  with pton_loop_ssid [of n ?s] cs obtain s where
    s: "pton_loop (ssid_text n) ?s = (True, s)" "pt_ssid s = int n" "pt_c s \<noteq> 0x2d"
      "pt_o s = length cs" "pt_addr s = ?a" by auto
  have loop: "pton_loop (cs @ ssid_text n) ?init = (True, s)"
    using pton_loop_callsign [of cs ?init "ssid_text n"] cs assms(2) s(1) by simp
  have "min (length (cs @ ssid_text n)) 9 = length (cs @ ssid_text n)"
    using cs ssid_text_length [of n] by simp
  with loop have loop9: "pton_loop (take (min (length (cs @ ssid_text n)) 9) (cs @ ssid_text n)) ?init = (True, s)"
    by simp
  have "callsign (pad_callsign (length cs) ?a) = callsign (addr_of cs n)"
    using pad_callsign_spec [of ?a "length cs"] cs assms(2) by (simp add: addr_of_def)
  moreover have "push_bit 1 (word_of_int (int n) AND 0x0f) = addr_ssid (addr_of cs n)"
    using le_15_cases [OF cs(4)] by (elim insertE emptyE) (simp_all add: addr_of_def)
  ultimately show ?thesis
    using loop9 s cs by (simp add: patty_ax25_pton_def Let_def del: push_bit_and)
qed

lemma ntop_loop_char:
  "callsign_char c \<Longrightarrow> ntop_loop (push_bit 1 c # rest) len w
     = (if length w = len then (False, w) else ntop_loop rest len (w @ [c]))"
  by (simp only: ntop_loop.simps callsign_char_unshift Let_def) (auto simp: callsign_char_def)

lemma ntop_loop_callsign:
  "\<forall>c \<in> set cs. callsign_char c \<Longrightarrow> length w + length cs \<le> len \<Longrightarrow>
   ntop_loop (map (push_bit 1) cs @ rest) len w = ntop_loop rest len (w @ cs)"
  by (induction cs arbitrary: w) (simp_all only: list.map append_Cons ntop_loop_char list.set_intros, auto simp: ntop_loop_char)

text \<open>A trailing space stops the loop, unless the buffer is exactly full there.\<close>

lemma ntop_loop_pad:
  "ntop_loop (replicate k 0x40) len w = (k = 0 \<or> length w \<noteq> len, w)"
  by (cases k) (simp_all add: Let_def)

lemma ssid_number: "n \<le> 15 \<Longrightarrow> uint (drop_bit 1 (push_bit 1 (of_nat n) AND 0x1e :: byte)) = int n"
  by (drule le_15_cases) (elim insertE emptyE; simp)

lemma ntop_digits:
  assumes "n \<le> 15" and "n \<noteq> 0"
  shows "0x2d # map (ntop_digit (int n) (if int n > 9 then 2 else 1)) [0..<(if int n > 9 then 2 else 1)]
    = ssid_text n"
  using le_15_cases [OF assms(1)] assms(2)
  by (elim insertE emptyE)
     (simp_all add: ntop_digit_def ssid_text_def expt_def Let_def c_div_def c_mod_def upt_rec numeral_2_eq_2)

lemma ntop_canonical:
  assumes "canonical_text cs n" and "length (cs @ ssid_text n) < len"
  shows "patty_ax25_ntop (addr_of cs n) len = (Inr (), cs @ ssid_text n @ [0])"
proof -
  from assms have cs: "cs \<noteq> []" "length cs \<le> 6" "\<forall>c \<in> set cs. callsign_char c" "n \<le> 15"
    and len: "length cs < len"
    by (auto simp: canonical_text_def)
  have "ntop_loop (callsign (addr_of cs n)) len [] = (True, cs)"
    using ntop_loop_callsign [of cs "[]" len "replicate (6 - length cs) 0x40"] cs len
    by (simp add: addr_of_def ntop_loop_pad)
  moreover have "uint (drop_bit 1 (addr_ssid (addr_of cs n) AND 0x1e)) = int n"
    using ssid_number [OF cs(4)] by (simp add: addr_of_def)
  moreover have "n \<noteq> 0 \<Longrightarrow> length cs + 1 + (if int n > 9 then 2 else 1) = length (cs @ ssid_text n)"
    by (simp add: ssid_text_def)
  ultimately show ?thesis
    using ntop_digits [OF cs(4)] assms(2)
    by (cases "n = 0") (simp_all add: patty_ax25_ntop_def Let_def ssid_text_def del: upt.simps)
qed

section \<open>Other lemmas\<close>

text \<open>
  \<open>o > len\<close> should be \<open>o >= len\<close>: a text that fills the buffer exactly is reported as a
  success, and its NUL is written one byte behind the buffer.
\<close>

lemma ntop_loop_room:
  "ntop_loop bs len w = (ok, w') \<Longrightarrow> length w \<le> len \<Longrightarrow> length w' \<le> len"
proof (induction bs len w rule: ntop_loop.induct)
  case (2 b bs len w)
  then show ?case by (auto simp: Let_def split: if_splits)
qed auto

lemma ntop_bound:
  assumes "patty_ax25_ntop a len = (r, w)"
  shows "length w \<le> len + 1"
proof -
  obtain ok v where v: "ntop_loop (callsign a) len [] = (ok, v)" by (cases "ntop_loop (callsign a) len []")
  from ntop_loop_room [OF v] have "length v \<le> len" by simp
  with assms v show ?thesis
    by (auto simp: patty_ax25_ntop_def Let_def simp del: upt.simps split: if_splits)
qed

text \<open>The hash reads each octet through a shift that only drops the low bit.\<close>

lemma signed_drop_bit_inject:
  assumes "\<not> bit c 0" and "\<not> bit d 0" and "signed_drop_bit 1 c = signed_drop_bit 1 (d :: byte)"
  shows "c = d"
proof (rule word8_eqI)
  have *: "bit (signed_drop_bit 1 c) n = bit (signed_drop_bit 1 d) n" for n using assms(3) by simp
  fix n :: nat
  assume "n \<in> {0, 1, 2, 3, 4, 5, 6, 7}"
  then show "bit c n = bit d n"
    using assms(1,2) * [of 0] * [of 1] * [of 2] * [of 3] * [of 4] * [of 5] * [of 6]
    by (auto simp: bit_signed_drop_bit_iff numeral_eq_Suc)
qed

lemma addr_hash_data:
  assumes "length (callsign a) = 6"
  shows "patty_ax25_addr_hash h a
    = patty_hash_data h (map (signed_drop_bit 1) (callsign a) @ [PATTY_AX25_ADDR_SSID_NUMBER (addr_ssid a)])"
  using assms by (simp add: patty_ax25_addr_hash_def patty_hash_data_def foldl_conv_fold fold_map comp_def)

lemma ssid_number_inject:
  assumes "a AND 0xe1 = 0" and "b AND 0xe1 = 0"
    and "PATTY_AX25_ADDR_SSID_NUMBER a = PATTY_AX25_ADDR_SSID_NUMBER b"
  shows "a = b"
proof -
  have octet: "push_bit 1 (PATTY_AX25_ADDR_SSID_NUMBER c) OR (c AND 0xe1) = c" for c
    by (rule word8_eqI) (auto simp: PATTY_AX25_ADDR_SSID_NUMBER_def bits eval_nat_numeral)
  show ?thesis using octet [of a] octet [of b] assms by simp
qed

text \<open>Two well-formed addresses that differ in one octet have different hashes.\<close>

lemma addr_hash_differ:
  assumes "addr_wf a" and "addr_wf b"
    and "(\<exists>xs c d ys. callsign a = xs @ c # ys \<and> callsign b = xs @ d # ys \<and> c \<noteq> d \<and> addr_ssid a = addr_ssid b)
       \<or> (callsign a = callsign b \<and> addr_ssid a \<noteq> addr_ssid b)"
  shows "patty_ax25_addr_hash h a \<noteq> patty_ax25_addr_hash h b"
proof -
  let ?f = "signed_drop_bit 1 :: byte \<Rightarrow> byte"
  have wf: "length (callsign a) = 6" "length (callsign b) = 6" using assms by (simp_all add: addr_wf_def)
  from assms(3) show ?thesis
  proof (elim disjE exE conjE)
    fix xs c d ys
    assume *: "callsign a = xs @ c # ys" "callsign b = xs @ d # ys" "c \<noteq> d" "addr_ssid a = addr_ssid b"
    then have "\<not> bit c 0" "\<not> bit d 0" using assms(1,2) by (auto simp: addr_wf_def)
    with * have "?f c \<noteq> ?f d" by (blast dest: signed_drop_bit_inject)
    from patty_hash_data_differ [OF this, of h "map ?f xs" "map ?f ys @ [PATTY_AX25_ADDR_SSID_NUMBER (addr_ssid a)]"]
      * wf show ?thesis by (simp add: addr_hash_data)
  next
    assume *: "callsign a = callsign b" "addr_ssid a \<noteq> addr_ssid b"
    then have "PATTY_AX25_ADDR_SSID_NUMBER (addr_ssid a) \<noteq> PATTY_AX25_ADDR_SSID_NUMBER (addr_ssid b)"
      using assms(1,2) by (auto simp: addr_wf_def dest: ssid_number_inject)
    from patty_hash_data_differ [OF this, of h "map ?f (callsign a)" "[]"] * wf show ?thesis
      by (simp add: addr_hash_data)
  qed
qed

section \<open>Properties\<close>

text \<open>
  C28: Text round trip. The text of a station (one to six characters and an SSID up to 15) is
  read to a well-formed address, and that address is written back as the same text into any
  buffer with room for the text and its NUL.
\<close>
theorem addr_text_roundtrip:
  assumes "canonical_text cs n" and "length (callsign a) = 6" and "length (cs @ ssid_text n) < len"
  shows "\<exists>a'. patty_ax25_pton (cs @ ssid_text n) a = (Inr (), a') \<and> addr_wf a'
    \<and> patty_ax25_ntop a' len = (Inr (), cs @ ssid_text n @ [0])"
  using pton_canonical [OF assms(1,2)] patty_ax25_pton_wf [OF pton_canonical [OF assms(1,2)] assms(2)]
    ntop_canonical [OF assms(1,3)] by blast

lemma addr_text_roundtrip_witness:
  "\<exists>a'. patty_ax25_pton ([0x4b, 0x5a] @ ssid_text 11) addr_zero = (Inr (), a') \<and> addr_wf a'
    \<and> patty_ax25_ntop a' 10 = (Inr (), [0x4b, 0x5a] @ ssid_text 11 @ [0])"
  by (rule addr_text_roundtrip)
     (simp_all add: canonical_text_def callsign_char_def addr_zero_def ssid_text_def)

text \<open>
  A callsign of seven characters is accepted, and its last character is dropped.
\<close>
theorem pton_accepts_seven:
  assumes "\<forall>c \<in> set cs. callsign_char c" and "length cs = 6" and "callsign_char c" and "length (callsign a) = 6"
  shows "patty_ax25_pton (cs @ [c]) a = (Inr (), addr_of cs 0)"
proof -
  let ?init = "\<lparr>pt_o = 0, pt_digits = 0, pt_ssid = 0, pt_state = ADDR_CALLSIGN, pt_c = 0, pt_addr = a\<rparr>"
  have loop: "pton_loop (cs @ [c]) ?init =
    (True, \<lparr>pt_o = 7, pt_digits = 0, pt_ssid = 0, pt_state = ADDR_CALLSIGN, pt_c = c,
       pt_addr = \<lparr>callsign = map (push_bit 1) cs, addr_ssid = push_bit 1 (c AND 0x7f)\<rparr>\<rparr>)"
    using pton_loop_callsign [OF assms(1), of ?init "[c]"] assms(2,4) callsign_char_valid [OF assms(3)]
    by (simp add: pton_step_def Let_def store_callsign_def)
  have "c \<noteq> 0x2d" using callsign_char_valid [OF assms(3)] by simp
  then show ?thesis
    using loop assms(2) by (simp add: patty_ax25_pton_def Let_def pad_callsign_7 addr_of_def)
qed

lemma pton_accepts_seven_witness:
  "patty_ax25_pton ([0x4b, 0x5a, 0x33, 0x52, 0x4f, 0x53] @ [0x58]) addr_zero
     = (Inr (), addr_of [0x4b, 0x5a, 0x33, 0x52, 0x4f, 0x53] 0)"
  by (rule pton_accepts_seven) (simp_all add: callsign_char_def addr_zero_def)

text \<open>
  The text of a station with an SSID that fills the buffer exactly is reported as success,
  although its NUL has been written one byte behind the end.
\<close>
theorem ntop_writes_behind:
  assumes "canonical_text cs n" and "n \<noteq> 0" and "length (cs @ ssid_text n) = len"
  shows "fst (patty_ax25_ntop (addr_of cs n) len) = Inr () \<and> length (snd (patty_ax25_ntop (addr_of cs n) len)) = len + 1"
proof -
  from assms have cs: "cs \<noteq> []" "length cs \<le> 6" "\<forall>c \<in> set cs. callsign_char c" "n \<le> 15"
    by (auto simp: canonical_text_def)
  have len: "length cs < len" using assms(2,3) by (auto simp: ssid_text_def)
  have "ntop_loop (callsign (addr_of cs n)) len [] = (True, cs)"
    using ntop_loop_callsign [of cs "[]" len "replicate (6 - length cs) 0x40"] cs len
    by (simp add: addr_of_def ntop_loop_pad)
  moreover have "uint (drop_bit 1 (addr_ssid (addr_of cs n) AND 0x1e)) = int n"
    using ssid_number [OF cs(4)] by (simp add: addr_of_def)
  moreover have "length cs + 1 + (if int n > 9 then 2 else 1) = len"
    using assms(2,3) by (auto simp: ssid_text_def)
  ultimately show ?thesis
    using assms(2) by (simp add: patty_ax25_ntop_def Let_def del: upt.simps)
qed

lemma ntop_writes_behind_witness:
  "fst (patty_ax25_ntop (addr_of [0x4b, 0x5a] 7) 4) = Inr () \<and> length (snd (patty_ax25_ntop (addr_of [0x4b, 0x5a] 7) 4)) = 4 + 1"
  by (rule ntop_writes_behind) (simp_all add: canonical_text_def callsign_char_def ssid_text_def)

text \<open>
  Two well-formed addresses that differ in one octet of the callsign, or in the SSID only,
  have different hashes: they do not collide as keys of the daemon's tables.
\<close>
theorem addr_hash_separates:
  assumes "addr_wf a" and "addr_wf b"
    and "(\<exists>xs c d ys. callsign a = xs @ c # ys \<and> callsign b = xs @ d # ys \<and> c \<noteq> d \<and> addr_ssid a = addr_ssid b)
       \<or> (callsign a = callsign b \<and> addr_ssid a \<noteq> addr_ssid b)"
  shows "patty_ax25_addr_hash h a \<noteq> patty_ax25_addr_hash h b"
  by (rule addr_hash_differ [OF assms])

lemma addr_hash_separates_witness:
  "patty_ax25_addr_hash patty_hash_init (addr_of [0x4b, 0x5a] 1) \<noteq> patty_ax25_addr_hash patty_hash_init (addr_of [0x4b, 0x5a] 2)"
proof (rule addr_hash_separates)
  show "addr_wf (addr_of [0x4b, 0x5a] 1)" "addr_wf (addr_of [0x4b, 0x5a] 2)"
    by (rule patty_ax25_pton_wf [OF pton_canonical [of _ _ addr_zero]];
        simp add: canonical_text_def callsign_char_def addr_zero_def)+
qed (simp add: addr_of_def)

end
