(* ===== verification/Patty_Frame.thy ===== *)
theory Patty_Frame
  imports Patty_Ax25
begin

text \<open>
  The AX.25 frame codec of \<open>src/src/frame.c\<close> and \<open>src/include/patty/ax25/frame.h\<close>:
  addresses, control field, XID parameters. A buffer is the list of the bytes of its
  allocation, and the length the caller passes is a separate argument, so that the model
  shows accesses outside the allocation (\<open>None\<close>). Offsets are natural numbers;
  \<open>infolen\<close> is a \<open>size_t\<close> and wraps. The pointer \<open>frame->info\<close> is modelled by the
  memory from there to the end of the allocation. An error number is the result of the operation
  that fails; that decoders clear \<open>errno\<close> when they succeed is not modelled, as no caller looks at it
  after a success.

  The first half holds the operations, the second the round trips: what the encoders write,
  the decoders read back.
\<close>

section \<open>Data\<close>

datatype frame_format = PATTY_AX25_FRAME_NORMAL | PATTY_AX25_FRAME_EXTENDED
datatype frame_cr = PATTY_AX25_FRAME_OLD | PATTY_AX25_FRAME_COMMAND | PATTY_AX25_FRAME_RESPONSE

definition PATTY_AX25_FRAME_I :: byte where "PATTY_AX25_FRAME_I = 0x00"
definition PATTY_AX25_FRAME_RR :: byte where "PATTY_AX25_FRAME_RR = 0x01"
definition PATTY_AX25_FRAME_RNR :: byte where "PATTY_AX25_FRAME_RNR = 0x05"
definition PATTY_AX25_FRAME_REJ :: byte where "PATTY_AX25_FRAME_REJ = 0x09"
definition PATTY_AX25_FRAME_SREJ :: byte where "PATTY_AX25_FRAME_SREJ = 0x0d"
definition PATTY_AX25_FRAME_SABM :: byte where "PATTY_AX25_FRAME_SABM = 0x2f"
definition PATTY_AX25_FRAME_SABME :: byte where "PATTY_AX25_FRAME_SABME = 0x6f"
definition PATTY_AX25_FRAME_DISC :: byte where "PATTY_AX25_FRAME_DISC = 0x43"
definition PATTY_AX25_FRAME_DM :: byte where "PATTY_AX25_FRAME_DM = 0x0f"
definition PATTY_AX25_FRAME_UA :: byte where "PATTY_AX25_FRAME_UA = 0x63"
definition PATTY_AX25_FRAME_FRMR :: byte where "PATTY_AX25_FRAME_FRMR = 0x87"
definition PATTY_AX25_FRAME_UI :: byte where "PATTY_AX25_FRAME_UI = 0x03"
definition PATTY_AX25_FRAME_XID :: byte where "PATTY_AX25_FRAME_XID = 0xaf"
definition PATTY_AX25_FRAME_TEST :: byte where "PATTY_AX25_FRAME_TEST = 0xe3"

lemmas frame_types =
  PATTY_AX25_FRAME_I_def PATTY_AX25_FRAME_RR_def PATTY_AX25_FRAME_RNR_def PATTY_AX25_FRAME_REJ_def
  PATTY_AX25_FRAME_SREJ_def PATTY_AX25_FRAME_SABM_def PATTY_AX25_FRAME_SABME_def
  PATTY_AX25_FRAME_DISC_def PATTY_AX25_FRAME_DM_def PATTY_AX25_FRAME_UA_def PATTY_AX25_FRAME_FRMR_def
  PATTY_AX25_FRAME_UI_def PATTY_AX25_FRAME_XID_def PATTY_AX25_FRAME_TEST_def

definition PATTY_AX25_FRAME_CONTROL_I :: "u16 \<Rightarrow> bool" where
  "PATTY_AX25_FRAME_CONTROL_I c \<longleftrightarrow> c AND 0x1 = 0x00"

definition PATTY_AX25_FRAME_CONTROL_S :: "u16 \<Rightarrow> bool" where
  "PATTY_AX25_FRAME_CONTROL_S c \<longleftrightarrow> c AND 0x03 = 0x01"

definition PATTY_AX25_FRAME_CONTROL_U :: "u16 \<Rightarrow> bool" where
  "PATTY_AX25_FRAME_CONTROL_U c \<longleftrightarrow> c AND 0x03 = 0x03"

definition PATTY_AX25_FRAME_CONTROL_UI :: "u16 \<Rightarrow> bool" where
  "PATTY_AX25_FRAME_CONTROL_UI c \<longleftrightarrow> c AND 0xef = 0x03"

definition PATTY_AX25_FRAME_CONTROL_FLAG :: "u16 \<Rightarrow> u16" where
  "PATTY_AX25_FRAME_CONTROL_FLAG c = drop_bit 4 (c AND 0x01)"

definition PATTY_AX25_FRAME_OVERHEAD :: nat where "PATTY_AX25_FRAME_OVERHEAD = 73"

definition PATTY_AX25_FRAME_S_MASK :: u16 where "PATTY_AX25_FRAME_S_MASK = 0x0f"
definition PATTY_AX25_FRAME_U_MASK :: u16 where "PATTY_AX25_FRAME_U_MASK = 0xef"

lemmas control_defs = PATTY_AX25_FRAME_CONTROL_I_def PATTY_AX25_FRAME_CONTROL_S_def
  PATTY_AX25_FRAME_CONTROL_U_def PATTY_AX25_FRAME_CONTROL_UI_def
  PATTY_AX25_FRAME_S_MASK_def PATTY_AX25_FRAME_U_MASK_def

definition PATTY_AX25_FRAME_SIZE :: "frame_format \<Rightarrow> nat \<Rightarrow> u16 \<Rightarrow> nat \<Rightarrow> nat" where
  "PATTY_AX25_FRAME_SIZE fmt hops c infolen =
     (2 + hops) * 7 + (if fmt = PATTY_AX25_FRAME_EXTENDED then 2 else 1)
     + (if PATTY_AX25_FRAME_CONTROL_I c then 1 + infolen else 0)"

record frame =
  f_dest :: addr
  f_src :: addr
  f_repeaters :: "addr list"
  f_hops :: nat
  f_control :: u16
  f_nr :: byte
  f_ns :: byte
  f_pf :: byte
  f_cr :: frame_cr
  f_type :: byte
  f_format :: frame_format
  f_version :: ax25_version
  f_proto :: byte
  f_info :: "byte list option"
  f_infolen :: size_t

definition frame_zero :: frame where
  "frame_zero = \<lparr>f_dest = addr_zero, f_src = addr_zero, f_repeaters = replicate 8 addr_zero,
     f_hops = 0, f_control = 0, f_nr = 0, f_ns = 0, f_pf = 0, f_cr = PATTY_AX25_FRAME_OLD,
     f_type = 0, f_format = PATTY_AX25_FRAME_NORMAL, f_version = PATTY_AX25_OLD, f_proto = 0,
     f_info = None, f_infolen = 0\<rparr>"

section \<open>Decoding addresses\<close>

text \<open>The loop of \<open>decode_station\<close> over the six callsign octets.\<close>

fun station_chars :: "byte list \<Rightarrow> bool \<Rightarrow> bool" where
  "station_chars [] space = True"
| "station_chars (b # bs) space =
     (let c = drop_bit 1 b in
      if \<not> PATTY_AX25_ADDR_CHAR_VALID c \<or> PATTY_AX25_ADDR_OCTET_LAST b then False
      else if c = 0x20 \<and> \<not> space then station_chars bs True
      else if c \<noteq> 0x20 \<and> space then False
      else station_chars bs space)"

definition decode_station :: "byte list \<Rightarrow> nat \<Rightarrow> nat \<Rightarrow> (addr \<times> nat) cres option" where
  "decode_station data offset len =
     (if len < offset + 7 then Some (Inl EIO)
      else do { bs \<leftarrow> slice data offset 7;
                if station_chars (take 6 bs) False
                then Some (Inr (\<lparr>callsign = take 6 bs, addr_ssid = bs ! 6\<rparr>, 7))
                else Some (Inl EIO) })"

text \<open>
  The loop of \<open>decode_hops\<close>, for \<open>i\<close> up to 8. It returns whether the last SSID octet read
  has the extension bit set, which the check after the loop asks for.
\<close>

function decode_hops_loop :: "nat \<Rightarrow> frame \<Rightarrow> byte list \<Rightarrow> nat \<Rightarrow> nat \<Rightarrow> (nat cres \<times> frame) option" where
  "decode_hops_loop i frame data offset len =
     (if i \<ge> PATTY_AX25_MAX_HOPS then Some (Inl EIO, frame)
      else do { r \<leftarrow> decode_station data offset len;
                case r of
                  Inl e \<Rightarrow> Some (Inl e, frame)
                | Inr (a, decoded) \<Rightarrow>
                    let frame' = frame\<lparr>f_repeaters := (f_repeaters frame)[i := a],
                                       f_hops := f_hops frame + 1\<rparr>;
                        offset' = offset + decoded
                    in if PATTY_AX25_ADDR_OCTET_LAST (addr_ssid a) then Some (Inr offset', frame')
                       else decode_hops_loop (i + 1) frame' data offset' len })"
  by auto
termination by (relation "measure (\<lambda>(i, f, d, off, l). 8 - i)") auto

declare decode_hops_loop.simps [simp del]

definition decode_hops :: "frame \<Rightarrow> byte list \<Rightarrow> nat \<Rightarrow> nat \<Rightarrow> (nat cres \<times> frame) option" where
  "decode_hops frame data offset len =
     map_option (\<lambda>(r, frame'). (map_sum id (\<lambda>end. end - offset) r, frame'))
       (decode_hops_loop 0 frame data offset len)"

definition patty_ax25_frame_decode_address ::
  "frame \<Rightarrow> byte list \<Rightarrow> nat \<Rightarrow> (nat cres \<times> frame) option" where
  "patty_ax25_frame_decode_address frame buf len =
     do { r \<leftarrow> decode_station buf 0 len;
          case r of
            Inl e \<Rightarrow> Some (Inl e, frame)
          | Inr (dest, decoded) \<Rightarrow>
              (let frame1 = frame\<lparr>f_dest := dest\<rparr>; offset = decoded in
               do { r \<leftarrow> decode_station buf offset len;
                    case r of
                      Inl e \<Rightarrow> Some (Inl e, frame1)
                    | Inr (src, decoded) \<Rightarrow>
                        (let frame2 = frame1\<lparr>f_src := src\<rparr>;
                             offset = offset + decoded;
                             frame3 =
                               (if PATTY_AX25_ADDR_SSID_C (addr_ssid dest) \<noteq> PATTY_AX25_ADDR_SSID_C (addr_ssid src)
                                then frame2\<lparr>f_cr := (if PATTY_AX25_ADDR_SSID_C (addr_ssid dest)
                                                    then PATTY_AX25_FRAME_COMMAND
                                                    else PATTY_AX25_FRAME_RESPONSE),
                                            f_version := PATTY_AX25_2_0\<rparr>
                                else frame2\<lparr>f_cr := PATTY_AX25_FRAME_OLD, f_version := PATTY_AX25_OLD\<rparr>);
                             frame4 = frame3\<lparr>f_hops := 0\<rparr>
                         in if \<not> PATTY_AX25_ADDR_OCTET_LAST (addr_ssid src)
                            then do { (r, frame5) \<leftarrow> decode_hops frame4 buf offset len;
                                      Some (map_sum id (\<lambda>decoded. offset + decoded) r, frame5) }
                            else Some (Inr offset, frame4)) }) }"

section \<open>Decoding the control field\<close>

definition decode_nr :: "u16 \<Rightarrow> frame_format \<Rightarrow> byte" where
  "decode_nr control fmt = (case fmt of
       PATTY_AX25_FRAME_NORMAL \<Rightarrow> ucast (drop_bit 5 (control AND 0x00e0))
     | PATTY_AX25_FRAME_EXTENDED \<Rightarrow> ucast (drop_bit 9 (control AND 0x7e00)))"

definition decode_ns :: "u16 \<Rightarrow> frame_format \<Rightarrow> byte" where
  "decode_ns control fmt = (case fmt of
       PATTY_AX25_FRAME_NORMAL \<Rightarrow> ucast (drop_bit 1 (control AND 0x000e))
     | PATTY_AX25_FRAME_EXTENDED \<Rightarrow> ucast (drop_bit 1 (control AND 0x007e)))"

definition decode_pf :: "u16 \<Rightarrow> frame_format \<Rightarrow> byte" where
  "decode_pf control fmt = (case fmt of
       PATTY_AX25_FRAME_NORMAL \<Rightarrow> ucast (drop_bit 4 (control AND 0x0010))
     | PATTY_AX25_FRAME_EXTENDED \<Rightarrow> ucast (drop_bit 8 (control AND 0x0100)))"

text \<open>The control field at \<open>offset\<close>, and the offset behind it.\<close>

definition read_control :: "frame_format \<Rightarrow> byte list \<Rightarrow> nat \<Rightarrow> (u16 \<times> nat) option" where
  "read_control fmt buf offset = (case fmt of
       PATTY_AX25_FRAME_NORMAL \<Rightarrow> do { b \<leftarrow> rd buf offset; Some (ucast b, offset + 1) }
     | PATTY_AX25_FRAME_EXTENDED \<Rightarrow>
         do { b \<leftarrow> rd buf offset;
              if \<not> PATTY_AX25_FRAME_CONTROL_U (ucast b)
              then do { b' \<leftarrow> rd buf (offset + 1); Some (ucast b OR push_bit 8 (ucast b'), offset + 2) }
              else Some (ucast b, offset + 1) })"

text \<open>The type, sequence numbers and poll/final bit; \<open>None\<close> when no case of the code applies.\<close>

definition classify_control :: "frame \<Rightarrow> frame_format \<Rightarrow> frame option" where
  "classify_control frame fmt =
     (let control = f_control frame in
      if PATTY_AX25_FRAME_CONTROL_I control
      then Some (frame\<lparr>f_type := PATTY_AX25_FRAME_I, f_nr := decode_nr control fmt,
                       f_ns := decode_ns control fmt, f_pf := decode_pf control fmt\<rparr>)
      else if PATTY_AX25_FRAME_CONTROL_S control
      then let c = ucast (control AND PATTY_AX25_FRAME_S_MASK) :: byte in
           Some (if c \<in> {PATTY_AX25_FRAME_RR, PATTY_AX25_FRAME_RNR, PATTY_AX25_FRAME_REJ, PATTY_AX25_FRAME_SREJ}
                 then frame\<lparr>f_type := c, f_nr := decode_nr control fmt, f_pf := decode_pf control fmt\<rparr>
                 else frame)
      else if PATTY_AX25_FRAME_CONTROL_U control
      then let c = ucast (control AND PATTY_AX25_FRAME_U_MASK) :: byte in
           Some (if c \<in> {PATTY_AX25_FRAME_SABME, PATTY_AX25_FRAME_SABM, PATTY_AX25_FRAME_DISC,
                         PATTY_AX25_FRAME_DM, PATTY_AX25_FRAME_UA, PATTY_AX25_FRAME_FRMR,
                         PATTY_AX25_FRAME_UI, PATTY_AX25_FRAME_XID, PATTY_AX25_FRAME_TEST}
                 then frame\<lparr>f_type := c, f_pf := decode_pf control PATTY_AX25_FRAME_NORMAL\<rparr>
                 else frame)
      else None)"

text \<open>The assignments at the start of \<open>patty_ax25_frame_decode_control\<close>.\<close>

definition clear_control :: "frame \<Rightarrow> frame" where
  "clear_control frame = frame\<lparr>f_control := 0, f_nr := 0, f_ns := 0, f_pf := 0, f_type := 0xff,
     f_proto := 0, f_info := None, f_infolen := 0\<rparr>"

text \<open>
  The number of bytes decoded is \<open>offset - start\<close> as a signed integer. Neither the control
  field nor the protocol octet is checked against \<open>len\<close>.
\<close>

definition patty_ax25_frame_decode_control ::
  "frame \<Rightarrow> frame_format \<Rightarrow> byte list \<Rightarrow> nat \<Rightarrow> nat \<Rightarrow> (int cres \<times> frame) option" where
  "patty_ax25_frame_decode_control frame0 fmt buf start len =
     (let frame1 = clear_control frame0 in
      do { (control, offset) \<leftarrow> read_control fmt buf start;
           case classify_control (frame1\<lparr>f_control := control, f_format := fmt\<rparr>) fmt of
             None \<Rightarrow> Some (Inl EIO, frame1\<lparr>f_control := control, f_format := fmt\<rparr>)
           | Some frame2 \<Rightarrow>
               do { (frame3, offset') \<leftarrow>
                      (if f_type frame2 = PATTY_AX25_FRAME_I \<or> f_type frame2 = PATTY_AX25_FRAME_UI
                       then do { b \<leftarrow> rd buf offset; Some (frame2\<lparr>f_proto := b\<rparr>, offset + 1) }
                       else Some (frame2, offset));
                    if f_type frame3 \<in> {PATTY_AX25_FRAME_I, PATTY_AX25_FRAME_UI, PATTY_AX25_FRAME_TEST}
                    then Some (Inr (int len - int start),
                               frame3\<lparr>f_info := Some (drop offset' buf),
                                      f_infolen := of_nat len - of_nat offset'\<rparr>)
                    else Some (Inr (int offset' - int start), frame3) } })"

section \<open>Decoding XID\<close>

definition PATTY_AX25_FRAME_XID_GROUP_ISO8885 :: byte where "PATTY_AX25_FRAME_XID_GROUP_ISO8885 = 0x82"
definition PATTY_AX25_FRAME_XID_GROUP_PARAMS :: byte where "PATTY_AX25_FRAME_XID_GROUP_PARAMS = 0x80"

definition set_param_flag :: "nat \<Rightarrow> params \<Rightarrow> params" where
  "set_param_flag type params = params\<lparr>p_flags := p_flags params OR push_bit type 1\<rparr>"

definition save_xid_param :: "params \<Rightarrow> nat \<Rightarrow> u32 \<Rightarrow> params" where
  "save_xid_param params type value =
     (if type = PATTY_AX25_PARAM_CLASSES then set_param_flag type (params\<lparr>p_classes := value\<rparr>)
      else if type = PATTY_AX25_PARAM_HDLC then set_param_flag type (params\<lparr>p_hdlc := value\<rparr>)
      else if type = PATTY_AX25_PARAM_INFO_TX then set_param_flag type (params\<lparr>p_info_tx := ucast value\<rparr>)
      else if type = PATTY_AX25_PARAM_INFO_RX then set_param_flag type (params\<lparr>p_info_rx := ucast value\<rparr>)
      else if type = PATTY_AX25_PARAM_WINDOW_TX then set_param_flag type (params\<lparr>p_window_tx := ucast value\<rparr>)
      else if type = PATTY_AX25_PARAM_WINDOW_RX then set_param_flag type (params\<lparr>p_window_rx := ucast value\<rparr>)
      else if type = PATTY_AX25_PARAM_ACK then set_param_flag type (params\<lparr>p_ack := ucast value\<rparr>)
      else if type = PATTY_AX25_PARAM_RETRY then set_param_flag type (params\<lparr>p_retry := ucast value\<rparr>)
      else params)"

text \<open>
  The value of a parameter of \<open>n\<close> bytes at \<open>off\<close>, big endian: \<open>i\<close> iterations of the loop.
  Shifting a 32-bit integer by 32 or more is undefined.
\<close>

fun xid_value :: "byte list \<Rightarrow> nat \<Rightarrow> nat \<Rightarrow> nat \<Rightarrow> u32 option" where
  "xid_value data off n 0 = Some 0"
| "xid_value data off n (Suc i) =
     do { v \<leftarrow> xid_value data off n i;
          if 8 * i \<ge> 32 then None
          else do { b \<leftarrow> rd data (off + n - 1 - i); Some (v OR push_bit (8 * i) (ucast b)) } }"

text \<open>The loop of \<open>decode_xid_group\<close>; \<open>stop\<close> is \<open>start + sizeof(*group) + grouplen\<close>.\<close>

function xid_params_loop :: "params \<Rightarrow> byte list \<Rightarrow> nat \<Rightarrow> nat \<Rightarrow> (params \<times> nat) option" where
  "xid_params_loop params data offset stop =
     (if offset < stop
      then do { pid \<leftarrow> rd data offset;
                plen \<leftarrow> rd data (offset + 1);
                value \<leftarrow> xid_value data (offset + 2) (unat plen) (unat plen);
                xid_params_loop (save_xid_param params (unat pid) value) data (offset + 2 + unat plen) stop }
      else Some (params, offset))"
  by auto
termination by (relation "measure (\<lambda>(p, d, off, stop). stop - off)") auto

declare xid_params_loop.simps [simp del]

definition decode_xid_group :: "params \<Rightarrow> byte list \<Rightarrow> nat \<Rightarrow> nat \<Rightarrow> (nat cres \<times> params) option" where
  "decode_xid_group params data start len =
     (if start \<le> len \<and> len < start + 4 then Some (Inl EIO, params)
      else do { gformat \<leftarrow> rd data start;
                gtype \<leftarrow> rd data (start + 1);
                hi \<leftarrow> rd data (start + 2);
                lo \<leftarrow> rd data (start + 3);
                let grouplen = 256 * unat hi + unat lo in
                if gformat \<noteq> PATTY_AX25_FRAME_XID_GROUP_ISO8885 \<or> gtype \<noteq> PATTY_AX25_FRAME_XID_GROUP_PARAMS
                then Some (Inr (4 + grouplen), params)
                else do { (params', offset) \<leftarrow>
                            xid_params_loop params_zero data (start + 4) (start + 4 + grouplen);
                          if offset \<noteq> start + 4 + grouplen then Some (Inl EIO, params')
                          else Some (Inr (offset - start), params') } })"

lemma decode_xid_group_pos: "decode_xid_group params data start len = Some (Inr n, params') \<Longrightarrow> 4 \<le> n"
  by (auto simp: decode_xid_group_def Let_def bind_eq_Some_conv split: if_splits)

function decode_xid_loop :: "params \<Rightarrow> byte list \<Rightarrow> nat \<Rightarrow> nat \<Rightarrow> (nat cres \<times> params) option" where
  "decode_xid_loop params data offset len =
     (if offset < len
      then (case decode_xid_group params data offset len of
              None \<Rightarrow> None
            | Some (Inl e, params') \<Rightarrow> Some (Inl e, params')
            | Some (Inr decoded, params') \<Rightarrow> decode_xid_loop params' data (offset + decoded) len)
      else if offset \<noteq> len then Some (Inl EIO, params)
      else Some (Inr offset, params))"
  by auto
termination
  by (relation "measure (\<lambda>(p, d, off, len). len - off)") (auto dest: decode_xid_group_pos)

declare decode_xid_loop.simps [simp del]

definition patty_ax25_frame_decode_xid ::
  "params \<Rightarrow> byte list \<Rightarrow> nat \<Rightarrow> nat \<Rightarrow> (nat cres \<times> params) option" where
  "patty_ax25_frame_decode_xid params data start len =
     map_option (\<lambda>(r, params'). (map_sum id (\<lambda>end. end - start) r, params'))
       (decode_xid_loop params data start len)"

section \<open>Encoding\<close>

text \<open>The octets \<open>encode_address\<close> writes one address after the other, before the last bit is set.\<close>

definition address_octets :: "frame \<Rightarrow> bool \<Rightarrow> byte list" where
  "address_octets frame reply =
     (let flags_remote = (if f_cr frame = PATTY_AX25_FRAME_COMMAND then 0x80 else 0x00);
          flags_local = (if f_cr frame = PATTY_AX25_FRAME_RESPONSE then 0x80 else 0x00) in
      if reply
      then patty_ax25_addr_copy (f_src frame) flags_local
           @ patty_ax25_addr_copy (f_dest frame) flags_remote
           @ concat (map (\<lambda>i. patty_ax25_addr_copy (f_repeaters frame ! (f_hops frame - 1 - i)) 0)
               [0..<f_hops frame])
      else patty_ax25_addr_copy (f_dest frame) flags_remote
           @ patty_ax25_addr_copy (f_src frame) flags_local
           @ concat (map (\<lambda>i. patty_ax25_addr_copy (f_repeaters frame ! i) 0) [0..<f_hops frame]))"

definition encode_address :: "frame \<Rightarrow> byte list \<Rightarrow> bool \<Rightarrow> nat \<Rightarrow> (nat cres \<times> byte list) option" where
  "encode_address frame buf reply len =
     (if (2 + f_hops frame) * 7 > len then Some (Inl EOVERFLOW, buf)
      else if f_hops frame > length (f_repeaters frame) then None
      else let octets = address_octets frame reply; offset = length octets in
           do { buf1 \<leftarrow> blit buf 0 octets;
                b \<leftarrow> rd buf1 (offset - 1);
                buf2 \<leftarrow> wr buf1 (offset - 1) (b OR 1);
                Some (Inr offset, buf2) })"

text \<open>The control field, written by both \<open>patty_ax25_frame_encode\<close> and \<open>..._encode_reply_to\<close>.\<close>

definition encode_control :: "frame_format \<Rightarrow> u16 \<Rightarrow> byte list \<Rightarrow> nat \<Rightarrow> (nat \<times> byte list) option" where
  "encode_control fmt control buf offset = (case fmt of
       PATTY_AX25_FRAME_NORMAL \<Rightarrow> do { buf \<leftarrow> wr buf offset (ucast control); Some (offset + 1, buf) }
     | PATTY_AX25_FRAME_EXTENDED \<Rightarrow>
         do { buf \<leftarrow> wr buf offset (ucast (control AND 0x00ff));
              if \<not> PATTY_AX25_FRAME_CONTROL_U control
              then do { buf \<leftarrow> wr buf (offset + 1) (ucast (drop_bit 8 (control AND 0xff00)));
                        Some (offset + 2, buf) }
              else Some (offset + 1, buf) })"

definition patty_ax25_frame_encode :: "frame \<Rightarrow> byte list \<Rightarrow> nat \<Rightarrow> (nat cres \<times> byte list) option" where
  "patty_ax25_frame_encode frame buf len =
     do { (r, buf) \<leftarrow> encode_address frame buf False len;
          case r of
            Inl e \<Rightarrow> Some (Inl e, buf)
          | Inr encoded \<Rightarrow>
              do { (offset, buf) \<leftarrow> encode_control (f_format frame) (f_control frame) buf encoded;
                   case f_info frame of
                     None \<Rightarrow> Some (Inr offset, buf)
                   | Some info \<Rightarrow>
                       if f_infolen frame = 0 then Some (Inr offset, buf)
                       else if of_nat len < 1 + of_nat offset + f_infolen frame
                       then Some (Inl EOVERFLOW, buf)
                       else do { (offset, buf) \<leftarrow>
                                   (if PATTY_AX25_FRAME_CONTROL_I (f_control frame)
                                     \<or> PATTY_AX25_FRAME_CONTROL_UI (f_control frame)
                                    then do { buf \<leftarrow> wr buf offset (f_proto frame); Some (offset + 1, buf) }
                                    else Some (offset, buf));
                                 bs \<leftarrow> slice info 0 (unat (f_infolen frame));
                                 buf \<leftarrow> blit buf offset bs;
                                 Some (Inr (offset + unat (f_infolen frame)), buf) } } }"

text \<open>The bytes of one parameter, and \<open>encode_xid_param\<close> that stores them.\<close>

definition xid_param_octets :: "nat \<Rightarrow> nat \<Rightarrow> u32 \<Rightarrow> byte list" where
  "xid_param_octets type bytes value =
     of_nat type # of_nat bytes
     # map (\<lambda>i. let shift = 8 * (bytes - 1 - i)
               in ucast (drop_bit shift (value AND push_bit shift 0xff))) [0..<bytes]"

definition encode_xid_param ::
  "byte list \<Rightarrow> nat \<Rightarrow> nat \<Rightarrow> nat \<Rightarrow> u32 \<Rightarrow> nat \<Rightarrow> (nat cres \<times> byte list) option" where
  "encode_xid_param buf offset type bytes value len =
     (if offset + 2 + bytes > len \<or> bytes > 4 then Some (Inl EIO, buf)
      else do { buf \<leftarrow> blit buf offset (xid_param_octets type bytes value);
                Some (Inr (2 + bytes), buf) })"

definition needbytes :: "u32 \<Rightarrow> nat" where
  "needbytes value =
     (if value AND 0xffffff00 = 0 then 1
      else if value AND 0xffff0000 = 0 then 2
      else if value AND 0xff000000 = 0 then 3
      else 4)"

text \<open>The table \<open>values\<close>: identifier, fixed width (0: as many bytes as needed), value.\<close>

definition xid_values :: "params \<Rightarrow> (nat \<times> nat \<times> u32) list" where
  "xid_values params =
     [(PATTY_AX25_PARAM_CLASSES, 2, p_classes params),
      (PATTY_AX25_PARAM_HDLC, 3, p_hdlc params),
      (PATTY_AX25_PARAM_INFO_RX, 0, ucast (p_info_rx params)),
      (PATTY_AX25_PARAM_WINDOW_RX, 1, ucast (p_window_rx params)),
      (PATTY_AX25_PARAM_ACK, 0, ucast (p_ack params)),
      (PATTY_AX25_PARAM_RETRY, 0, ucast (p_retry params))]"

fun encode_xid_loop ::
  "params \<Rightarrow> (nat \<times> nat \<times> u32) list \<Rightarrow> byte list \<Rightarrow> nat \<Rightarrow> nat \<Rightarrow> (nat cres \<times> byte list) option" where
  "encode_xid_loop params [] buf offset len = Some (Inr offset, buf)"
| "encode_xid_loop params ((pid, width, value) # vs) buf offset len =
     (let bytes = (if width \<noteq> 0 then width else needbytes value) in
      if p_flags params AND push_bit pid 1 = 0 then encode_xid_loop params vs buf offset len
      else do { (r, buf) \<leftarrow> encode_xid_param buf offset pid bytes value len;
                case r of
                  Inl e \<Rightarrow> Some (Inl EOVERFLOW, buf)
                | Inr encoded \<Rightarrow> encode_xid_loop params vs buf (offset + encoded) len })"

definition patty_ax25_frame_encode_xid :: "params \<Rightarrow> byte list \<Rightarrow> nat \<Rightarrow> (nat cres \<times> byte list) option" where
  "patty_ax25_frame_encode_xid params data len =
     do { buf \<leftarrow> blit data 0 (replicate len 0);
          buf \<leftarrow> blit buf 0 [PATTY_AX25_FRAME_XID_GROUP_ISO8885, PATTY_AX25_FRAME_XID_GROUP_PARAMS];
          if length buf < 4 then None
          else do { (r, buf) \<leftarrow> encode_xid_loop params (xid_values params) buf 4 len;
                    case r of
                      Inl e \<Rightarrow> Some (Inl e, buf)
                    | Inr offset \<Rightarrow>
                        do { buf \<leftarrow> blit buf 2 [of_nat ((offset - 4) div 256), of_nat (offset - 4)];
                             Some (Inr offset, buf) } } }"

text \<open>
  The result of \<open>encode_address\<close> is not checked here: on failure the offset is \<open>(size_t)-1\<close>
  and the control field is written in front of the buffer.
\<close>

definition patty_ax25_frame_encode_reply_to ::
  "frame \<Rightarrow> frame \<Rightarrow> byte list \<Rightarrow> nat \<Rightarrow> (nat cres \<times> byte list) option" where
  "patty_ax25_frame_encode_reply_to frame reply buf len =
     do { (r, buf) \<leftarrow> encode_address frame buf True len;
          case r of
            Inl e \<Rightarrow> None
          | Inr encoded \<Rightarrow>
              do { (offset, buf) \<leftarrow> encode_control (f_format reply) (f_control reply) buf encoded;
                   if PATTY_AX25_FRAME_CONTROL_I (f_control reply) \<or> PATTY_AX25_FRAME_CONTROL_UI (f_control reply)
                   then if of_nat len < 1 + of_nat offset + f_infolen reply then Some (Inl EOVERFLOW, buf)
                        else do { buf \<leftarrow> wr buf offset (f_proto reply);
                                  bs \<leftarrow> (if f_infolen reply = 0 then Some []
                                         else do { info \<leftarrow> f_info reply; slice info 0 (unat (f_infolen reply)) });
                                  buf \<leftarrow> blit buf (offset + 1) bs;
                                  Some (Inr (offset + 1 + unat (f_infolen reply)), buf) }
                   else Some (Inr offset, buf) } }"

definition patty_ax25_frame_info :: "frame option \<Rightarrow> size_t cres" where
  "patty_ax25_frame_info fr = (case fr of
       None \<Rightarrow> Inl EINVAL
     | Some frame \<Rightarrow> if f_info frame = None then Inl EINVAL else Inr (f_infolen frame))"

section \<open>Stations\<close>

text \<open>
  What \<open>decode_station\<close> accepts: seven-bit characters from space to tilde, and nothing but
  spaces after the first space.
\<close>

definition station_octet :: "byte \<Rightarrow> bool" where
  "station_octet b \<longleftrightarrow> \<not> bit b 0 \<and> PATTY_AX25_ADDR_CHAR_VALID (drop_bit 1 b)"

definition station_ok :: "byte list \<Rightarrow> bool" where
  "station_ok bs \<longleftrightarrow> length bs = 6 \<and> (\<forall>b \<in> set bs. station_octet b)
     \<and> (\<exists>cs k. bs = cs @ replicate k 0x40 \<and> 0x40 \<notin> set cs)"

lemma octet_last: "PATTY_AX25_ADDR_OCTET_LAST b \<longleftrightarrow> bit b 0"
  by (simp add: PATTY_AX25_ADDR_OCTET_LAST_def and_one_eq bit_0 odd_iff_mod_2_eq_one)

lemma space_octet: "\<not> bit b 0 \<Longrightarrow> drop_bit 1 b = 0x20 \<longleftrightarrow> b = (0x40 :: byte)"
proof
  assume b: "\<not> bit b 0" and eq: "drop_bit 1 b = 0x20"
  from b have "b = push_bit 1 (drop_bit 1 b)" by (intro word8_eqI) (auto simp: bits eval_nat_numeral)
  with eq show "b = 0x40" by simp
qed simp

lemma station_chars_space:
  "station_chars bs True \<longleftrightarrow> (\<forall>b \<in> set bs. b = 0x40)"
proof (induction bs)
  case (Cons b bs)
  have "PATTY_AX25_ADDR_CHAR_VALID 0x20" by (simp add: PATTY_AX25_ADDR_CHAR_VALID_def)
  with Cons show ?case using space_octet [of b] by (auto simp: Let_def octet_last bit_0)
qed simp

lemma replicate_iff: "(\<forall>b \<in> set bs. b = x) \<longleftrightarrow> bs = replicate (length bs) x"
  by (metis in_set_replicate replicate_length_same)

lemma station_chars_iff:
  "station_chars bs False \<longleftrightarrow> (\<forall>b \<in> set bs. station_octet b)
     \<and> (\<exists>cs k. bs = cs @ replicate k 0x40 \<and> 0x40 \<notin> set cs)"
proof (induction bs)
  case Nil
  show ?case by auto
next
  case (Cons b bs)
  have sp: "station_octet 0x40" by (simp add: station_octet_def PATTY_AX25_ADDR_CHAR_VALID_def bit_0)
  show ?case
  proof (cases "b = 0x40")
    case True
    have tail: "(\<exists>cs k. b # bs = cs @ replicate k 0x40 \<and> 0x40 \<notin> set cs) \<longleftrightarrow> (\<forall>x \<in> set bs. x = 0x40)"
    proof
      assume "\<exists>cs k. b # bs = cs @ replicate k 0x40 \<and> 0x40 \<notin> set cs"
      then obtain cs k where "b # bs = cs @ replicate k 0x40" "0x40 \<notin> set cs" by blast
      with True have "b # bs = replicate k 0x40" by (cases cs) auto
      then show "\<forall>x \<in> set bs. x = 0x40" by (metis in_set_replicate list.set_intros(2))
    next
      assume "\<forall>x \<in> set bs. x = 0x40"
      then have "bs = replicate (length bs) 0x40" by (rule replicate_iff [THEN iffD1])
      with True have "b # bs = [] @ replicate (Suc (length bs)) 0x40"
        by (metis append_Nil replicate_Suc)
      then show "\<exists>cs k. b # bs = cs @ replicate k 0x40 \<and> 0x40 \<notin> set cs"
        by (metis empty_iff empty_set)
    qed
    have "station_chars (b # bs) False \<longleftrightarrow> (\<forall>x \<in> set bs. x = 0x40)"
      using True sp by (simp add: Let_def octet_last station_chars_space station_octet_def)
    moreover have "\<forall>x \<in> set (b # bs). station_octet x" if "\<forall>x \<in> set bs. x = 0x40"
      using that True sp by auto
    ultimately show ?thesis unfolding tail by blast
  next
    case False
    have "(\<exists>cs k. b # bs = cs @ replicate k 0x40 \<and> 0x40 \<notin> set cs)
        \<longleftrightarrow> (\<exists>cs k. bs = cs @ replicate k 0x40 \<and> 0x40 \<notin> set cs)"
    proof
      assume "\<exists>cs k. b # bs = cs @ replicate k 0x40 \<and> 0x40 \<notin> set cs"
      then obtain cs k where *: "b # bs = cs @ replicate k 0x40" "0x40 \<notin> set cs" by blast
      with False obtain cs' where "cs = b # cs'"
        by (cases cs) (auto simp: Cons_replicate_eq)
      with * show "\<exists>cs k. bs = cs @ replicate k 0x40 \<and> 0x40 \<notin> set cs" by auto
    next
      assume "\<exists>cs k. bs = cs @ replicate k 0x40 \<and> 0x40 \<notin> set cs"
      then obtain cs k where "bs = cs @ replicate k 0x40" "0x40 \<notin> set cs" by blast
      with False have "b # bs = (b # cs) @ replicate k 0x40" "0x40 \<notin> set (b # cs)" by auto
      then show "\<exists>cs k. b # bs = cs @ replicate k 0x40 \<and> 0x40 \<notin> set cs" by blast
    qed
    with False Cons show ?thesis
      using space_octet [of b] by (auto simp: Let_def octet_last station_octet_def)
  qed
qed

lemma station_ok_iff: "station_ok bs \<longleftrightarrow> length bs = 6 \<and> station_chars bs False"
  by (simp add: station_ok_def station_chars_iff)

lemma decode_station_iff:
  assumes "off + 7 \<le> len" and "len \<le> length data"
  shows "decode_station data off len = Some
    (if station_ok (take 6 (drop off data))
     then Inr (\<lparr>callsign = take 6 (drop off data), addr_ssid = data ! (off + 6)\<rparr>, 7) else Inl EIO)"
proof -
  have "7 \<le> length (drop off data)" using assms by simp
  with assms show ?thesis
    by (simp add: decode_station_def slice_def station_ok_def station_chars_iff min_absorb1)
qed

section \<open>Address fields on the air\<close>

text \<open>The SSID octet that goes out with an address, and the address as the receiver stores it.\<close>

definition ssid_octet :: "addr \<Rightarrow> byte \<Rightarrow> bool \<Rightarrow> byte" where
  "ssid_octet a flags lst = (flags OR 0x60 OR (addr_ssid a AND 0x1e)) OR (if lst then 1 else 0)"

definition on_air :: "addr \<Rightarrow> byte \<Rightarrow> bool \<Rightarrow> addr" where
  "on_air a flags lst = a\<lparr>addr_ssid := ssid_octet a flags lst\<rparr>"

definition same_station :: "addr \<Rightarrow> addr \<Rightarrow> bool" where
  "same_station a b \<longleftrightarrow> callsign a = callsign b
     \<and> PATTY_AX25_ADDR_SSID_NUMBER (addr_ssid a) = PATTY_AX25_ADDR_SSID_NUMBER (addr_ssid b)"

definition direction_flag :: "byte \<Rightarrow> bool" where
  "direction_flag f \<longleftrightarrow> f = 0 \<or> f = 0x80"

lemma ssid_octet_last: "direction_flag f \<Longrightarrow> PATTY_AX25_ADDR_OCTET_LAST (ssid_octet a f l) = l"
  by (auto simp: octet_last ssid_octet_def direction_flag_def bit_0 even_or_iff even_and_iff)

lemma ssid_octet_c: "direction_flag f \<Longrightarrow> PATTY_AX25_ADDR_SSID_C (ssid_octet a f l) \<longleftrightarrow> f = 0x80"
proof -
  have c: "PATTY_AX25_ADDR_SSID_C x \<longleftrightarrow> bit x 7" for x
  proof -
    have "bit x 7 \<longleftrightarrow> x AND 0x80 = 0x80"
    proof
      assume "bit x 7"
      then show "x AND 0x80 = 0x80" by (intro word8_eqI) (auto simp: bits)
    next
      assume "x AND 0x80 = 0x80"
      then have "bit (x AND 0x80) 7 = bit (0x80 :: byte) 7" by simp
      then show "bit x 7" by (simp add: bits)
    qed
    then show ?thesis by (simp add: PATTY_AX25_ADDR_SSID_C_def)
  qed
  assume "direction_flag f"
  then show ?thesis by (auto simp: c ssid_octet_def direction_flag_def bits)
qed

lemma same_station_on_air [simp]:
  assumes "direction_flag f"
  shows "same_station (on_air a f l) a"
proof -
  have "ssid_octet a f l AND 0x1e = addr_ssid a AND 0x1e"
    using assms
    by (intro word8_eqI) (auto simp: ssid_octet_def direction_flag_def bits)
  then show ?thesis by (simp add: same_station_def on_air_def PATTY_AX25_ADDR_SSID_NUMBER_def)
qed

lemma callsign_on_air [simp]: "callsign (on_air a f l) = callsign a"
  by (simp add: on_air_def)

lemma addr_ssid_on_air [simp]: "addr_ssid (on_air a f l) = ssid_octet a f l"
  by (simp add: on_air_def)

text \<open>A sequence of stations as it is transmitted: only the last one has the extension bit.\<close>

fun wire :: "(addr \<times> byte) list \<Rightarrow> byte list" where
  "wire [] = []"
| "wire ((a, f) # xs) = callsign a @ ssid_octet a f (xs = []) # wire xs"

lemma wire_length: "\<forall>(a, f) \<in> set xs. length (callsign a) = 6 \<Longrightarrow> length (wire xs) = 7 * length xs"
  by (induction xs rule: wire.induct) auto

text \<open>\<open>buf[offset-1] |= 1\<close>\<close>

definition mark_last :: "byte list \<Rightarrow> byte list" where
  "mark_last xs = xs[length xs - 1 := xs ! (length xs - 1) OR 1]"

lemma mark_last_append: "ys \<noteq> [] \<Longrightarrow> mark_last (xs @ ys) = xs @ mark_last ys"
  by (simp add: mark_last_def list_update_append nth_append Nat.add_diff_assoc)
     (cases ys; simp)

lemma mark_last_length [simp]: "length (mark_last xs) = length xs"
  by (simp add: mark_last_def)

lemma wire_copies:
  assumes "xs \<noteq> []" and "\<forall>(a, f) \<in> set xs. length (callsign a) = 6"
  shows "wire xs = mark_last (concat (map (\<lambda>(a, f). patty_ax25_addr_copy a f) xs))"
  using assms
proof (induction xs rule: wire.induct)
  case (2 a f xs)
  have "mark_last (patty_ax25_addr_copy a f) = callsign a @ [ssid_octet a f True]"
    by (simp add: patty_ax25_addr_copy_def mark_last_append ssid_octet_def) (simp add: mark_last_def)
  moreover have "xs \<noteq> [] \<Longrightarrow> concat (map (\<lambda>(a, f). patty_ax25_addr_copy a f) xs) \<noteq> []"
    by (cases xs) (auto simp: patty_ax25_addr_copy_def)
  ultimately show ?case
    using 2 by (cases "xs = []")
      (simp_all add: mark_last_append, simp add: patty_ax25_addr_copy_def ssid_octet_def)
qed simp

text \<open>The stations of a frame, in the order \<open>encode_address\<close> sends them.\<close>

definition frame_stations :: "frame \<Rightarrow> bool \<Rightarrow> (addr \<times> byte) list" where
  "frame_stations frame reply =
     (let flags_remote = (if f_cr frame = PATTY_AX25_FRAME_COMMAND then 0x80 else 0x00);
          flags_local = (if f_cr frame = PATTY_AX25_FRAME_RESPONSE then 0x80 else 0x00);
          reps = take (f_hops frame) (f_repeaters frame) in
      if reply then (f_src frame, flags_local) # (f_dest frame, flags_remote) # map (\<lambda>a. (a, 0)) (rev reps)
      else (f_dest frame, flags_remote) # (f_src frame, flags_local) # map (\<lambda>a. (a, 0)) reps)"

definition frame_addr_ok :: "frame \<Rightarrow> bool" where
  "frame_addr_ok frame \<longleftrightarrow> station_ok (callsign (f_dest frame)) \<and> station_ok (callsign (f_src frame))
     \<and> f_hops frame \<le> 8 \<and> length (f_repeaters frame) = 8
     \<and> (\<forall>a \<in> set (take (f_hops frame) (f_repeaters frame)). station_ok (callsign a))"

lemma rev_nth_map: "n \<le> length xs \<Longrightarrow> map (\<lambda>i. g (xs ! (n - 1 - i))) [0..<n] = map g (rev (take n xs))"
  by (rule nth_equalityI) (simp_all add: rev_nth)

lemma nth_map_take: "n \<le> length xs \<Longrightarrow> map (\<lambda>i. g (xs ! i)) [0..<n] = map g (take n xs)"
  by (rule nth_equalityI) simp_all

lemma address_octets_stations:
  assumes "f_hops frame \<le> length (f_repeaters frame)"
  shows "address_octets frame reply
    = concat (map (\<lambda>(a, f). patty_ax25_addr_copy a f) (frame_stations frame reply))"
  using rev_nth_map [OF assms, of "\<lambda>a. patty_ax25_addr_copy a 0"]
    nth_map_take [OF assms, of "\<lambda>a. patty_ax25_addr_copy a 0"]
  by (simp add: address_octets_def frame_stations_def Let_def comp_def)

lemma frame_stations_ok:
  assumes "frame_addr_ok frame"
  shows "\<forall>(a, f) \<in> set (frame_stations frame reply). station_ok (callsign a) \<and> direction_flag f"
    and "length (frame_stations frame reply) = 2 + f_hops frame"
  using assms by (auto simp: frame_stations_def frame_addr_ok_def Let_def direction_flag_def)

lemma station_ok_length: "station_ok bs \<Longrightarrow> length bs = 6"
  by (simp add: station_ok_def)

lemma encode_address_wire:
  assumes "frame_addr_ok frame" and "7 * (2 + f_hops frame) \<le> len" and "len \<le> length buf"
  shows "encode_address frame buf reply len =
    Some (Inr (7 * (2 + f_hops frame)),
          wire (frame_stations frame reply) @ drop (7 * (2 + f_hops frame)) buf)"
proof -
  let ?st = "frame_stations frame reply"
  let ?o = "address_octets frame reply"
  have six: "\<forall>(a, f) \<in> set ?st. length (callsign a) = 6"
    using frame_stations_ok(1) [OF assms(1), of reply] by (auto dest: station_ok_length)
  have hops: "f_hops frame \<le> length (f_repeaters frame)"
    using assms(1) by (simp add: frame_addr_ok_def)
  have "?st \<noteq> []" by (simp add: frame_stations_def Let_def)
  from wire_copies [OF this six] have w: "wire ?st = mark_last ?o"
    by (simp add: address_octets_stations [OF hops])
  then have "length ?o = length (wire ?st)" by simp
  also have "\<dots> = 7 * (2 + f_hops frame)"
    by (simp add: wire_length [OF six] frame_stations_ok(2) [OF assms(1)])
  finally have len: "length ?o = 7 * (2 + f_hops frame)" .
  then have "?o \<noteq> []" by auto
  with w len hops assms(2,3) show ?thesis
    by (simp add: encode_address_def Let_def blit_def rd_def wr_def nth_append list_update_append
        mark_last_def del: list_update_nonempty)
qed

section \<open>Reading the address field back\<close>

lemma decode_station_wire:
  assumes "station_ok (callsign a)" and "off = length pre" and "off + 7 \<le> len"
    and "len \<le> length (pre @ callsign a @ ssid_octet a f l # rest)"
  shows "decode_station (pre @ callsign a @ ssid_octet a f l # rest) off len
    = Some (Inr (on_air a f l, 7))"
  using decode_station_iff [OF assms(3,4)] assms(1,2) station_ok_length [OF assms(1)]
  by (simp add: nth_append on_air_def)

lemma decode_hops_loop_wire:
  assumes "\<forall>(a, f) \<in> set xs. station_ok (callsign a) \<and> direction_flag f"
    and "xs \<noteq> []" and "i + length xs \<le> 8"
    and "off = length pre" and "off + 7 * length xs \<le> len" and "len \<le> length (pre @ wire xs @ rest)"
    and "length (f_repeaters fr) = 8"
  shows "\<exists>reps. decode_hops_loop i fr (pre @ wire xs @ rest) off len
      = Some (Inr (off + 7 * length xs), fr\<lparr>f_repeaters := reps, f_hops := f_hops fr + length xs\<rparr>)
    \<and> length reps = 8 \<and> take i reps = take i (f_repeaters fr)
    \<and> list_all2 same_station (take (length xs) (drop i reps)) (map fst xs)"
  using assms
proof (induction xs arbitrary: i pre off fr)
  case (Cons x xs)
  obtain a f where x: "x = (a, f)" by (cases x)
  let ?data = "pre @ wire (x # xs) @ rest"
  have a: "station_ok (callsign a)" "direction_flag f" using Cons.prems x by auto
  let ?a = "on_air a f (xs = [])"
  let ?fr = "fr\<lparr>f_repeaters := (f_repeaters fr)[i := ?a], f_hops := f_hops fr + 1\<rparr>"
  have st: "decode_station ?data off len = Some (Inr (?a, 7))"
    using decode_station_wire [OF a(1) Cons.prems(4), of len f "xs = []" "wire xs @ rest"] Cons.prems x
    by simp
  have i: "i < 8" using Cons.prems by simp
  show ?case
  proof (cases "xs = []")
    case True
    have "take 1 (drop i ((f_repeaters fr)[i := ?a])) = [?a]"
      using i Cons.prems(7) by (simp add: take_Suc_conv_app_nth take_eq_Nil drop_update_swap)
    with True st i a x Cons.prems(7) show ?thesis
      by (simp add: decode_hops_loop.simps ssid_octet_last)
         (intro exI [where x = "(f_repeaters fr)[i := ?a]"]; simp add: True)
  next
    case False
    let ?pre = "pre @ callsign a @ [ssid_octet a f False]"
    have data: "?data = ?pre @ wire xs @ rest" using x False by simp
    have pre: "off + 7 = length ?pre" using Cons.prems station_ok_length [OF a(1)] by simp
    from Cons.IH [OF _ False _ pre, of "Suc i" ?fr] Cons.prems data
    obtain reps where IH: "decode_hops_loop (Suc i) ?fr ?data (off + 7) len
        = Some (Inr (off + 7 + 7 * length xs), ?fr\<lparr>f_repeaters := reps, f_hops := f_hops ?fr + length xs\<rparr>)"
      and reps: "length reps = 8" "take (Suc i) reps = take (Suc i) ((f_repeaters fr)[i := ?a])"
        "list_all2 same_station (take (length xs) (drop (Suc i) reps)) (map fst xs)"
      by auto
    have "reps ! i = ?a"
      using reps(2) i Cons.prems(7) by (metis lessI nth_list_update_eq nth_take)
    then have "drop i reps = ?a # drop (Suc i) reps" using reps(1) i by (metis Cons_nth_drop_Suc)
    moreover have "take i reps = take i (f_repeaters fr)"
    proof -
      have "take i reps = take i (take (Suc i) reps)" by (simp add: min_def)
      also have "\<dots> = take i (f_repeaters fr)" unfolding reps(2) by (simp add: min_def)
      finally show ?thesis .
    qed
    ultimately show ?thesis
      using IH reps st i a x False
      by (subst decode_hops_loop.simps) (auto simp: ssid_octet_last Let_def)
  qed
qed simp

text \<open>The direction the two C bits of the address field stand for.\<close>

definition cr_of :: "byte \<Rightarrow> byte \<Rightarrow> frame_cr" where
  "cr_of fd fs = (if (fd = 0x80) = (fs = 0x80) then PATTY_AX25_FRAME_OLD
     else if fd = 0x80 then PATTY_AX25_FRAME_COMMAND else PATTY_AX25_FRAME_RESPONSE)"

lemma decode_address_wire:
  assumes st: "\<forall>(a, f) \<in> set ((d, fd) # (s, fs) # rs). station_ok (callsign a) \<and> direction_flag f"
    and "length rs \<le> 8" and "len = 7 * (2 + length rs) + extra"
    and "len \<le> length (wire ((d, fd) # (s, fs) # rs) @ rest)" and "length (f_repeaters fr) = 8"
  shows "\<exists>fr'. patty_ax25_frame_decode_address fr (wire ((d, fd) # (s, fs) # rs) @ rest) len
      = Some (Inr (7 * (2 + length rs)), fr')
    \<and> same_station (f_dest fr') d \<and> same_station (f_src fr') s
    \<and> f_hops fr' = length rs \<and> list_all2 same_station (take (length rs) (f_repeaters fr')) (map fst rs)
    \<and> f_cr fr' = cr_of fd fs
    \<and> f_version fr' = (if cr_of fd fs = PATTY_AX25_FRAME_OLD then PATTY_AX25_OLD else PATTY_AX25_2_0)
    \<and> length (f_repeaters fr') = 8"
proof -
  let ?data = "wire ((d, fd) # (s, fs) # rs) @ rest"
  let ?d = "on_air d fd False" and ?s = "on_air s fs (rs = [])"
  let ?pre = "callsign d @ [ssid_octet d fd False]"
  let ?pre2 = "?pre @ callsign s @ [ssid_octet s fs (rs = [])]"
  have d: "station_ok (callsign d)" "direction_flag fd" and s: "station_ok (callsign s)" "direction_flag fs"
    using st by auto
  note len6 = station_ok_length [OF d(1)] station_ok_length [OF s(1)]
  have 1: "decode_station ?data 0 len = Some (Inr (?d, 7))"
    using decode_station_wire [OF d(1), of 0 "[]" len fd False "wire ((s, fs) # rs) @ rest"] assms by simp
  have 2: "decode_station ?data 7 len = Some (Inr (?s, 7))"
    using decode_station_wire [OF s(1), of 7 ?pre len fs "rs = []" "wire rs @ rest"] assms len6 by simp
  let ?fr = "\<lambda>cr v. fr\<lparr>f_dest := ?d, f_src := ?s, f_cr := cr, f_version := v, f_hops := 0\<rparr>"
  have tail: "\<exists>reps. (if rs = [] then Some (Inr 14, ?fr cr v)
       else do { (r, f5) \<leftarrow> decode_hops (?fr cr v) ?data 14 len;
                 Some (map_sum id (\<lambda>decoded. 14 + decoded) r, f5) })
     = Some (Inr (7 * (2 + length rs)), (?fr cr v)\<lparr>f_repeaters := reps, f_hops := length rs\<rparr>)
     \<and> length reps = 8 \<and> list_all2 same_station (take (length rs) reps) (map fst rs)" for cr v
  proof (cases "rs = []")
    case True
    then show ?thesis using assms(5) by (intro exI [where x = "f_repeaters fr"]) simp
  next
    case False
    then show ?thesis
      using decode_hops_loop_wire [of rs 0 14 ?pre2 len rest "?fr cr v"] st assms len6
      by (auto simp: decode_hops_def)
  qed
  let ?cr = "cr_of fd fs"
  let ?v = "if ?cr = PATTY_AX25_FRAME_OLD then PATTY_AX25_OLD else PATTY_AX25_2_0"
  obtain reps where reps: "(if rs = [] then Some (Inr 14, ?fr ?cr ?v)
       else do { (r, f5) \<leftarrow> decode_hops (?fr ?cr ?v) ?data 14 len;
                 Some (map_sum id (\<lambda>decoded. 14 + decoded) r, f5) })
     = Some (Inr (7 * (2 + length rs)), (?fr ?cr ?v)\<lparr>f_repeaters := reps, f_hops := length rs\<rparr>)"
    "length reps = 8" "list_all2 same_station (take (length rs) reps) (map fst rs)"
    using tail [where cr = ?cr and v = ?v] by blast
  have "patty_ax25_frame_decode_address fr ?data len
     = (if rs = [] then Some (Inr 14, ?fr ?cr ?v)
       else do { (r, f5) \<leftarrow> decode_hops (?fr ?cr ?v) ?data 14 len;
                 Some (map_sum id (\<lambda>decoded. 14 + decoded) r, f5) })"
    using d s
    by (simp add: patty_ax25_frame_decode_address_def 1 2 Let_def ssid_octet_c ssid_octet_last cr_of_def
        del: wire.simps append_assoc)
  with reps d s show ?thesis by simp
qed

lemma same_station_sym: "same_station a b \<Longrightarrow> same_station b a"
  by (simp add: same_station_def)

section \<open>Control fields read back\<close>

text \<open>Every control field falls into one of the three classes, so \<open>EIO\<close> is never reported.\<close>

lemma and_3_cases: "(c :: u16) AND 0x1 \<noteq> 0 \<Longrightarrow> c AND 0x03 \<noteq> 0x01 \<Longrightarrow> c AND 0x03 = 0x03"
proof -
  assume a: "c AND 1 \<noteq> 0" and b: "c AND 0x03 \<noteq> 0x01"
  from a have 0: "bit c 0" by (simp add: and_one_eq bit_0 odd_iff_mod_2_eq_one)
  have "bit c 1"
  proof (rule ccontr)
    assume "\<not> bit c 1"
    with 0 have "c AND 0x03 = 0x01" by (intro word16_eqI) (auto simp: bits)
    with b show False by simp
  qed
  with 0 show "c AND 0x03 = 0x03" by (intro word16_eqI) (auto simp: bits)
qed

lemma classify_control_total: "classify_control frame fmt \<noteq> None"
  using and_3_cases by (auto simp: classify_control_def control_defs Let_def)

text \<open>The octets of a control field, and the field a receiver assembles from them.\<close>

definition ctl_octets :: "frame_format \<Rightarrow> u16 \<Rightarrow> byte list" where
  "ctl_octets fmt c =
     (if fmt = PATTY_AX25_FRAME_NORMAL \<or> PATTY_AX25_FRAME_CONTROL_U c then [ucast c]
      else [ucast c, ucast (drop_bit 8 c)])"

definition ctl_received :: "frame_format \<Rightarrow> u16 \<Rightarrow> u16" where
  "ctl_received fmt c =
     (if fmt = PATTY_AX25_FRAME_NORMAL \<or> PATTY_AX25_FRAME_CONTROL_U c then c AND 0x00ff else c)"

lemma ucast_low_byte: "ucast (c AND 0x00ff :: u16) = (ucast c :: byte)"
  by (rule word8_eqI) (auto simp: bits)

lemma ucast_high_byte: "ucast (drop_bit 8 (c AND 0xff00 :: u16)) = (ucast (drop_bit 8 c) :: byte)"
  by (rule word8_eqI) (auto simp: bits)

lemma ucast_ucast_byte: "ucast (ucast c :: byte) = (c AND 0x00ff :: u16)"
  by (rule word16_eqI) (auto simp: bits)

lemma ucast_both_bytes: "ucast (ucast c :: byte) OR push_bit 8 (ucast (ucast (drop_bit 8 c) :: byte)) = (c :: u16)"
  by (rule word16_eqI) (auto simp: bits)

lemma both_bytes: "(c AND 255) OR push_bit 8 (drop_bit 8 c) AND 65280 = (c :: u16)"
  by (rule word16_eqI) (auto simp: bits)

lemma control_U_low: "PATTY_AX25_FRAME_CONTROL_U (c AND 0x00ff) = PATTY_AX25_FRAME_CONTROL_U c"
proof -
  have "(c AND 0x00ff) AND 0x03 = c AND 0x03" by (rule word16_eqI) (auto simp: bits)
  then show ?thesis by (simp add: PATTY_AX25_FRAME_CONTROL_U_def)
qed

lemma encode_control_octets:
  assumes "length pre = off" and "length (ctl_octets fmt c) \<le> length rest"
  shows "encode_control fmt c (pre @ rest) off
    = Some (off + length (ctl_octets fmt c),
            pre @ ctl_octets fmt c @ drop (length (ctl_octets fmt c)) rest)"
proof (cases fmt)
  case PATTY_AX25_FRAME_NORMAL
  with assms wr_prefix [of pre off rest] show ?thesis
    by (cases rest) (simp_all add: encode_control_def ctl_octets_def)
next
  case PATTY_AX25_FRAME_EXTENDED
  show ?thesis
  proof (cases "PATTY_AX25_FRAME_CONTROL_U c")
    case True
    with assms PATTY_AX25_FRAME_EXTENDED wr_prefix [of pre off rest] show ?thesis
      by (cases rest) (simp_all add: encode_control_def ctl_octets_def ucast_low_byte)
  next
    case False
    then obtain x y zs where rest: "rest = x # y # zs"
      using assms(2) PATTY_AX25_FRAME_EXTENDED
      by (cases rest; cases "tl rest") (auto simp: ctl_octets_def)
    have "wr (pre @ ucast c # y # zs) (Suc off) b = Some (pre @ ucast c # b # zs)" for b
      using wr_prefix [of "pre @ [ucast c]" "Suc off" "y # zs"] assms(1) by simp
    with False assms(1) PATTY_AX25_FRAME_EXTENDED rest wr_prefix [of pre off rest] show ?thesis
      by (simp add: encode_control_def ctl_octets_def ucast_low_byte ucast_high_byte)
  qed
qed

lemma read_control_octets:
  assumes "length pre = off"
  shows "read_control fmt (pre @ ctl_octets fmt c @ rest) off
    = Some (ctl_received fmt c, off + length (ctl_octets fmt c))"
  using assms
  by (cases fmt)
     (auto simp: read_control_def ctl_octets_def ctl_received_def rd_def nth_append
        ucast_ucast_byte both_bytes control_U_low)

text \<open>Which octets \<open>patty_ax25_frame_encode\<close> puts between the control field and the information.\<close>

definition proto_octets :: "u16 \<Rightarrow> byte \<Rightarrow> byte list" where
  "proto_octets c proto =
     (if PATTY_AX25_FRAME_CONTROL_I c \<or> PATTY_AX25_FRAME_CONTROL_UI c then [proto] else [])"

definition frame_octets :: "frame \<Rightarrow> byte list" where
  "frame_octets frame = wire (frame_stations frame False) @ ctl_octets (f_format frame) (f_control frame)
     @ (case f_info frame of
          None \<Rightarrow> []
        | Some info \<Rightarrow> if f_infolen frame = 0 then []
                       else proto_octets (f_control frame) (f_proto frame)
                            @ take (unat (f_infolen frame)) info)"

lemma ctl_octets_length: "length (ctl_octets fmt c) \<le> 2" "0 < length (ctl_octets fmt c)"
  by (simp_all add: ctl_octets_def)

lemma frame_octets_length:
  assumes "frame_addr_ok frame" and "f_info frame = Some bs" and "unat (f_infolen frame) \<le> length bs"
  shows "length (frame_octets frame) \<le> 7 * (2 + f_hops frame) + 3 + unat (f_infolen frame)"
proof -
  have "length (wire (frame_stations frame False)) = 7 * (2 + f_hops frame)"
    using wire_length [of "frame_stations frame False"] frame_stations_ok [OF assms(1), of False]
    by (auto dest: station_ok_length)
  then show ?thesis using ctl_octets_length(1) [of "f_format frame" "f_control frame"] assms(2,3)
    by (simp add: frame_octets_def proto_octets_def)
qed

lemma size_sum_less:
  fixes n :: size_t
  assumes "a + unat n < 2 ^ 64" and "len < 2 ^ 64"
  shows "(of_nat len < of_nat a + n) = (len < a + unat n)"
proof -
  have "unat (of_nat len :: size_t) = len" using assms(2) by (simp add: unat_of_nat)
  moreover have "of_nat a + n = of_nat (a + unat n)" by simp
  moreover have "unat (of_nat (a + unat n) :: size_t) = a + unat n"
    by (subst unat_of_nat) (use assms(1) in simp)
  ultimately show ?thesis by (metis word_less_nat_alt)
qed

lemma frame_encode_octets:
  assumes "frame_addr_ok frame"
    and "\<And>info. f_info frame = Some info \<Longrightarrow> unat (f_infolen frame) \<le> length info"
    and "7 * (2 + f_hops frame) + 3 + unat (f_infolen frame) \<le> len"
    and "len \<le> length buf" and "len < 2 ^ 63"
  shows "patty_ax25_frame_encode frame buf len
    = Some (Inr (length (frame_octets frame)),
            frame_octets frame @ drop (length (frame_octets frame)) buf)"
proof -
  define w c off off1 n where "w = wire (frame_stations frame False)"
    and "c = ctl_octets (f_format frame) (f_control frame)" and "off = 7 * (2 + f_hops frame)"
    and "off1 = off + length c" and "n = unat (f_infolen frame)"
  note defs = this
  have addr: "encode_address frame buf False len = Some (Inr off, w @ drop off buf)"
    unfolding defs by (rule encode_address_wire) (use assms in auto)
  have lw: "length w = off"
    using wire_length [of "frame_stations frame False"] frame_stations_ok [OF assms(1), of False]
    by (auto simp: defs dest: station_ok_length)
  have lc: "length c \<le> 2" unfolding defs by (rule ctl_octets_length)
  have room: "off + 3 + n \<le> len" "len \<le> length buf" "len < 2 ^ 63"
    using assms by (simp_all add: defs)
  have ctl: "encode_control (f_format frame) (f_control frame) (w @ drop off buf) off
      = Some (off1, w @ c @ drop off1 buf)"
    using encode_control_octets [OF lw, of "f_format frame" "f_control frame" "drop off buf"] room lc
    by (simp add: defs(2,4) add.commute)
  have fits: "\<not> of_nat len < 1 + of_nat off1 + f_infolen frame"
  proof -
    have "1 + of_nat off1 + f_infolen frame = of_nat (1 + off1) + f_infolen frame" by simp
    moreover have "(1 + off1) + unat (f_infolen frame) \<le> len"
      using room lc by (simp add: defs(4,5))
    moreover have "len < 2 ^ 64" using room by simp
    ultimately show ?thesis
      by (simp only:, subst size_sum_less) linarith+
  qed
  show ?thesis
  proof (cases "f_info frame = None \<or> f_infolen frame = 0")
    case True
    then have "frame_octets frame = w @ c"
      by (auto simp: frame_octets_def defs split: option.splits)
    moreover from this have "length (frame_octets frame) = off1" using lw by (simp add: defs(4))
    ultimately show ?thesis
      using True addr ctl by (auto simp: patty_ax25_frame_encode_def split: option.splits)
  next
    case False
    then obtain info where info: "f_info frame = Some info" "f_infolen frame \<noteq> 0" by auto
    define p where "p = proto_octets (f_control frame) (f_proto frame)"
    have lp: "length p \<le> 1" by (simp add: p_def proto_octets_def)
    have rest: "1 + n \<le> length (drop off1 buf)" using room lc by (simp add: defs(4))
    have proto: "(if PATTY_AX25_FRAME_CONTROL_I (f_control frame) \<or> PATTY_AX25_FRAME_CONTROL_UI (f_control frame)
          then do { b \<leftarrow> wr (w @ c @ drop off1 buf) off1 (f_proto frame); Some (off1 + 1, b) }
          else Some (off1, w @ c @ drop off1 buf))
        = Some (off1 + length p, w @ c @ p @ drop (length p) (drop off1 buf))"
      using wr_prefix [of "w @ c" off1 "drop off1 buf" "f_proto frame"] lw rest
      by (auto simp: p_def proto_octets_def defs(4))
    have s: "slice info 0 n = Some (take n info)" and tn: "length (take n info) = n"
      using assms(2) [OF info(1)] by (simp_all add: slice_def defs(5))
    have "n \<le> length (drop (length p) (drop off1 buf))" using rest lp by simp
    then have b: "blit (w @ c @ p @ drop (length p) (drop off1 buf)) (off1 + length p) (take n info)
        = Some (w @ c @ p @ take n info @ drop n (drop (length p) (drop off1 buf)))"
      using blit_prefix [of "w @ c @ p" "off1 + length p" "take n info" "drop (length p) (drop off1 buf)"]
        lw tn by (simp add: defs(4) del: drop_drop)
    have oct: "frame_octets frame = w @ c @ p @ take n info"
      using info by (simp add: frame_octets_def defs p_def)
    then have lo: "length (frame_octets frame) = off1 + length p + n"
      using lw tn by (simp add: defs(4) del: length_take)
    have "patty_ax25_frame_encode frame buf len = Some (Inr (off1 + length p + n),
        frame_octets frame @ drop n (drop (length p) (drop off1 buf)))"
      using info addr ctl fits s b proto unfolding oct unfolding defs(5)
      by (simp add: patty_ax25_frame_encode_def del: drop_drop)
    also have "drop n (drop (length p) (drop off1 buf)) = drop (length (frame_octets frame)) buf"
      unfolding lo by (simp add: add.commute add.left_commute)
    finally show ?thesis unfolding lo .
  qed
qed

text \<open>Frames that carry a protocol octet and information: I and UI.\<close>

definition info_control :: "u16 \<Rightarrow> bool" where
  "info_control c \<longleftrightarrow> PATTY_AX25_FRAME_CONTROL_I c \<or> PATTY_AX25_FRAME_CONTROL_UI c"

lemma info_control_received:
  assumes "info_control c"
  shows "info_control (ctl_received fmt c)"
proof -
  have "(c AND 0xff) AND 0x1 = c AND 0x1" "(c AND 0xff) AND 0xef = c AND 0xef"
    by (rule word16_eqI; auto simp: bits)+
  with assms show ?thesis by (auto simp: info_control_def ctl_received_def control_defs)
qed

lemma control_I_received: "PATTY_AX25_FRAME_CONTROL_I (ctl_received fmt c) = PATTY_AX25_FRAME_CONTROL_I c"
proof -
  have "(c AND 0xff) AND 0x1 = c AND 0x1" by (rule word16_eqI) (auto simp: bits)
  then show ?thesis by (simp add: ctl_received_def control_defs)
qed

lemma control_UI_U:
  assumes "PATTY_AX25_FRAME_CONTROL_UI c"
  shows "PATTY_AX25_FRAME_CONTROL_U c" and "\<not> PATTY_AX25_FRAME_CONTROL_I c"
    and "\<not> PATTY_AX25_FRAME_CONTROL_S c"
proof -
  have "c AND 0x03 = (c AND 0xef) AND 0x03" and 1: "c AND 0x1 = (c AND 0xef) AND 0x1"
    by (rule word16_eqI; auto simp: bits)+
  with assms have 3: "c AND 0x03 = 0x03" by (simp add: control_defs)
  then show "PATTY_AX25_FRAME_CONTROL_U c" "\<not> PATTY_AX25_FRAME_CONTROL_S c" by (simp_all add: control_defs)
  from 1 assms have "c AND 0x1 = 0x1" by (simp add: control_defs)
  then show "\<not> PATTY_AX25_FRAME_CONTROL_I c" by (simp add: control_defs)
qed

lemma classify_info:
  assumes "info_control (f_control fr)"
  obtains fr' where "classify_control fr fmt = Some fr'"
    and "f_type fr' = PATTY_AX25_FRAME_I \<or> f_type fr' = PATTY_AX25_FRAME_UI"
    and "f_control fr' = f_control fr" and "f_format fr' = f_format fr"
    and "f_dest fr' = f_dest fr" and "f_src fr' = f_src fr" and "f_repeaters fr' = f_repeaters fr"
    and "f_hops fr' = f_hops fr" and "f_cr fr' = f_cr fr" and "f_version fr' = f_version fr"
    and "PATTY_AX25_FRAME_CONTROL_I (f_control fr) \<longrightarrow> f_type fr' = PATTY_AX25_FRAME_I
      \<and> f_nr fr' = decode_nr (f_control fr) fmt \<and> f_ns fr' = decode_ns (f_control fr) fmt
      \<and> f_pf fr' = decode_pf (f_control fr) fmt"
proof (cases "PATTY_AX25_FRAME_CONTROL_I (f_control fr)")
  case True
  then have "classify_control fr fmt = Some (fr\<lparr>f_type := PATTY_AX25_FRAME_I,
      f_nr := decode_nr (f_control fr) fmt, f_ns := decode_ns (f_control fr) fmt,
      f_pf := decode_pf (f_control fr) fmt\<rparr>)"
    by (simp add: classify_control_def Let_def)
  then show thesis by (rule that) simp_all
next
  case False
  with assms have ui: "PATTY_AX25_FRAME_CONTROL_UI (f_control fr)" by (simp add: info_control_def)
  then have "ucast (f_control fr AND PATTY_AX25_FRAME_U_MASK) = PATTY_AX25_FRAME_UI"
    by (simp add: control_defs frame_types)
  then have "classify_control fr fmt = Some (fr\<lparr>f_type := PATTY_AX25_FRAME_UI,
      f_pf := decode_pf (f_control fr) PATTY_AX25_FRAME_NORMAL\<rparr>)"
    by (simp add: classify_control_def control_UI_U [OF ui] Let_def)
  then show thesis by (rule that) (simp_all add: False)
qed

lemma decode_control_info:
  assumes "info_control c" and "length pre = off"
    and "len = off + length (ctl_octets fmt c) + 1 + length bs"
    and cl: "classify_control ((clear_control fr)\<lparr>f_control := ctl_received fmt c, f_format := fmt\<rparr>) fmt = Some fr2"
    and "f_type fr2 = PATTY_AX25_FRAME_I \<or> f_type fr2 = PATTY_AX25_FRAME_UI"
  shows "patty_ax25_frame_decode_control fr fmt (pre @ ctl_octets fmt c @ [pid] @ bs @ rest) off len
      = Some (Inr (int len - int off),
              fr2\<lparr>f_proto := pid, f_info := Some (bs @ rest), f_infolen := of_nat (length bs)\<rparr>)"
proof -
  define data n where "data = pre @ ctl_octets fmt c @ [pid] @ bs @ rest"
    and "n = off + length (ctl_octets fmt c)"
  have "read_control fmt data off = Some (ctl_received fmt c, n)"
    unfolding data_def n_def by (rule read_control_octets [OF assms(2)])
  moreover have "rd data n = Some pid"
    using assms(2) by (simp add: data_def n_def rd_def nth_append)
  moreover have "drop (n + 1) data = bs @ rest" using assms(2) by (simp add: data_def n_def)
  moreover have "of_nat len - of_nat (n + 1) = (of_nat (length bs) :: size_t)"
    using assms(3) by (simp add: n_def)
  ultimately show ?thesis
    using cl assms(5) unfolding data_def [symmetric]
    by (auto simp: patty_ax25_frame_decode_control_def Let_def simp del: of_nat_add of_nat_Suc)
qed

lemma classify_decode_info:
  assumes "info_control c"
  obtains fr2 where
    "classify_control ((clear_control fr)\<lparr>f_control := ctl_received fmt c, f_format := fmt\<rparr>) fmt = Some fr2"
    and "f_type fr2 = PATTY_AX25_FRAME_I \<or> f_type fr2 = PATTY_AX25_FRAME_UI"
    and "f_control fr2 = ctl_received fmt c" and "f_format fr2 = fmt"
    and "f_dest fr2 = f_dest fr" and "f_src fr2 = f_src fr" and "f_repeaters fr2 = f_repeaters fr"
    and "f_hops fr2 = f_hops fr" and "f_cr fr2 = f_cr fr" and "f_version fr2 = f_version fr"
    and "PATTY_AX25_FRAME_CONTROL_I c \<longrightarrow> f_type fr2 = PATTY_AX25_FRAME_I
      \<and> f_nr fr2 = decode_nr (ctl_received fmt c) fmt \<and> f_ns fr2 = decode_ns (ctl_received fmt c) fmt
      \<and> f_pf fr2 = decode_pf (ctl_received fmt c) fmt"
proof -
  have "info_control (f_control ((clear_control fr)\<lparr>f_control := ctl_received fmt c, f_format := fmt\<rparr>))"
    using info_control_received [OF assms] by simp
  then show thesis
    by (rule classify_info [where fmt = fmt]) (rule that, assumption, simp_all add: clear_control_def control_I_received)
qed

section \<open>XID read back\<close>

text \<open>The entries of the table that are sent, with the number of bytes each takes.\<close>

definition xid_entries :: "params \<Rightarrow> (nat \<times> nat \<times> u32) list \<Rightarrow> (nat \<times> nat \<times> u32) list" where
  "xid_entries params vs =
     map (\<lambda>(pid, width, value). (pid, if width \<noteq> 0 then width else needbytes value, value))
       (filter (\<lambda>(pid, width, value). p_flags params AND push_bit pid 1 \<noteq> 0) vs)"

definition xid_body :: "(nat \<times> nat \<times> u32) list \<Rightarrow> byte list" where
  "xid_body es = concat (map (\<lambda>(pid, bytes, value). xid_param_octets pid bytes value) es)"

lemma needbytes_bounds: "1 \<le> needbytes v \<and> needbytes v \<le> 4"
  by (simp add: needbytes_def)

lemma xid_param_octets_length [simp]: "length (xid_param_octets pid n v) = 2 + n"
  by (simp add: xid_param_octets_def)

lemma xid_body_Cons: "xid_body ((pid, n, v) # es) = xid_param_octets pid n v @ xid_body es"
  by (simp add: xid_body_def)

lemma xid_body_Nil [simp]: "xid_body [] = []"
  by (simp add: xid_body_def)

lemma encode_xid_param_octets:
  assumes "length pre = off" and "off + 2 + n \<le> len" and "n \<le> 4" and "len \<le> length (pre @ rest)"
  shows "encode_xid_param (pre @ rest) off pid n v len
    = Some (Inr (2 + n), pre @ xid_param_octets pid n v @ drop (2 + n) rest)"
  using assms blit_prefix [of pre off "xid_param_octets pid n v" rest]
  by (simp add: encode_xid_param_def)

lemma encode_xid_loop_octets:
  assumes "length pre = off" and "off + length (xid_body (xid_entries params vs)) \<le> len"
    and "\<forall>(pid, width, v) \<in> set vs. width \<le> 4" and "len \<le> length (pre @ rest)"
  shows "encode_xid_loop params vs (pre @ rest) off len
    = Some (Inr (off + length (xid_body (xid_entries params vs))),
            pre @ xid_body (xid_entries params vs) @ drop (length (xid_body (xid_entries params vs))) rest)"
  using assms
proof (induction vs arbitrary: pre off rest)
  case Nil
  then show ?case by (simp add: xid_entries_def)
next
  case (Cons x vs)
  obtain pid width v where x: "x = (pid, width, v)" by (cases x)
  let ?n = "if width \<noteq> 0 then width else needbytes v"
  let ?es = "xid_entries params vs"
  show ?case
  proof (cases "p_flags params AND push_bit pid 1 = 0")
    case True
    then have "xid_entries params (x # vs) = ?es" by (simp add: xid_entries_def x)
    with True x Cons show ?thesis by simp
  next
    case False
    then have es: "xid_entries params (x # vs) = (pid, ?n, v) # ?es" by (simp add: xid_entries_def x)
    have n: "?n \<le> 4" using Cons.prems(3) needbytes_bounds x by auto
    have enc: "encode_xid_param (pre @ rest) off pid ?n v len
        = Some (Inr (2 + ?n), pre @ xid_param_octets pid ?n v @ drop (2 + ?n) rest)"
      by (rule encode_xid_param_octets)
         (use Cons.prems n in \<open>simp_all add: es xid_body_Cons del: if_image_distrib\<close>)
    have "encode_xid_loop params vs ((pre @ xid_param_octets pid ?n v) @ drop (2 + ?n) rest) (off + (2 + ?n)) len
        = Some (Inr (off + (2 + ?n) + length (xid_body ?es)),
            (pre @ xid_param_octets pid ?n v) @ xid_body ?es @ drop (length (xid_body ?es)) (drop (2 + ?n) rest))"
      by (rule Cons.IH) (use Cons.prems in \<open>simp_all add: es xid_body_Cons\<close>)
    with enc False x es show ?thesis
      by (simp add: Let_def xid_body_Cons add.assoc add.commute)
  qed
qed

lemma mask_8_u32: "(0xff :: u32) = mask 8"
  by (simp add: mask_eq_decr_exp)

lemma xid_octet_bits:
  assumes "s + 8 \<le> 32"
  shows "v AND mask s OR push_bit s (ucast (ucast (drop_bit s (v AND push_bit s (0xff :: u32))) :: byte))
       = (v AND mask (8 + s) :: u32)"
  unfolding mask_8_u32
  by (rule bit_word_eqI) (use assms in \<open>auto simp: bit_simps\<close>)

lemma xid_value_octets:
  assumes "length pre = off" and "n \<le> 4" and "i \<le> n"
  shows "xid_value (pre @ xid_param_octets pid n v @ rest) (off + 2) n i = Some (v AND mask (8 * i))"
  using assms(3)
proof (induction i)
  case 0
  then show ?case by simp
next
  case (Suc i)
  have "rd (pre @ xid_param_octets pid n v @ rest) (off + 2 + n - 1 - i)
      = Some (ucast (drop_bit (8 * i) (v AND push_bit (8 * i) 0xff)))"
  proof -
    from Suc.prems obtain k where n: "n = Suc (i + k)" using less_imp_Suc_add [of i n] by auto
    then have "off + 2 + n - 1 - i = off + (2 + k)" by simp
    with n assms(1) show ?thesis
      by (simp add: rd_def nth_append xid_param_octets_def Let_def del: upt_Suc)
  qed
  with Suc assms(2) xid_octet_bits [of "8 * i" v] show ?case
    by simp
qed

definition save_entry :: "nat \<times> nat \<times> u32 \<Rightarrow> params \<Rightarrow> params" where
  "save_entry = (\<lambda>(pid, n, v) params. save_xid_param params pid (v AND mask (8 * n)))"

lemma xid_params_loop_body:
  assumes "length pre = off" and "\<forall>(pid, n, v) \<in> set es. n \<le> 4 \<and> pid < 256"
    and "stop = off + length (xid_body es)"
  shows "xid_params_loop params (pre @ xid_body es @ rest) off stop = Some (fold save_entry es params, stop)"
  using assms
proof (induction es arbitrary: pre off params)
  case Nil
  then show ?case by (simp add: xid_params_loop.simps)
next
  case (Cons e es)
  obtain pid n v where e: "e = (pid, n, v)" by (cases e)
  have n: "n \<le> 4" "pid < 256" using Cons.prems e by auto
  let ?data = "pre @ xid_body (e # es) @ rest"
  have data: "?data = pre @ xid_param_octets pid n v @ (xid_body es @ rest)"
    and data': "?data = (pre @ xid_param_octets pid n v) @ xid_body es @ rest"
    by (simp_all add: e xid_body_Cons)
  have "rd ?data off = Some (of_nat pid)" "rd ?data (off + 1) = Some (of_nat n)"
    using Cons.prems(1) by (simp_all add: data xid_param_octets_def rd_def nth_append)
  moreover have "unat (of_nat pid :: byte) = pid" "unat (of_nat n :: byte) = n"
    using n by (simp_all add: unat_of_nat)
  moreover have "xid_value ?data (off + 2) n n = Some (v AND mask (8 * n))"
    unfolding data by (rule xid_value_octets) (use Cons.prems n in auto)
  moreover have "xid_params_loop (save_entry e params) ?data (off + 2 + n) stop
      = Some (fold save_entry es (save_entry e params), stop)"
    unfolding data' by (rule Cons.IH) (use Cons.prems e in \<open>auto simp: xid_body_Cons\<close>)
  moreover have "off < stop" using Cons.prems e by (simp add: xid_body_Cons)
  ultimately show ?case
    by (subst xid_params_loop.simps) (simp add: save_entry_def e)
qed

text \<open>Which parameters fit the field widths of the table.\<close>

definition params_fit :: "params \<Rightarrow> bool" where
  "params_fit p \<longleftrightarrow> p_classes p AND mask 16 = p_classes p \<and> p_hdlc p AND mask 24 = p_hdlc p
     \<and> p_window_rx p AND mask 8 = p_window_rx p \<and> p_info_rx p AND mask 32 = p_info_rx p
     \<and> p_ack p AND mask 32 = p_ack p \<and> p_retry p AND mask 32 = p_retry p"

definition has_param :: "params \<Rightarrow> nat \<Rightarrow> bool" where
  "has_param p type \<longleftrightarrow> p_flags p AND push_bit type 1 \<noteq> 0"

lemma has_param_bit: "has_param p type \<longleftrightarrow> bit (p_flags p) type"
  by (simp add: has_param_def push_bit_eq_mult and_exp_eq_0_iff_not_bit)

text \<open>What is left of the parameters after the transfer: the six the encoder knows.\<close>

definition params_sent :: "params \<Rightarrow> params" where
  "params_sent p =
     \<lparr>p_flags = p_flags p AND 0x74c,
      p_classes = (if has_param p 2 then p_classes p else 0),
      p_hdlc = (if has_param p 3 then p_hdlc p else 0),
      p_info_tx = 0,
      p_info_rx = (if has_param p 6 then p_info_rx p else 0),
      p_window_tx = 0,
      p_window_rx = (if has_param p 8 then p_window_rx p else 0),
      p_ack = (if has_param p 9 then p_ack p else 0),
      p_retry = (if has_param p 10 then p_retry p else 0)\<rparr>"

lemma needbytes_mask: "v AND mask (8 * needbytes v) = v"
proof -
  have m: "v AND mask k = v" if "v AND NOT (mask k) = 0" for k
  proof -
    have "v = (v AND mask k) OR (v AND NOT (mask k))" by (rule bit_word_eqI) (auto simp: bit_simps)
    with that show ?thesis by simp
  qed
  have "(0xffffff00 :: u32) = NOT (mask 8)" "(0xffff0000 :: u32) = NOT (mask 16)"
    "(0xff000000 :: u32) = NOT (mask 24)" by code_simp+
  moreover have "v AND mask 32 = v" by (rule bit_word_eqI) (simp add: bit_simps)
  ultimately show ?thesis by (auto simp: needbytes_def m)
qed

lemma and_one_bit: "f AND push_bit k 1 = (if bit f k then push_bit k 1 else (0 :: u32))"
  by (rule bit_word_eqI) (auto simp: bit_simps)

lemma sent_flags:
  "p_flags p AND 0x74c = (if has_param p 2 then push_bit 2 1 else 0) OR (if has_param p 3 then push_bit 3 1 else 0)
     OR (if has_param p 6 then push_bit 6 1 else 0) OR (if has_param p 8 then push_bit 8 1 else 0)
     OR (if has_param p 9 then push_bit 9 1 else 0) OR (if has_param p 10 then push_bit 10 1 else 0)"
proof -
  have "(0x74c :: u32) = push_bit 2 1 OR push_bit 3 1 OR push_bit 6 1 OR push_bit 8 1 OR push_bit 9 1
      OR push_bit 10 1" by code_simp
  then have "p_flags p AND 0x74c = p_flags p AND (push_bit 2 1 OR push_bit 3 1 OR push_bit 6 1
      OR push_bit 8 1 OR push_bit 9 1 OR push_bit 10 1)" by (rule arg_cong)
  also have "\<dots> = p_flags p AND push_bit 2 1 OR p_flags p AND push_bit 3 1 OR p_flags p AND push_bit 6 1
      OR p_flags p AND push_bit 8 1 OR p_flags p AND push_bit 9 1 OR p_flags p AND push_bit 10 1"
    by (simp only: bit.conj_disj_distrib)
  finally show ?thesis by (simp only: and_one_bit has_param_bit)
qed

text \<open>Saving the entries one after the other, with the flag test in place.\<close>

definition save_if :: "params \<Rightarrow> nat \<times> nat \<times> u32 \<Rightarrow> params \<Rightarrow> params" where
  "save_if p = (\<lambda>(pid, width, v). if has_param p pid
     then save_entry (pid, if width \<noteq> 0 then width else needbytes v, v) else id)"

lemma fold_xid_entries: "fold save_entry (xid_entries p vs) q = fold (save_if p) vs q"
  by (induction vs arbitrary: q) (auto simp: xid_entries_def save_if_def has_param_def)

lemma ucast_size_fit: "x AND mask 32 = x \<Longrightarrow> ucast (ucast (x :: size_t) :: u32) = x"
proof -
  have "ucast (ucast x :: u32) = x AND mask 32" by (rule bit_word_eqI) (auto simp: bit_simps)
  then show "x AND mask 32 = x \<Longrightarrow> ucast (ucast x :: u32) = x" by simp
qed

lemma ucast_window_fit: "x AND mask 8 = x \<Longrightarrow> ucast ((ucast (x :: size_t) :: u32) AND mask 8) = x"
proof -
  have "ucast ((ucast x :: u32) AND mask 8) = x AND mask 8" by (rule bit_word_eqI) (auto simp: bit_simps)
  then show "x AND mask 8 = x \<Longrightarrow> ucast ((ucast x :: u32) AND mask 8) = x" by simp
qed

lemma fold_save_values:
  assumes "params_fit p"
  shows "fold (save_if p) (xid_values p) params_zero = params_sent p"
proof -
  have fit: "p_classes p AND mask 16 = p_classes p" "p_hdlc p AND mask 24 = p_hdlc p"
    "ucast ((ucast (p_window_rx p) :: u32) AND mask 8) = p_window_rx p"
    "ucast (ucast (p_info_rx p) :: u32) = p_info_rx p" "ucast (ucast (p_ack p) :: u32) = p_ack p"
    "ucast (ucast (p_retry p) :: u32) = p_retry p"
    using assms by (auto simp: params_fit_def intro: ucast_size_fit ucast_window_fit)
  note sv = save_if_def save_entry_def save_xid_param_def set_param_flag_def params_zero_def
  show ?thesis
    unfolding params_sent_def sent_flags
    apply (cases "has_param p 2"; cases "has_param p 3"; cases "has_param p 6"; cases "has_param p 8";
           cases "has_param p 9"; cases "has_param p 10")
    apply (simp_all add: xid_values_def sv fit needbytes_mask or.assoc del: push_bit_of_1)
    done
qed

definition xid_octets :: "params \<Rightarrow> byte list" where
  "xid_octets p = (let body = xid_body (xid_entries p (xid_values p)) in
     [PATTY_AX25_FRAME_XID_GROUP_ISO8885, PATTY_AX25_FRAME_XID_GROUP_PARAMS,
      of_nat (length body div 256), of_nat (length body)] @ body)"

lemma xid_entries_bound:
  "\<forall>(pid, n, v) \<in> set (xid_entries p (xid_values p)). n \<le> 4 \<and> pid < 256"
  using needbytes_bounds by (auto simp: xid_entries_def xid_values_def)

lemma xid_body_length: "\<forall>(pid, n, v) \<in> set es. n \<le> 4 \<Longrightarrow> length (xid_body es) \<le> 6 * length es"
  by (induction es) (auto simp: xid_body_Cons)

lemma xid_octets_length: "length (xid_octets p) \<le> 40"
proof -
  have "length (xid_entries p (xid_values p)) \<le> length (xid_values p)"
    by (simp add: xid_entries_def)
  then have "length (xid_entries p (xid_values p)) \<le> 6" by (simp add: xid_values_def)
  moreover have "length (xid_body (xid_entries p (xid_values p))) \<le> 6 * length (xid_entries p (xid_values p))"
    by (rule xid_body_length) (use xid_entries_bound [of p] in auto)
  ultimately show ?thesis by (simp add: xid_octets_def Let_def)
qed

lemma encode_xid_octets:
  assumes "length (xid_octets p) \<le> len" and "len \<le> length data"
  shows "patty_ax25_frame_encode_xid p data len
    = Some (Inr (length (xid_octets p)),
            xid_octets p @ replicate (len - length (xid_octets p)) 0 @ drop len data)"
proof -
  define body g rest where "body = xid_body (xid_entries p (xid_values p))"
    and "g = [PATTY_AX25_FRAME_XID_GROUP_ISO8885, PATTY_AX25_FRAME_XID_GROUP_PARAMS]"
    and "rest = replicate (len - 4) (0 :: byte) @ drop len data"
  have xo: "xid_octets p = g @ [of_nat (length body div 256), of_nat (length body)] @ body"
    by (simp add: xid_octets_def body_def g_def Let_def)
  have len: "4 + length body \<le> len" using assms(1) xo by (simp add: g_def)
  have g: "length g = 2" by (simp add: g_def)
  have z: "blit data 0 (replicate len 0) = Some ([0, 0] @ [0, 0] @ rest)"
  proof -
    have "replicate len (0 :: byte) = [0, 0, 0, 0] @ replicate (len - 4) 0"
      using len by (intro nth_equalityI) (auto simp: nth_append nth_Cons split: nat.splits)
    moreover have "Suc (Suc (Suc (Suc (len - 4)))) = len" using len by simp
    ultimately show ?thesis using assms(2) by (simp add: blit_def rest_def)
  qed
  have h: "blit ([0, 0] @ [0, 0] @ rest) 0 g = Some (g @ [0, 0] @ rest)"
    using blit_append [of g "[0, 0]" "[]" 0 "[0, 0] @ rest"] g by simp
  have loop: "encode_xid_loop p (xid_values p) ((g @ [0, 0]) @ rest) 4 len
      = Some (Inr (4 + length body), (g @ [0, 0]) @ body @ drop (length body) rest)"
    unfolding body_def
    by (rule encode_xid_loop_octets)
       (use len g assms(2) in \<open>auto simp: body_def rest_def xid_values_def\<close>)
  have l: "blit ((g @ [0, 0]) @ body @ drop (length body) rest) 2 [of_nat (length body div 256), of_nat (length body)]
      = Some (xid_octets p @ drop (length body) rest)"
    using blit_append [of "[of_nat (length body div 256), of_nat (length body)]" "[0, 0]" g 2
        "body @ drop (length body) rest"] g by (simp add: xo)
  have "drop (length body) rest = replicate (len - length (xid_octets p)) 0 @ drop len data"
    using len g by (simp add: rest_def xo)
  with z h loop l g show ?thesis
    by (simp add: patty_ax25_frame_encode_xid_def xo flip: g_def)
qed

lemma decode_xid_octets:
  assumes "params_fit p" and "n = length (xid_octets p)"
  shows "patty_ax25_frame_decode_xid q (xid_octets p @ rest) 0 n = Some (Inr n, params_sent p)"
proof -
  define body es where "body = xid_body es" and "es = xid_entries p (xid_values p)"
  define g where "g = [PATTY_AX25_FRAME_XID_GROUP_ISO8885, PATTY_AX25_FRAME_XID_GROUP_PARAMS,
      of_nat (length body div 256), of_nat (length body)]"
  have xo: "xid_octets p = g @ body"
    by (simp add: xid_octets_def body_def es_def g_def Let_def)
  have n: "n = 4 + length body" using assms(2) xo by (simp add: g_def)
  have lb: "length body < 256" using xid_octets_length [of p] xo by (simp add: g_def)
  let ?data = "xid_octets p @ rest"
  have hd: "rd ?data 0 = Some PATTY_AX25_FRAME_XID_GROUP_ISO8885"
    "rd ?data (Suc 0) = Some PATTY_AX25_FRAME_XID_GROUP_PARAMS"
    "rd ?data 2 = Some (of_nat (length body div 256))" "rd ?data 3 = Some (of_nat (length body))"
    by (simp_all add: xo g_def rd_def numeral_2_eq_2 numeral_3_eq_3)
  have "xid_params_loop params_zero (g @ xid_body es @ rest) 4 n = Some (fold save_entry es params_zero, n)"
    by (rule xid_params_loop_body) (use n xid_entries_bound [of p] in \<open>auto simp: g_def body_def es_def\<close>)
  then have loop: "xid_params_loop params_zero ?data 4 n = Some (params_sent p, n)"
    using fold_xid_entries [of p "xid_values p" params_zero] fold_save_values [OF assms(1)]
    by (simp add: xo body_def es_def)
  have "unat (of_nat (length body) :: byte) = length body" using lb by (simp add: unat_of_nat)
  with hd loop n lb have "decode_xid_group q ?data 0 n = Some (Inr n, params_sent p)"
    by (simp add: decode_xid_group_def Let_def numeral_2_eq_2)
  with n show ?thesis
    by (simp add: patty_ax25_frame_decode_xid_def decode_xid_loop.simps [of q] decode_xid_loop.simps [of "params_sent p"])
qed

section \<open>The address decoder stays inside the frame\<close>

lemma decode_station_safe:
  assumes "len \<le> length data"
  shows "decode_station data off len \<noteq> None"
    and "decode_station data off len = Some (Inr (a, n)) \<Longrightarrow>
      n = 7 \<and> off + 7 \<le> len \<and> length (callsign a) = 6"
  using assms by (auto simp: decode_station_def slice_def split: if_splits)

lemma decode_hops_loop_safe:
  assumes "len \<le> length data" and "off \<le> len"
  shows "\<exists>r fr'. decode_hops_loop i fr data off len = Some (r, fr')
    \<and> (\<forall>n. r = Inr n \<longrightarrow> off \<le> n \<and> n \<le> len) \<and> f_hops fr' \<le> f_hops fr + (8 - i)
    \<and> length (f_repeaters fr') = length (f_repeaters fr)"
  using assms
proof (induction i fr data off len rule: decode_hops_loop.induct)
  case (1 i fr data off len)
  show ?case
  proof (cases "i \<ge> 8")
    case True
    then show ?thesis by (simp add: decode_hops_loop.simps)
  next
    case False
    from decode_station_safe [OF "1.prems"(1), of off] obtain r where
      r: "decode_station data off len = Some r" by blast
    show ?thesis
    proof (cases r)
      case (Inl e)
      with r False show ?thesis by (simp add: decode_hops_loop.simps)
    next
      case (Inr p)
      obtain a n where p: "p = (a, n)" by (cases p)
      with r Inr decode_station_safe(2) [OF "1.prems"(1), of off a n] have n: "n = 7" "off + 7 \<le> len" by auto
      let ?fr = "fr\<lparr>f_repeaters := (f_repeaters fr)[i := a], f_hops := f_hops fr + 1\<rparr>"
      show ?thesis
      proof (cases "PATTY_AX25_ADDR_OCTET_LAST (addr_ssid a)")
        case True
        with r Inr p n False show ?thesis by (simp add: decode_hops_loop.simps Let_def)
      next
        case nl: False
        have "decode_hops_loop i fr data off len = decode_hops_loop (i + 1) ?fr data (off + 7) len"
          using r Inr p n False nl by (subst decode_hops_loop.simps) (simp add: Let_def)
        moreover have "\<exists>r fr'. decode_hops_loop (i + 1) ?fr data (off + 7) len = Some (r, fr')
            \<and> (\<forall>n. r = Inr n \<longrightarrow> off + 7 \<le> n \<and> n \<le> len) \<and> f_hops fr' \<le> f_hops ?fr + (8 - (i + 1))
            \<and> length (f_repeaters fr') = length (f_repeaters ?fr)"
          using "1.IH" [of r p a n ?fr "off + n"] r Inr p n False nl "1.prems" by simp
        ultimately show ?thesis using False by fastforce
      qed
    qed
  qed
qed

lemma decode_address_safe:
  assumes "len \<le> length buf"
  shows "\<exists>r fr'. patty_ax25_frame_decode_address fr buf len = Some (r, fr')
    \<and> (\<forall>n. r = Inr n \<longrightarrow> 14 \<le> n \<and> n \<le> len \<and> f_hops fr' \<le> 8)
    \<and> length (f_repeaters fr') = length (f_repeaters fr)"
proof -
  obtain r1 where r1: "decode_station buf 0 len = Some r1"
    using decode_station_safe(1) [OF assms] by blast
  show ?thesis
  proof (cases r1)
    case (Inl e)
    with r1 show ?thesis by (simp add: patty_ax25_frame_decode_address_def)
  next
    case (Inr p)
    obtain d n where p: "p = (d, n)" by (cases p)
    with r1 Inr decode_station_safe(2) [OF assms, of 0 d n] have n: "n = 7" by simp
    obtain r2 where r2: "decode_station buf 7 len = Some r2"
      using decode_station_safe(1) [OF assms] by blast
    show ?thesis
    proof (cases r2)
      case (Inl e)
      with r1 Inr p n r2 show ?thesis by (simp add: patty_ax25_frame_decode_address_def)
    next
      case inr2: (Inr q)
      obtain s m where q: "q = (s, m)" by (cases q)
      with r2 inr2 decode_station_safe(2) [OF assms, of 7 s m] have m: "m = 7" "14 \<le> len" by auto
      have hops: "\<exists>r fr'. decode_hops (f\<lparr>f_hops := 0\<rparr>) buf 14 len = Some (r, fr')
          \<and> (\<forall>k. r = Inr k \<longrightarrow> 14 + k \<le> len \<and> f_hops fr' \<le> 8)
          \<and> length (f_repeaters fr') = length (f_repeaters f)" for f
      proof -
        obtain r fr' where l: "decode_hops_loop 0 (f\<lparr>f_hops := 0\<rparr>) buf 14 len = Some (r, fr')"
          and b: "\<forall>k. r = Inr k \<longrightarrow> 14 \<le> k \<and> k \<le> len" "f_hops fr' \<le> 8"
            "length (f_repeaters fr') = length (f_repeaters f)"
          using decode_hops_loop_safe [OF assms m(2), of 0 "f\<lparr>f_hops := 0\<rparr>"] by auto
        then show ?thesis by (cases r) (auto simp: decode_hops_def)
      qed
      define f where "f = (if PATTY_AX25_ADDR_SSID_C (addr_ssid d) \<noteq> PATTY_AX25_ADDR_SSID_C (addr_ssid s)
          then fr\<lparr>f_dest := d, f_src := s, f_cr := (if PATTY_AX25_ADDR_SSID_C (addr_ssid d)
                 then PATTY_AX25_FRAME_COMMAND else PATTY_AX25_FRAME_RESPONSE), f_version := PATTY_AX25_2_0\<rparr>
          else fr\<lparr>f_dest := d, f_src := s, f_cr := PATTY_AX25_FRAME_OLD, f_version := PATTY_AX25_OLD\<rparr>)"
      have reps: "length (f_repeaters f) = length (f_repeaters fr)" by (simp add: f_def)
      have "patty_ax25_frame_decode_address fr buf len
          = (if \<not> PATTY_AX25_ADDR_OCTET_LAST (addr_ssid s)
             then do { (r, frame5) \<leftarrow> decode_hops (f\<lparr>f_hops := 0\<rparr>) buf 14 len;
                       Some (map_sum id (\<lambda>decoded. 14 + decoded) r, frame5) }
             else Some (Inr 14, f\<lparr>f_hops := 0\<rparr>))"
        using r1 Inr p n r2 inr2 q m unfolding f_def
        by (simp add: patty_ax25_frame_decode_address_def Let_def)
      moreover obtain r fr' where h: "decode_hops (f\<lparr>f_hops := 0\<rparr>) buf 14 len = Some (r, fr')"
        "\<forall>k. r = Inr k \<longrightarrow> 14 + k \<le> len \<and> f_hops fr' \<le> 8"
        "length (f_repeaters fr') = length (f_repeaters f)"
        using hops by blast
      ultimately show ?thesis using m reps by (cases r) auto
    qed
  qed
qed

section \<open>Properties\<close>

text \<open>The octets of an I or UI frame with information, decoded in front of any \<open>rest\<close>.\<close>

lemma frame_octets_decode:
  assumes ok: "frame_addr_ok frame" and c: "info_control (f_control frame)"
    and bs: "f_info frame = Some bs" "bs \<noteq> []" "f_infolen frame = of_nat (length bs)" "length bs < 2 ^ 63"
    and q: "length (f_repeaters q) = 8"
  shows "\<exists>off fr k r.
      patty_ax25_frame_decode_address q (frame_octets frame @ rest) (length (frame_octets frame)) = Some (Inr off, fr)
    \<and> patty_ax25_frame_decode_control fr (f_format frame) (frame_octets frame @ rest) off (length (frame_octets frame))
        = Some (Inr k, r)
    \<and> int off + k = int (length (frame_octets frame))
    \<and> same_station (f_dest r) (f_dest frame) \<and> same_station (f_src r) (f_src frame)
    \<and> f_hops r = f_hops frame
    \<and> list_all2 same_station (take (f_hops frame) (f_repeaters r)) (take (f_hops frame) (f_repeaters frame))
    \<and> f_cr r = f_cr frame \<and> f_control r = ctl_received (f_format frame) (f_control frame)
    \<and> (PATTY_AX25_FRAME_CONTROL_I (f_control frame) \<longrightarrow> f_type r = PATTY_AX25_FRAME_I
         \<and> f_nr r = decode_nr (f_control r) (f_format frame) \<and> f_ns r = decode_ns (f_control r) (f_format frame)
         \<and> f_pf r = decode_pf (f_control r) (f_format frame))
    \<and> f_proto r = f_proto frame \<and> unat (f_infolen r) = length bs
    \<and> map_option (take (length bs)) (f_info r) = Some bs"
proof -
  have small: "unat (f_infolen frame) = length bs"
    unfolding bs(3) by (subst unat_of_nat) (use bs(4) in simp)
  then have nz: "f_infolen frame \<noteq> 0" using bs(2) by auto
  define ctl st pid n where "ctl = ctl_octets (f_format frame) (f_control frame)"
    and "st = frame_stations frame False" and "pid = f_proto frame" and "n = length (frame_octets frame)"
  obtain d fd s fs rs where st3: "st = (d, fd) # (s, fs) # rs" and rs: "map fst rs = take (f_hops frame) (f_repeaters frame)"
    and dsf: "d = f_dest frame" "s = f_src frame" "cr_of fd fs = f_cr frame"
    by (cases "f_cr frame") (auto simp: st_def frame_stations_def Let_def comp_def cr_of_def)
  note st_ok = frame_stations_ok [OF ok, of False, folded st_def]
  have lrs: "length rs = f_hops frame" "f_hops frame \<le> 8"
    using st_ok(2) st3 ok by (simp_all add: frame_addr_ok_def)
  have oct: "frame_octets frame = wire st @ ctl @ [pid] @ bs"
    using c bs(1) nz small
    by (auto simp: frame_octets_def proto_octets_def info_control_def ctl_def st_def pid_def)
  have lw: "length (wire st) = 7 * (2 + f_hops frame)"
    using wire_length [of st] st_ok by (auto dest: station_ok_length)
  have n: "n = 7 * (2 + f_hops frame) + length ctl + 1 + length bs" by (simp add: n_def oct lw)
  obtain fr where addr: "patty_ax25_frame_decode_address q (wire st @ (ctl @ [pid] @ bs @ rest)) n
      = Some (Inr (7 * (2 + f_hops frame)), fr)"
    and fr: "same_station (f_dest fr) d" "same_station (f_src fr) s" "f_hops fr = f_hops frame"
      "list_all2 same_station (take (f_hops frame) (f_repeaters fr)) (map fst rs)" "f_cr fr = cr_of fd fs"
    using decode_address_wire [of d fd s fs rs n "length ctl + 1 + length bs" "ctl @ [pid] @ bs @ rest" q]
      st_ok(1) lrs q n lw st3 by auto
  obtain r where cl: "classify_control ((clear_control fr)\<lparr>f_control := ctl_received (f_format frame) (f_control frame),
        f_format := f_format frame\<rparr>) (f_format frame) = Some r"
    and ty: "f_type r = PATTY_AX25_FRAME_I \<or> f_type r = PATTY_AX25_FRAME_UI"
    and same: "f_control r = ctl_received (f_format frame) (f_control frame)" "f_dest r = f_dest fr"
      "f_src r = f_src fr" "f_repeaters r = f_repeaters fr" "f_hops r = f_hops fr" "f_cr r = f_cr fr"
    and seqs: "PATTY_AX25_FRAME_CONTROL_I (f_control frame) \<longrightarrow> f_type r = PATTY_AX25_FRAME_I
      \<and> f_nr r = decode_nr (ctl_received (f_format frame) (f_control frame)) (f_format frame)
      \<and> f_ns r = decode_ns (ctl_received (f_format frame) (f_control frame)) (f_format frame)
      \<and> f_pf r = decode_pf (ctl_received (f_format frame) (f_control frame)) (f_format frame)"
    by (rule classify_decode_info [OF c, where fr = fr and fmt = "f_format frame"])
  have "patty_ax25_frame_decode_control fr (f_format frame) (wire st @ ctl @ [pid] @ bs @ rest)
        (7 * (2 + f_hops frame)) n
      = Some (Inr (int n - int (7 * (2 + f_hops frame))),
              r\<lparr>f_proto := pid, f_info := Some (bs @ rest), f_infolen := of_nat (length bs)\<rparr>)"
    unfolding ctl_def by (rule decode_control_info [OF c lw _ cl ty]) (simp add: n ctl_def)
  with addr fr same seqs dsf rs small bs(3) show ?thesis
    unfolding n_def [symmetric] unfolding oct
    by (intro exI [of _ "7 * (2 + f_hops frame)"] exI [of _ fr] exI [of _ "int n - int (7 * (2 + f_hops frame))"]
        exI [of _ "r\<lparr>f_proto := pid, f_info := Some (bs @ rest), f_infolen := of_nat (length bs)\<rparr>"])
      (simp add: pid_def del: wire.simps)
qed

text \<open>
  C5: Frame round trip. An I or UI frame with valid stations and a non-empty information
  field, encoded into a buffer with room for it, is decoded to the same stations, path,
  direction, control field, protocol and information, and the decoder consumes exactly the
  octets written.
\<close>
theorem frame_roundtrip:
  assumes "frame_addr_ok frame" and "info_control (f_control frame)"
    and "f_info frame = Some bs" and "bs \<noteq> []" and "f_infolen frame = of_nat (length bs)"
    and "7 * (2 + f_hops frame) + 3 + length bs \<le> len" and "len \<le> length buf" and "len < 2 ^ 63"
    and "length (f_repeaters q) = 8"
  shows "\<exists>n buf' off fr k out.
      patty_ax25_frame_encode frame buf len = Some (Inr n, buf')
    \<and> length buf' = length buf \<and> n \<le> len
    \<and> patty_ax25_frame_decode_address q buf' n = Some (Inr off, fr)
    \<and> patty_ax25_frame_decode_control fr (f_format frame) buf' off n = Some (Inr k, out)
    \<and> int off + k = int n
    \<and> same_station (f_dest out) (f_dest frame) \<and> same_station (f_src out) (f_src frame)
    \<and> f_hops out = f_hops frame
    \<and> list_all2 same_station (take (f_hops frame) (f_repeaters out)) (take (f_hops frame) (f_repeaters frame))
    \<and> f_cr out = f_cr frame \<and> f_control out = ctl_received (f_format frame) (f_control frame)
    \<and> f_proto out = f_proto frame \<and> unat (f_infolen out) = length bs
    \<and> map_option (take (length bs)) (f_info out) = Some bs"
proof -
  let ?n = "length (frame_octets frame)"
  have small: "unat (f_infolen frame) = length bs" "length bs < 2 ^ 63"
    unfolding assms(5) by (subst unat_of_nat; use assms(6-8) in simp) (use assms(6-8) in simp)
  have enc: "patty_ax25_frame_encode frame buf len = Some (Inr ?n, frame_octets frame @ drop ?n buf)"
    by (rule frame_encode_octets) (use assms small in auto)
  have n: "?n \<le> len"
    using frame_octets_length [OF assms(1,3)] assms(6) small(1) by simp
  obtain off fr k r where "patty_ax25_frame_decode_address q (frame_octets frame @ drop ?n buf) ?n = Some (Inr off, fr)"
    and "patty_ax25_frame_decode_control fr (f_format frame) (frame_octets frame @ drop ?n buf) off ?n = Some (Inr k, r)"
    and "int off + k = int ?n" and "same_station (f_dest r) (f_dest frame) \<and> same_station (f_src r) (f_src frame)
    \<and> f_hops r = f_hops frame
    \<and> list_all2 same_station (take (f_hops frame) (f_repeaters r)) (take (f_hops frame) (f_repeaters frame))
    \<and> f_cr r = f_cr frame \<and> f_control r = ctl_received (f_format frame) (f_control frame)
    \<and> f_proto r = f_proto frame \<and> unat (f_infolen r) = length bs
    \<and> map_option (take (length bs)) (f_info r) = Some bs"
    using frame_octets_decode [OF assms(1-5) small(2) assms(9), of "drop ?n buf"] by blast
  with enc n assms(7) show ?thesis
    by (intro exI [of _ ?n] exI [of _ "frame_octets frame @ drop ?n buf"] exI [of _ off] exI [of _ fr]
        exI [of _ k] exI [of _ r]) simp
qed

definition sample_frame :: frame where
  "sample_frame = frame_zero\<lparr>f_dest := addr_of [0x41] 1, f_src := addr_of [0x42] 2, f_control := 0x54,
     f_cr := PATTY_AX25_FRAME_COMMAND, f_proto := 0xf0, f_info := Some [1, 2], f_infolen := 2\<rparr>"

lemma sample_frame_ok: "frame_addr_ok sample_frame" "info_control (f_control sample_frame)"
proof -
  have "station_chars (callsign (addr_of [0x41] 1)) False" "station_chars (callsign (addr_of [0x42] 2)) False"
    by code_simp+
  then have "station_ok (callsign (addr_of [0x41] 1))" "station_ok (callsign (addr_of [0x42] 2))"
    by (simp_all add: station_ok_iff addr_of_def)
  then show "frame_addr_ok sample_frame" by (simp add: frame_addr_ok_def frame_zero_def sample_frame_def)
  show "info_control (f_control sample_frame)" by (simp add: info_control_def control_defs sample_frame_def)
qed

lemma frame_roundtrip_witness:
  "\<exists>n buf' off fr k out.
      patty_ax25_frame_encode sample_frame (replicate 32 0) 32 = Some (Inr n, buf')
    \<and> patty_ax25_frame_decode_address frame_zero buf' n = Some (Inr off, fr)
    \<and> patty_ax25_frame_decode_control fr (f_format sample_frame) buf' off n = Some (Inr k, out)
    \<and> map_option (take (length [1, 2 :: byte])) (f_info out) = Some [1, 2]"
proof -
  have "f_info sample_frame = Some [1, 2]" "[1, 2 :: byte] \<noteq> []"
    "f_infolen sample_frame = of_nat (length [1, 2 :: byte])"
    "7 * (2 + f_hops sample_frame) + 3 + length [1, 2 :: byte] \<le> 32" "32 \<le> length (replicate 32 (0 :: byte))"
    "32 < (2 :: nat) ^ 63" "length (f_repeaters frame_zero) = 8"
    by (simp_all add: sample_frame_def frame_zero_def)
  from frame_roundtrip [OF sample_frame_ok this] show ?thesis by metis
qed

text \<open>
  C24: A reply goes back the way the frame came. The address field that
  \<open>patty_ax25_frame_encode_reply_to\<close> starts with is decoded to the sender of the frame as the
  destination, its destination as the source, its path reversed, and the opposite direction.
\<close>
theorem reply_address_roundtrip:
  assumes "frame_addr_ok frame" and "n = 7 * (2 + f_hops frame)" and "n \<le> len" and "len \<le> length buf"
    and "length (f_repeaters q) = 8"
  shows "\<exists>buf' fr. encode_address frame buf True len = Some (Inr n, buf')
    \<and> patty_ax25_frame_decode_address q buf' n = Some (Inr n, fr)
    \<and> same_station (f_dest fr) (f_src frame) \<and> same_station (f_src fr) (f_dest frame)
    \<and> f_hops fr = f_hops frame
    \<and> list_all2 same_station (rev (take (f_hops frame) (f_repeaters fr)))
         (take (f_hops frame) (f_repeaters frame))
    \<and> f_cr fr = (case f_cr frame of
          PATTY_AX25_FRAME_COMMAND \<Rightarrow> PATTY_AX25_FRAME_RESPONSE
        | PATTY_AX25_FRAME_RESPONSE \<Rightarrow> PATTY_AX25_FRAME_COMMAND
        | PATTY_AX25_FRAME_OLD \<Rightarrow> PATTY_AX25_FRAME_OLD)"
proof -
  define st where "st = frame_stations frame True"
  obtain d fd s fs rs where st3: "st = (d, fd) # (s, fs) # rs"
    and rs: "map fst rs = rev (take (f_hops frame) (f_repeaters frame))"
    and dsf: "d = f_src frame" "s = f_dest frame"
      "cr_of fd fs = (case f_cr frame of
          PATTY_AX25_FRAME_COMMAND \<Rightarrow> PATTY_AX25_FRAME_RESPONSE
        | PATTY_AX25_FRAME_RESPONSE \<Rightarrow> PATTY_AX25_FRAME_COMMAND
        | PATTY_AX25_FRAME_OLD \<Rightarrow> PATTY_AX25_FRAME_OLD)"
    by (cases "f_cr frame") (auto simp: st_def frame_stations_def Let_def comp_def cr_of_def)
  note ok = frame_stations_ok [OF assms(1), of True, folded st_def]
  have lrs: "length rs = f_hops frame" "f_hops frame \<le> 8"
    using ok(2) st3 assms(1) by (simp_all add: frame_addr_ok_def)
  have lw: "length (wire st) = n"
    using wire_length [of st] ok assms(2) by (auto dest: station_ok_length)
  have enc: "encode_address frame buf True len = Some (Inr n, wire st @ drop n buf)"
    unfolding st_def assms(2) by (rule encode_address_wire) (use assms in auto)
  have "length rs \<le> 8" "n = 7 * (2 + length rs) + 0" using lrs assms(2) by simp_all
  moreover have "n \<le> length (wire ((d, fd) # (s, fs) # rs) @ drop n buf)"
    using lw unfolding st3 length_append by linarith
  ultimately obtain fr where addr: "patty_ax25_frame_decode_address q (wire st @ drop n buf) n
      = Some (Inr (7 * (2 + length rs)), fr)"
    and fr: "same_station (f_dest fr) d" "same_station (f_src fr) s" "f_hops fr = length rs"
      "list_all2 same_station (take (length rs) (f_repeaters fr)) (map fst rs)" "f_cr fr = cr_of fd fs"
    using decode_address_wire [OF ok(1) [unfolded st3] _ _ _ assms(5)] unfolding st3 by blast
  have "list_all2 same_station (rev (take (f_hops frame) (f_repeaters fr))) (take (f_hops frame) (f_repeaters frame))"
    using fr(4) unfolding rs lrs by (metis list_all2_rev rev_rev_ident)
  with enc addr fr dsf lrs assms(2) show ?thesis by auto
qed

lemma reply_address_roundtrip_witness:
  "\<exists>buf' fr. encode_address sample_frame (replicate 14 0) True 14 = Some (Inr 14, buf')
    \<and> patty_ax25_frame_decode_address frame_zero buf' 14 = Some (Inr 14, fr)
    \<and> same_station (f_dest fr) (f_src sample_frame)"
proof -
  have "14 = 7 * (2 + f_hops sample_frame)" "(14 :: nat) \<le> 14" "14 \<le> length (replicate 14 (0 :: byte))"
    "length (f_repeaters frame_zero) = 8"
    by (simp_all add: sample_frame_def frame_zero_def)
  from reply_address_roundtrip [OF sample_frame_ok(1) this] show ?thesis by blast
qed

text \<open>
  C11: XID round trip. Parameters that fit their fields, encoded into a buffer of at least 40
  bytes and decoded again, come back with the same values, restricted to the six the encoder
  knows: the transmit limits are never sent.
\<close>
theorem xid_roundtrip:
  assumes "params_fit p" and "40 \<le> len" and "len \<le> length buf"
  shows "\<exists>n buf'. patty_ax25_frame_encode_xid p buf len = Some (Inr n, buf') \<and> n \<le> 40
    \<and> patty_ax25_frame_decode_xid q buf' 0 n = Some (Inr n, params_sent p)"
  using encode_xid_octets [of p len buf] decode_xid_octets [OF assms(1) refl, of q] xid_octets_length [of p]
    assms(2,3) by (auto intro!: exI)

lemma xid_roundtrip_witness:
  "\<exists>n buf'. patty_ax25_frame_encode_xid (params_zero\<lparr>p_flags := 0x7ff, p_classes := 0x2100,
        p_hdlc := 0x868a22, p_info_rx := 2048, p_window_rx := 127\<rparr>) (replicate 40 0) 40 = Some (Inr n, buf') \<and> n \<le> 40
    \<and> patty_ax25_frame_decode_xid params_zero buf' 0 n = Some (Inr n, params_sent (params_zero\<lparr>p_flags := 0x7ff,
        p_classes := 0x2100, p_hdlc := 0x868a22, p_info_rx := 2048, p_window_rx := 127\<rparr>))"
  by (rule xid_roundtrip) (simp_all add: params_fit_def params_zero_def mask_eq_decr_exp)

text \<open>
  C25: The address decoder is memory safe. On a buffer of at least \<open>len\<close> bytes it reads nothing
  outside of it whatever it contains, and a success stands for 14 to \<open>len\<close> bytes and at most
  eight repeaters.
\<close>
theorem frame_decode_address_safe:
  assumes "len \<le> length buf"
  shows "\<exists>r fr'. patty_ax25_frame_decode_address fr buf len = Some (r, fr')
    \<and> (case r of Inl e \<Rightarrow> True | Inr n \<Rightarrow> 14 \<le> n \<and> n \<le> len \<and> f_hops fr' \<le> 8)"
proof -
  obtain r fr' where "patty_ax25_frame_decode_address fr buf len = Some (r, fr')"
    "\<forall>n. r = Inr n \<longrightarrow> 14 \<le> n \<and> n \<le> len \<and> f_hops fr' \<le> 8"
    using decode_address_safe [OF assms, of fr] by blast
  then show ?thesis by (cases r) auto
qed

lemma frame_decode_address_safe_witness:
  "\<exists>r fr'. patty_ax25_frame_decode_address frame_zero [0xff, 0x41] 2 = Some (r, fr')
    \<and> (case r of Inl e \<Rightarrow> True | Inr n \<Rightarrow> 14 \<le> n \<and> n \<le> 2 \<and> f_hops fr' \<le> 8)"
  by (rule frame_decode_address_safe) simp

text \<open>
  C39: The control decoder is not. A received frame that ends after its address field makes it
  read behind the frame; what it takes for an I frame then has an information length that has
  wrapped around to \<open>2 ^ 64 - 2\<close>, and it still reports success.
\<close>
theorem decode_control_overread:
  assumes "b AND 1 = 0"
  shows "patty_ax25_frame_decode_control fr fmt bs (length bs) (length bs) = None
    \<and> (\<exists>out. patty_ax25_frame_decode_control fr PATTY_AX25_FRAME_NORMAL (bs @ b # p # rest) (length bs) (length bs)
           = Some (Inr 0, out) \<and> f_infolen out = - 2)"
proof -
  have "PATTY_AX25_FRAME_CONTROL_I (ucast b)"
  proof -
    have "(ucast b :: u16) AND 1 = ucast (b AND 1)" by (rule word16_eqI) (auto simp: bits)
    with assms show ?thesis by (simp add: PATTY_AX25_FRAME_CONTROL_I_def)
  qed
  then have "\<exists>out. patty_ax25_frame_decode_control fr PATTY_AX25_FRAME_NORMAL (bs @ b # p # rest) (length bs) (length bs)
           = Some (Inr 0, out) \<and> f_infolen out = - 2"
    by (simp add: patty_ax25_frame_decode_control_def read_control_def rd_def nth_append
        classify_control_def Let_def)
  moreover have "patty_ax25_frame_decode_control fr fmt bs (length bs) (length bs) = None"
    by (cases fmt) (simp_all add: patty_ax25_frame_decode_control_def read_control_def rd_def Let_def)
  ultimately show ?thesis by blast
qed

lemma decode_control_overread_witness:
  "patty_ax25_frame_decode_control frame_zero PATTY_AX25_FRAME_NORMAL [] 0 0 = None
    \<and> (\<exists>out. patty_ax25_frame_decode_control frame_zero PATTY_AX25_FRAME_NORMAL [0x54, 0xf0] 0 0
           = Some (Inr 0, out) \<and> f_infolen out = - 2)"
  using decode_control_overread [where b = "0x54" and fr = frame_zero
      and fmt = PATTY_AX25_FRAME_NORMAL and bs = "[]" and p = "0xf0" and rest = "[]"] by simp

text \<open>
  XID lengths are not bounded. A group header that claims more parameter bytes than the
  frame holds makes the decoder read behind the buffer, and a parameter of more than four bytes
  makes it shift by 32 or more.
\<close>
theorem decode_xid_overread:
  assumes "0 < n" and "n < 256"
  shows "patty_ax25_frame_decode_xid p [0x82, 0x80, 0, of_nat n] 0 4 = None
    \<and> patty_ax25_frame_decode_xid p [0x82, 0x80, 0, 7, 2, 5, 1, 1, 1, 1, 1] 0 11 = None"
proof -
  have n: "unat (of_nat n :: byte) = n" using assms by (simp add: unat_of_nat)
  have "xid_params_loop params_zero [0x82, 0x80, 0, of_nat n] 4 (4 + n) = None"
    using assms by (subst xid_params_loop.simps) (simp add: rd_def)
  moreover have "xid_params_loop params_zero [0x82, 0x80, 0, 7, 2, 5, 1, 1, 1, 1, 1] 4 11 = None"
    by code_simp
  ultimately show ?thesis
    using n by (simp add: patty_ax25_frame_decode_xid_def decode_xid_loop.simps [of p]
        decode_xid_group_def rd_def Let_def PATTY_AX25_FRAME_XID_GROUP_ISO8885_def
        PATTY_AX25_FRAME_XID_GROUP_PARAMS_def nth_Cons')
qed

lemma decode_xid_overread_witness:
  "patty_ax25_frame_decode_xid params_zero [0x82, 0x80, 0, 9] 0 4 = None"
  using decode_xid_overread [of 9 params_zero] by simp

end
