(* ===== verification/Patty_Print.thy ===== *)
theory Patty_Print
  imports Patty_Format Patty_Frame
begin

text \<open>
  \<open>src/src/print.c\<close>: frames, parameters and raw bytes as text. A stream is its descriptor, and each
  call of \<open>fprintf\<close> or \<open>fputc\<close> is one write that the script may let fail; where the code ignores the
  result, so does the model. The strings that a run of calls prints, each with its error exit, are a
  list that \<open>print_all\<close> prints up to the first failure. A dump is read back by \<open>undump\<close>.
\<close>

section \<open>Operations\<close>

definition fprintf :: "int \<Rightarrow> cstring \<Rightarrow> world \<Rightarrow> int \<times> world" where
  "fprintf fh s w = sys_write fh s w"

fun print_all :: "int \<Rightarrow> cstring list \<Rightarrow> world \<Rightarrow> int \<times> world" where
  "print_all fh [] w = (0, w)"
| "print_all fh (s # ss) w = (case fprintf fh s w of (r, w) \<Rightarrow> if r < 0 then (-1, w) else print_all fh ss w)"

definition printable :: "byte \<Rightarrow> bool" where
  "printable c \<longleftrightarrow> 0x20 \<le> c \<and> c < 0x7f"

definition frame_type :: "byte \<Rightarrow> cstring" where
  "frame_type ty =
     (if ty = PATTY_AX25_FRAME_I then cstr ''I''
      else if ty = PATTY_AX25_FRAME_RR then cstr ''RR''
      else if ty = PATTY_AX25_FRAME_RNR then cstr ''RNR''
      else if ty = PATTY_AX25_FRAME_REJ then cstr ''REJ''
      else if ty = PATTY_AX25_FRAME_SREJ then cstr ''SREJ''
      else if ty = PATTY_AX25_FRAME_SABM then cstr ''SABM''
      else if ty = PATTY_AX25_FRAME_SABME then cstr ''SABME''
      else if ty = PATTY_AX25_FRAME_DISC then cstr ''DISC''
      else if ty = PATTY_AX25_FRAME_DM then cstr ''DM''
      else if ty = PATTY_AX25_FRAME_UA then cstr ''UA''
      else if ty = PATTY_AX25_FRAME_FRMR then cstr ''FRMR''
      else if ty = PATTY_AX25_FRAME_UI then cstr ''UI''
      else if ty = PATTY_AX25_FRAME_XID then cstr ''XID''
      else if ty = PATTY_AX25_FRAME_TEST then cstr ''TEST''
      else cstr ''unknown'')"

definition frame_cr :: "frame_cr \<Rightarrow> cstring" where
  "frame_cr cr = (case cr of
       PATTY_AX25_FRAME_COMMAND \<Rightarrow> cstr ''cmd'' | PATTY_AX25_FRAME_RESPONSE \<Rightarrow> cstr ''res'' | _ \<Rightarrow> cstr ''?'')"

definition print_addr :: "int \<Rightarrow> addr \<Rightarrow> world \<Rightarrow> int \<times> world" where
  "print_addr fh addr w =
     (case patty_ax25_ntop addr (PATTY_AX25_ADDRSTRLEN + 1) of
        (Inl e, _) \<Rightarrow> (-1, w\<lparr>err := Some e\<rparr>)
      | (Inr _, buf) \<Rightarrow> (0, snd (fprintf fh (takeWhile (\<lambda>c. c \<noteq> 0) buf) w)))"

text \<open>The results of the calls are ignored; there are eight places for repeaters.\<close>

definition print_frame_addrs :: "int \<Rightarrow> frame \<Rightarrow> world \<Rightarrow> (int \<times> world) option" where
  "print_frame_addrs fh frame w =
     (if f_hops frame > length (f_repeaters frame) then None
      else let w = snd (print_addr fh (f_src frame) w);
               w = snd (fprintf fh (cstr ''>'') w);
               w = snd (print_addr fh (f_dest frame) w)
           in Some (0, fold (\<lambda>i w. snd (print_addr fh (f_repeaters frame ! i) (snd (fprintf fh (cstr '','') w))))
                         [0..<f_hops frame] w))"

text \<open>What is printed behind the addresses, by the class of the control field.\<close>

definition header_texts :: "frame \<Rightarrow> cstring list" where
  "header_texts frame =
     (let start = cstr '' ('' @ frame_type (f_type frame) @ cstr '' '' @ frame_cr (f_cr frame);
          flag = cstr '' P/F='' @ fmt_d (uint (f_pf frame));
          nr = cstr '' N(R)='' @ fmt_d (uint (f_nr frame));
          info = cstr '' info='' @ fmt_u (unat (f_infolen frame)) in
      if PATTY_AX25_FRAME_CONTROL_I (f_control frame)
      then [start @ nr @ cstr '' N(S)='' @ fmt_d (uint (f_ns frame)) @ flag @ info @ cstr '')'']
      else if PATTY_AX25_FRAME_CONTROL_U (f_control frame)
      then [start @ flag] @ (if PATTY_AX25_FRAME_CONTROL_UI (f_control frame) then [info] else []) @ [cstr '')'']
      else if PATTY_AX25_FRAME_CONTROL_S (f_control frame) then [start @ nr @ flag @ cstr '')'']
      else [])"

definition patty_print_frame_header :: "int \<Rightarrow> frame \<Rightarrow> world \<Rightarrow> (int \<times> world) option" where
  "patty_print_frame_header fh frame w =
     do { (r, w) \<leftarrow> print_frame_addrs fh frame w;
          if r < 0 then Some (-1, w)
          else case print_all fh (header_texts frame) w of (r, w) \<Rightarrow>
            Some (if r < 0 then (-1, w) else fprintf fh [0x0a] w) }"

definition classes_flags :: "(u32 \<times> string) list" where
  "classes_flags = [(PATTY_AX25_PARAM_CLASSES_ABM, ''ABM''), (PATTY_AX25_PARAM_CLASSES_HALF_DUPLEX, ''half-duplex''),
     (PATTY_AX25_PARAM_CLASSES_FULL_DUPLEX, ''full-duplex'')]"

definition hdlc_flags :: "(u32 \<times> string) list" where
  "hdlc_flags = [(PATTY_AX25_PARAM_HDLC_REJ, ''REJ''), (PATTY_AX25_PARAM_HDLC_SREJ, ''SREJ''),
     (PATTY_AX25_PARAM_HDLC_XADDR, ''extended addresses''), (PATTY_AX25_PARAM_HDLC_MODULO_8, ''modulo 8''),
     (PATTY_AX25_PARAM_HDLC_MODULO_128, ''modulo 128''), (PATTY_AX25_PARAM_HDLC_TEST, ''TEST''),
     (PATTY_AX25_PARAM_HDLC_FCS_16, ''16-bit FCS''), (PATTY_AX25_PARAM_HDLC_SYNC_TX, ''synchronous TX''),
     (PATTY_AX25_PARAM_HDLC_SREJ_MULTI, ''multiple SREJ'')]"

definition params_fields :: "params \<Rightarrow> (nat \<times> size_t \<times> string) list" where
  "params_fields p =
     [(PATTY_AX25_PARAM_INFO_TX, drop_bit 3 (p_info_tx p), ''I Field Length TX''),
      (PATTY_AX25_PARAM_INFO_RX, drop_bit 3 (p_info_rx p), ''I Field Length RX''),
      (PATTY_AX25_PARAM_WINDOW_TX, p_window_tx p, ''Window Size TX''),
      (PATTY_AX25_PARAM_WINDOW_RX, p_window_rx p, ''Window Size RX''),
      (PATTY_AX25_PARAM_ACK, p_ack p, ''Ack timer''),
      (PATTY_AX25_PARAM_RETRY, p_retry p, ''Retry'')]"

definition flag_texts :: "u32 \<Rightarrow> (u32 \<times> string) list \<Rightarrow> cstring list" where
  "flag_texts value flags =
     map (\<lambda>(_, name). cstr ''            > '' @ cstr name @ [0x0a]) (filter (\<lambda>(flag, _). value AND flag \<noteq> 0) flags)"

text \<open>Only the heading of the HDLC functions is printed without a check.\<close>

definition patty_print_params :: "int \<Rightarrow> params \<Rightarrow> world \<Rightarrow> int \<times> world" where
  "patty_print_params fh p w =
     (case print_all fh ([cstr ''    XID parameters:'' @ [0x0a], cstr ''        Classes of procedures:'' @ [0x0a]]
                         @ flag_texts (p_classes p) classes_flags) w of (r, w) \<Rightarrow>
      if r < 0 then (-1, w)
      else let w = snd (fprintf fh (cstr ''        HDLC optional functions:'' @ [0x0a]) w) in
        print_all fh (flag_texts (p_hdlc p) hdlc_flags
          @ map (\<lambda>(_, value, name). cstr ''        '' @ cstr name @ cstr '': '' @ fmt_u (unat value) @ [0x0a])
              (filter (\<lambda>(flag, _). p_flags p AND push_bit flag 1 \<noteq> 0) (params_fields p))) w)"

text \<open>A line of the dump: the offset, sixteen places in pairs, and the characters.\<close>

definition dump_cell :: "byte list \<Rightarrow> nat \<Rightarrow> nat \<Rightarrow> nat \<Rightarrow> cstring list" where
  "dump_cell data len i x =
     (if even x then [cstr '' ''] else [])
     @ [if i + x < len then fmt_x 2 (unat (data ! (i + x))) else cstr ''  '']"

definition dump_row :: "byte list \<Rightarrow> nat \<Rightarrow> nat \<Rightarrow> cstring list" where
  "dump_row data len i =
     [fmt_x 8 i @ cstr '':''] @ concat (map (dump_cell data len i) [0..<16]) @ [cstr ''  '']
     @ map (\<lambda>x. [if printable (data ! (i + x)) then data ! (i + x) else 0x2e]) [0..<min 16 (len - i)]
     @ [[0x0a]]"

function dump_rows :: "int \<Rightarrow> byte list \<Rightarrow> nat \<Rightarrow> nat \<Rightarrow> world \<Rightarrow> int \<times> world" where
  "dump_rows fh data len i w =
     (if i < len
      then case print_all fh (dump_row data len i) w of (r, w) \<Rightarrow>
        if r < 0 then (-1, w) else dump_rows fh data len (i + 16) w
      else (0, w))"
  by pat_completeness auto
termination by (relation "measure (\<lambda>(fh, data, len, i, w). len - i)") auto

declare dump_rows.simps [simp del]

text \<open>Reading behind the data is undefined.\<close>

definition patty_print_hexdump :: "int \<Rightarrow> byte list \<Rightarrow> nat \<Rightarrow> world \<Rightarrow> (int \<times> world) option" where
  "patty_print_hexdump fh data len w = (if len > length data then None else Some (dump_rows fh data len 0 w))"

section \<open>Reading a dump back\<close>

definition hex_pair :: "byte \<Rightarrow> byte \<Rightarrow> byte list" where
  "hex_pair a b = (if a = 0x20 then [] else [of_nat (number 16 [hex_value a, hex_value b])])"

fun read_groups :: "nat \<Rightarrow> byte list \<Rightarrow> byte list" where
  "read_groups (Suc n) (s # a # b # c # d # rest) = hex_pair a b @ hex_pair c d @ read_groups n rest"
| "read_groups n s = []"

function undump :: "byte list \<Rightarrow> byte list" where
  "undump s =
     (if s = [] then [] else read_groups 8 (drop 9 s) @ undump (tl (dropWhile (\<lambda>c. c \<noteq> 0x0a) s)))"
  by pat_completeness auto
termination
proof (relation "measure length")
  fix s :: "byte list"
  assume "s \<noteq> []"
  then have "length s \<noteq> 0" by simp
  moreover have "length (dropWhile (\<lambda>c. c \<noteq> 0x0a) s) \<le> length s" by (rule length_dropWhile_le)
  ultimately show "(tl (dropWhile (\<lambda>c. c \<noteq> 0x0a) s), s) \<in> measure length"
    unfolding in_measure length_tl by linarith
qed simp

declare undump.simps [simp del]

lemma print_all_quiet:
  "script w = [] \<Longrightarrow> \<exists>w'. print_all fh ss w = (0, w') \<and> script w' = [] \<and> stream_of fh (out w') = stream_of fh (out w) @ concat ss
     \<and> err w' = err w"
proof (induction ss arbitrary: w)
  case (Cons s ss)
  let ?w = "w\<lparr>out := out w @ [(fh, s)]\<rparr>"
  have "fprintf fh s w = (int (length s), ?w)" using Cons.prems by (simp add: fprintf_def sys_write_def sys_call_def)
  with Cons.IH [of ?w] Cons.prems show ?case by auto
qed simp

lemma fmt_x_byte:
  "\<exists>a b. fmt_x 2 (unat c) = [a, b] \<and> hex_pair a b = [c] \<and> a \<noteq> 0x0a \<and> b \<noteq> 0x0a" for c :: byte
proof -
  have "unat c < 2 ^ LENGTH(8)" by (rule unsigned_less)
  then have "length (fmt_x 2 (unat c)) = 2" by (intro fmt_x_length) simp_all
  then obtain a b where ab: "fmt_x 2 (unat c) = [a, b]" by (auto simp: length_Suc_conv numeral_2_eq_2)
  have "0x30 \<le> a" "0x30 \<le> b" using fmt_x_chars [of _ 2 "unat c"] by (simp_all add: ab)
  then have "a \<noteq> 0x20 \<and> a \<noteq> 0x0a \<and> b \<noteq> 0x0a" by (auto simp: word_le_nat_alt)
  moreover have "number 16 [hex_value a, hex_value b] = unat c" using hex_fmt_x [of 2 "unat c"] by (simp add: ab)
  ultimately show ?thesis using ab by (simp add: hex_pair_def)
qed

text \<open>The groups of a line hold the bytes of the data from its offset on.\<close>

definition dump_byte :: "byte list \<Rightarrow> nat \<Rightarrow> byte list" where
  "dump_byte data j = (if j < length data then [data ! j] else [])"

lemma dump_group:
  "\<exists>a b c d. concat (dump_cell data (length data) i (2 * g) @ dump_cell data (length data) i (Suc (2 * g))) = [0x20, a, b, c, d]
     \<and> 0x0a \<notin> {a, b, c, d}
     \<and> hex_pair a b @ hex_pair c d = dump_byte data (i + 2 * g) @ dump_byte data (i + Suc (2 * g))"
proof -
  have "\<exists>a b. (if j < length data then fmt_x 2 (unat (data ! j)) else cstr ''  '') = [a, b]
      \<and> 0x0a \<notin> {a, b} \<and> hex_pair a b = dump_byte data j" for j
  proof (cases "j < length data")
    case True
    with fmt_x_byte [of "data ! j"] show ?thesis by (force simp: dump_byte_def)
  next
    case False
    then show ?thesis by (simp add: dump_byte_def cstr_def hex_pair_def)
  qed
  from this [of "i + 2 * g"] this [of "i + Suc (2 * g)"] show ?thesis
    by (force simp: dump_cell_def cstr_def)
qed

lemma read_dump_groups:
  "\<exists>t. concat (concat (map (dump_cell data (length data) i) [2 * g..<2 * (g + n)])) = t \<and> length t = 5 * n \<and> 0x0a \<notin> set t
     \<and> (\<forall>rest. read_groups n (t @ rest) = concat (map (dump_byte data) [i + 2 * g..<i + 2 * (g + n)]))"
proof (induction n arbitrary: g)
  case (Suc n)
  obtain a b c d where first: "concat (dump_cell data (length data) i (2 * g) @ dump_cell data (length data) i (Suc (2 * g))) = [0x20, a, b, c, d]"
    and nl: "0x0a \<notin> {a, b, c, d}"
    and bytes: "hex_pair a b @ hex_pair c d = dump_byte data (i + 2 * g) @ dump_byte data (i + Suc (2 * g))"
    using dump_group by blast
  from Suc.IH [of "Suc g"] obtain t where t: "concat (concat (map (dump_cell data (length data) i) [2 * Suc g..<2 * (Suc g + n)])) = t"
    "length t = 5 * n" "0x0a \<notin> set t"
    "\<And>rest. read_groups n (t @ rest) = concat (map (dump_byte data) [i + 2 * Suc g..<i + 2 * (Suc g + n)])" by blast
  have split: "[2 * g..<2 * (g + Suc n)] = 2 * g # Suc (2 * g) # [2 * Suc g..<2 * (Suc g + n)]"
    "[i + 2 * g..<i + 2 * (g + Suc n)] = (i + 2 * g) # (i + Suc (2 * g)) # [i + 2 * Suc g..<i + 2 * (Suc g + n)]"
    by (simp_all add: upt_rec)
  have "concat (concat (map (dump_cell data (length data) i) [2 * g..<2 * (g + Suc n)])) = [0x20, a, b, c, d] @ t"
    unfolding split using first t(1) by simp
  moreover have "read_groups (Suc n) (([0x20, a, b, c, d] @ t) @ rest)
      = concat (map (dump_byte data) [i + 2 * g..<i + 2 * (g + Suc n)])" for rest
    unfolding split using bytes t(4) by (simp flip: append_assoc)
  ultimately show ?case using t(2,3) nl by (intro exI [of _ "[0x20, a, b, c, d] @ t"]) auto
qed simp

lemma dump_bytes_take: "concat (map (dump_byte data) [i..<i + n]) = take n (drop i data)"
proof (induction n)
  case (Suc n)
  then show ?case by (simp add: dump_byte_def take_Suc_conv_app_nth)
qed simp

lemma dump_row_reads:
  assumes "i < length data" and "length data \<le> 2 ^ 32"
  shows "undump (concat (dump_row data (length data) i) @ rest) = take 16 (drop i data) @ undump rest"
proof -
  obtain t where t: "concat (concat (map (dump_cell data (length data) i) [0..<16])) = t" "length t = 40" "0x0a \<notin> set t"
    "\<And>rest. read_groups 8 (t @ rest) = take 16 (drop i data)"
    using read_dump_groups [of data i 0 8] dump_bytes_take [of data i 16] by auto
  let ?chars = "map (\<lambda>x. if printable (data ! (i + x)) then data ! (i + x) else 0x2e) [0..<min 16 (length data - i)]"
  define R where "R = concat (dump_row data (length data) i)"
  have row: "R = fmt_x 8 i @ cstr '':'' @ t @ cstr ''  '' @ ?chars @ [0x0a]"
    unfolding R_def dump_row_def concat_append t(1) by simp
  have len: "length (fmt_x 8 i) = 8" using assms by (intro fmt_x_length) simp_all
  have "0x0a \<notin> set (fmt_x 8 i)"
    using fmt_x_chars [of "0x0a" 8 i] by (auto simp: word_le_nat_alt)
  moreover have "0x0a \<notin> set ?chars" by (auto simp: printable_def word_le_nat_alt)
  ultimately have "dropWhile (\<lambda>c. c \<noteq> 0x0a) (R @ rest) = 0x0a # rest"
    unfolding row using t(3) by (simp add: dropWhile_append cstr_def)
  moreover have "drop 9 (R @ rest) = t @ cstr ''  '' @ ?chars @ [0x0a] @ rest"
    unfolding row using len by (simp add: cstr_def)
  moreover have "R \<noteq> []" by (simp add: row)
  ultimately have "undump (R @ rest) = take 16 (drop i data) @ undump rest"
    by (subst undump.simps) (simp add: t(4) del: drop_append)
  then show ?thesis by (simp add: R_def)
qed

lemma dump_rows_reads:
  assumes "script w = []" and "length data \<le> 2 ^ 32"
  shows "\<exists>w' printed. dump_rows fh data (length data) i w = (0, w') \<and> script w' = [] \<and> err w' = err w
    \<and> stream_of fh (out w') = stream_of fh (out w) @ printed \<and> undump printed = drop i data"
  using assms(1,2)
proof (induction fh data "length data" i w rule: dump_rows.induct)
  case (1 fh data i w)
  show ?case
  proof (cases "i < length data")
    case False
    then show ?thesis using "1.prems" by (simp add: dump_rows.simps undump.simps)
  next
    case True
    obtain w1 where w1: "print_all fh (dump_row data (length data) i) w = (0, w1)" "script w1 = []" "err w1 = err w"
      "stream_of fh (out w1) = stream_of fh (out w) @ concat (dump_row data (length data) i)"
      using print_all_quiet [OF "1.prems"(1)] by blast
    with "1.hyps" [OF True w1(1) [symmetric]] "1.prems"(2) obtain w2 printed where
      "dump_rows fh data (length data) (i + 16) w1 = (0, w2)" "script w2 = []" "err w2 = err w"
      "stream_of fh (out w2) = stream_of fh (out w1) @ printed" "undump printed = drop (i + 16) data" by auto
    moreover have "take 16 (drop i data) @ drop (i + 16) data = drop i data"
      by (metis add.commute append_take_drop_id drop_drop)
    ultimately show ?thesis
      using True w1 dump_row_reads [OF True "1.prems"(2), of printed] by (simp add: dump_rows.simps)
  qed
qed

section \<open>Properties\<close>

text \<open>
  C17: A dump loses nothing. What patty_print_hexdump prints for up to 4 GiB of data, read back from
  its hexadecimal columns line by line, is the data, whatever its length and its characters are.
\<close>
theorem hexdump_roundtrip:
  assumes "script w = []" and "length data \<le> 2 ^ 32"
  shows "\<exists>w' printed. patty_print_hexdump fh data (length data) w = Some (0, w')
    \<and> stream_of fh (out w') = stream_of fh (out w) @ printed \<and> undump printed = data"
  using dump_rows_reads [OF assms, where i = 0 and fh = fh] by (auto simp: patty_print_hexdump_def)

lemma hexdump_roundtrip_witness:
  "\<exists>w' printed. patty_print_hexdump 1 [0x0a, 0x41, 0xff] (length [0x0a, 0x41, 0xff :: byte]) (world0 []) = Some (0, w')
    \<and> stream_of 1 (out w') = stream_of 1 (out (world0 [])) @ printed \<and> undump printed = [0x0a, 0x41, 0xff]"
  by (rule hexdump_roundtrip) (simp_all add: world0_def)

end
