(* ===== verification/Patty_Conf.thy ===== *)
theory Patty_Conf
  imports Patty_Util
begin

text \<open>
  The reader of configuration files, \<open>src/src/conf.c\<close>. The file is read into one buffer; the
  tokenizer walks over it with \<open>i\<close> and rewrites it in place at \<open>o\<close>, so that the tokens are C
  strings inside the buffer; at each newline the tokens of the line go to a handler.

  Modelled: \<open>file_read\<close>, the tokens, the three predicates on state changes, and \<open>patty_conf_read\<close>
  with its allocations, its handler (a parameter, given the buffer and the tokens) and its error
  exits. A store outside of the buffer is undefined (\<open>None\<close>). The list of tokens, of which only
  appending and the length are used, is a HOL list. \<open>conf_lines\<close> is the reference: a tokenizer
  that builds the tokens aside. The lemmas show that rewriting in place never overtakes reading,
  that the handler sees exactly the lines of the reference, and which words and lines these are for
  a file as people write it: \<open>row_text\<close> is a line with its blanks, its spellings and its comment, and
  \<open>file_lines\<close> gives the words.
\<close>

section \<open>Reading the file\<close>

text \<open>
  \<open>while (1)\<close> with \<open>st_blksize = blk\<close>. A block size of 0 (which \<open>fstat\<close> never reports) would never
  end.
\<close>

function file_loop :: "nat \<Rightarrow> byte list \<Rightarrow> nat \<Rightarrow> nat \<Rightarrow> world \<Rightarrow> (byte list option \<times> world) option" where
  "file_loop blk buf offset left w =
     (case sys_read (if left > blk then blk else left) w of
        (Inl e, w) \<Rightarrow> Some (None, w)
      | (Inr bs, w) \<Rightarrow>
          do { buf \<leftarrow> blit buf offset bs;
               if length bs < blk then Some (Some buf, w)
               else if blk = 0 then None
               else file_loop blk buf (offset + length bs) (left - length bs) w })"
  by pat_completeness auto

termination
proof (relation "measure (\<lambda>(blk, buf, offset, left, w). left)")
  fix blk left :: nat and w w' :: world and x bs
  assume "(x, w') = sys_read (if blk < left then blk else left) w" and "x = Inr bs"
    and "\<not> length bs < blk" and "blk \<noteq> 0"
  then have "length bs \<le> (if blk < left then blk else left)" "0 < length bs"
    by (auto dest!: sym [of "(_, _)"] sys_read_bound)
  then show "((blk, buf, offset + length bs, left - length bs, w'), blk, b, offset, left, w)
      \<in> measure (\<lambda>(blk, buf, offset, left, w). left)" for buf b offset
    by (cases "blk < left") (simp_all add: measure_def inv_image_def diff_less less_le_trans del: length_greater_0_conv)
qed simp

declare file_loop.simps [simp del]

text \<open>The value of the reply to \<open>fstat\<close> is \<open>st_size\<close>; \<open>junk\<close> is what \<open>malloc\<close> returns.\<close>

definition file_read :: "(nat \<Rightarrow> byte) \<Rightarrow> nat \<Rightarrow> world \<Rightarrow> (byte list option \<times> world) option" where
  "file_read junk blk w =
     (case sys_fd w of (fd, w) \<Rightarrow>
      if fd < 0 then Some (None, w)
      else case sys_fd w of (st_size, w) \<Rightarrow>
      if st_size < 0 then Some (None, snd (sys_close fd w))
      else case sys_call w of (m, w) \<Rightarrow>
      if m < 0 then Some (None, snd (sys_close fd w))
      else do { (buf, w) \<leftarrow> file_loop blk (map junk [0..<nat st_size]) 0 (nat st_size) w;
                Some (buf, snd (sys_close fd w)) })"

section \<open>Tokens\<close>

text \<open>\<open>t_text\<close> points into the buffer; \<open>None\<close> is NULL.\<close>

record conf_token =
  t_text :: "nat option"
  t_lineno :: nat
  t_column :: nat
  t_len :: nat

datatype conf_state = STRING | STRING_SINGLE_QUOTE | STRING_DOUBLE_QUOTE | DELIM | COMMENT

datatype escape = ESCAPE_OFF | ESCAPE_ON

definition token_start :: "nat \<Rightarrow> nat \<Rightarrow> nat \<Rightarrow> conf_token" where
  "token_start text lineno column = \<lparr>t_text = Some text, t_lineno = lineno, t_column = column, t_len = 0\<rparr>"

definition token_zero :: conf_token where
  "token_zero = \<lparr>t_text = None, t_lineno = 0, t_column = 0, t_len = 0\<rparr>"

text \<open>The copy and the item of the list are allocated.\<close>

definition token_save :: "conf_token list \<Rightarrow> conf_token \<Rightarrow> world \<Rightarrow> int \<times> conf_token list \<times> conf_token \<times> world" where
  "token_save line token w =
     (case sys_call w of (m, w) \<Rightarrow>
      if m < 0 then (-1, line, token, w)
      else case sys_call w of (m, w) \<Rightarrow>
      if m < 0 then (-1, line, token_zero, w)
      else (0, line @ [token], token_zero, w))"

definition start_of_string :: "conf_state \<Rightarrow> conf_state \<Rightarrow> bool" where
  "start_of_string old state =
     (case state of
        STRING \<Rightarrow> old = DELIM | STRING_SINGLE_QUOTE \<Rightarrow> old = DELIM | STRING_DOUBLE_QUOTE \<Rightarrow> old = DELIM
      | _ \<Rightarrow> False)"

definition end_of_string :: "conf_state \<Rightarrow> conf_state \<Rightarrow> bool" where
  "end_of_string old state =
     (case old of
        STRING \<Rightarrow> state = DELIM \<or> state = COMMENT
      | STRING_SINGLE_QUOTE \<Rightarrow> state = DELIM \<or> state = COMMENT
      | STRING_DOUBLE_QUOTE \<Rightarrow> state = DELIM \<or> state = COMMENT
      | _ \<Rightarrow> False)"

definition within_string :: "conf_state \<Rightarrow> conf_state \<Rightarrow> bool" where
  "within_string old state =
     (case state of
        STRING \<Rightarrow> old \<noteq> STRING_SINGLE_QUOTE \<and> old \<noteq> STRING_DOUBLE_QUOTE
      | STRING_SINGLE_QUOTE \<Rightarrow> old = state
      | STRING_DOUBLE_QUOTE \<Rightarrow> old = state
      | _ \<Rightarrow> False)"

definition char_delim :: "byte \<Rightarrow> bool" where
  "char_delim c \<longleftrightarrow> c = 0x20 \<or> c = 0x0d \<or> c = 0x0a \<or> c = 0x09"

section \<open>The tokenizer\<close>

text \<open>\<open>switch (state)\<close> on the character \<open>c\<close>: the new state and the new escape flag.\<close>

fun conf_switch :: "conf_state \<Rightarrow> escape \<Rightarrow> byte \<Rightarrow> conf_state \<times> escape" where
  "conf_switch STRING escape c =
     (if c = 0x5c \<and> escape = ESCAPE_OFF then (STRING, ESCAPE_ON)
      else if char_delim c then (DELIM, escape)
      else if c = 0x27 then (STRING_SINGLE_QUOTE, escape)
      else if c = 0x22 then (STRING_DOUBLE_QUOTE, escape)
      else if c = 0x23 then (COMMENT, escape)
      else (STRING, escape))"
| "conf_switch STRING_SINGLE_QUOTE escape c = (if c = 0x27 then STRING else STRING_SINGLE_QUOTE, escape)"
| "conf_switch STRING_DOUBLE_QUOTE escape c =
     (if c = 0x5c \<and> escape = ESCAPE_OFF then (STRING_DOUBLE_QUOTE, ESCAPE_ON)
      else if c = 0x22 \<and> escape = ESCAPE_OFF then (STRING, escape)
      else (STRING_DOUBLE_QUOTE, escape))"
| "conf_switch DELIM escape c =
     (if c = 0x5c \<and> escape = ESCAPE_OFF then (DELIM, ESCAPE_ON)
      else if c = 0x27 then (STRING_SINGLE_QUOTE, escape)
      else if c = 0x22 then (STRING_DOUBLE_QUOTE, escape)
      else if c = 0x23 then (COMMENT, escape)
      else if \<not> char_delim c then (STRING, escape)
      else (DELIM, escape))"
| "conf_switch COMMENT escape c = (if c = 0x0a then DELIM else COMMENT, escape)"

text \<open>The locals of \<open>patty_conf_read\<close>, the buffer, the context of the handler and the system.\<close>

record 'c conf =
  x_buf :: "byte list"
  x_line :: "conf_token list"
  x_token :: conf_token
  x_state :: conf_state
  x_escape :: escape
  x_o :: nat
  x_lineno :: nat
  x_column :: nat
  x_last :: byte
  x_ctx :: 'c
  x_world :: world

type_synonym 'c conf_handler = "byte list \<Rightarrow> conf_token list \<Rightarrow> 'c \<Rightarrow> (int \<times> 'c) option"

definition conf_init :: "byte list \<Rightarrow> 'c \<Rightarrow> world \<Rightarrow> 'c conf" where
  "conf_init buf ctx w = \<lparr>x_buf = buf, x_line = [], x_token = token_start 0 1 0, x_state = STRING,
     x_escape = ESCAPE_OFF, x_o = 0, x_lineno = 1, x_column = 0, x_last = 0, x_ctx = ctx, x_world = w\<rparr>"

text \<open>\<open>((char *)file.buf)[o++] = c\<close>\<close>

definition conf_put :: "byte \<Rightarrow> 'c conf \<Rightarrow> 'c conf option" where
  "conf_put c x = do { buf \<leftarrow> wr (x_buf x) (x_o x) c; Some (x\<lparr>x_buf := buf, x_o := x_o x + 1\<rparr>) }"

text \<open>The end of a token; the result says whether saving it went well.\<close>

definition conf_end_token :: "'c conf \<Rightarrow> (bool \<times> 'c conf) option" where
  "conf_end_token x =
     do { x \<leftarrow> conf_put 0 x;
          case token_save (x_line x) (x_token x) (x_world x) of (r, line, token, w) \<Rightarrow>
          Some (r \<ge> 0, x\<lparr>x_line := line, x_token := token, x_world := w\<rparr>) }"

text \<open>The end of a line with tokens: the handler is called and a new list is made.\<close>

definition conf_end_line :: "'c conf_handler \<Rightarrow> 'c conf \<Rightarrow> (bool \<times> 'c conf) option" where
  "conf_end_line handler x =
     do { (r, ctx) \<leftarrow> handler (x_buf x) (x_line x) (x_ctx x);
          let x = x\<lparr>x_ctx := ctx\<rparr>;
          if r < 0 then Some (False, x)
          else case sys_call (x_world x) of (m, w) \<Rightarrow> Some (m \<ge> 0, x\<lparr>x_line := [], x_world := w\<rparr>) }"

text \<open>
  The body of the loop at index \<open>i\<close>: \<open>conf_char\<close> up to the end of the token, \<open>conf_newline\<close> from the
  newline on. \<open>False\<close> is a jump to the error exits.
\<close>

definition conf_char :: "byte \<Rightarrow> 'c conf \<Rightarrow> (bool \<times> 'c conf) option" where
  "conf_char c x =
     do { let old = x_state x;
          let lineno = (if c = 0x0a then x_lineno x + 1 else x_lineno x);
          let column = (if c = 0x0a then 1 else x_column x + 1);
          let (state, escape) = conf_switch old (x_escape x) c;
          let x = x\<lparr>x_state := state, x_escape := escape, x_lineno := lineno, x_column := column\<rparr>;
          let x = (if start_of_string old state then x\<lparr>x_token := token_start (x_o x) lineno column\<rparr> else x);
          if within_string old state
          then (if escape = ESCAPE_OFF
                then do { x \<leftarrow> conf_put c x;
                          Some (True, x\<lparr>x_token := (x_token x)\<lparr>t_len := t_len (x_token x) + 1\<rparr>\<rparr>) }
                else Some (True, x))
          else if end_of_string old state then conf_end_token x
          else Some (True, x) }"

definition conf_newline :: "'c conf_handler \<Rightarrow> byte \<Rightarrow> 'c conf \<Rightarrow> (bool \<times> 'c conf) option" where
  "conf_newline handler c x =
     do { (ok, x) \<leftarrow> (if c = 0x0a \<and> x_escape x = ESCAPE_OFF \<and> x_line x \<noteq> []
                     then conf_end_line handler x else Some (True, x));
          if \<not> ok then Some (False, x)
          else Some (True, x\<lparr>x_escape := (if x_escape x = ESCAPE_ON \<and> x_last x = 0x5c then ESCAPE_OFF else x_escape x),
                             x_last := c\<rparr>) }"

definition conf_step :: "'c conf_handler \<Rightarrow> nat \<Rightarrow> 'c conf \<Rightarrow> (bool \<times> 'c conf) option" where
  "conf_step handler i x =
     do { c \<leftarrow> rd (x_buf x) i;
          (ok, x) \<leftarrow> conf_char c x;
          if \<not> ok then Some (False, x) else conf_newline handler c x }"

fun conf_loop :: "'c conf_handler \<Rightarrow> nat \<Rightarrow> nat \<Rightarrow> 'c conf \<Rightarrow> (bool \<times> 'c conf) option" where
  "conf_loop handler i 0 x = Some (True, x)"
| "conf_loop handler i (Suc n) x =
     do { (ok, x) \<leftarrow> conf_step handler i x;
          if ok then conf_loop handler (Suc i) n x else Some (False, x) }"

text \<open>What follows the loop: a last token and a last line without newline.\<close>

definition conf_finish :: "'c conf_handler \<Rightarrow> 'c conf \<Rightarrow> (int \<times> 'c \<times> world) option" where
  "conf_finish handler x =
     do { (ok, x) \<leftarrow> (if t_len (x_token x) \<noteq> 0 then conf_end_token x else Some (True, x));
          if \<not> ok then Some (-1, x_ctx x, x_world x)
          else if x_line x \<noteq> []
          then do { (r, ctx) \<leftarrow> handler (x_buf x) (x_line x) (x_ctx x);
                    Some (if r < 0 then -1 else 0, ctx, x_world x) }
          else Some (0, x_ctx x, x_world x) }"

definition patty_conf_read :: "(nat \<Rightarrow> byte) \<Rightarrow> nat \<Rightarrow> 'c conf_handler \<Rightarrow> 'c \<Rightarrow> world \<Rightarrow> (int \<times> 'c \<times> world) option" where
  "patty_conf_read junk blk handler ctx w =
     do { (file, w) \<leftarrow> file_read junk blk w;
          case file of
            None \<Rightarrow> Some (-1, ctx, w)
          | Some buf \<Rightarrow>
              (case sys_call w of (m, w) \<Rightarrow>
               if m < 0 then Some (-1, ctx, w)
               else do { (ok, x) \<leftarrow> conf_loop handler 0 (length buf) (conf_init buf ctx w);
                         if \<not> ok then Some (-1, x_ctx x, x_world x) else conf_finish handler x }) }"

text \<open>The C string a token points to.\<close>

definition cstr_at :: "byte list \<Rightarrow> nat \<Rightarrow> cstring" where
  "cstr_at buf p = takeWhile (\<lambda>b. b \<noteq> 0) (drop p buf)"

section \<open>The reference tokenizer\<close>

text \<open>A token as its text, line and column.\<close>

type_synonym tok = "cstring \<times> nat \<times> nat"

record lexer =
  a_lines :: "tok list list"
  a_line :: "tok list"
  a_tok :: tok
  a_state :: conf_state
  a_escape :: escape
  a_lineno :: nat
  a_column :: nat
  a_last :: byte

definition lex_init :: lexer where
  "lex_init = \<lparr>a_lines = [], a_line = [], a_tok = ([], 1, 0), a_state = STRING, a_escape = ESCAPE_OFF,
     a_lineno = 1, a_column = 0, a_last = 0\<rparr>"

definition lex_tok :: "conf_state \<Rightarrow> conf_state \<Rightarrow> escape \<Rightarrow> byte \<Rightarrow> nat \<Rightarrow> nat \<Rightarrow> tok \<Rightarrow> tok" where
  "lex_tok old state escape c lineno column tok =
     (let (text, l, k) = (if start_of_string old state then ([], lineno, column) else tok) in
      (if within_string old state \<and> escape = ESCAPE_OFF then text @ [c] else text, l, k))"

definition lex_char :: "byte \<Rightarrow> lexer \<Rightarrow> lexer" where
  "lex_char c a =
     (let old = a_state a;
          lineno = (if c = 0x0a then a_lineno a + 1 else a_lineno a);
          column = (if c = 0x0a then 1 else a_column a + 1);
          (state, escape) = conf_switch old (a_escape a) c;
          tok = lex_tok old state escape c lineno column (a_tok a)
      in a\<lparr>a_line := (if end_of_string old state then a_line a @ [a_tok a] else a_line a),
           a_tok := (if end_of_string old state then ([], 0, 0) else tok),
           a_state := state, a_escape := escape, a_lineno := lineno, a_column := column\<rparr>)"

definition lex_newline :: "byte \<Rightarrow> lexer \<Rightarrow> lexer" where
  "lex_newline c a =
     (let a = (if c = 0x0a \<and> a_escape a = ESCAPE_OFF \<and> a_line a \<noteq> []
               then a\<lparr>a_lines := a_lines a @ [a_line a], a_line := []\<rparr> else a)
      in a\<lparr>a_escape := (if a_escape a = ESCAPE_ON \<and> a_last a = 0x5c then ESCAPE_OFF else a_escape a),
           a_last := c\<rparr>)"

definition lex_step :: "byte \<Rightarrow> lexer \<Rightarrow> lexer" where
  "lex_step c a = lex_newline c (lex_char c a)"

definition lex_finish :: "lexer \<Rightarrow> tok list list" where
  "lex_finish a =
     (let line = (if fst (a_tok a) \<noteq> [] then a_line a @ [a_tok a] else a_line a) in
      if line \<noteq> [] then a_lines a @ [line] else a_lines a)"

definition conf_lines :: "byte list \<Rightarrow> tok list list" where
  "conf_lines content = lex_finish (fold lex_step content lex_init)"

text \<open>A handler that looks at the texts and positions of the tokens, and such a handler run over lines.\<close>

definition token_view :: "byte list \<Rightarrow> conf_token \<Rightarrow> tok option" where
  "token_view buf t = map_option (\<lambda>p. (cstr_at buf p, t_lineno t, t_column t)) (t_text t)"

definition on_tokens :: "(tok list \<Rightarrow> 'c \<Rightarrow> (int \<times> 'c) option) \<Rightarrow> 'c conf_handler" where
  "on_tokens g buf line ctx = do { toks \<leftarrow> those (map (token_view buf) line); g toks ctx }"

fun run_lines :: "('l \<Rightarrow> 'c \<Rightarrow> (int \<times> 'c) option) \<Rightarrow> 'l list \<Rightarrow> 'c \<Rightarrow> (int \<times> 'c) option" where
  "run_lines g [] ctx = Some (0, ctx)"
| "run_lines g (l # ls) ctx =
     do { (r, ctx) \<leftarrow> g l ctx;
          if r < 0 then Some (-1, ctx) else run_lines g ls ctx }"

lemma run_lines_append:
  "run_lines g (ls @ ms) ctx =
     do { (r, ctx) \<leftarrow> run_lines g ls ctx; if r < 0 then Some (-1, ctx) else run_lines g ms ctx }"
  by (induction ls arbitrary: ctx) (auto split: bind_split prod.split)

lemma run_lines_map: "run_lines (\<lambda>l. g (f l)) ls ctx = run_lines g (map f ls) ctx"
  by (induction ls arbitrary: ctx) (auto split: bind_split prod.split)

section \<open>Rewriting in place\<close>

definition in_quotes :: "conf_state \<Rightarrow> bool" where
  "in_quotes st \<longleftrightarrow> st = STRING_SINGLE_QUOTE \<or> st = STRING_DOUBLE_QUOTE"

definition in_string :: "conf_state \<Rightarrow> bool" where
  "in_string st \<longleftrightarrow> st = STRING \<or> in_quotes st"

text \<open>The bytes \<open>s\<close> stand in the buffer at \<open>p\<close>.\<close>

definition text_in :: "byte list \<Rightarrow> nat \<Rightarrow> byte list \<Rightarrow> bool" where
  "text_in buf p s \<longleftrightarrow> p + length s \<le> length buf \<and> take (length s) (drop p buf) = s"

text \<open>A saved token: its text and the NUL behind it lie below \<open>o\<close>.\<close>

definition tok_ok :: "byte list \<Rightarrow> nat \<Rightarrow> conf_token \<Rightarrow> tok \<Rightarrow> bool" where
  "tok_ok buf n t = (\<lambda>(s, l, k). 0 \<notin> set s \<and> t_lineno t = l \<and> t_column t = k
     \<and> (\<exists>p. t_text t = Some p \<and> p + length s < n \<and> text_in buf p (s @ [0])))"

definition cur_ok :: "byte list \<Rightarrow> nat \<Rightarrow> conf_state \<Rightarrow> conf_token \<Rightarrow> tok \<Rightarrow> bool" where
  "cur_ok buf n st t = (\<lambda>(s, l, k). 0 \<notin> set s \<and> t_len t = length s
     \<and> (if in_string st then t_lineno t = l \<and> t_column t = k
          \<and> (\<exists>p. t_text t = Some p \<and> p + length s = n \<and> text_in buf p s)
        else s = []))"

text \<open>
  The tokenizer before character \<open>i\<close> against the reference: what is not yet read is still as in
  the file, and the characters of the tokens are below \<open>o\<close>.
\<close>

definition conf_rel :: "byte list \<Rightarrow> nat \<Rightarrow> 'c conf \<Rightarrow> lexer \<Rightarrow> bool" where
  "conf_rel content i x a \<longleftrightarrow>
     length (x_buf x) = length content \<and> drop i (x_buf x) = drop i content
     \<and> x_o x \<le> i \<and> (in_quotes (x_state x) \<longrightarrow> x_o x < i)
     \<and> x_state x = a_state a \<and> x_escape x = a_escape a \<and> x_last x = a_last a
     \<and> x_lineno x = a_lineno a \<and> x_column x = a_column a
     \<and> list_all2 (tok_ok (x_buf x) (x_o x)) (x_line x) (a_line a)
     \<and> cur_ok (x_buf x) (x_o x) (x_state x) (x_token x) (a_tok a)"

lemma text_in_upd: "text_in buf p s \<Longrightarrow> p + length s \<le> n \<Longrightarrow> text_in (buf[n := b]) p s"
  by (auto simp: text_in_def drop_update_swap)

lemma text_in_snoc:
  assumes "text_in buf p s" and "p + length s = n" and "n < length buf"
  shows "text_in (buf[n := b]) p (s @ [b])"
proof -
  have "take (length s) (drop p (buf[n := b])) = s" "drop p (buf[n := b]) ! length s = b"
    "length s < length (drop p (buf[n := b]))"
    using assms text_in_upd [OF assms(1), of n b] by (auto simp: text_in_def)
  then show ?thesis using assms by (simp add: text_in_def take_Suc_conv_app_nth)
qed

lemma tok_ok_upd: "tok_ok buf n t s \<Longrightarrow> n \<le> m \<Longrightarrow> tok_ok (buf[m := b]) (Suc m) t s"
  by (cases s) (auto simp: tok_ok_def intro!: text_in_upd)

lemma toks_upd:
  "list_all2 (tok_ok buf n) ts ss \<Longrightarrow> n \<le> m \<Longrightarrow> list_all2 (tok_ok (buf[m := b]) (Suc m)) ts ss"
  by (erule list_all2_mono) (rule tok_ok_upd)

lemma takeWhile_nonzero: "0 \<notin> set u \<Longrightarrow> takeWhile (\<lambda>b. b \<noteq> 0) (u @ (0 :: byte) # rest) = u"
  by (induction u) auto

lemma tok_ok_view: "tok_ok buf n t s \<Longrightarrow> token_view buf t = Some s"
proof -
  assume "tok_ok buf n t s"
  then obtain p u where p: "t_text t = Some p" "s = (u, t_lineno t, t_column t)" "0 \<notin> set u" "text_in buf p (u @ [0])"
    by (cases s) (auto simp: tok_ok_def)
  then obtain rest where "drop p buf = (u @ [0]) @ rest"
    by (metis append_take_drop_id text_in_def)
  with p(3) have "cstr_at buf p = u" by (simp add: cstr_at_def takeWhile_nonzero)
  with p show ?thesis by (simp add: token_view_def)
qed

lemma toks_view: "list_all2 (tok_ok buf n) ts ss \<Longrightarrow> those (map (token_view buf) ts) = Some ss"
  by (induction rule: list_all2_induct) (auto dest: tok_ok_view)

lemma switch_cases:
  assumes "conf_switch old esc c = (st, esc')"
  obtains (within) "within_string old st" "in_string st" "in_string old \<or> start_of_string old st"
      "in_quotes st \<longrightarrow> in_quotes old" "\<not> end_of_string old st"
    | (stop) "\<not> within_string old st" "end_of_string old st" "in_string old" "\<not> in_string st" "\<not> start_of_string old st"
    | (enter) "\<not> within_string old st" "\<not> end_of_string old st" "in_string st" "in_string old \<or> start_of_string old st"
    | (outside) "\<not> within_string old st" "\<not> end_of_string old st" "\<not> in_string st" "\<not> in_string old" "\<not> start_of_string old st"
  using assms
  by (cases old; cases st)
    (auto simp: within_string_def in_string_def in_quotes_def start_of_string_def end_of_string_def split: if_splits)

text \<open>After a start the current token is empty and at \<open>o\<close>.\<close>

lemma cur_started:
  assumes "cur_ok buf n old t s" and "n \<le> length buf" and "in_string old \<or> start" and "in_string st"
  shows "cur_ok buf n st (if start then token_start n l k else t) (if start then ([], l, k) else s)"
  using assms by (cases s) (auto simp: cur_ok_def token_start_def text_in_def)

lemma script_calls [simp]: "script w = [] \<Longrightarrow> sys_call w = (0, w)"
  by (simp add: sys_call_def)

lemma cur_put:
  assumes "cur_ok buf n st t s" and "in_string st" and "n < length buf" and "c \<noteq> 0"
  shows "cur_ok (buf[n := c]) (Suc n) st (t\<lparr>t_len := t_len t + 1\<rparr>) (apfst (\<lambda>u. u @ [c]) s)"
  using assms by (cases s) (auto simp: cur_ok_def intro: text_in_snoc)

lemma cur_save:
  assumes "cur_ok buf n st t s" and "in_string st" and "n < length buf"
  shows "tok_ok (buf[n := 0]) (Suc n) t s"
  using assms by (cases s) (auto simp: cur_ok_def tok_ok_def intro: text_in_snoc)

lemma cur_none: "\<not> in_string st \<Longrightarrow> t_len t = 0 \<Longrightarrow> cur_ok buf n st t ([], l, k)"
  by (simp add: cur_ok_def)

lemma cur_outside: "\<not> in_string st \<Longrightarrow> cur_ok buf n st t s \<Longrightarrow> \<not> in_string st' \<Longrightarrow> cur_ok buf n st' t s"
  by (cases s) (simp add: cur_ok_def)

lemma lex_tok_eq:
  "lex_tok old st esc c l k tok = (if within_string old st \<and> esc = ESCAPE_OFF then apfst (\<lambda>u. u @ [c]) else id)
     (if start_of_string old st then ([], l, k) else tok)"
  by (auto simp: lex_tok_def split: prod.split)

lemma conf_char_rel:
  assumes "conf_rel content i x a" and "i < length content" and "c \<noteq> 0" and "script (x_world x) = []"
  shows "\<exists>x'. conf_char c x = Some (True, x') \<and> conf_rel content (Suc i) x' (lex_char c a)
    \<and> x_ctx x' = x_ctx x \<and> x_world x' = x_world x"
proof -
  define ln cl where "ln = (if c = 0x0a then x_lineno x + 1 else x_lineno x)"
    and "cl = (if c = 0x0a then 1 else x_column x + 1)"
  obtain st esc where sw: "conf_switch (x_state x) (x_escape x) c = (st, esc)" by fastforce
  let ?T = "if start_of_string (x_state x) st then token_start (x_o x) ln cl else x_token x"
  let ?S = "if start_of_string (x_state x) st then ([], ln, cl) else a_tok a"
  have rel: "length (x_buf x) = length content" "x_o x \<le> i" "in_quotes (x_state x) \<longrightarrow> x_o x < i"
    "a_state a = x_state x" "a_escape a = x_escape x" "a_last a = x_last x" "a_lineno a = x_lineno x" "a_column a = x_column x"
    "list_all2 (tok_ok (x_buf x) (x_o x)) (x_line x) (a_line a)"
    "cur_ok (x_buf x) (x_o x) (x_state x) (x_token x) (a_tok a)"
    using assms(1) unfolding conf_rel_def by metis+
  have o: "x_o x < length (x_buf x)" "x_o x \<le> length (x_buf x)" "x_o x < Suc i" using rel assms(2) by auto
  have drop: "drop (Suc i) (x_buf x) = drop (Suc i) content"
    using assms(1) by (metis conf_rel_def drop_drop plus_1_eq_Suc)
  have drop_upd: "drop (Suc i) ((x_buf x)[x_o x := b]) = drop (Suc i) content" for b
    using drop_update_cancel [OF o(3), of "x_buf x" b] drop by simp
  have lex: "lex_char c a = a\<lparr>a_line := (if end_of_string (x_state x) st then a_line a @ [a_tok a] else a_line a),
      a_tok := (if end_of_string (x_state x) st then ([], 0, 0)
                else (if within_string (x_state x) st \<and> esc = ESCAPE_OFF then apfst (\<lambda>u. u @ [c]) else id) ?S),
      a_state := st, a_escape := esc, a_lineno := ln, a_column := cl\<rparr>"
    by (simp add: lex_char_def Let_def rel sw lex_tok_eq ln_def cl_def)
  show ?thesis
    using sw
  proof (cases rule: switch_cases)
    case within
    note cur = cur_started [OF rel(10) o(2) within(3,2), of ln cl]
    show ?thesis
    proof (cases esc)
      case ESCAPE_OFF
      with within(1) o rel(2,3) cur_put [OF cur within(2) o(1) assms(3)] toks_upd [OF rel(9) order_refl, of c] drop_upd within(4,5)
      show ?thesis
        by (auto simp: conf_char_def lex sw Let_def conf_put_def wr_def conf_rel_def rel ln_def cl_def)
    next
      case ESCAPE_ON
      with within o rel cur drop show ?thesis
        by (auto simp: conf_char_def lex sw Let_def conf_rel_def ln_def cl_def)
    qed
  next
    case stop
    with o rel cur_save [OF rel(10) stop(3) o(1)] toks_upd [OF rel(9) order_refl, of 0] drop_upd assms(4)
    show ?thesis
      by (auto simp: conf_char_def lex sw Let_def conf_end_token_def conf_put_def wr_def token_save_def conf_rel_def ln_def cl_def
          in_string_def token_zero_def intro!: cur_none list_all2_appendI)
  next
    case enter
    note cur = cur_started [OF rel(10) o(2) enter(4,3), of ln cl]
    with enter o rel drop show ?thesis
      by (auto simp: conf_char_def lex sw Let_def conf_rel_def ln_def cl_def)
  next
    case outside
    with o rel drop cur_outside [OF outside(4) rel(10) outside(3)] show ?thesis
      by (auto simp: conf_char_def lex sw Let_def conf_rel_def ln_def cl_def in_string_def)
  qed
qed

text \<open>The result of a part of the tokenizer when its handler calls come out as \<open>m\<close>.\<close>

definition conf_sim :: "world \<Rightarrow> ('c conf \<Rightarrow> bool) \<Rightarrow> (int \<times> 'c) option \<Rightarrow> (bool \<times> 'c conf) option \<Rightarrow> bool" where
  "conf_sim w Q m res \<longleftrightarrow>
     (case m of
        None \<Rightarrow> res = None
      | Some (r, ctx) \<Rightarrow> \<exists>x. res = Some (r \<ge> 0, x) \<and> x_ctx x = ctx \<and> x_world x = w \<and> (r \<ge> 0 \<longrightarrow> Q x))"

lemma conf_sim_bind:
  assumes "conf_sim w Q m res" and "\<And>x. Q x \<Longrightarrow> x_world x = w \<Longrightarrow> conf_sim w R (n (x_ctx x)) (k x)"
  shows "conf_sim w R (do { (r, ctx) \<leftarrow> m; if r < 0 then Some (-1, ctx) else n ctx })
    (do { (ok, x) \<leftarrow> res; if ok then k x else Some (False, x) })"
proof (cases m)
  case (Some y)
  obtain r ctx where y: "y = (r, ctx)" by fastforce
  obtain x where x: "res = Some (r \<ge> 0, x)" "x_ctx x = ctx" "x_world x = w" "r \<ge> 0 \<longrightarrow> Q x"
    using assms(1) by (auto simp: conf_sim_def Some y)
  show ?thesis
  proof (cases "r < 0")
    case True
    with x show ?thesis by (simp add: conf_sim_def Some y)
  next
    case False
    with x assms(2) [of x] show ?thesis by (simp add: Some y)
  qed
qed (use assms(1) in \<open>simp add: conf_sim_def\<close>)

lemma conf_newline_sim:
  assumes "conf_rel content i x a" and "script (x_world x) = []"
  shows "\<exists>new. a_lines (lex_newline c a) = a_lines a @ new
    \<and> conf_sim (x_world x) (\<lambda>x'. conf_rel content i x' (lex_newline c a)) (run_lines g new (x_ctx x))
        (conf_newline (on_tokens g) c x)"
proof -
  have rel: "x_escape x = a_escape a" "x_line x = [] \<longleftrightarrow> a_line a = []" "x_last x = a_last a"
    and toks: "those (map (token_view (x_buf x)) (x_line x)) = Some (a_line a)"
    using assms(1) toks_view by (auto simp: conf_rel_def)
  show ?thesis
  proof (cases "c = 0x0a \<and> a_escape a = ESCAPE_OFF \<and> a_line a \<noteq> []")
    case True
    have "conf_sim (x_world x) (\<lambda>x'. conf_rel content i x' (lex_newline c a)) (run_lines g [a_line a] (x_ctx x))
        (conf_newline (on_tokens g) c x)"
    proof (cases "g (a_line a) (x_ctx x)")
      case None
      with True rel toks show ?thesis
        by (simp add: conf_newline_def conf_sim_def conf_end_line_def on_tokens_def)
    next
      case (Some y)
      with True rel toks assms show ?thesis
        by (cases y) (auto simp: lex_newline_def conf_newline_def conf_sim_def conf_end_line_def on_tokens_def conf_rel_def)
    qed
    with True show ?thesis by (intro exI [of _ "[a_line a]"]) (simp add: lex_newline_def)
  next
    case False
    then show ?thesis
      using assms rel
      by (intro exI [of _ "[]"] conjI) (auto simp: lex_newline_def conf_newline_def conf_sim_def conf_rel_def)
  qed
qed

lemma lex_char_lines [simp]: "a_lines (lex_char c a) = a_lines a"
  by (simp add: lex_char_def Let_def split: prod.split)

lemma conf_step_sim:
  assumes "conf_rel content i x a" and "i < length content" and "0 \<notin> set content" and "script (x_world x) = []"
  shows "\<exists>new. a_lines (lex_step (content ! i) a) = a_lines a @ new
    \<and> conf_sim (x_world x) (\<lambda>x'. conf_rel content (Suc i) x' (lex_step (content ! i) a)) (run_lines g new (x_ctx x))
        (conf_step (on_tokens g) i x)"
proof -
  have "content ! i \<noteq> 0" using assms(2,3) by (metis nth_mem)
  from conf_char_rel [OF assms(1,2) this assms(4)] obtain x' where x': "conf_char (content ! i) x = Some (True, x')"
    "conf_rel content (Suc i) x' (lex_char (content ! i) a)" "x_ctx x' = x_ctx x" "x_world x' = x_world x" by blast
  have "drop i (x_buf x) = drop i content" "length (x_buf x) = length content"
    using assms(1) by (simp_all add: conf_rel_def)
  then have "rd (x_buf x) i = Some (content ! i)"
    using assms(2) by (metis hd_drop_conv_nth rd_def)
  with x' conf_newline_sim [OF x'(2), of "content ! i" g] assms(4) show ?thesis
    by (simp add: conf_step_def lex_step_def)
qed

lemma lex_lines_grow: "\<exists>new. a_lines (fold lex_step cs a) = a_lines a @ new"
proof (induction cs arbitrary: a)
  case (Cons c cs)
  have "\<exists>new. a_lines (lex_step c a) = a_lines a @ new" by (simp add: lex_step_def lex_newline_def Let_def)
  with Cons.IH [of "lex_step c a"] show ?case by auto
qed simp

lemma conf_loop_sim:
  assumes "conf_rel content i x a" and "i + n = length content" and "0 \<notin> set content" and "script (x_world x) = []"
    and "a_lines (fold lex_step (drop i content) a) = a_lines a @ new"
  shows "conf_sim (x_world x) (\<lambda>x'. conf_rel content (length content) x' (fold lex_step (drop i content) a))
      (run_lines g new (x_ctx x)) (conf_loop (on_tokens g) i n x)"
  using assms
proof (induction n arbitrary: i x a new)
  case 0
  then show ?case by (simp add: conf_sim_def)
next
  case (Suc n)
  let ?a = "lex_step (content ! i) a" and ?w = "x_world x"
  have i: "i < length content" using Suc.prems(2) by simp
  have drop: "drop i content = content ! i # drop (Suc i) content" using i by (simp add: Cons_nth_drop_Suc)
  obtain now where now: "a_lines ?a = a_lines a @ now"
    "conf_sim ?w (\<lambda>x'. conf_rel content (Suc i) x' ?a) (run_lines g now (x_ctx x)) (conf_step (on_tokens g) i x)"
    using conf_step_sim [OF Suc.prems(1) i Suc.prems(3,4)] by blast
  obtain more where more: "a_lines (fold lex_step (drop (Suc i) content) ?a) = a_lines ?a @ more"
    using lex_lines_grow by blast
  then have new: "new = now @ more" using Suc.prems(5) now(1) by (simp add: drop)
  show ?case
    unfolding new run_lines_append conf_loop.simps
  proof (rule conf_sim_bind [OF now(2)])
    fix x' :: "'a conf"
    assume "conf_rel content (Suc i) x' ?a" and "x_world x' = ?w"
    with Suc.IH [OF this(1) _ Suc.prems(3) _ more] Suc.prems(2,4)
    show "conf_sim ?w (\<lambda>x'. conf_rel content (length content) x' (fold lex_step (drop i content) a))
        (run_lines g more (x_ctx x')) (conf_loop (on_tokens g) (Suc i) n x')"
      by (simp add: drop)
  qed
qed

text \<open>What follows the loop.\<close>

lemma conf_finish_run:
  assumes "conf_rel content (length content) x a" and "script (x_world x) = []"
    and "fst (a_tok a) \<noteq> [] \<Longrightarrow> x_o x < length content" and "lex_finish a = a_lines a @ new"
  shows "conf_finish (on_tokens g) x = map_option (\<lambda>(r, ctx). (r, ctx, x_world x)) (run_lines g new (x_ctx x))"
proof -
  have len: "t_len (x_token x) = length (fst (a_tok a))" and b: "length (x_buf x) = length content"
    and ts: "list_all2 (tok_ok (x_buf x) (x_o x)) (x_line x) (a_line a)"
    and cur: "cur_ok (x_buf x) (x_o x) (x_state x) (x_token x) (a_tok a)"
    using assms(1) by (auto simp: conf_rel_def cur_ok_def split: prod.splits)
  have "\<exists>x'. (if t_len (x_token x) \<noteq> 0 then conf_end_token x else Some (True, x)) = Some (True, x')
      \<and> x_ctx x' = x_ctx x \<and> x_world x' = x_world x
      \<and> (\<exists>n. list_all2 (tok_ok (x_buf x') n) (x_line x')
           (if fst (a_tok a) \<noteq> [] then a_line a @ [a_tok a] else a_line a))"
  proof (cases "fst (a_tok a) = []")
    case True
    with ts show ?thesis by (auto simp: len)
  next
    case False
    then have "in_string (x_state x)" using cur by (auto simp: cur_ok_def split: prod.splits if_splits)
    with cur_save [OF cur] toks_upd [OF ts order_refl, of 0] assms(2,3) False b
    show ?thesis
      by (auto simp: len conf_end_token_def conf_put_def wr_def token_save_def intro!: exI [of _ "Suc (x_o x)"] list_all2_appendI)
  qed
  then obtain x' n where x': "(if t_len (x_token x) \<noteq> 0 then conf_end_token x else Some (True, x)) = Some (True, x')"
      "x_ctx x' = x_ctx x" "x_world x' = x_world x" and line: "list_all2 (tok_ok (x_buf x') n) (x_line x')
        (if fst (a_tok a) \<noteq> [] then a_line a @ [a_tok a] else a_line a)" by blast
  let ?l = "if fst (a_tok a) \<noteq> [] then a_line a @ [a_tok a] else a_line a"
  have empty: "x_line x' = [] \<longleftrightarrow> ?l = []" using list_all2_lengthD [OF line] by auto
  have new: "new = (if ?l \<noteq> [] then [?l] else [])" using assms(4) by (auto simp: lex_finish_def Let_def split: if_splits)
  show ?thesis
    unfolding conf_finish_def x'(1) new
    using empty toks_view [OF line] x'(2,3)
    by (cases "?l = []"; cases "g ?l (x_ctx x)") (auto simp: on_tokens_def split: prod.splits)
qed

lemma conf_rel_init: "conf_rel content 0 (conf_init content ctx w) lex_init"
  by (simp add: conf_rel_def conf_init_def lex_init_def cur_ok_def in_quotes_def in_string_def token_start_def text_in_def)

lemma lex_finish_grow: "\<exists>more. lex_finish a = a_lines a @ more"
  by (simp add: lex_finish_def Let_def)

lemma newline_state: "a_state (lex_step 0x0a a) = DELIM \<or> in_quotes (a_state (lex_step 0x0a a))"
  by (cases "a_state a")
    (simp_all add: lex_step_def lex_newline_def lex_char_def Let_def char_delim_def in_quotes_def split: prod.split)

lemma conf_read_run:
  assumes got: "file_read junk blk w = Some (Some content, w')" and w': "script w' = []" and "0 \<notin> set content"
    and "content = [] \<or> content ! (length content - 1) = 0x0a"
  shows "patty_conf_read junk blk (on_tokens g) ctx w
    = map_option (\<lambda>(r, ctx). (r, ctx, w')) (run_lines g (conf_lines content) ctx)"
proof -
  let ?a = "fold lex_step content lex_init" and ?x = "conf_init content ctx w'"
  obtain new where new: "a_lines ?a = new" by simp
  obtain more where more: "lex_finish ?a = a_lines ?a @ more" using lex_finish_grow by blast
  have sim: "conf_sim w' (\<lambda>x'. conf_rel content (length content) x' ?a) (run_lines g new ctx)
      (conf_loop (on_tokens g) 0 (length content) ?x)"
    using conf_loop_sim [OF conf_rel_init [of content ctx w'], of "length content" new g] assms(3) w' new
    by (simp add: conf_init_def lex_init_def)
  have room: "x_o x < length content" if rel: "conf_rel content (length content) x ?a" and tok: "fst (a_tok ?a) \<noteq> []"
    for x :: "'a conf"
  proof (cases "content = []")
    case True
    with tok show ?thesis by (simp add: lex_init_def)
  next
    case False
    then obtain body where "content = body @ [0x0a]"
      using assms(4) by (metis append_butlast_last_id last_conv_nth)
    then have "a_state ?a = DELIM \<or> in_quotes (a_state ?a)" using newline_state by simp
    moreover have "in_string (a_state ?a)" using rel tok by (auto simp: conf_rel_def cur_ok_def split: prod.splits if_splits)
    ultimately show ?thesis using rel by (auto simp: conf_rel_def in_string_def in_quotes_def)
  qed
  have finish: "conf_finish (on_tokens g) x = map_option (\<lambda>(r, ctx). (r, ctx, w')) (run_lines g more (x_ctx x))"
    if "conf_rel content (length content) x ?a" "x_world x = w'" for x
    using conf_finish_run [OF that(1) _ room [OF that(1)] more, of g] that(2) w' by simp
  have lines: "conf_lines content = new @ more" using new more by (simp add: conf_lines_def)
  have read: "patty_conf_read junk blk (on_tokens g) ctx w =
      do { (ok, x) \<leftarrow> conf_loop (on_tokens g) 0 (length content) ?x;
           if \<not> ok then Some (-1, x_ctx x, x_world x) else conf_finish (on_tokens g) x }"
    by (simp add: patty_conf_read_def got w')
  show ?thesis
  proof (cases "run_lines g new ctx")
    case None
    with sim show ?thesis by (simp add: read lines run_lines_append conf_sim_def)
  next
    case (Some y)
    then obtain r c where y: "run_lines g new ctx = Some (r, c)" by (cases y) simp
    with sim obtain x where x: "conf_loop (on_tokens g) 0 (length content) ?x = Some (0 \<le> r, x)" "x_ctx x = c"
      "x_world x = w'" "0 \<le> r \<longrightarrow> conf_rel content (length content) x ?a" by (auto simp: conf_sim_def)
    show ?thesis
    proof (cases "r < 0")
      case True
      with x y show ?thesis by (simp add: read lines run_lines_append)
    next
      case False
      with x y finish [of x] show ?thesis by (simp add: read lines run_lines_append)
    qed
  qed
qed

text \<open>A file that fits into one block.\<close>

lemma file_read_whole:
  assumes "length content < blk" and "0 \<le> fd"
  shows "file_read junk blk (world0 [RVal fd, RVal (int (length content)), ROk, RBytes content])
    = Some (Some content, (world0 [])\<lparr>closed := [fd]\<rparr>)"
  using assms
  by (simp add: file_read_def sys_fd_def sys_call_def world0_def file_loop.simps sys_read_def blit_def sys_close_def)

section \<open>Words, quotes and escapes\<close>

definition plain :: "byte \<Rightarrow> bool" where
  "plain c \<longleftrightarrow> \<not> char_delim c \<and> c \<notin> {0, 0x5c, 0x27, 0x22, 0x23}"

text \<open>The ways to write a word, and the words that can be written so.\<close>

datatype spelling = Bare | Single_Quoted | Double_Quoted

fun spell :: "spelling \<Rightarrow> cstring \<Rightarrow> byte list" where
  "spell Bare t = t"
| "spell Single_Quoted t = 0x27 # t @ [0x27]"
| "spell Double_Quoted t = 0x22 # t @ [0x22]"

fun spell_ok :: "spelling \<Rightarrow> cstring \<Rightarrow> bool" where
  "spell_ok Bare t \<longleftrightarrow> t \<noteq> [] \<and> list_all plain t"
| "spell_ok Single_Quoted t \<longleftrightarrow> set t \<inter> {0, 0x0a, 0x27} = {}"
| "spell_ok Double_Quoted t \<longleftrightarrow> set t \<inter> {0, 0x0a, 0x22, 0x5c} = {}"

text \<open>
  A line as it is written: blanks, words with the blanks behind each, a comment. Only the last word
  may go without a blank; a line may hold no words.
\<close>

definition blank_char :: "byte \<Rightarrow> bool" where
  "blank_char c \<longleftrightarrow> c = 0x20 \<or> c = 0x09 \<or> c = 0x0d"

type_synonym conf_word = "spelling \<times> cstring \<times> byte list"

type_synonym conf_row = "byte list \<times> conf_word list \<times> byte list"

fun item_text :: "conf_word \<Rightarrow> byte list" where
  "item_text (s, t, gap) = spell s t @ gap"

fun row_text :: "conf_row \<Rightarrow> byte list" where
  "row_text (pre, items, com) = pre @ concat (map item_text items) @ com @ [0x0a]"

fun items_ok :: "conf_word list \<Rightarrow> bool" where
  "items_ok [] \<longleftrightarrow> True"
| "items_ok ((s, t, gap) # items) \<longleftrightarrow>
     spell_ok s t \<and> list_all blank_char gap \<and> (items = [] \<or> gap \<noteq> []) \<and> items_ok items"

fun row_ok :: "conf_row \<Rightarrow> bool" where
  "row_ok (pre, items, com) \<longleftrightarrow>
     list_all blank_char pre \<and> items_ok items \<and> (com = [] \<or> hd com = 0x23 \<and> set com \<inter> {0, 0x0a} = {})"

text \<open>
  The lines with words, each word with the number of its line. A file that does not start with a
  word has one more, an empty one, in front of its first line: the reader starts within a word.
\<close>

definition row_words :: "nat \<Rightarrow> conf_row \<Rightarrow> (cstring \<times> nat) list" where
  "row_words n row = map (\<lambda>(s, t, gap). (t, n)) (fst (snd row))"

fun row_lines :: "nat \<Rightarrow> conf_row list \<Rightarrow> (cstring \<times> nat) list list" where
  "row_lines n [] = []"
| "row_lines n (row # rows) = (if row_words n row = [] then [] else [row_words n row]) @ row_lines (Suc n) rows"

definition starts_with_word :: "conf_row \<Rightarrow> bool" where
  "starts_with_word row \<longleftrightarrow> fst row = [] \<and> fst (snd row) \<noteq> []"

fun file_lines :: "conf_row list \<Rightarrow> (cstring \<times> nat) list list" where
  "file_lines [] = []"
| "file_lines (row # rows) =
     (if starts_with_word row then row_lines 1 (row # rows)
      else (([], 1) # row_words 1 row) # row_lines 2 rows)"

text \<open>Lines of words, quoted where they need it, with one blank behind each word.\<close>

definition quoted_text :: "cstring \<Rightarrow> byte list" where
  "quoted_text t = (if t \<noteq> [] \<and> list_all plain t then t else 0x27 # t @ [0x27])"

definition line_text :: "cstring list \<Rightarrow> byte list" where
  "line_text l = concat (map (\<lambda>t. quoted_text t @ [0x20]) l) @ [0x0a]"

definition quotable :: "cstring \<Rightarrow> bool" where
  "quotable t \<longleftrightarrow> set t \<inter> {0, 0x0a, 0x27} = {}"

definition line_row :: "cstring list \<Rightarrow> conf_row" where
  "line_row l = ([], map (\<lambda>t. (if t \<noteq> [] \<and> list_all plain t then Bare else Single_Quoted, t, [0x20])) l, [])"

lemma line_row_text: "row_text (line_row l) = line_text l"
proof -
  have "map item_text (map (\<lambda>t. (if t \<noteq> [] \<and> list_all plain t then Bare else Single_Quoted, t, [0x20])) l)
      = map (\<lambda>t. quoted_text t @ [0x20]) l"
    by (auto simp: quoted_text_def)
  then show ?thesis by (simp only: line_row_def line_text_def row_text.simps) simp
qed

lemma line_row_ok: "list_all quotable l \<Longrightarrow> row_ok (line_row l)"
  by (induction l) (auto simp: line_row_def quotable_def blank_char_def)

lemma line_row_words: "row_words n (line_row l) = map (\<lambda>t. (t, n)) l"
  by (simp add: row_words_def line_row_def)

lemma line_row_lines:
  "\<forall>l \<in> set lss. l \<noteq> [] \<Longrightarrow> row_lines n (map line_row lss) = map (\<lambda>(n, l). map (\<lambda>t. (t, n)) l) (enumerate n lss)"
  by (induction lss arbitrary: n) (simp_all add: line_row_words)

lemma line_row_file:
  assumes "\<forall>l \<in> set lss. l \<noteq> []"
  shows "file_lines (map line_row lss) = map (\<lambda>(n, l). map (\<lambda>t. (t, n)) l) (enumerate 1 lss)"
proof (cases lss)
  case (Cons l ls)
  then have "starts_with_word (line_row l)" using assms by (simp add: starts_with_word_def line_row_def)
  then show ?thesis using line_row_lines [OF assms, of 1] Cons by simp
qed simp

lemma row_text_no_nul: "row_ok row \<Longrightarrow> 0 \<notin> set (row_text row)"
proof -
  have plain0: "\<not> plain 0" by (simp add: plain_def)
  have "0 \<notin> set (spell s t)" if "spell_ok s t" for s t
    using that plain0 by (cases s) (auto simp: list_all_iff)
  then have items: "items_ok its \<Longrightarrow> 0 \<notin> set (concat (map item_text its))" for its
    by (induction its rule: items_ok.induct) (auto simp: list_all_iff blank_char_def)
  assume "row_ok row"
  with items show ?thesis by (cases row) (auto simp: list_all_iff blank_char_def)
qed

text \<open>Between two words.\<close>

definition no_column :: "tok \<Rightarrow> cstring \<times> nat" where
  "no_column t = (fst t, fst (snd t))"

definition lex_ready :: "lexer \<Rightarrow> (cstring \<times> nat) list list \<Rightarrow> (cstring \<times> nat) list \<Rightarrow> nat \<Rightarrow> bool" where
  "lex_ready a ls line n \<longleftrightarrow> map (map no_column) (a_lines a) = ls \<and> map no_column (a_line a) = line \<and> a_lineno a = n
     \<and> a_escape a = ESCAPE_OFF \<and> fst (a_tok a) = [] \<and> (a_state a = DELIM \<or> a_state a = STRING \<and> a_line a = [] \<and> fst (snd (a_tok a)) = n)"

text \<open>Within a word, which so far is \<open>t\<close>.\<close>

definition lex_word :: "conf_state \<Rightarrow> lexer \<Rightarrow> (cstring \<times> nat) list list \<Rightarrow> (cstring \<times> nat) list \<Rightarrow> nat \<Rightarrow> cstring \<Rightarrow> bool" where
  "lex_word st a ls line n t \<longleftrightarrow> map (map no_column) (a_lines a) = ls \<and> map no_column (a_line a) = line \<and> a_lineno a = n
     \<and> a_escape a = ESCAPE_OFF \<and> a_state a = st \<and> no_column (a_tok a) = (t, n)"

text \<open>
  Behind a blank or a newline, with the words \<open>line\<close> of the line so far; at the end of a line's
  words, where the last one may be open; and in a comment.
\<close>

definition lex_delim :: "lexer \<Rightarrow> (cstring \<times> nat) list list \<Rightarrow> (cstring \<times> nat) list \<Rightarrow> nat \<Rightarrow> bool" where
  "lex_delim a ls line n \<longleftrightarrow> map (map no_column) (a_lines a) = ls \<and> map no_column (a_line a) = line \<and> a_lineno a = n
     \<and> a_escape a = ESCAPE_OFF \<and> fst (a_tok a) = [] \<and> a_state a = DELIM"

definition lex_tail :: "lexer \<Rightarrow> (cstring \<times> nat) list list \<Rightarrow> (cstring \<times> nat) list \<Rightarrow> nat \<Rightarrow> bool" where
  "lex_tail a ls line n \<longleftrightarrow> lex_delim a ls line n
     \<or> (\<exists>line' t. line = line' @ [(t, n)] \<and> lex_word STRING a ls line' n t)"

definition lex_comment :: "lexer \<Rightarrow> (cstring \<times> nat) list list \<Rightarrow> (cstring \<times> nat) list \<Rightarrow> nat \<Rightarrow> bool" where
  "lex_comment a ls line n \<longleftrightarrow> map (map no_column) (a_lines a) = ls \<and> map no_column (a_line a) = line \<and> a_lineno a = n
     \<and> a_escape a = ESCAPE_OFF \<and> fst (a_tok a) = [] \<and> a_state a = COMMENT"

lemma lex_delim_ready: "lex_delim a ls line n \<Longrightarrow> lex_ready a ls line n"
  by (simp add: lex_delim_def lex_ready_def)

lemmas lex_step_defs = lex_step_def lex_newline_def lex_char_def lex_tok_def Let_def start_of_string_def
  within_string_def end_of_string_def no_column_def

lemma lex_plain:
  assumes "lex_word STRING a ls line n t" and "plain c"
  shows "lex_word STRING (lex_step c a) ls line n (t @ [c])"
  using assms by (auto simp: lex_word_def lex_step_defs plain_def char_delim_def split: prod.splits)

lemma lex_plain_start:
  assumes "lex_ready a ls line n" and "plain c"
  shows "lex_word STRING (lex_step c a) ls line n [c]"
  using assms by (auto simp: lex_word_def lex_ready_def lex_step_defs plain_def char_delim_def split: prod.splits)

lemma lex_quoted:
  assumes "lex_word STRING_SINGLE_QUOTE a ls line n t" and "c \<notin> {0, 0x0a, 0x27}"
  shows "lex_word STRING_SINGLE_QUOTE (lex_step c a) ls line n (t @ [c])"
  using assms by (auto simp: lex_word_def lex_step_defs split: prod.splits)

lemma lex_double_quoted:
  assumes "lex_word STRING_DOUBLE_QUOTE a ls line n t" and "c \<notin> {0, 0x0a, 0x22, 0x5c}"
  shows "lex_word STRING_DOUBLE_QUOTE (lex_step c a) ls line n (t @ [c])"
  using assms by (auto simp: lex_word_def lex_step_defs split: prod.splits)

lemma lex_quote_start:
  assumes "lex_ready a ls line n"
  shows "lex_word STRING_SINGLE_QUOTE (lex_step 0x27 a) ls line n []"
    and "lex_word STRING_DOUBLE_QUOTE (lex_step 0x22 a) ls line n []"
  using assms by (auto simp: lex_word_def lex_ready_def lex_step_defs char_delim_def split: prod.splits)

lemma lex_quote_end:
  "lex_word STRING_SINGLE_QUOTE a ls line n t \<Longrightarrow> lex_word STRING (lex_step 0x27 a) ls line n t"
  "lex_word STRING_DOUBLE_QUOTE a ls line n t \<Longrightarrow> lex_word STRING (lex_step 0x22 a) ls line n t"
  by (auto simp: lex_word_def lex_step_defs split: prod.splits)

text \<open>A run of characters that a word keeps.\<close>

lemma lex_run:
  assumes "\<And>a t c. lex_word st a ls line n t \<Longrightarrow> P c \<Longrightarrow> lex_word st (lex_step c a) ls line n (t @ [c])"
    and "lex_word st a ls line n t" and "list_all P u"
  shows "lex_word st (fold lex_step u a) ls line n (t @ u)"
  using assms(2,3)
proof (induction u arbitrary: a t)
  case (Cons c u)
  then show ?case using assms(1) [OF Cons.prems(1), of c] Cons.IH [of "lex_step c a" "t @ [c]"] by simp
qed simp

lemma lex_plains:
  "lex_word STRING a ls line n t \<Longrightarrow> list_all plain u \<Longrightarrow> lex_word STRING (fold lex_step u a) ls line n (t @ u)"
  by (rule lex_run) (rule lex_plain)

lemma lex_quoteds:
  "lex_word STRING_SINGLE_QUOTE a ls line n t \<Longrightarrow> list_all (\<lambda>c. c \<notin> {0, 0x0a, 0x27}) u
   \<Longrightarrow> lex_word STRING_SINGLE_QUOTE (fold lex_step u a) ls line n (t @ u)"
  by (rule lex_run) (rule lex_quoted)

lemma lex_double_quoteds:
  "lex_word STRING_DOUBLE_QUOTE a ls line n t \<Longrightarrow> list_all (\<lambda>c. c \<notin> {0, 0x0a, 0x22, 0x5c}) u
   \<Longrightarrow> lex_word STRING_DOUBLE_QUOTE (fold lex_step u a) ls line n (t @ u)"
  by (rule lex_run) (rule lex_double_quoted)

lemma lex_spell:
  assumes "lex_ready a ls line n" and "spell_ok s t"
  shows "lex_word STRING (fold lex_step (spell s t) a) ls line n t"
proof (cases s)
  case Bare
  then obtain c u where t: "t = c # u" "plain c" "list_all plain u" using assms(2) by (cases t) auto
  show ?thesis using lex_plains [OF lex_plain_start [OF assms(1) t(2)] t(3)] by (simp add: Bare t(1))
next
  case Single_Quoted
  then have "list_all (\<lambda>c. c \<notin> {0, 0x0a, 0x27}) t" using assms(2) by (auto simp: list_all_iff)
  from lex_quote_end(1) [OF lex_quoteds [OF lex_quote_start(1) [OF assms(1)] this]]
  show ?thesis by (simp add: Single_Quoted)
next
  case Double_Quoted
  then have "list_all (\<lambda>c. c \<notin> {0, 0x0a, 0x22, 0x5c}) t" using assms(2) by (auto simp: list_all_iff)
  from lex_quote_end(2) [OF lex_double_quoteds [OF lex_quote_start(2) [OF assms(1)] this]]
  show ?thesis by (simp add: Double_Quoted)
qed

text \<open>Blanks.\<close>

lemma lex_blank:
  assumes "lex_word STRING a ls line n t" and "blank_char c"
  shows "lex_delim (lex_step c a) ls (line @ [(t, n)]) n"
  using assms by (auto simp: lex_word_def lex_delim_def lex_step_defs char_delim_def blank_char_def split: prod.splits)

lemma lex_blanks:
  "lex_delim a ls line n \<Longrightarrow> list_all blank_char u \<Longrightarrow> lex_delim (fold lex_step u a) ls line n"
proof (induction u arbitrary: a)
  case (Cons c u)
  from Cons.prems have "lex_delim (lex_step c a) ls line n"
    by (auto simp: lex_delim_def lex_step_defs char_delim_def blank_char_def split: prod.splits)
  with Cons show ?case by simp
qed simp

lemma lex_gap:
  assumes "lex_word STRING a ls line n t" and "list_all blank_char gap" and "gap \<noteq> []"
  shows "lex_delim (fold lex_step gap a) ls (line @ [(t, n)]) n"
  using lex_blanks [OF lex_blank [OF assms(1), of "hd gap"], of "tl gap"] assms(2,3) by (cases gap) simp_all

text \<open>The words of a line; the last one may still be open.\<close>

lemma lex_tail_gap:
  assumes "lex_word STRING a ls line n t" and "list_all blank_char gap"
  shows "lex_tail (fold lex_step gap a) ls (line @ [(t, n)]) n"
  using assms lex_gap [OF assms] by (cases "gap = []") (auto simp: lex_tail_def)

lemma lex_items:
  "lex_ready a ls line n \<Longrightarrow> items_ok items \<Longrightarrow> items \<noteq> []
   \<Longrightarrow> lex_tail (fold lex_step (concat (map item_text items)) a) ls (line @ map (\<lambda>(s, t, gap). (t, n)) items) n"
proof (induction items arbitrary: a line rule: items_ok.induct)
  case (2 s t gap items)
  let ?a = "fold lex_step (spell s t) a"
  have w: "lex_word STRING ?a ls line n t" using lex_spell [OF "2.prems"(1)] "2.prems"(2) by simp
  show ?case
  proof (cases "items = []")
    case True
    then show ?thesis using lex_tail_gap [OF w, of gap] "2.prems"(2) by simp
  next
    case False
    with lex_gap [OF w, of gap] "2.prems"(2) have "lex_ready (fold lex_step gap ?a) ls (line @ [(t, n)]) n"
      by (simp add: lex_delim_ready)
    from "2.IH" [OF this] False "2.prems"(2) show ?thesis by simp
  qed
qed simp

text \<open>The comment and the newline.\<close>

lemma lex_comment_start:
  assumes "lex_tail a ls line n"
  shows "lex_comment (lex_step 0x23 a) ls line n"
  using assms by (auto simp: lex_tail_def lex_delim_def lex_word_def lex_comment_def lex_step_defs char_delim_def split: prod.splits)

lemma lex_comments:
  "lex_comment a ls line n \<Longrightarrow> 0x0a \<notin> set u \<Longrightarrow> lex_comment (fold lex_step u a) ls line n"
proof (induction u arbitrary: a)
  case (Cons c u)
  from Cons.prems have "lex_comment (lex_step c a) ls line n"
    by (auto simp: lex_comment_def lex_step_defs split: prod.splits)
  with Cons show ?case by simp
qed simp

lemma lex_newline_end:
  assumes "lex_tail a ls line n \<or> lex_comment a ls line n"
  shows "lex_delim (lex_step 0x0a a) (if line = [] then ls else ls @ [line]) [] (Suc n)"
  using assms by (auto simp: lex_tail_def lex_delim_def lex_word_def lex_comment_def lex_step_defs char_delim_def split: prod.splits)

lemma lex_line_end:
  assumes "lex_tail a ls line n" and "com = [] \<or> hd com = 0x23 \<and> set com \<inter> {0, 0x0a} = {}"
  shows "lex_delim (fold lex_step (com @ [0x0a]) a) (if line = [] then ls else ls @ [line]) [] (Suc n)"
proof (cases com)
  case Nil
  then show ?thesis using lex_newline_end assms(1) by simp
next
  case (Cons c u)
  have "lex_comment (fold lex_step com a) ls line n"
    using lex_comments [OF lex_comment_start [OF assms(1)], of u] assms(2) Cons by simp
  then show ?thesis using lex_newline_end by simp
qed

text \<open>Rows, from the second one on and the first one.\<close>

lemma lex_row:
  assumes "lex_delim a ls [] n" and "row_ok row"
  shows "lex_delim (fold lex_step (row_text row) a)
    (ls @ (if row_words n row = [] then [] else [row_words n row])) [] (Suc n)"
proof -
  obtain pre items com where row: "row = (pre, items, com)" by (cases row)
  have d: "lex_delim (fold lex_step pre a) ls [] n" using lex_blanks [OF assms(1)] assms(2) row by simp
  have "lex_tail (fold lex_step (pre @ concat (map item_text items)) a) ls (row_words n row) n"
    using d lex_items [OF lex_delim_ready [OF d], of items] assms(2)
    by (cases "items = []") (simp_all add: row row_words_def lex_tail_def)
  from lex_line_end [OF this, of com] assms(2) show ?thesis by (auto simp: row split: if_splits)
qed

lemma lex_rows:
  "lex_delim a ls [] n \<Longrightarrow> list_all row_ok rows
   \<Longrightarrow> lex_delim (fold lex_step (concat (map row_text rows)) a) (ls @ row_lines n rows) [] (n + length rows)"
proof (induction rows arbitrary: a ls n)
  case (Cons row rows)
  then show ?case using Cons.IH [OF lex_row [OF Cons.prems(1), of row]] by simp
qed simp

lemma lex_init_ready: "lex_ready lex_init [] [] 1" and lex_init_word: "lex_word STRING lex_init [] [] 1 []"
  by (simp_all add: lex_ready_def lex_word_def lex_init_def no_column_def)

lemma lex_first_row:
  assumes "row_ok row"
  shows "lex_delim (fold lex_step (row_text row) lex_init) (file_lines [row]) [] 2"
proof -
  obtain pre items com where row: "row = (pre, items, com)" by (cases row)
  let ?l = "(if starts_with_word row then [] else [([], 1)]) @ row_words 1 row"
  have "lex_tail (fold lex_step (pre @ concat (map item_text items)) lex_init) [] ?l 1"
  proof (cases "starts_with_word row")
    case True
    then show ?thesis
      using lex_items [OF lex_init_ready, of items] assms by (simp add: row row_words_def starts_with_word_def)
  next
    case False
    show ?thesis
    proof (cases "pre = []")
      case True
      with False show ?thesis
        using lex_tail_gap [OF lex_init_word, of "[]"] by (simp add: row row_words_def starts_with_word_def)
    next
      case no: False
      have d: "lex_delim (fold lex_step pre lex_init) [] [([], 1)] 1"
        using lex_gap [OF lex_init_word _ no] assms row by simp
      with lex_items [OF lex_delim_ready [OF d], of items] False assms show ?thesis
        by (cases "items = []") (simp_all add: row row_words_def lex_tail_def)
    qed
  qed
  moreover have "?l \<noteq> []" by (auto simp: starts_with_word_def row_words_def)
  ultimately show ?thesis
    using lex_line_end [of _ "[]" ?l 1 com] assms
    by (auto simp: row numeral_2_eq_2 starts_with_word_def row_words_def split: if_splits)
qed

lemma conf_lines_rows:
  assumes "list_all row_ok rows"
  shows "map (map no_column) (conf_lines (concat (map row_text rows))) = file_lines rows"
proof (cases rows)
  case Nil
  then show ?thesis by (simp add: conf_lines_def lex_finish_def lex_init_def)
next
  case (Cons row rest)
  have "file_lines rows = file_lines [row] @ row_lines 2 rest" by (simp add: Cons numeral_2_eq_2)
  with lex_rows [OF lex_first_row, of row rest] assms Cons
  have "lex_delim (fold lex_step (concat (map row_text rows)) lex_init) (file_lines rows) [] (2 + length rest)"
    by simp
  then show ?thesis by (simp add: conf_lines_def lex_finish_def lex_delim_def Let_def)
qed

text \<open>A word with an escape in it.\<close>

lemma lex_escape:
  assumes "lex_word STRING a ls line n t" and "plain c" and "a_last a \<noteq> 0x5c"
  shows "lex_word STRING (fold lex_step [0x5c, c] a) ls line n t"
  using assms by (auto simp: lex_word_def lex_step_defs plain_def char_delim_def split: prod.splits)

lemma lex_step_last: "a_last (lex_step c a) = c"
  by (simp add: lex_step_def lex_newline_def Let_def)

lemma lex_plains_last:
  "u \<noteq> [] \<Longrightarrow> list_all plain u \<Longrightarrow> a_last (fold lex_step u a) \<noteq> 0x5c"
  by (cases u rule: rev_cases) (auto simp: plain_def lex_step_last)

lemma conf_lines_escape:
  assumes "list_all plain s" and "s \<noteq> []" and "plain c" and "list_all plain t"
  shows "map (map no_column) (conf_lines (s @ [0x5c, c] @ t @ [0x20, 0x0a])) = [[(s @ t, 1)]]"
proof -
  have "lex_word STRING (fold lex_step s lex_init) [] [] 1 s"
    using lex_spell [OF lex_init_ready, of Bare s] assms(1,2) by simp
  from lex_escape [OF this assms(3) lex_plains_last [OF assms(2,1)]]
  have "lex_word STRING (fold lex_step (s @ [0x5c, c]) lex_init) [] [] 1 s" by simp
  from lex_line_end [OF lex_tail_gap [OF lex_plains [OF this assms(4)], of "[0x20]"], of "[]"]
  have "lex_delim (fold lex_step (s @ [0x5c, c] @ t @ [0x20, 0x0a]) lex_init) [[(s @ t, 1)]] [] 2"
    by (simp add: numeral_2_eq_2 blank_char_def)
  then show ?thesis by (simp add: conf_lines_def lex_finish_def lex_delim_def Let_def)
qed

section \<open>The store behind the buffer\<close>

definition word_char :: "byte \<Rightarrow> bool" where
  "word_char c \<longleftrightarrow> plain c \<or> c = 0x20"

text \<open>Words with single blanks between them: the last character is not a blank.\<close>

definition single_spaced :: "byte list \<Rightarrow> bool" where
  "single_spaced s \<longleftrightarrow> s \<noteq> [] \<and> list_all word_char s \<and> hd s \<noteq> 0x20 \<and> s ! (length s - 1) \<noteq> 0x20
     \<and> (\<forall>i. Suc i < length s \<longrightarrow> s ! i = 0x20 \<longrightarrow> s ! Suc i \<noteq> 0x20)"

definition tight :: "byte list \<Rightarrow> nat \<Rightarrow> 'c conf \<Rightarrow> bool" where
  "tight s i x \<longleftrightarrow> length (x_buf x) = length s \<and> drop i (x_buf x) = drop i s \<and> x_o x = i \<and> x_escape x = ESCAPE_OFF
     \<and> script (x_world x) = []
     \<and> (if i = 0 then x_state x = STRING
        else if s ! (i - 1) = 0x20 then x_state x = DELIM
        else x_state x = STRING \<and> t_len (x_token x) \<noteq> 0)"

lemma tight_step:
  assumes "tight s i x" and "single_spaced s" and "i < length s"
  shows "\<exists>x'. conf_step h i x = Some (True, x') \<and> tight s (Suc i) x'"
proof -
  have c: "word_char (s ! i)" using assms by (auto simp: single_spaced_def list_all_length)
  have x: "length (x_buf x) = length s" "drop i (x_buf x) = drop i s" using assms(1) by (simp_all add: tight_def)
  then have rd: "rd (x_buf x) i = Some (s ! i)"
    using assms(3) by (metis hd_drop_conv_nth rd_def)
  have drop: "drop (Suc i) ((x_buf x)[i := b]) = drop (Suc i) s" for b
    using x(2) drop_update_cancel [of i "Suc i" "x_buf x" b] by (metis drop_drop lessI plus_1_eq_Suc)
  have first: "i = 0 \<Longrightarrow> s ! i \<noteq> 0x20" using assms(2) by (cases s) (auto simp: single_spaced_def)
  have nxt: "i \<noteq> 0 \<Longrightarrow> s ! (i - 1) = 0x20 \<Longrightarrow> s ! i \<noteq> 0x20"
    using assms(2,3) by (cases i) (auto simp: single_spaced_def)
  show ?thesis
  proof (cases "s ! i = 0x20")
    case True
    then have "x_state x = STRING" using assms(1) first nxt by (auto simp: tight_def split: if_splits)
    with True assms(1,3) show ?thesis
      by (auto simp: tight_def conf_step_def rd conf_char_def Let_def char_delim_def within_string_def
          end_of_string_def start_of_string_def conf_end_token_def conf_put_def wr_def token_save_def conf_newline_def drop)
  next
    case False
    then have "plain (s ! i)" using c by (simp add: word_char_def)
    moreover have "x_state x = STRING \<or> x_state x = DELIM" using assms(1) by (auto simp: tight_def split: if_splits)
    ultimately show ?thesis
      using assms(1,3) False
      by (auto simp: tight_def conf_step_def rd conf_char_def Let_def char_delim_def within_string_def plain_def
          end_of_string_def start_of_string_def conf_put_def wr_def conf_newline_def drop token_start_def split: if_splits)
  qed
qed

lemma tight_loop:
  "tight s i x \<Longrightarrow> single_spaced s \<Longrightarrow> i + n = length s \<Longrightarrow> \<exists>x'. conf_loop h i n x = Some (True, x') \<and> tight s (length s) x'"
proof (induction n arbitrary: i x)
  case (Suc n)
  from tight_step [OF Suc.prems(1,2)] Suc.prems(3) obtain x' where "conf_step h i x = Some (True, x')" "tight s (Suc i) x'"
    by auto
  with Suc.IH [of "Suc i" x'] Suc.prems show ?case by auto
qed auto

text \<open>Reading a file of rows, and one of plain and quoted words as the daemon's properties use it.\<close>

lemma conf_read_rows:
  assumes "file_read junk blk w = Some (Some (concat (map row_text rows)), w')" and "script w' = []"
    and "list_all row_ok rows"
  shows "patty_conf_read junk blk (on_tokens (\<lambda>line. g (map no_column line))) ctx w
    = map_option (\<lambda>(r, ctx). (r, ctx, w')) (run_lines g (file_lines rows) ctx)"
proof -
  let ?f = "concat (map row_text rows)"
  have zero: "0 \<notin> set ?f" using assms(3) row_text_no_nul by (auto simp: list_all_iff)
  have "?f = [] \<or> ?f ! (length ?f - 1) = 0x0a"
  proof (cases rows rule: rev_cases)
    case (snoc init row)
    then show ?thesis by (cases row) (simp add: nth_append)
  qed simp
  from conf_read_run [OF assms(1,2) zero this, of "\<lambda>line. g (map no_column line)" ctx]
  show ?thesis by (simp only: run_lines_map [of g "map no_column"] conf_lines_rows [OF assms(3)])
qed

lemma conf_read_file:
  assumes "file_read junk blk w = Some (Some (concat (map line_text lss)), w')" and "script w' = []"
    and "\<forall>l \<in> set lss. l \<noteq> [] \<and> list_all quotable l"
  shows "patty_conf_read junk blk (on_tokens (\<lambda>line. g (map no_column line))) ctx w
    = map_option (\<lambda>(r, ctx). (r, ctx, w'))
        (run_lines g (map (\<lambda>(n, l). map (\<lambda>t. (t, n)) l) (enumerate 1 lss)) ctx)"
  using conf_read_rows [of junk blk w "map line_row lss", OF _ assms(2)] assms(1,3)
  by (simp add: line_row_text comp_def line_row_file list_all_iff line_row_ok)

section \<open>Properties\<close>

text \<open>
  C8: Reading a configuration file calls the handler for exactly the lines of the file. For words
  written plainly, in single or in double quotes, with any blanks between them, blank lines,
  comments behind words or on lines of their own, the handler gets the words of each line that
  has any, unchanged, in order and with the line's number, until it fails; when no allocation fails,
  patty_conf_read fails exactly when the handler does. A file that does not start with a word gives its first line, be it
  empty or a comment, an empty word in front.
\<close>
theorem conf_read_roundtrip:
  assumes "file_read junk blk w = Some (Some (concat (map row_text rows)), w')" and "script w' = []"
    and "list_all row_ok rows"
  shows "patty_conf_read junk blk (on_tokens (\<lambda>line. g (map no_column line))) ctx w
    = map_option (\<lambda>(r, ctx). (r, ctx, w')) (run_lines g (file_lines rows) ctx)"
  by (rule conf_read_rows [OF assms])

text \<open>The file is \<open>a "b "\<close>, an empty line, \<open>c#d\<close>.\<close>

lemma conf_read_roundtrip_witness:
  "patty_conf_read (\<lambda>_. 0) 4096 (on_tokens (\<lambda>line. (\<lambda>line log. Some (0, log @ [line])) (map no_column line))) []
     (world0 [RVal 3, RVal 12, ROk, RBytes [0x61, 0x20, 0x22, 0x62, 0x20, 0x22, 0x0a, 0x0a, 0x63, 0x23, 0x64, 0x0a]])
   = Some (0, [[([0x61], 1), ([0x62, 0x20], 1)], [([0x63], 3)]], (world0 [])\<lparr>closed := [3]\<rparr>)"
proof -
  let ?rows = "[([], [(Bare, [0x61], [0x20]), (Double_Quoted, [0x62, 0x20], [])], []), ([], [], []),
      ([], [(Bare, [0x63], [])], [0x23, 0x64])] :: conf_row list"
  let ?f = "[0x61, 0x20, 0x22, 0x62, 0x20, 0x22, 0x0a, 0x0a, 0x63, 0x23, 0x64, 0x0a] :: byte list"
  have f: "concat (map row_text ?rows) = ?f" by simp
  have "file_read (\<lambda>_. 0) 4096 (world0 [RVal 3, RVal 12, ROk, RBytes ?f]) = Some (Some ?f, (world0 [])\<lparr>closed := [3]\<rparr>)"
    using file_read_whole [of ?f 4096 3 "\<lambda>_. 0"] by simp
  then show ?thesis
    using conf_read_roundtrip [of "\<lambda>_. 0" 4096 "world0 [RVal 3, RVal 12, ROk, RBytes ?f]" ?rows
        "(world0 [])\<lparr>closed := [3]\<rparr>" "\<lambda>line log. Some (0, log @ [line])" "[]"] f
    by (simp add: blank_char_def plain_def char_delim_def starts_with_word_def row_words_def world0_def)
qed

text \<open>
  An escaped character is lost. The backslash sets the escape flag, and while it is set nothing
  is stored: the character behind a backslash is dropped with it instead of being taken literally.
\<close>
theorem conf_escape_drops:
  assumes "list_all plain s" and "s \<noteq> []" and "plain c" and "list_all plain t"
    and "file_read junk blk w = Some (Some (s @ [0x5c, c] @ t @ [0x20, 0x0a]), w')" and "script w' = []"
  shows "patty_conf_read junk blk (on_tokens (\<lambda>line log. Some (0, log @ [map no_column line]))) [] w
    = Some (0, [[(s @ t, 1)]], w')"
proof -
  let ?f = "s @ [0x5c, c] @ t @ [0x20, 0x0a]" and ?g = "\<lambda>line log. Some (0 :: int, log @ [line])"
  have "0 \<notin> set ?f" using assms(1,3,4) by (auto simp: list_all_iff plain_def)
  then have "patty_conf_read junk blk (on_tokens (\<lambda>line. ?g (map no_column line))) [] w
    = map_option (\<lambda>(r, ctx). (r, ctx, w')) (run_lines ?g (map (map no_column) (conf_lines ?f)) [])"
    using conf_read_run [OF assms(5,6), of "\<lambda>line. ?g (map no_column line)" "[]"]
    by (simp only: run_lines_map [of ?g "map no_column"]) (simp add: nth_append)
  then show ?thesis unfolding conf_lines_escape [OF assms(1-4)] by simp
qed

lemma conf_escape_drops_witness:
  "patty_conf_read (\<lambda>_. 0) 4096 (on_tokens (\<lambda>line log. Some (0, log @ [map no_column line]))) []
     (world0 [RVal 3, RVal 6, ROk, RBytes [0x61, 0x5c, 0x62, 0x63, 0x20, 0x0a]])
   = Some (0, [[([0x61, 0x63], 1)]], (world0 [])\<lparr>closed := [3]\<rparr>)"
  using conf_escape_drops [of "[0x61]" "0x62" "[0x63]" "\<lambda>_. 0" 4096 _ "(world0 [])\<lparr>closed := [3]\<rparr>"]
    file_read_whole [of "[0x61, 0x5c, 0x62, 0x63, 0x20, 0x0a]" 4096 3 "\<lambda>_. 0"]
  by (simp add: plain_def char_delim_def world0_def)

text \<open>
  C39: A file without a newline at its end is terminated behind its buffer. For words with single
  blanks between them every character keeps its place, and the NUL of the last token is stored one
  byte behind the allocation, whatever the handler.
\<close>
theorem conf_no_newline_overflow:
  assumes "file_read junk blk w = Some (Some content, w')" and "script w' = []" and "single_spaced content"
  shows "patty_conf_read junk blk handler ctx w = None"
proof -
  have "tight content 0 (conf_init content ctx w')" using assms(2) by (simp add: tight_def conf_init_def)
  from tight_loop [OF this assms(3)] obtain x where x: "conf_loop handler 0 (length content) (conf_init content ctx w') = Some (True, x)"
    "tight content (length content) x" by force
  then have "conf_finish handler x = None"
    using assms(3) by (auto simp: conf_finish_def tight_def single_spaced_def conf_end_token_def conf_put_def wr_def)
  with x(1) assms(1,2) show ?thesis by (simp add: patty_conf_read_def)
qed

lemma conf_no_newline_overflow_witness:
  "\<forall>handler. patty_conf_read (\<lambda>_. 0) 4096 handler (0 :: nat) (world0 [RVal 3, RVal 3, ROk, RBytes [0x61, 0x20, 0x62]]) = None"
proof
  fix handler :: "nat conf_handler"
  have "single_spaced [0x61, 0x20, 0x62]"
    by (auto simp: single_spaced_def word_char_def plain_def char_delim_def less_Suc_eq)
  then show "patty_conf_read (\<lambda>_. 0) 4096 handler 0 (world0 [RVal 3, RVal 3, ROk, RBytes [0x61, 0x20, 0x62]]) = None"
    using conf_no_newline_overflow [of "\<lambda>_. 0" 4096 _ "[0x61, 0x20, 0x62]" "(world0 [])\<lparr>closed := [3]\<rparr>"]
      file_read_whole [of "[0x61, 0x20, 0x62]" 4096 3 "\<lambda>_. 0"]
    by (simp add: world0_def)
qed

end
