(* ===== verification/Patty_Kiss.thy ===== *)
theory Patty_Kiss
  imports Patty_Prelude
begin

text \<open>
  KISS framing: the sender of \<open>src/src/kiss.c\<close> and the receiving state machine of
  \<open>src/src/tnc.c\<close>. The sender writes through the scripted world; the receiver works on an
  input buffer of 4096 bytes that \<open>fill\<close> reads into and \<open>drain\<close> decodes from, into a frame
  buffer of the caller. \<open>readlen\<close> is a \<open>size_t\<close>: a failed \<open>read\<close> stores \<open>2 ^ 64 - 1\<close>.

  The lemmas show what the sender puts on the line, that the receiver computes a simple
  automaton on the bytes whatever the chunks they arrive in, and the round trip.
\<close>

section \<open>Sending\<close>

definition PATTY_KISS_FEND :: byte where "PATTY_KISS_FEND = 0xc0"
definition PATTY_KISS_FESC :: byte where "PATTY_KISS_FESC = 0xdb"
definition PATTY_KISS_TFEND :: byte where "PATTY_KISS_TFEND = 0xdc"
definition PATTY_KISS_TFESC :: byte where "PATTY_KISS_TFESC = 0xdd"

lemmas kiss_bytes [simp] = PATTY_KISS_FEND_def PATTY_KISS_FESC_def PATTY_KISS_TFEND_def PATTY_KISS_TFESC_def

definition PATTY_KISS_COMMAND :: "byte \<Rightarrow> byte" where
  "PATTY_KISS_COMMAND cmd = cmd AND 0x0f"

definition PATTY_KISS_COMMAND_PORT :: "byte \<Rightarrow> byte" where
  "PATTY_KISS_COMMAND_PORT cmd = drop_bit 4 (cmd AND 0xf0)"

definition PATTY_KISS_DATA :: byte where "PATTY_KISS_DATA = 0x00"
definition PATTY_KISS_TXDELAY :: byte where "PATTY_KISS_TXDELAY = 0x01"
definition PATTY_KISS_PERSISTENCE :: byte where "PATTY_KISS_PERSISTENCE = 0x02"
definition PATTY_KISS_SLOT_TIME :: byte where "PATTY_KISS_SLOT_TIME = 0x03"
definition PATTY_KISS_TX_TAIL :: byte where "PATTY_KISS_TX_TAIL = 0x04"
definition PATTY_KISS_FULL_DUPLEX :: byte where "PATTY_KISS_FULL_DUPLEX = 0x05"
definition PATTY_KISS_HW_SET :: byte where "PATTY_KISS_HW_SET = 0x06"
definition PATTY_KISS_RETURN :: byte where "PATTY_KISS_RETURN = 0xff"

lemmas kiss_commands [simp] = PATTY_KISS_DATA_def PATTY_KISS_TXDELAY_def PATTY_KISS_PERSISTENCE_def
  PATTY_KISS_SLOT_TIME_def PATTY_KISS_TX_TAIL_def PATTY_KISS_FULL_DUPLEX_def PATTY_KISS_HW_SET_def
  PATTY_KISS_RETURN_def

definition write_byte :: "int \<Rightarrow> byte \<Rightarrow> world \<Rightarrow> int \<times> world" where
  "write_byte fd c w = sys_write fd [c] w"

definition start_octets :: "byte \<Rightarrow> int \<Rightarrow> byte list" where
  "start_octets command port =
     [PATTY_KISS_FEND, push_bit 4 (word_of_int port AND 0x0f) OR (command AND 0x0f)]"

definition write_start :: "int \<Rightarrow> byte \<Rightarrow> int \<Rightarrow> world \<Rightarrow> int \<times> world" where
  "write_start fd command port w = sys_write fd (start_octets command port) w"

definition escape_fend :: "byte list" where "escape_fend = [PATTY_KISS_FESC, PATTY_KISS_TFEND]"
definition escape_fesc :: "byte list" where "escape_fesc = [PATTY_KISS_FESC, PATTY_KISS_TFESC]"

text \<open>The segment of \<open>buf\<close> from \<open>start\<close> up to \<open>stop\<close>.\<close>

definition segment :: "byte list \<Rightarrow> nat \<Rightarrow> nat \<Rightarrow> byte list" where
  "segment buf start stop = take (stop - start) (drop start buf)"

text \<open>
  The loop of \<open>patty_kiss_frame_send\<close> from index \<open>i\<close> on, \<open>cs\<close> being the bytes not yet looked
  at; the result is \<open>start\<close> and \<open>end\<close> after the loop.
\<close>

fun frame_send_loop ::
  "int \<Rightarrow> byte list \<Rightarrow> byte list \<Rightarrow> nat \<Rightarrow> nat \<Rightarrow> nat \<Rightarrow> world \<Rightarrow> (nat \<times> nat) option \<times> world" where
  "frame_send_loop fd buf [] i start stop w = (Some (start, stop), w)"
| "frame_send_loop fd buf (c # cs) i start stop w =
     (let escape = (if c = PATTY_KISS_FEND then Some escape_fend
                    else if c = PATTY_KISS_FESC then Some escape_fesc
                    else None);
          stop = (if escape = None then i + 1 else stop) in
      case escape of
        None \<Rightarrow> frame_send_loop fd buf cs (i + 1) start stop w
      | Some e \<Rightarrow>
          (case sys_write fd (segment buf start stop) w of (r, w) \<Rightarrow>
             if r < 0 then (None, w)
             else (case sys_write fd e w of (r, w) \<Rightarrow>
                     if r < 0 then (None, w)
                     else frame_send_loop fd buf cs (i + 1) (i + 1) (i + 1) w)))"

definition patty_kiss_frame_send :: "int \<Rightarrow> byte list \<Rightarrow> int \<Rightarrow> world \<Rightarrow> int \<times> world" where
  "patty_kiss_frame_send fd buf port w =
     (case write_start fd PATTY_KISS_DATA port w of (r, w) \<Rightarrow>
        if r < 0 then (-1, w)
        else (case frame_send_loop fd buf buf 0 0 0 w of
                (None, w) \<Rightarrow> (-1, w)
              | (Some (start, stop), w) \<Rightarrow>
                  (case (if stop - start \<noteq> 0 then sys_write fd (segment buf start stop) w else (0, w)) of
                     (r, w) \<Rightarrow>
                       if r < 0 then (-1, w)
                       else (case write_byte fd PATTY_KISS_FEND w of (r, w) \<Rightarrow>
                               if r < 0 then (-1, w) else (int (length buf), w)))))"

section \<open>The receiver\<close>

record if_stats =
  rx_frames :: size_t
  tx_frames :: size_t
  rx_bytes :: size_t
  tx_bytes :: size_t
  dropped :: size_t

definition stats_zero :: if_stats where
  "stats_zero = \<lparr>rx_frames = 0, tx_frames = 0, rx_bytes = 0, tx_bytes = 0, dropped = 0\<rparr>"

text \<open>The terminal attributes: the flag words the code changes, and the speed.\<close>

record termios =
  c_iflag :: u32
  c_oflag :: u32
  c_cflag :: u32
  c_lflag :: u32
  c_speed :: u32

definition termios_zero :: termios where
  "termios_zero = \<lparr>c_iflag = 0, c_oflag = 0, c_cflag = 0, c_lflag = 0, c_speed = 0\<rparr>"

datatype kiss_state = KISS_NONE | KISS_FRAME_COMMAND | KISS_FRAME_BODY | KISS_FRAME_ESCAPE

definition TNC_NONE :: u32 where "TNC_NONE = 0"
definition TNC_CLOSE_ON_DESTROY :: u32 where "TNC_CLOSE_ON_DESTROY = 1"

record tnc =
  t_stats :: if_stats
  t_attrs :: termios
  t_attrs_old :: termios
  t_fd :: int
  t_opts :: u32
  t_buf :: "byte list"
  t_state :: kiss_state
  t_command :: byte
  t_port :: byte
  t_bufsz :: nat
  t_readlen :: size_t
  t_offset_i :: nat
  t_offset_o :: nat

definition PATTY_KISS_TNC_BUFSZ :: nat where "PATTY_KISS_TNC_BUFSZ = 4096"
definition PATTY_KISS_TNC_PORT :: int where "PATTY_KISS_TNC_PORT = 0"

text \<open>
  The assignments at the end of \<open>patty_kiss_tnc_new\<close>, once the descriptor is open; \<open>garbage\<close> is
  what the allocation of the buffer holds. The attributes are those of a descriptor that is no
  terminal, and never looked at.
\<close>

definition tnc_fields :: "int \<Rightarrow> byte list \<Rightarrow> tnc" where
  "tnc_fields fd garbage =
     \<lparr>t_stats = stats_zero, t_attrs = termios_zero, t_attrs_old = termios_zero, t_fd = fd,
      t_opts = TNC_NONE, t_buf = garbage, t_state = KISS_NONE,
      t_command = PATTY_KISS_RETURN, t_port = 0, t_bufsz = PATTY_KISS_TNC_BUFSZ,
      t_readlen = 0, t_offset_i = 0, t_offset_o = 0\<rparr>"

definition patty_kiss_tnc_stats :: "tnc \<Rightarrow> if_stats" where
  "patty_kiss_tnc_stats tnc = t_stats tnc"

definition patty_kiss_tnc_fd :: "tnc \<Rightarrow> int" where
  "patty_kiss_tnc_fd tnc = t_fd tnc"

definition patty_kiss_tnc_ready :: "tnc \<Rightarrow> (int \<Rightarrow> bool) \<Rightarrow> bool" where
  "patty_kiss_tnc_ready tnc fds = fds (t_fd tnc)"

definition patty_kiss_tnc_reset :: "tnc \<Rightarrow> world \<Rightarrow> int \<times> tnc \<times> world" where
  "patty_kiss_tnc_reset tnc w = (-1, tnc, w\<lparr>err := Some ENOSYS\<rparr>)"

definition tnc_drop :: "tnc \<Rightarrow> tnc" where
  "tnc_drop tnc =
     tnc\<lparr>t_state := KISS_NONE, t_command := PATTY_KISS_RETURN, t_port := 0, t_offset_i := 0,
         t_offset_o := 0, t_readlen := 0, t_stats := (t_stats tnc)\<lparr>dropped := dropped (t_stats tnc) + 1\<rparr>\<rparr>"

text \<open>
  The unsigned \<open>readlen\<close> is never less than 0, so a failed \<open>read\<close> takes the normal path; it is
  returned as a signed number.
\<close>

definition patty_kiss_tnc_fill :: "tnc \<Rightarrow> world \<Rightarrow> int \<times> tnc \<times> world" where
  "patty_kiss_tnc_fill tnc w =
     (case sys_read (t_bufsz tnc) w of
        (Inl e, w) \<Rightarrow> (-1, tnc\<lparr>t_readlen := -1, t_offset_i := 0\<rparr>, w)
      | (Inr bs, w) \<Rightarrow>
          (int (length bs),
           tnc\<lparr>t_buf := bs @ drop (length bs) (t_buf tnc), t_readlen := of_nat (length bs), t_offset_i := 0\<rparr>,
           w))"

datatype drain_outcome = Go | Done | Fail errno

text \<open>One byte in \<open>patty_kiss_tnc_drain\<close>: the \<open>switch\<close> on the state.\<close>

definition tnc_byte :: "byte \<Rightarrow> tnc \<Rightarrow> byte list \<Rightarrow> (drain_outcome \<times> tnc \<times> byte list) option" where
  "tnc_byte c tnc buf = (case t_state tnc of
       KISS_NONE \<Rightarrow>
         Some (Go, if c = PATTY_KISS_FEND then tnc\<lparr>t_state := KISS_FRAME_COMMAND\<rparr> else tnc, buf)
     | KISS_FRAME_COMMAND \<Rightarrow>
         let command = PATTY_KISS_COMMAND c; port = PATTY_KISS_COMMAND_PORT c in
         if command = PATTY_KISS_FEND then Some (Go, tnc, buf)
         else if command \<in> {PATTY_KISS_DATA, PATTY_KISS_TXDELAY, PATTY_KISS_PERSISTENCE, PATTY_KISS_SLOT_TIME,
                            PATTY_KISS_TX_TAIL, PATTY_KISS_FULL_DUPLEX, PATTY_KISS_HW_SET, PATTY_KISS_RETURN}
         then Some (Go, tnc\<lparr>t_state := KISS_FRAME_BODY, t_command := command, t_port := port\<rparr>, buf)
         else Some (Fail EIO, tnc, buf)
     | KISS_FRAME_BODY \<Rightarrow>
         if c = PATTY_KISS_FESC then Some (Go, tnc\<lparr>t_state := KISS_FRAME_ESCAPE\<rparr>, buf)
         else if c = PATTY_KISS_FEND then Some (Done, tnc\<lparr>t_state := KISS_FRAME_COMMAND\<rparr>, buf)
         else if t_command tnc = PATTY_KISS_DATA
         then do { buf \<leftarrow> wr buf (t_offset_o tnc) c;
                   Some (Go, tnc\<lparr>t_offset_o := t_offset_o tnc + 1\<rparr>, buf) }
         else Some (Go, tnc, buf)
     | KISS_FRAME_ESCAPE \<Rightarrow>
         if c = PATTY_KISS_TFEND
         then do { buf \<leftarrow> wr buf (t_offset_o tnc) PATTY_KISS_FEND;
                   Some (Go, tnc\<lparr>t_offset_o := t_offset_o tnc + 1, t_state := KISS_FRAME_BODY\<rparr>, buf) }
         else if c = PATTY_KISS_TFESC
         then do { buf \<leftarrow> wr buf (t_offset_o tnc) PATTY_KISS_FESC;
                   Some (Go, tnc\<lparr>t_offset_o := t_offset_o tnc + 1, t_state := KISS_FRAME_BODY\<rparr>, buf) }
         else Some (Fail EIO, tnc, buf))"

lemma tnc_byte_offsets:
  "tnc_byte c tnc buf = Some (oc, tnc', buf') \<Longrightarrow>
   t_readlen tnc' = t_readlen tnc \<and> t_offset_i tnc' = t_offset_i tnc \<and> t_buf tnc' = t_buf tnc
   \<and> t_bufsz tnc' = t_bufsz tnc \<and> t_fd tnc' = t_fd tnc \<and> t_stats tnc' = t_stats tnc"
  by (auto simp: tnc_byte_def Let_def bind_eq_Some_conv split: kiss_state.splits if_splits)

text \<open>The loop of \<open>patty_kiss_tnc_drain\<close>; the flag tells that it was left by \<open>goto error_io\<close>.\<close>

function tnc_drain_loop :: "tnc \<Rightarrow> byte list \<Rightarrow> nat \<Rightarrow> (unit cres \<times> tnc \<times> byte list) option" where
  "tnc_drain_loop tnc buf len =
     (if t_offset_i tnc < unat (t_readlen tnc)
      then let tnc1 = (if t_offset_o tnc = len then tnc_drop tnc else tnc) in
           (case rd (t_buf tnc1) (t_offset_i tnc1) of
              None \<Rightarrow> None
            | Some c \<Rightarrow>
                (case tnc_byte c (tnc1\<lparr>t_offset_i := t_offset_i tnc1 + 1\<rparr>) buf of
                   None \<Rightarrow> None
                 | Some (Go, tnc2, buf2) \<Rightarrow> tnc_drain_loop tnc2 buf2 len
                 | Some (Done, tnc2, buf2) \<Rightarrow> Some (Inr (), tnc2, buf2)
                 | Some (Fail e, tnc2, buf2) \<Rightarrow> Some (Inl e, tnc2, buf2)))
      else Some (Inr (), tnc, buf))"
  by auto
termination
  by (relation "measure (\<lambda>(tnc, buf, len). unat (t_readlen tnc) - t_offset_i tnc)")
     (auto dest!: tnc_byte_offsets simp: tnc_drop_def split: if_splits)

declare tnc_drain_loop.simps [simp del]

text \<open>The difference of the two offsets is returned as a signed number.\<close>

definition patty_kiss_tnc_drain :: "tnc \<Rightarrow> byte list \<Rightarrow> nat \<Rightarrow> (int cres \<times> tnc \<times> byte list) option" where
  "patty_kiss_tnc_drain tnc buf len =
     map_option (\<lambda>(r, tnc', buf').
         (map_sum id (\<lambda>_. int (t_offset_i tnc') - int (t_offset_i tnc)) r, tnc', buf'))
       (tnc_drain_loop tnc buf len)"

definition patty_kiss_tnc_pending :: "tnc \<Rightarrow> bool" where
  "patty_kiss_tnc_pending tnc \<longleftrightarrow> t_state tnc = KISS_FRAME_COMMAND \<and> t_command tnc = PATTY_KISS_DATA
     \<and> t_port tnc = 0 \<and> t_offset_o tnc > 0"

definition patty_kiss_tnc_flush :: "tnc \<Rightarrow> int \<times> tnc" where
  "patty_kiss_tnc_flush tnc =
     (int (t_offset_o tnc),
      tnc\<lparr>t_state := KISS_NONE, t_command := PATTY_KISS_RETURN, t_offset_o := 0\<rparr>)"

partial_function (option) patty_kiss_tnc_recv ::
  "tnc \<Rightarrow> byte list \<Rightarrow> nat \<Rightarrow> world \<Rightarrow> (int \<times> tnc \<times> byte list \<times> world) option" where
  "patty_kiss_tnc_recv tnc buf len w =
     (if patty_kiss_tnc_pending tnc
      then (case patty_kiss_tnc_flush tnc of (n, tnc') \<Rightarrow> Some (n, tnc', buf, w))
      else do { (drained, tnc, buf) \<leftarrow> patty_kiss_tnc_drain tnc buf len;
                case drained of
                  Inl e \<Rightarrow> Some (-1, tnc, buf, w\<lparr>err := Some e\<rparr>)
                | Inr n \<Rightarrow>
                    if n = 0
                    then (case patty_kiss_tnc_fill tnc w of (filled, tnc, w) \<Rightarrow>
                            if filled < 0 then Some (-1, tnc, buf, w)
                            else if filled = 0 then Some (0, tnc, buf, w)
                            else patty_kiss_tnc_recv tnc buf len w)
                    else if n < 0 then Some (-1, tnc, buf, w)
                    else patty_kiss_tnc_recv tnc buf len w })"

definition patty_kiss_tnc_send :: "tnc \<Rightarrow> byte list \<Rightarrow> world \<Rightarrow> int \<times> tnc \<times> world" where
  "patty_kiss_tnc_send tnc buf w =
     (case patty_kiss_frame_send (t_fd tnc) buf PATTY_KISS_TNC_PORT w of (r, w) \<Rightarrow> (r, tnc, w))"

section \<open>What the sender puts on the line\<close>

definition kiss_escape :: "byte \<Rightarrow> byte list" where
  "kiss_escape c = (if c = PATTY_KISS_FEND then escape_fend
                    else if c = PATTY_KISS_FESC then escape_fesc else [c])"

definition kiss_body :: "byte list \<Rightarrow> byte list" where
  "kiss_body bs = concat (map kiss_escape bs)"

definition kiss_frame :: "int \<Rightarrow> byte list \<Rightarrow> byte list" where
  "kiss_frame port bs = start_octets PATTY_KISS_DATA port @ kiss_body bs @ [PATTY_KISS_FEND]"

lemma kiss_body_Nil [simp]: "kiss_body [] = []"
  by (simp add: kiss_body_def)

lemma kiss_body_Cons: "kiss_body (c # bs) = kiss_escape c @ kiss_body bs"
  by (simp add: kiss_body_def)

text \<open>A \<open>write\<close> appends its bytes to the stream of the descriptor, or nothing.\<close>

lemma sys_write_stream:
  "sys_write fd bs w = (r, w') \<Longrightarrow>
   stream_of fd (out w') = stream_of fd (out w) @ (if r < 0 then [] else bs)"
  by (cases "r < 0") (simp_all add: sys_write_ok sys_write_fail)

lemma segment_extend:
  assumes "buf = pre @ c # cs" and "length pre = i" and "start \<le> i"
  shows "segment buf start (i + 1) = segment buf start i @ [c]"
proof -
  have "i + 1 - start = Suc (i - start)" using assms(3) by simp
  moreover have "drop start buf ! (i - start) = c" using assms by (simp add: nth_append)
  ultimately show ?thesis
    using assms by (simp add: segment_def take_Suc_conv_app_nth)
qed

lemma segment_empty [simp]: "segment buf i i = []"
  by (simp add: segment_def)

text \<open>
  The loop: what has been written, together with the plain bytes still pending, is the
  escaped text; after a failed write it is a prefix of it.
\<close>

lemma frame_send_loop_stream:
  assumes "frame_send_loop fd buf cs i start i w = (res, w')"
    and "buf = pre @ cs" and "length pre = i" and "start \<le> i"
  shows "\<exists>sent. stream_of fd (out w') = stream_of fd (out w) @ sent
    \<and> (case res of
          Some (s, e) \<Rightarrow> s \<le> e \<and> e = length buf \<and> sent @ segment buf s e = segment buf start i @ kiss_body cs
        | None \<Rightarrow> \<exists>rest. sent @ rest = segment buf start i @ kiss_body cs)"
  using assms
proof (induction cs arbitrary: i start w pre)
  case Nil
  then show ?case by auto
next
  case (Cons c cs)
  have ext: "segment buf start (i + 1) = segment buf start i @ [c]"
    using segment_extend Cons.prems(2-4) by blast
  have pre: "buf = (pre @ [c]) @ cs" "length (pre @ [c]) = i + 1" using Cons.prems by simp_all
  show ?case
  proof (cases "c = PATTY_KISS_FEND \<or> c = PATTY_KISS_FESC")
    case False
    then have "frame_send_loop fd buf cs (i + 1) start (i + 1) w = (res, w')" "kiss_escape c = [c]"
      using Cons.prems(1) by (simp_all add: Let_def kiss_escape_def)
    with Cons.IH [OF this(1) pre] Cons.prems(4) ext show ?thesis
      by (auto simp: kiss_body_Cons split: option.splits)
  next
    case True
    define e where "e = kiss_escape c"
    obtain r1 w1 where w1: "sys_write fd (segment buf start i) w = (r1, w1)" by fastforce
    obtain r2 w2 where w2: "sys_write fd e w1 = (r2, w2)" by fastforce
    have step: "frame_send_loop fd buf (c # cs) i start i w =
        (if r1 < 0 then (None, w1) else if r2 < 0 then (None, w2)
         else frame_send_loop fd buf cs (i + 1) (i + 1) (i + 1) w2)"
      using True w1 w2 by (auto simp: Let_def e_def kiss_escape_def)
    note s1 = sys_write_stream [OF w1] and s2 = sys_write_stream [OF w2]
    show ?thesis
    proof (cases "r1 < 0 \<or> r2 < 0")
      case True
      then have "res = None" "w' = (if r1 < 0 then w1 else w2)"
        using Cons.prems(1) unfolding step by (auto split: if_splits)
      then show ?thesis using s1 s2 True by (auto simp: kiss_body_Cons)
    next
      case False
      then have "frame_send_loop fd buf cs (i + 1) (i + 1) (i + 1) w2 = (res, w')"
        using Cons.prems(1) unfolding step by simp
      from Cons.IH [OF this pre] obtain sent where
        "stream_of fd (out w') = stream_of fd (out w2) @ sent"
        and "case res of
          Some (s, e) \<Rightarrow> s \<le> e \<and> e = length buf \<and> sent @ segment buf s e = kiss_body cs
        | None \<Rightarrow> \<exists>rest. sent @ rest = kiss_body cs"
        unfolding segment_empty append_Nil by blast
      with s1 s2 False show ?thesis
        by (intro exI [of _ "segment buf start i @ e @ sent"])
           (auto simp: kiss_body_Cons e_def split: option.splits)
    qed
  qed
qed

lemma kiss_frame_send_stream:
  assumes "patty_kiss_frame_send fd bs port w = (r, w')"
  obtains sent rest where "stream_of fd (out w') = stream_of fd (out w) @ sent"
    and "sent @ rest = kiss_frame port bs" and "r = (if rest = [] then int (length bs) else -1)"
proof -
  obtain r0 w0 where w0: "write_start fd PATTY_KISS_DATA port w = (r0, w0)" by fastforce
  note s0 = sys_write_stream [OF w0 [unfolded write_start_def]]
  show thesis
  proof (cases "r0 < 0")
    case True
    with assms w0 have "r = -1" "w' = w0" by (simp_all add: patty_kiss_frame_send_def)
    with s0 True that [of "[]" "kiss_frame port bs"] show thesis by (simp add: kiss_frame_def)
  next
    case r0: False
    obtain res w1 where w1: "frame_send_loop fd bs bs 0 0 0 w0 = (res, w1)" by fastforce
    from frame_send_loop_stream [OF w1, of "[]", unfolded segment_empty append_Nil] obtain sent where
      s1: "stream_of fd (out w1) = stream_of fd (out w0) @ sent"
      and c: "case res of Some (s, e) \<Rightarrow> s \<le> e \<and> e = length bs \<and> sent @ segment bs s e = kiss_body bs
              | None \<Rightarrow> \<exists>rest. sent @ rest = kiss_body bs"
      by auto
    show thesis
    proof (cases res)
      case None
      with c obtain rest where "sent @ rest = kiss_body bs" by auto
      moreover from None assms w0 w1 r0 have "r = -1" "w' = w1" by (simp_all add: patty_kiss_frame_send_def)
      ultimately show thesis
        using s0 s1 r0 that [of "start_octets PATTY_KISS_DATA port @ sent" "rest @ [PATTY_KISS_FEND]"]
        by (simp add: kiss_frame_def)
    next
      case (Some se)
      obtain s e where se: "se = (s, e)" by (cases se)
      with c Some have body: "sent @ segment bs s e = kiss_body bs" and e: "s \<le> e" "e = length bs" by auto
      obtain r2 w2 where w2: "(if e - s \<noteq> 0 then sys_write fd (segment bs s e) w1 else (0, w1)) = (r2, w2)"
        by fastforce
      have s2: "stream_of fd (out w2) = stream_of fd (out w1) @ (if r2 < 0 then [] else segment bs s e)"
        using w2 sys_write_stream [of fd "segment bs s e" w1 r2 w2]
        by (auto simp: segment_def split: if_splits)
      obtain r3 w3 where w3: "write_byte fd PATTY_KISS_FEND w2 = (r3, w3)" by fastforce
      note s3 = sys_write_stream [OF w3 [unfolded write_byte_def]]
      have res: "patty_kiss_frame_send fd bs port w = (if r2 < 0 then (-1, w2) else if r3 < 0 then (-1, w3)
          else (int (length bs), w3))"
        using w0 w1 w2 w3 r0 Some se by (simp add: patty_kiss_frame_send_def)
      show thesis
      proof (cases "r2 < 0")
        case True
        with res assms s0 s1 s2 r0 body that [of "start_octets PATTY_KISS_DATA port @ sent" "segment bs s e @ [PATTY_KISS_FEND]"]
        show thesis by (simp add: kiss_frame_def)
      next
        case False
        with res assms s0 s1 s2 s3 r0 body that [of "start_octets PATTY_KISS_DATA port @ sent @ segment bs s e" "[PATTY_KISS_FEND]"]
          that [of "start_octets PATTY_KISS_DATA port @ sent @ segment bs s e @ [PATTY_KISS_FEND]" "[]"]
        show thesis by (auto simp: kiss_frame_def split: if_splits)
      qed
    qed
  qed
qed

section \<open>The receiver as an automaton\<close>

text \<open>
  What the receiver knows between two bytes: its state, command and port, and the frame so
  far. \<open>kiss_delta\<close> is the effect of one byte and the frame it completes, on the streams that
  lose nothing: it is \<open>None\<close> for a bad command or escape, a frame of \<open>len\<close> bytes or more, and
  the end of a frame that is not delivered (empty, another port, another command).
\<close>

record kst =
  k_state :: kiss_state
  k_command :: byte
  k_port :: byte
  k_acc :: "byte list"

definition kst0 :: kst where
  "kst0 = \<lparr>k_state = KISS_NONE, k_command = 0xff, k_port = 0, k_acc = []\<rparr>"

definition kiss_delta :: "nat \<Rightarrow> kst \<Rightarrow> byte \<Rightarrow> (kst \<times> byte list list) option" where
  "kiss_delta len k c =
     (if length (k_acc k) \<ge> len then None
      else case k_state k of
        KISS_NONE \<Rightarrow> Some (if c = 0xc0 then k\<lparr>k_state := KISS_FRAME_COMMAND\<rparr> else k, [])
      | KISS_FRAME_COMMAND \<Rightarrow>
          if PATTY_KISS_COMMAND c = 0
          then Some (k\<lparr>k_state := KISS_FRAME_BODY, k_command := 0, k_port := PATTY_KISS_COMMAND_PORT c\<rparr>, [])
          else None
      | KISS_FRAME_BODY \<Rightarrow>
          if c = 0xdb then Some (k\<lparr>k_state := KISS_FRAME_ESCAPE\<rparr>, [])
          else if c = 0xc0
          then if k_command k = 0 \<and> k_port k = 0 \<and> k_acc k \<noteq> []
               then Some (k\<lparr>k_state := KISS_NONE, k_command := 0xff, k_acc := []\<rparr>, [k_acc k])
               else None
          else if k_command k = 0 then Some (k\<lparr>k_acc := k_acc k @ [c]\<rparr>, []) else None
      | KISS_FRAME_ESCAPE \<Rightarrow>
          if c = 0xdc then Some (k\<lparr>k_acc := k_acc k @ [0xc0], k_state := KISS_FRAME_BODY\<rparr>, [])
          else if c = 0xdd then Some (k\<lparr>k_acc := k_acc k @ [0xdb], k_state := KISS_FRAME_BODY\<rparr>, [])
          else None)"

fun kiss_run :: "nat \<Rightarrow> kst \<Rightarrow> byte list \<Rightarrow> (kst \<times> byte list list) option" where
  "kiss_run len k [] = Some (k, [])"
| "kiss_run len k (c # cs) =
     do { (k1, fs1) \<leftarrow> kiss_delta len k c; (k2, fs2) \<leftarrow> kiss_run len k1 cs; Some (k2, fs1 @ fs2) }"

lemma kiss_run_append:
  "kiss_run len k (xs @ ys) =
     do { (k1, fs1) \<leftarrow> kiss_run len k xs; (k2, fs2) \<leftarrow> kiss_run len k1 ys; Some (k2, fs1 @ fs2) }"
proof (induction xs arbitrary: k)
  case Nil
  then show ?case by (cases "kiss_run len k ys") auto
next
  case (Cons x xs)
  show ?case
  proof (cases "kiss_delta len k x")
    case None
    then show ?thesis by simp
  next
    case (Some p)
    obtain k1 fs1 where "p = (k1, fs1)" by (cases p)
    with Some Cons [of k1] show ?thesis
      by (cases "kiss_run len k1 xs") (auto simp: bind_eq_Some_conv split: Option.bind_split)
  qed
qed

text \<open>
  The loop of the event handlers around the receiver (\<open>handle_iface\<close> and
  \<open>handle_sock_raw\<close> of server.c): drain, stop unless a frame is pending, flush, handle.
\<close>

partial_function (option) rx_deliver ::
  "tnc \<Rightarrow> byte list \<Rightarrow> nat \<Rightarrow> (byte list list \<times> bool \<times> tnc \<times> byte list) option" where
  "rx_deliver tnc buf len =
     do { (r, tnc, buf) \<leftarrow> patty_kiss_tnc_drain tnc buf len;
          case r of
            Inl e \<Rightarrow> Some ([], False, tnc, buf)
          | Inr n \<Rightarrow>
              if n < 0 then Some ([], False, tnc, buf)
              else if \<not> patty_kiss_tnc_pending tnc then Some ([], True, tnc, buf)
              else (case patty_kiss_tnc_flush tnc of (n, tnc) \<Rightarrow>
                      do { (fs, ok, tnc', buf') \<leftarrow> rx_deliver tnc buf len;
                           Some (take (nat n) buf # fs, ok, tnc', buf') }) }"

section \<open>The receiver computes the automaton\<close>

definition unread :: "tnc \<Rightarrow> byte list" where
  "unread tnc = take (unat (t_readlen tnc) - t_offset_i tnc) (drop (t_offset_i tnc) (t_buf tnc))"

definition tnc_ok :: "tnc \<Rightarrow> bool" where
  "tnc_ok tnc \<longleftrightarrow> unat (t_readlen tnc) \<le> length (t_buf tnc) \<and> t_offset_i tnc \<le> unat (t_readlen tnc)"

definition kst_rel :: "nat \<Rightarrow> kst \<Rightarrow> tnc \<Rightarrow> byte list \<Rightarrow> bool" where
  "kst_rel len k tnc buf \<longleftrightarrow> t_state tnc = k_state k \<and> t_command tnc = k_command k \<and> t_port tnc = k_port k
     \<and> t_offset_o tnc = length (k_acc k) \<and> length (k_acc k) \<le> len \<and> len \<le> length buf
     \<and> take (length (k_acc k)) buf = k_acc k
     \<and> (k_state k = KISS_NONE \<longrightarrow> k_command k \<noteq> 0)
     \<and> \<not> (k_state k = KISS_FRAME_COMMAND \<and> k_command k = 0 \<and> k_port k = 0 \<and> k_acc k \<noteq> [])"

lemma kst_rel_not_pending: "kst_rel len k tnc buf \<Longrightarrow> \<not> patty_kiss_tnc_pending tnc"
  by (auto simp: kst_rel_def patty_kiss_tnc_pending_def)

lemma unread_Cons:
  assumes "tnc_ok tnc" and "unread tnc = c # cs"
  shows "t_offset_i tnc < unat (t_readlen tnc)" and "rd (t_buf tnc) (t_offset_i tnc) = Some c"
    and "unread (tnc\<lparr>t_offset_i := t_offset_i tnc + 1\<rparr>) = cs"
    and "tnc_ok (tnc\<lparr>t_offset_i := t_offset_i tnc + 1\<rparr>)"
proof -
  show 1: "t_offset_i tnc < unat (t_readlen tnc)"
    using assms(2) by (cases "t_offset_i tnc < unat (t_readlen tnc)") (auto simp: unread_def)
  then have "t_offset_i tnc < length (t_buf tnc)" using assms(1) by (simp add: tnc_ok_def)
  then have d: "drop (t_offset_i tnc) (t_buf tnc)
      = t_buf tnc ! t_offset_i tnc # drop (Suc (t_offset_i tnc)) (t_buf tnc)"
    by (simp add: Cons_nth_drop_Suc)
  from 1 have s: "unat (t_readlen tnc) - t_offset_i tnc = Suc (unat (t_readlen tnc) - Suc (t_offset_i tnc))"
    by simp
  from assms(2) have "t_buf tnc ! t_offset_i tnc = c
      \<and> take (unat (t_readlen tnc) - Suc (t_offset_i tnc)) (drop (Suc (t_offset_i tnc)) (t_buf tnc)) = cs"
    unfolding unread_def d s by simp
  with \<open>t_offset_i tnc < length (t_buf tnc)\<close>
  show "rd (t_buf tnc) (t_offset_i tnc) = Some c" "unread (tnc\<lparr>t_offset_i := t_offset_i tnc + 1\<rparr>) = cs"
    by (simp_all add: rd_def unread_def)
  show "tnc_ok (tnc\<lparr>t_offset_i := t_offset_i tnc + 1\<rparr>)"
    using assms(1) 1 by (simp add: tnc_ok_def)
qed

lemma unread_Nil: "tnc_ok tnc \<Longrightarrow> unread tnc = [] \<longleftrightarrow> t_offset_i tnc = unat (t_readlen tnc)"
  by (auto simp: unread_def tnc_ok_def)

text \<open>One byte that completes no frame.\<close>

lemma tnc_byte_delta:
  assumes "kst_rel len k tnc buf" and "kiss_delta len k c = Some (k', [])"
  shows "\<exists>tnc' buf'. tnc_byte c tnc buf = Some (Go, tnc', buf') \<and> kst_rel len k' tnc' buf'
    \<and> length buf' = length buf"
proof -
  have fin: "wr buf (length (k_acc k)) x = Some (buf[length (k_acc k) := x])"
    "take (Suc (length (k_acc k))) (buf[length (k_acc k) := x]) = k_acc k @ [x]"
    if "length (k_acc k) < len" for x
    using assms(1) that by (simp_all add: wr_def kst_rel_def take_Suc_conv_app_nth)
  from assms(1) have st: "t_state tnc = k_state k" by (simp add: kst_rel_def)
  have acc: "length (k_acc k) < len" using assms(2) by (auto simp: kiss_delta_def split: if_splits)
  show ?thesis
  proof (cases "k_state k")
    case KISS_NONE
    with assms st acc show ?thesis by (auto simp: kst_rel_def kiss_delta_def tnc_byte_def)
  next
    case KISS_FRAME_COMMAND
    with assms st acc show ?thesis
      by (auto simp: kst_rel_def kiss_delta_def tnc_byte_def Let_def split: if_splits)
  next
    case KISS_FRAME_BODY
    with assms st acc fin [of c] show ?thesis
      by (auto simp: kst_rel_def kiss_delta_def tnc_byte_def split: if_splits)
  next
    case KISS_FRAME_ESCAPE
    with assms st acc fin [of "0xc0"] fin [of "0xdb"] show ?thesis
      by (auto simp: kst_rel_def kiss_delta_def tnc_byte_def split: if_splits)
  qed
qed

text \<open>The byte that completes a frame.\<close>

lemma kiss_delta_frame:
  "kiss_delta len k c = Some (k', [f]) \<Longrightarrow>
   k_state k = KISS_FRAME_BODY \<and> c = 0xc0 \<and> k_command k = 0 \<and> k_port k = 0 \<and> k_acc k \<noteq> []
   \<and> f = k_acc k \<and> k' = k\<lparr>k_state := KISS_NONE, k_command := 0xff, k_acc := []\<rparr>"
  by (cases "k_state k") (auto simp: kiss_delta_def split: if_splits)

lemma tnc_byte_frame:
  assumes "kst_rel len k tnc buf" and "kiss_delta len k c = Some (k', [f])"
  shows "\<exists>tnc'. tnc_byte c tnc buf = Some (Done, tnc', buf) \<and> patty_kiss_tnc_pending tnc'
    \<and> f = take (t_offset_o tnc') buf \<and> kst_rel len k' (snd (patty_kiss_tnc_flush tnc')) buf"
  using assms(1) kiss_delta_frame [OF assms(2)]
  by (simp add: kst_rel_def tnc_byte_def patty_kiss_tnc_pending_def patty_kiss_tnc_flush_def)

lemma kiss_delta_frames: "kiss_delta len k c = Some (k', fs) \<Longrightarrow> fs = [] \<or> (\<exists>f. fs = [f])"
  by (auto simp: kiss_delta_def split: kiss_state.splits if_splits)

text \<open>What the loop keeps of the input side of the receiver.\<close>

definition same_input :: "tnc \<Rightarrow> tnc \<Rightarrow> bool" where
  "same_input tnc tnc' \<longleftrightarrow> t_buf tnc' = t_buf tnc \<and> t_bufsz tnc' = t_bufsz tnc
     \<and> t_readlen tnc' = t_readlen tnc \<and> t_fd tnc' = t_fd tnc \<and> t_offset_i tnc \<le> t_offset_i tnc'"

lemma same_input_trans: "same_input a b \<Longrightarrow> same_input b c \<Longrightarrow> same_input a c"
  by (auto simp: same_input_def)

lemma drain_loop_step:
  assumes "tnc_ok tnc" and "unread tnc = c # cs" and "t_offset_o tnc \<noteq> len"
  shows "tnc_drain_loop tnc buf len =
    (case tnc_byte c (tnc\<lparr>t_offset_i := t_offset_i tnc + 1\<rparr>) buf of
       None \<Rightarrow> None
     | Some (Go, tnc2, buf2) \<Rightarrow> tnc_drain_loop tnc2 buf2 len
     | Some (Done, tnc2, buf2) \<Rightarrow> Some (Inr (), tnc2, buf2)
     | Some (Fail e, tnc2, buf2) \<Rightarrow> Some (Inl e, tnc2, buf2))"
  using unread_Cons(1,2) [OF assms(1,2)] assms(3) by (simp add: tnc_drain_loop.simps [of tnc])

lemma kiss_delta_room: "kst_rel len k tnc buf \<Longrightarrow> kiss_delta len k c = Some x \<Longrightarrow> t_offset_o tnc \<noteq> len"
  by (auto simp: kst_rel_def kiss_delta_def split: if_splits)

lemma kst_rel_offset_i [simp]: "kst_rel len k (tnc\<lparr>t_offset_i := i\<rparr>) buf = kst_rel len k tnc buf"
  by (simp add: kst_rel_def)

lemma tnc_byte_input:
  assumes "tnc_byte c (tnc\<lparr>t_offset_i := t_offset_i tnc + 1\<rparr>) buf = Some (oc, tnc2, buf2)"
    and "tnc_ok tnc" and "unread tnc = c # cs"
  shows "unread tnc2 = cs" and "tnc_ok tnc2" and "same_input tnc tnc2"
  using tnc_byte_offsets [OF assms(1)] unread_Cons(3,4) [OF assms(2,3)]
  by (auto simp: unread_def tnc_ok_def same_input_def)

lemma drain_run:
  assumes "unread tnc = bs" and "tnc_ok tnc" and "kst_rel len k tnc buf" and "kiss_run len k bs = Some (k', fs)"
  shows "\<exists>tnc' buf'. tnc_drain_loop tnc buf len = Some (Inr (), tnc', buf') \<and> tnc_ok tnc' \<and> same_input tnc tnc'
    \<and> length buf' = length buf
    \<and> (case fs of
          [] \<Rightarrow> unread tnc' = [] \<and> kst_rel len k' tnc' buf'
        | f # fs' \<Rightarrow> patty_kiss_tnc_pending tnc' \<and> f = take (t_offset_o tnc') buf'
            \<and> length (unread tnc') < length bs
            \<and> (\<exists>k1. kst_rel len k1 (snd (patty_kiss_tnc_flush tnc')) buf'
                  \<and> kiss_run len k1 (unread tnc') = Some (k', fs')))"
  using assms
proof (induction bs arbitrary: tnc buf k fs)
  case Nil
  then have "tnc_drain_loop tnc buf len = Some (Inr (), tnc, buf)"
    by (simp add: tnc_drain_loop.simps unread_Nil)
  with Nil show ?case by (simp add: same_input_def)
next
  case (Cons c cs)
  from Cons.prems(4) obtain k1 fs1 fs2 where d: "kiss_delta len k c = Some (k1, fs1)"
    and run: "kiss_run len k1 cs = Some (k', fs2)" and fs: "fs = fs1 @ fs2"
    by (auto simp: bind_eq_Some_conv)
  have rel: "kst_rel len k (tnc\<lparr>t_offset_i := t_offset_i tnc + 1\<rparr>) buf" using Cons.prems(3) by simp
  note step = drain_loop_step [OF Cons.prems(2,1) kiss_delta_room [OF Cons.prems(3) d], of buf]
  from kiss_delta_frames [OF d] show ?case
  proof (elim disjE exE)
    assume fs1: "fs1 = []"
    with tnc_byte_delta [OF rel] d obtain tnc2 buf2 where
      b: "tnc_byte c (tnc\<lparr>t_offset_i := t_offset_i tnc + 1\<rparr>) buf = Some (Go, tnc2, buf2)"
      and rel2: "kst_rel len k1 tnc2 buf2" and l2: "length buf2 = length buf" by blast
    note inp = tnc_byte_input [OF b Cons.prems(2,1)]
    from Cons.IH [OF inp(1,2) rel2 run] obtain tnc' buf' where
      *: "tnc_drain_loop tnc2 buf2 len = Some (Inr (), tnc', buf')" "tnc_ok tnc'" "same_input tnc2 tnc'"
      "length buf' = length buf2"
      and **: "case fs2 of
          [] \<Rightarrow> unread tnc' = [] \<and> kst_rel len k' tnc' buf'
        | f # fs' \<Rightarrow> patty_kiss_tnc_pending tnc' \<and> f = take (t_offset_o tnc') buf'
            \<and> length (unread tnc') < length cs
            \<and> (\<exists>k1. kst_rel len k1 (snd (patty_kiss_tnc_flush tnc')) buf'
                  \<and> kiss_run len k1 (unread tnc') = Some (k', fs'))"
      by blast
    from step b * have "tnc_drain_loop tnc buf len = Some (Inr (), tnc', buf')" by simp
    moreover have "same_input tnc tnc'" using inp(3) *(3) by (rule same_input_trans)
    ultimately show ?thesis
      using * ** l2 fs fs1 by (intro exI [of _ tnc'] exI [of _ buf']) (auto split: list.splits)
  next
    fix f
    assume fs1: "fs1 = [f]"
    with tnc_byte_frame [OF rel] d obtain tnc2 where
      b: "tnc_byte c (tnc\<lparr>t_offset_i := t_offset_i tnc + 1\<rparr>) buf = Some (Done, tnc2, buf)"
      and p: "patty_kiss_tnc_pending tnc2" "f = take (t_offset_o tnc2) buf"
        "kst_rel len k1 (snd (patty_kiss_tnc_flush tnc2)) buf" by blast
    note inp = tnc_byte_input [OF b Cons.prems(2,1)]
    from step b have "tnc_drain_loop tnc buf len = Some (Inr (), tnc2, buf)" by simp
    with inp p run fs fs1 show ?thesis by auto
  qed
qed

lemma unread_flush [simp]: "unread (snd (patty_kiss_tnc_flush tnc)) = unread tnc"
  by (simp add: patty_kiss_tnc_flush_def unread_def)

lemma tnc_ok_flush [simp]: "tnc_ok (snd (patty_kiss_tnc_flush tnc)) = tnc_ok tnc"
  by (simp add: patty_kiss_tnc_flush_def tnc_ok_def)

lemma same_input_flush: "same_input tnc (snd (patty_kiss_tnc_flush tnc))"
  by (simp add: patty_kiss_tnc_flush_def same_input_def)

lemma rx_deliver_run:
  assumes "tnc_ok tnc" and "kst_rel len k tnc buf" and "kiss_run len k (unread tnc) = Some (k', fs)"
  shows "\<exists>tnc' buf'. rx_deliver tnc buf len = Some (fs, True, tnc', buf') \<and> tnc_ok tnc' \<and> same_input tnc tnc'
    \<and> unread tnc' = [] \<and> kst_rel len k' tnc' buf' \<and> length buf' = length buf"
  using assms
proof (induction "length (unread tnc)" arbitrary: tnc buf k fs rule: less_induct)
  case less
  from drain_run [OF refl less.prems] obtain tnc1 buf1 where
    d: "tnc_drain_loop tnc buf len = Some (Inr (), tnc1, buf1)" and ok: "tnc_ok tnc1"
    and inp: "same_input tnc tnc1" and l: "length buf1 = length buf"
    and c: "case fs of
          [] \<Rightarrow> unread tnc1 = [] \<and> kst_rel len k' tnc1 buf1
        | f # fs' \<Rightarrow> patty_kiss_tnc_pending tnc1 \<and> f = take (t_offset_o tnc1) buf1
            \<and> length (unread tnc1) < length (unread tnc)
            \<and> (\<exists>k1. kst_rel len k1 (snd (patty_kiss_tnc_flush tnc1)) buf1
                  \<and> kiss_run len k1 (unread tnc1) = Some (k', fs'))" by blast
  have drain: "patty_kiss_tnc_drain tnc buf len
      = Some (Inr (int (t_offset_i tnc1) - int (t_offset_i tnc)), tnc1, buf1)"
    using d by (simp add: patty_kiss_tnc_drain_def)
  have nonneg: "\<not> int (t_offset_i tnc1) - int (t_offset_i tnc) < 0"
    using inp by (simp add: same_input_def)
  show ?case
  proof (cases fs)
    case Nil
    with c have "kst_rel len k' tnc1 buf1" "unread tnc1 = []" by simp_all
    with kst_rel_not_pending [OF this(1)] drain nonneg Nil ok inp l show ?thesis
      by (simp add: rx_deliver.simps [of tnc])
  next
    case (Cons f fs')
    with c obtain k1 where p: "patty_kiss_tnc_pending tnc1" "f = take (t_offset_o tnc1) buf1"
      "length (unread tnc1) < length (unread tnc)"
      and k1: "kst_rel len k1 (snd (patty_kiss_tnc_flush tnc1)) buf1" "kiss_run len k1 (unread tnc1) = Some (k', fs')"
      by auto
    let ?t = "snd (patty_kiss_tnc_flush tnc1)"
    have "length (unread ?t) < length (unread tnc)" using p(3) by simp
    from less.hyps [OF this _ k1(1), of fs'] k1(2) ok obtain tnc' buf' where
      r: "rx_deliver ?t buf1 len = Some (fs', True, tnc', buf')" "tnc_ok tnc'" "same_input ?t tnc'"
        "unread tnc' = []" "kst_rel len k' tnc' buf'" "length buf' = length buf1" by auto
    have "rx_deliver tnc buf len = Some (fs, True, tnc', buf')"
      using drain nonneg p r(1) Cons
      by (simp add: rx_deliver.simps [of tnc] patty_kiss_tnc_flush_def)
    moreover have "same_input tnc tnc'"
      using inp same_input_flush r(3) by (blast intro: same_input_trans)
    ultimately show ?thesis using r l by auto
  qed
qed

section \<open>Streams in chunks\<close>

text \<open>\<open>n\<close> rounds of the event loop: read what has arrived, then deliver the frames in it.\<close>

fun rx_reads ::
  "nat \<Rightarrow> tnc \<Rightarrow> byte list \<Rightarrow> nat \<Rightarrow> world \<Rightarrow> (byte list list \<times> bool \<times> tnc \<times> byte list \<times> world) option" where
  "rx_reads 0 tnc buf len w = Some ([], True, tnc, buf, w)"
| "rx_reads (Suc n) tnc buf len w =
     (case patty_kiss_tnc_fill tnc w of (r, tnc, w) \<Rightarrow>
        if r < 0 then Some ([], False, tnc, buf, w)
        else do { (fs, ok, tnc, buf) \<leftarrow> rx_deliver tnc buf len;
                  if \<not> ok then Some (fs, False, tnc, buf, w)
                  else do { (fs', ok', tnc, buf, w) \<leftarrow> rx_reads n tnc buf len w;
                            Some (fs @ fs', ok', tnc, buf, w) } })"

lemma fill_chunk:
  assumes "length bs \<le> t_bufsz tnc" and "t_bufsz tnc = length (t_buf tnc)" and "t_bufsz tnc < 2 ^ 64"
    and "script w = RBytes bs # rs"
  obtains tnc' where "patty_kiss_tnc_fill tnc w = (int (length bs), tnc', w\<lparr>script := rs\<rparr>)"
    and "unread tnc' = bs" and "tnc_ok tnc'" and "length (t_buf tnc') = length (t_buf tnc)"
    and "t_bufsz tnc' = t_bufsz tnc" and "\<And>len k buf. kst_rel len k tnc' buf = kst_rel len k tnc buf"
proof -
  let ?t = "tnc\<lparr>t_buf := bs @ drop (length bs) (t_buf tnc), t_readlen := of_nat (length bs), t_offset_i := 0\<rparr>"
  have "unat (of_nat (length bs) :: size_t) = length bs"
    by (subst unat_of_nat) (use assms in simp)
  moreover have "patty_kiss_tnc_fill tnc w = (int (length bs), ?t, w\<lparr>script := rs\<rparr>)"
    using assms by (simp add: patty_kiss_tnc_fill_def sys_read_def)
  ultimately show thesis
    using assms by (intro that [of ?t]) (simp_all add: unread_def tnc_ok_def kst_rel_def)
qed

lemma rx_reads_run:
  assumes "kst_rel len k tnc buf" and "t_bufsz tnc = length (t_buf tnc)" and "t_bufsz tnc < 2 ^ 64"
    and "\<forall>c \<in> set chunks. length c \<le> t_bufsz tnc" and "script w = map RBytes chunks"
    and "kiss_run len k (concat chunks) = Some (k', fs)"
  shows "\<exists>tnc' buf' w'. rx_reads (length chunks) tnc buf len w = Some (fs, True, tnc', buf', w')
    \<and> kst_rel len k' tnc' buf'"
  using assms
proof (induction chunks arbitrary: tnc buf w k fs)
  case Nil
  then show ?case by auto
next
  case (Cons c cs)
  from Cons.prems(6) obtain k1 fs1 fs2 where run: "kiss_run len k c = Some (k1, fs1)"
    "kiss_run len k1 (concat cs) = Some (k', fs2)" and fs: "fs = fs1 @ fs2"
    by (auto simp: kiss_run_append bind_eq_Some_conv)
  obtain tnc1 where fill: "patty_kiss_tnc_fill tnc w = (int (length c), tnc1, w\<lparr>script := map RBytes cs\<rparr>)"
    and t1: "unread tnc1 = c" "tnc_ok tnc1" "length (t_buf tnc1) = length (t_buf tnc)" "t_bufsz tnc1 = t_bufsz tnc"
    and rel: "\<And>len k buf. kst_rel len k tnc1 buf = kst_rel len k tnc buf"
    using fill_chunk [of c tnc w "map RBytes cs"] Cons.prems by auto
  have "kst_rel len k tnc1 buf" "kiss_run len k (unread tnc1) = Some (k1, fs1)"
    using rel Cons.prems(1) run t1 by simp_all
  from rx_deliver_run [OF t1(2) this] obtain tnc2 buf2 where
    rx: "rx_deliver tnc1 buf len = Some (fs1, True, tnc2, buf2)" "same_input tnc1 tnc2" "kst_rel len k1 tnc2 buf2"
    by blast
  let ?w = "w\<lparr>script := map RBytes cs\<rparr>"
  have "\<exists>tnc' buf' w'. rx_reads (length cs) tnc2 buf2 len ?w = Some (fs2, True, tnc', buf', w')
      \<and> kst_rel len k' tnc' buf'"
    by (rule Cons.IH [OF rx(3)]) (use rx(2) t1 Cons.prems run in \<open>auto simp: same_input_def\<close>)
  then obtain tnc' buf' w' where "rx_reads (length cs) tnc2 buf2 len ?w = Some (fs2, True, tnc', buf', w')"
    "kst_rel len k' tnc' buf'" by blast
  with fill rx(1) fs show ?case by auto
qed

section \<open>The automaton on a stream of frames\<close>

lemma kiss_run_escape:
  assumes "k_state k = KISS_FRAME_BODY" and "k_command k = 0" and "length (k_acc k) < len"
  shows "kiss_run len k (kiss_escape c) = Some (k\<lparr>k_acc := k_acc k @ [c]\<rparr>, [])"
proof -
  have same: "k\<lparr>k_state := KISS_FRAME_BODY\<rparr> = k" using assms(1) by simp
  show ?thesis
    using assms by (auto simp: kiss_escape_def escape_fend_def escape_fesc_def kiss_delta_def)
qed

lemma kiss_run_body:
  assumes "k_state k = KISS_FRAME_BODY" and "k_command k = 0" and "length (k_acc k) + length bs \<le> len"
  shows "kiss_run len k (kiss_body bs) = Some (k\<lparr>k_acc := k_acc k @ bs\<rparr>, [])"
  using assms
proof (induction bs arbitrary: k)
  case (Cons c bs)
  then have "kiss_run len k (kiss_escape c) = Some (k\<lparr>k_acc := k_acc k @ [c]\<rparr>, [])"
    by (intro kiss_run_escape) simp_all
  with Cons show ?case by (simp add: kiss_body_Cons kiss_run_append)
qed simp

lemma kiss_run_frame:
  assumes "bs \<noteq> []" and "length bs < len"
  shows "kiss_run len kst0 (kiss_frame 0 bs) = Some (kst0, [bs])"
proof -
  let ?k = "\<lparr>k_state = KISS_FRAME_BODY, k_command = 0, k_port = 0, k_acc = []\<rparr>"
  have "kiss_run len kst0 (start_octets PATTY_KISS_DATA 0) = Some (?k, [])"
    using assms by (auto simp: start_octets_def kst0_def kiss_delta_def PATTY_KISS_COMMAND_def
        PATTY_KISS_COMMAND_PORT_def)
  moreover have "kiss_run len ?k (kiss_body bs) = Some (?k\<lparr>k_acc := bs\<rparr>, [])"
    using kiss_run_body [of ?k bs len] assms by simp
  moreover have "kiss_run len (?k\<lparr>k_acc := bs\<rparr>) [0xc0] = Some (kst0, [bs])"
    using assms by (simp add: kiss_delta_def kst0_def)
  ultimately show ?thesis by (simp add: kiss_frame_def kiss_run_append del: kiss_run.simps)
qed

lemma kiss_run_frames:
  assumes "\<forall>p \<in> set ps. p \<noteq> [] \<and> length p < len"
  shows "kiss_run len kst0 (concat (map (kiss_frame 0) ps)) = Some (kst0, ps)"
  using assms by (induction ps) (simp_all add: kiss_run_append kiss_run_frame)

lemma kst_rel_fresh: "len \<le> length buf \<Longrightarrow> kst_rel len kst0 (tnc_fields fd garbage) buf"
  by (simp add: kst_rel_def kst0_def tnc_fields_def)

section \<open>A receiver that has lost the frame boundaries\<close>

text \<open>
  After a frame that is not delivered the receiver expects a command octet. The FEND that
  opens the next frame is masked to the four command bits before it is compared with FEND, so
  it is taken for a data frame on port 12.
\<close>

lemma drain_prefix:
  assumes "unread tnc = bs @ rest" and "tnc_ok tnc" and "kst_rel len k tnc buf" and "kiss_run len k bs = Some (k', [])"
  shows "\<exists>tnc' buf'. tnc_drain_loop tnc buf len = tnc_drain_loop tnc' buf' len \<and> tnc_ok tnc'
    \<and> same_input tnc tnc' \<and> unread tnc' = rest \<and> kst_rel len k' tnc' buf' \<and> length buf' = length buf"
  using assms
proof (induction bs arbitrary: tnc buf k)
  case Nil
  then show ?case by (auto simp: same_input_def)
next
  case (Cons c cs)
  from Cons.prems(4) obtain k1 where d: "kiss_delta len k c = Some (k1, [])"
    and run: "kiss_run len k1 cs = Some (k', [])"
    by (auto simp: bind_eq_Some_conv)
  have un: "unread tnc = c # cs @ rest" using Cons.prems(1) by simp
  have rel: "kst_rel len k (tnc\<lparr>t_offset_i := t_offset_i tnc + 1\<rparr>) buf" using Cons.prems(3) by simp
  from tnc_byte_delta [OF rel d] obtain tnc2 buf2 where
    b: "tnc_byte c (tnc\<lparr>t_offset_i := t_offset_i tnc + 1\<rparr>) buf = Some (Go, tnc2, buf2)"
    and rel2: "kst_rel len k1 tnc2 buf2" and l2: "length buf2 = length buf" by blast
  note inp = tnc_byte_input [OF b Cons.prems(2) un]
  have "tnc_drain_loop tnc buf len = tnc_drain_loop tnc2 buf2 len"
    using drain_loop_step [OF Cons.prems(2) un kiss_delta_room [OF Cons.prems(3) d], of buf] b by simp
  with Cons.IH [OF inp(1,2) rel2 run] inp(3) l2 show ?case
    by (metis same_input_trans)
qed

definition tnc_lost :: "nat \<Rightarrow> kst \<Rightarrow> tnc \<Rightarrow> byte list \<Rightarrow> bool" where
  "tnc_lost len k tnc buf \<longleftrightarrow> kst_rel len k tnc buf \<and> k_state k = KISS_FRAME_COMMAND"

lemma rx_deliver_lost:
  assumes "tnc_lost len k tnc buf" and "tnc_ok tnc" and "unread tnc = kiss_frame 0 p"
    and "length (k_acc k) + 1 + length p < len"
  shows "\<exists>tnc' buf'. rx_deliver tnc buf len = Some ([], True, tnc', buf')
    \<and> tnc_lost len (k\<lparr>k_command := 0, k_port := 12, k_acc := k_acc k @ 0 # p\<rparr>) tnc' buf'
    \<and> tnc_ok tnc' \<and> same_input tnc tnc' \<and> length buf' = length buf"
proof -
  let ?k1 = "k\<lparr>k_state := KISS_FRAME_BODY, k_command := 0, k_port := 12\<rparr>"
  let ?k2 = "?k1\<lparr>k_acc := k_acc k @ 0 # p\<rparr>"
  have "kiss_delta len k 0xc0 = Some (?k1, [])"
    using assms(1,4) by (simp add: tnc_lost_def kiss_delta_def PATTY_KISS_COMMAND_def PATTY_KISS_COMMAND_PORT_def)
  moreover have "kiss_delta len ?k1 0 = Some (?k1\<lparr>k_acc := k_acc k @ [0]\<rparr>, [])"
    using assms(4) by (simp add: kiss_delta_def)
  moreover have "kiss_run len (?k1\<lparr>k_acc := k_acc k @ [0]\<rparr>) (kiss_body p) = Some (?k2, [])"
    using kiss_run_body [of "?k1\<lparr>k_acc := k_acc k @ [0]\<rparr>" p len] assms(4) by simp
  ultimately have run: "kiss_run len k (start_octets PATTY_KISS_DATA 0 @ kiss_body p) = Some (?k2, [])"
    by (simp add: start_octets_def)
  have un: "unread tnc = (start_octets PATTY_KISS_DATA 0 @ kiss_body p) @ [0xc0]"
    using assms(3) by (simp add: kiss_frame_def)
  obtain tnc1 buf1 where 1: "tnc_drain_loop tnc buf len = tnc_drain_loop tnc1 buf1 len" "tnc_ok tnc1"
    "same_input tnc tnc1" "unread tnc1 = [0xc0]" "kst_rel len ?k2 tnc1 buf1" "length buf1 = length buf"
    using drain_prefix [OF un assms(2) _ run] assms(1) unfolding tnc_lost_def by blast
  let ?t1 = "tnc1\<lparr>t_offset_i := t_offset_i tnc1 + 1\<rparr>"
  let ?t2 = "?t1\<lparr>t_state := KISS_FRAME_COMMAND\<rparr>"
  have room: "t_offset_o tnc1 \<noteq> len" using 1(5) assms(4) by (simp add: kst_rel_def)
  have "tnc_byte 0xc0 ?t1 buf1 = Some (Done, ?t2, buf1)"
    using 1(5) by (simp add: kst_rel_def tnc_byte_def)
  with drain_loop_step [OF 1(2,4) room, of buf1] 1(1)
  have "tnc_drain_loop tnc buf len = Some (Inr (), ?t2, buf1)" by simp
  moreover have "\<not> patty_kiss_tnc_pending ?t2"
    using 1(5) by (simp add: kst_rel_def patty_kiss_tnc_pending_def)
  moreover have "same_input tnc ?t2" using 1(3) by (simp add: same_input_def)
  ultimately have "rx_deliver tnc buf len = Some ([], True, ?t2, buf1)"
    by (simp add: rx_deliver.simps [of tnc] patty_kiss_tnc_drain_def same_input_def)
  moreover have "tnc_lost len (k\<lparr>k_command := 0, k_port := 12, k_acc := k_acc k @ 0 # p\<rparr>) ?t2 buf1"
    using 1(5) assms(1) by (simp add: tnc_lost_def kst_rel_def)
  moreover have "tnc_ok ?t2" using unread_Cons(4) [OF 1(2,4)] by (simp add: tnc_ok_def)
  ultimately show ?thesis using 1(6) \<open>same_input tnc ?t2\<close> by blast
qed

lemma rx_reads_lost:
  assumes "tnc_lost len k tnc buf" and "t_bufsz tnc = length (t_buf tnc)" and "t_bufsz tnc < 2 ^ 64"
    and "\<forall>p \<in> set ps. length (kiss_frame 0 p) \<le> t_bufsz tnc"
    and "script w = map (\<lambda>p. RBytes (kiss_frame 0 p)) ps"
    and "length (k_acc k) + (\<Sum>p \<leftarrow> ps. length p + 1) < len"
  shows "\<exists>tnc' buf' w'. rx_reads (length ps) tnc buf len w = Some ([], True, tnc', buf', w')"
  using assms
proof (induction ps arbitrary: tnc buf w k)
  case (Cons p ps)
  let ?w = "w\<lparr>script := map (\<lambda>p. RBytes (kiss_frame 0 p)) ps\<rparr>"
  obtain tnc1 where fill: "patty_kiss_tnc_fill tnc w = (int (length (kiss_frame 0 p)), tnc1, ?w)"
    and t1: "unread tnc1 = kiss_frame 0 p" "tnc_ok tnc1" "length (t_buf tnc1) = length (t_buf tnc)" "t_bufsz tnc1 = t_bufsz tnc"
    and rel: "\<And>len k buf. kst_rel len k tnc1 buf = kst_rel len k tnc buf"
    using fill_chunk [of "kiss_frame 0 p" tnc w "map (\<lambda>p. RBytes (kiss_frame 0 p)) ps"] Cons.prems by auto
  have "tnc_lost len k tnc1 buf" using Cons.prems(1) rel by (simp add: tnc_lost_def)
  from rx_deliver_lost [OF this t1(2,1)] Cons.prems(6) obtain tnc2 buf2 where
    rx: "rx_deliver tnc1 buf len = Some ([], True, tnc2, buf2)"
      "tnc_lost len (k\<lparr>k_command := 0, k_port := 12, k_acc := k_acc k @ 0 # p\<rparr>) tnc2 buf2" "same_input tnc1 tnc2"
    by auto
  have "\<exists>tnc' buf' w'. rx_reads (length ps) tnc2 buf2 len ?w = Some ([], True, tnc', buf', w')"
    by (rule Cons.IH [OF rx(2)]) (use rx(3) t1 Cons.prems in \<open>auto simp: same_input_def\<close>)
  then obtain tnc' buf' w' where "rx_reads (length ps) tnc2 buf2 len ?w = Some ([], True, tnc', buf', w')" by blast
  with fill rx(1) show ?case by simp
qed simp

section \<open>Sending without errors\<close>

lemma frame_send_loop_quiet:
  "script w = [] \<Longrightarrow> \<exists>s e w'. frame_send_loop fd buf cs i start stop w = (Some (s, e), w') \<and> script w' = []"
  by (induction cs arbitrary: i start stop w) (auto simp: Let_def)

lemma frame_send_quiet:
  assumes "script w = []"
  shows "\<exists>w'. patty_kiss_frame_send fd bs port w = (int (length bs), w') \<and> script w' = []"
proof -
  let ?w = "w\<lparr>out := out w @ [(fd, start_octets PATTY_KISS_DATA port)]\<rparr>"
  obtain s e w1 where "frame_send_loop fd bs bs 0 0 0 ?w = (Some (s, e), w1)" "script w1 = []"
    using frame_send_loop_quiet [of ?w fd bs bs 0 0 0] assms by auto
  then show ?thesis using assms by (simp add: patty_kiss_frame_send_def write_start_def write_byte_def)
qed

lemma frame_send_quiet_stream:
  assumes "script w = []" and "patty_kiss_frame_send fd bs port w = (r, w')"
  shows "stream_of fd (out w') = stream_of fd (out w) @ kiss_frame port bs" and "script w' = []"
proof -
  have r: "r = int (length bs)" and "script w' = []" using frame_send_quiet [OF assms(1), of fd bs port] assms(2) by auto
  then show "script w' = []" by simp
  show "stream_of fd (out w') = stream_of fd (out w) @ kiss_frame port bs"
  proof (rule kiss_frame_send_stream [OF assms(2)])
    fix sent rest
    assume s: "stream_of fd (out w') = stream_of fd (out w) @ sent" "sent @ rest = kiss_frame port bs"
      and "r = (if rest = [] then int (length bs) else -1)"
    with r have "rest = []" by (cases "rest = []") simp_all
    with s show ?thesis by simp
  qed
qed

text \<open>Several frames sent one after the other.\<close>

definition send_frames :: "int \<Rightarrow> byte list list \<Rightarrow> world \<Rightarrow> world" where
  "send_frames fd ps w = fold (\<lambda>p w. snd (patty_kiss_frame_send fd p 0 w)) ps w"

lemma send_frames_stream:
  "script w = [] \<Longrightarrow>
   stream_of fd (out (send_frames fd ps w)) = stream_of fd (out w) @ concat (map (kiss_frame 0) ps)"
proof (induction ps arbitrary: w)
  case (Cons p ps)
  obtain r w1 where w1: "patty_kiss_frame_send fd p 0 w = (r, w1)" by fastforce
  from frame_send_quiet_stream [OF Cons.prems this] Cons.IH [of w1] w1 show ?case
    by (simp add: send_frames_def)
qed (simp add: send_frames_def)

section \<open>Properties\<close>

text \<open>
  C29: What \<open>patty_kiss_frame_send\<close> puts on the line, whatever the system does: if it returns the
  length, exactly one KISS frame with the payload escaped; otherwise it returns -1 and has
  written a proper prefix of that frame.
\<close>
theorem kiss_send_stream:
  assumes "patty_kiss_frame_send fd bs port w = (r, w')"
  shows "\<exists>sent rest. stream_of fd (out w') = stream_of fd (out w) @ sent \<and> sent @ rest = kiss_frame port bs
    \<and> r = (if rest = [] then int (length bs) else -1)"
proof -
  from assms obtain sent rest where
    "stream_of fd (out w') = stream_of fd (out w) @ sent" and "sent @ rest = kiss_frame port bs"
    and "r = (if rest = [] then int (length bs) else -1)"
    by (rule kiss_frame_send_stream)
  then show ?thesis by (intro exI [of _ sent] exI [of _ rest] conjI)
qed

lemma kiss_send_stream_witness:
  "\<exists>r w' sent rest. patty_kiss_frame_send 3 [0x41, 0xc0] 0 (world0 []) = (r, w')
    \<and> stream_of 3 (out w') = stream_of 3 (out (world0 [])) @ sent \<and> sent @ rest = kiss_frame 0 [0x41, 0xc0]
    \<and> r = (if rest = [] then int (length [0x41, 0xc0 :: byte]) else -1)"
proof -
  obtain r w' where w': "patty_kiss_frame_send 3 [0x41, 0xc0] 0 (world0 []) = (r, w')" by (rule prod.exhaust)
  show ?thesis
    using w' kiss_send_stream [OF w'] by fast
qed

text \<open>
  C6: KISS round trip. The frames sent one after the other, cut into reads of up to 4096 bytes
  in any way, come out of the receiver one by one, in order and unchanged, provided that none
  is empty or as long as the receive buffer.
\<close>
theorem kiss_roundtrip:
  assumes "\<forall>p \<in> set ps. p \<noteq> [] \<and> length p < len" and "len \<le> length buf" and "length garbage = 4096"
    and "concat chunks = stream_of fd (out (send_frames fd ps (world0 [])))"
    and "\<forall>c \<in> set chunks. length c \<le> 4096"
  shows "\<exists>tnc' buf' w'. rx_reads (length chunks) (tnc_fields fd' garbage) buf len (world0 (map RBytes chunks))
    = Some (ps, True, tnc', buf', w')"
proof -
  have "concat chunks = concat (map (kiss_frame 0) ps)"
    using assms(4) send_frames_stream [of "world0 []" fd ps] by (simp add: world0_def)
  with kiss_run_frames [OF assms(1)] have "kiss_run len kst0 (concat chunks) = Some (kst0, ps)" by simp
  moreover have "t_bufsz (tnc_fields fd' garbage) = 4096" "t_buf (tnc_fields fd' garbage) = garbage"
    by (simp_all add: tnc_fields_def PATTY_KISS_TNC_BUFSZ_def)
  ultimately show ?thesis
    using rx_reads_run [OF kst_rel_fresh [OF assms(2), of fd' garbage], of chunks "world0 (map RBytes chunks)" kst0 ps]
      assms(3,5) by (auto simp: world0_def)
qed

lemma kiss_roundtrip_witness:
  "\<exists>tnc' buf' w'. rx_reads 2 (tnc_fields 3 (replicate 4096 0)) (replicate 8 0) 8
      (world0 (map RBytes [[0xc0, 0, 0x41, 0xdb], [0xdc, 0xc0, 0xc0, 0, 0x42, 0xc0]]))
    = Some ([[0x41, 0xc0], [0x42]], True, tnc', buf', w')"
proof -
  have "concat [[0xc0, 0, 0x41, 0xdb], [0xdc, 0xc0, 0xc0, 0, 0x42, 0xc0]]
      = stream_of 3 (out (send_frames 3 [[0x41, 0xc0], [0x42]] (world0 [])))"
    using send_frames_stream [of "world0 []" 3 "[[0x41, 0xc0], [0x42]]"]
    by (simp add: world0_def kiss_frame_def start_octets_def kiss_body_def kiss_escape_def escape_fend_def)
  then show ?thesis
    using kiss_roundtrip [of "[[0x41, 0xc0], [0x42]]" 8 "replicate 8 0" "replicate 4096 0"
        "[[0xc0, 0, 0x41, 0xdb], [0xdc, 0xc0, 0xc0, 0, 0x42, 0xc0]]" 3 3]
    by (simp add: numeral_2_eq_2 del: rx_reads.simps)
qed

text \<open>
  One redundant FEND, which the protocol allows between frames, makes the receiver deaf:
  none of the frames that follow is delivered, until together they fill the receive buffer.
\<close>
theorem kiss_extra_fend_deaf:
  assumes "(\<Sum>p \<leftarrow> ps. length p + 1) < len" and "len \<le> length buf" and "length garbage = 4096"
    and "\<forall>p \<in> set ps. length (kiss_frame 0 p) \<le> 4096"
  shows "\<exists>tnc' buf' w'. rx_reads (Suc (length ps)) (tnc_fields fd garbage) buf len
      (world0 (RBytes [0xc0] # map (\<lambda>p. RBytes (kiss_frame 0 p)) ps)) = Some ([], True, tnc', buf', w')"
proof -
  let ?t = "tnc_fields fd garbage" and ?w = "world0 (RBytes [0xc0] # map (\<lambda>p. RBytes (kiss_frame 0 p)) ps)"
  have sz: "t_bufsz ?t = 4096" "t_buf ?t = garbage" by (simp_all add: tnc_fields_def PATTY_KISS_TNC_BUFSZ_def)
  obtain tnc1 where fill: "patty_kiss_tnc_fill ?t ?w = (int (length [0xc0 :: byte]), tnc1,
      ?w\<lparr>script := map (\<lambda>p. RBytes (kiss_frame 0 p)) ps\<rparr>)"
    and t1: "unread tnc1 = [0xc0]" "tnc_ok tnc1" "length (t_buf tnc1) = 4096" "t_bufsz tnc1 = 4096"
    and rel: "\<And>len k buf. kst_rel len k tnc1 buf = kst_rel len k ?t buf"
    using fill_chunk [of "[0xc0]" ?t ?w "map (\<lambda>p. RBytes (kiss_frame 0 p)) ps"] sz assms(3)
    by (auto simp: world0_def)
  let ?k = "kst0\<lparr>k_state := KISS_FRAME_COMMAND\<rparr>"
  have k0: "kst_rel len kst0 tnc1 buf" using rel kst_rel_fresh [OF assms(2)] by simp
  have "kiss_run len kst0 (unread tnc1) = Some (?k, [])"
    using assms(1) t1(1) by (simp add: kiss_delta_def kst0_def)
  from rx_deliver_run [OF t1(2) k0 this] obtain tnc2 buf2 where
    rx: "rx_deliver tnc1 buf len = Some ([], True, tnc2, buf2)" "same_input tnc1 tnc2" "kst_rel len ?k tnc2 buf2"
    by blast
  have "\<exists>tnc' buf' w'. rx_reads (length ps) tnc2 buf2 len (?w\<lparr>script := map (\<lambda>p. RBytes (kiss_frame 0 p)) ps\<rparr>)
      = Some ([], True, tnc', buf', w')"
    by (rule rx_reads_lost [where k = ?k])
       (use rx(2,3) t1 assms in \<open>auto simp: tnc_lost_def same_input_def kst0_def\<close>)
  then obtain tnc' buf' w' where "rx_reads (length ps) tnc2 buf2 len
      (?w\<lparr>script := map (\<lambda>p. RBytes (kiss_frame 0 p)) ps\<rparr>) = Some ([], True, tnc', buf', w')" by blast
  with fill rx(1) show ?thesis by simp
qed

lemma kiss_extra_fend_deaf_witness:
  "\<exists>tnc' buf' w'. rx_reads (Suc (length [[0x41], [0x42 :: byte]])) (tnc_fields 3 (replicate 4096 0)) (replicate 8 0) 8
      (world0 (RBytes [0xc0] # map (\<lambda>p. RBytes (kiss_frame 0 p)) [[0x41], [0x42]])) = Some ([], True, tnc', buf', w')"
  by (rule kiss_extra_fend_deaf)
     (simp_all add: kiss_frame_def start_octets_def kiss_body_def kiss_escape_def)

end
