(* ===== verification/Patty_Tnc.thy ===== *)
theory Patty_Tnc
  imports Patty_Kiss Patty_Util
begin

text \<open>
  Opening and closing a KISS device: \<open>init_sock\<close>, \<open>init_termios\<close>, \<open>init_device\<close>,
  \<open>patty_kiss_tnc_new\<close> and \<open>patty_kiss_tnc_destroy\<close> of \<open>src/src/tnc.c\<close>. Every call of
  the system takes a reply of the script; the lemmas show which descriptors get closed.
\<close>

section \<open>Requests\<close>

definition PATTY_KISS_TNC_DEVICE :: u32 where "PATTY_KISS_TNC_DEVICE = 1"
definition PATTY_KISS_TNC_FD :: u32 where "PATTY_KISS_TNC_FD = 2"
definition PATTY_KISS_TNC_BAUD :: u32 where "PATTY_KISS_TNC_BAUD = 4"
definition PATTY_KISS_TNC_FLOW :: u32 where "PATTY_KISS_TNC_FLOW = 8"

datatype tnc_flow = PATTY_KISS_TNC_FLOW_NONE | PATTY_KISS_TNC_FLOW_CRTSCTS | PATTY_KISS_TNC_FLOW_XONXOFF

record tnc_info =
  ti_flags :: u32
  ti_device :: cstring
  ti_fd :: int
  ti_baud :: u32
  ti_flow :: tnc_flow

section \<open>The terminal library\<close>

text \<open>The flag bits of Linux that \<open>cfmakeraw\<close> (as its manual page defines it) and the code use.\<close>

definition IXON :: u32 where "IXON = 0x400"
definition IXOFF :: u32 where "IXOFF = 0x1000"
definition CRTSCTS :: u32 where "CRTSCTS = 0x80000000"

definition cfmakeraw :: "termios \<Rightarrow> termios" where
  "cfmakeraw t = t\<lparr>c_iflag := c_iflag t AND NOT 0x5eb, c_oflag := c_oflag t AND NOT 0x1,
     c_lflag := c_lflag t AND NOT 0x804b, c_cflag := (c_cflag t AND NOT 0x130) OR 0x30\<rparr>"

definition cfsetspeed :: "termios \<Rightarrow> u32 \<Rightarrow> termios" where
  "cfsetspeed t baud = t\<lparr>c_speed := baud\<rparr>"

text \<open>
  What \<open>tcgetattr\<close> stores is the argument \<open>line\<close>, the attributes the line has. A question to
  the system (\<open>isatty\<close>, \<open>ptsname\<close>) is answered yes by a positive value.
\<close>

definition sys_query :: "world \<Rightarrow> bool \<times> world" where
  "sys_query w = (case sys_fd w of (n, w) \<Rightarrow> (n > 0, w))"

section \<open>Operations\<close>

definition SUN_PATH_SIZE :: nat where "SUN_PATH_SIZE = 108"

definition init_sock :: "tnc \<Rightarrow> tnc_info \<Rightarrow> world \<Rightarrow> int \<times> tnc \<times> world" where
  "init_sock tnc info w =
     (if length (ti_device info) > SUN_PATH_SIZE then (-1, tnc, w\<lparr>err := Some EOVERFLOW\<rparr>)
      else case sys_fd w of (fd, w) \<Rightarrow>
        let tnc = tnc\<lparr>t_fd := fd\<rparr> in
        if fd < 0 then (-1, tnc, w)
        else case sys_call w of (r, w) \<Rightarrow>
          if r < 0 then (-1, tnc, snd (sys_close fd w)) else (0, tnc, w))"

definition init_termios :: "termios \<Rightarrow> tnc \<Rightarrow> tnc_info \<Rightarrow> world \<Rightarrow> int \<times> tnc \<times> world" where
  "init_termios line tnc info w =
     (case sys_call w of (r, w) \<Rightarrow>
      if r < 0 then (-1, tnc, w)
      else let attrs = cfmakeraw line;
               attrs = (if ti_flags info AND PATTY_KISS_TNC_BAUD \<noteq> 0 then cfsetspeed attrs (ti_baud info) else attrs);
               attrs = (if ti_flags info AND PATTY_KISS_TNC_FLOW \<noteq> 0
                        then (case ti_flow info of
                                PATTY_KISS_TNC_FLOW_NONE \<Rightarrow> attrs
                              | PATTY_KISS_TNC_FLOW_CRTSCTS \<Rightarrow> attrs\<lparr>c_cflag := c_cflag attrs OR CRTSCTS\<rparr>
                              | PATTY_KISS_TNC_FLOW_XONXOFF \<Rightarrow> attrs\<lparr>c_iflag := c_iflag attrs OR (IXON OR IXOFF)\<rparr>)
                        else attrs);
               tnc = tnc\<lparr>t_attrs := attrs, t_attrs_old := line\<rparr> in
           case sys_call w of (r, w) \<Rightarrow>
           if r < 0 then (-1, tnc, w)
           else case sys_call w of (r, w) \<Rightarrow> if r < 0 then (-1, tnc, w) else (0, tnc, w))"

text \<open>\<open>"/dev/ptmx"\<close>; \<open>S_IFMT\<close> and \<open>S_IFSOCK\<close>. The reply to \<open>stat\<close> is the mode.\<close>

definition dev_ptmx :: cstring where
  "dev_ptmx = [0x2f, 0x64, 0x65, 0x76, 0x2f, 0x70, 0x74, 0x6d, 0x78]"

definition S_IFMT :: u32 where "S_IFMT = 0xf000"
definition S_IFSOCK :: u32 where "S_IFSOCK = 0xc000"

definition init_device :: "tnc \<Rightarrow> tnc_info \<Rightarrow> world \<Rightarrow> int \<times> tnc \<times> world" where
  "init_device tnc info w =
     (let opened = (\<lambda>(r, tnc, w). if r < 0 then (-1, tnc, w)
                     else (0, tnc\<lparr>t_opts := t_opts tnc OR TNC_CLOSE_ON_DESTROY\<rparr>, w)) in
      if ti_device info = dev_ptmx
      then case sys_fd w of (fd, w) \<Rightarrow>
             if fd < 0 then (-1, tnc, w) else opened (0, tnc\<lparr>t_fd := fd\<rparr>, w)
      else case sys_fd w of (mode, w) \<Rightarrow>
        if mode < 0 then (-1, tnc, w)
        else if (word_of_int mode AND S_IFMT) = S_IFSOCK then opened (init_sock tnc info w)
        else case sys_fd w of (fd, w) \<Rightarrow> opened (fd, tnc\<lparr>t_fd := fd\<rparr>, w))"

text \<open>\<open>blank\<close> is the fresh allocation of the object, \<open>garbage\<close> that of its buffer.\<close>

definition patty_kiss_tnc_new ::
  "termios \<Rightarrow> tnc \<Rightarrow> byte list \<Rightarrow> tnc_info \<Rightarrow> world \<Rightarrow> tnc option \<times> world" where
  "patty_kiss_tnc_new line blank garbage info w =
     (case sys_call w of (r, w) \<Rightarrow>
      if r < 0 then (None, w)
      else case sys_call w of (r, w) \<Rightarrow>
      if r < 0 then (None, w)
      else case (if ti_flags info AND PATTY_KISS_TNC_DEVICE \<noteq> 0 then init_device blank info w
                 else if ti_flags info AND PATTY_KISS_TNC_FD \<noteq> 0 then (0, blank\<lparr>t_fd := ti_fd info\<rparr>, w)
                 else (-1, blank, w\<lparr>err := Some EINVAL\<rparr>)) of (r, tnc, w) \<Rightarrow>
      if r < 0 then (None, w)
      else case sys_query w of (tty, w) \<Rightarrow>
      case (if tty then init_termios line tnc info w else (0, tnc, w)) of (r, tnc, w) \<Rightarrow>
      if r < 0
      then (None, if ti_flags info AND PATTY_KISS_TNC_DEVICE \<noteq> 0 then snd (sys_close (t_fd tnc) w) else w)
      else (Some (tnc\<lparr>t_stats := stats_zero, t_opts := TNC_NONE, t_state := KISS_NONE,
                      t_command := PATTY_KISS_RETURN, t_port := 0, t_bufsz := PATTY_KISS_TNC_BUFSZ,
                      t_offset_i := 0, t_offset_o := 0, t_readlen := 0, t_buf := garbage\<rparr>), w))"

definition patty_kiss_tnc_destroy :: "tnc \<Rightarrow> world \<Rightarrow> world" where
  "patty_kiss_tnc_destroy tnc w =
     (case sys_query w of (tty, w) \<Rightarrow>
      case (if tty then sys_query w else (True, w)) of (named, w) \<Rightarrow>
      let w = (if tty \<and> \<not> named then snd (sys_call w) else w) in
      if t_opts tnc AND TNC_CLOSE_ON_DESTROY \<noteq> 0 then snd (sys_close (t_fd tnc) w) else w)"

section \<open>Properties\<close>

lemma sys_call_closed [simp]: "sys_call w = (r, w') \<Longrightarrow> closed w' = closed w"
  by (auto simp: sys_call_def split: list.splits reply.splits)

lemma sys_fd_closed [simp]: "sys_fd w = (r, w') \<Longrightarrow> closed w' = closed w"
  by (auto simp: sys_fd_def split: list.splits reply.splits)

lemma sys_query_closed [simp]: "sys_query w = (r, w') \<Longrightarrow> closed w' = closed w"
  by (auto simp: sys_query_def split: prod.splits)

text \<open>
  A device made by patty_kiss_tnc_new starts between two frames with empty buffers,
  whatever its allocation held, and it is never closed by patty_kiss_tnc_destroy: the option
  that asks for it is cleared after it has been set.
\<close>
theorem tnc_new_never_closed:
  assumes "patty_kiss_tnc_new line blank garbage info w = (Some tnc, w')"
  shows "t_state tnc = KISS_NONE \<and> t_readlen tnc = 0 \<and> t_offset_i tnc = 0 \<and> t_offset_o tnc = 0
    \<and> t_bufsz tnc = 4096 \<and> t_buf tnc = garbage
    \<and> closed (patty_kiss_tnc_destroy tnc w'') = closed w''"
proof -
  have new: "t_opts tnc = TNC_NONE \<and> t_state tnc = KISS_NONE \<and> t_readlen tnc = 0 \<and> t_offset_i tnc = 0
      \<and> t_offset_o tnc = 0 \<and> t_bufsz tnc = PATTY_KISS_TNC_BUFSZ \<and> t_buf tnc = garbage"
    using assms by (auto simp: patty_kiss_tnc_new_def split: prod.splits if_splits)
  obtain tty w1 where q: "sys_query w'' = (tty, w1)" by (rule prod.exhaust)
  obtain named w2 where q2: "(if tty then sys_query w1 else (True, w1)) = (named, w2)" by (rule prod.exhaust)
  have c: "closed w1 = closed w''" "closed w2 = closed w1" using q q2 by (auto split: if_splits)
  obtain r w3 where s: "sys_call w2 = (r, w3)" by (rule prod.exhaust)
  show ?thesis using new q q2 c s by (simp add: patty_kiss_tnc_destroy_def TNC_NONE_def PATTY_KISS_TNC_BUFSZ_def)
qed

lemma tnc_new_never_closed_witness:
  "\<exists>tnc w'. patty_kiss_tnc_new termios_zero (tnc_fields 0 []) (replicate 4096 0)
       \<lparr>ti_flags = PATTY_KISS_TNC_DEVICE, ti_device = dev_ptmx, ti_fd = 0, ti_baud = 0, ti_flow = PATTY_KISS_TNC_FLOW_NONE\<rparr>
       (world0 [ROk, ROk, RVal 5]) = (Some tnc, w')
     \<and> t_fd tnc = 5 \<and> closed (patty_kiss_tnc_destroy tnc w') = closed w'"
proof -
  let ?info = "\<lparr>ti_flags = PATTY_KISS_TNC_DEVICE, ti_device = dev_ptmx, ti_fd = 0, ti_baud = 0, ti_flow = PATTY_KISS_TNC_FLOW_NONE\<rparr>"
  have new: "patty_kiss_tnc_new termios_zero (tnc_fields 0 []) (replicate 4096 0) ?info (world0 [ROk, ROk, RVal 5])
      = (Some (tnc_fields 5 (replicate 4096 0)), world0 [])"
    by (simp add: patty_kiss_tnc_new_def init_device_def sys_call_def sys_fd_def sys_query_def world0_def
        PATTY_KISS_TNC_DEVICE_def tnc_fields_def)
  moreover have "t_fd (tnc_fields 5 (replicate 4096 0)) = 5" by (simp add: tnc_fields_def)
  ultimately show ?thesis using tnc_new_never_closed [OF new, of "world0 []"] by blast
qed

end
