(* ===== verification/Patty_List.thy ===== *)
theory Patty_List
  imports Patty_Prelude
begin

text \<open>
  The doubly linked list of \<open>src/src/list.c\<close> over an explicit heap of items (address 0 is
  NULL). \<open>patty_list_append\<close> does not initialise \<open>prev\<close>: the outcome of its \<open>malloc\<close> is
  the new address together with the garbage the \<open>prev\<close> field of the allocation holds.
  Following an invalid pointer is \<open>None\<close>; a loop that may run forever is a
  \<open>partial_function (option)\<close>, so not returning is \<open>None\<close> too.

  \<open>list_rep l xs\<close> relates a list to the addresses and values its \<open>next\<close> chain visits. The
  operations that only use \<open>next\<close> refine the operations on \<open>xs\<close>; the ones that use
  \<open>prev\<close> (\<open>pop\<close>, \<open>splice\<close>) do not, and the lemmas say what they do instead. Stored values
  are non-NULL pointers, as in every call of the program.
\<close>

record 'v item =
  it_prev :: nat
  it_next :: nat
  it_value :: 'v

record 'v plist =
  ll_length :: nat
  ll_first :: nat
  ll_last :: nat
  ll_items :: "nat \<rightharpoonup> 'v item"

section \<open>Operations\<close>

definition patty_list_new :: "'v plist" where
  "patty_list_new = \<lparr>ll_length = 0, ll_first = 0, ll_last = 0, ll_items = Map.empty\<rparr>"

definition patty_list_length :: "'v plist \<Rightarrow> nat" where
  "patty_list_length l = ll_length l"

text \<open>The loop of \<open>patty_list_set\<close> and \<open>patty_list_splice\<close>: the \<open>index\<close>-th item, or NULL.\<close>

partial_function (option) find_item :: "(nat \<rightharpoonup> 'v item) \<Rightarrow> nat \<Rightarrow> nat \<Rightarrow> int \<Rightarrow> nat option" where
  "find_item h p i index =
     (if p = 0 then Some 0
      else do { it \<leftarrow> h p;
                if int i = index then Some p else find_item h (it_next it) (Suc i) index })"

definition patty_list_set :: "'v plist \<Rightarrow> int \<Rightarrow> 'v \<Rightarrow> ('v option \<times> 'v plist) option" where
  "patty_list_set l index v =
     do { p \<leftarrow> find_item (ll_items l) (ll_first l) 0 index;
          if p = 0 then Some (None, l)
          else do { it \<leftarrow> ll_items l p;
                    Some (Some v, l\<lparr>ll_items := (ll_items l)(p \<mapsto> it\<lparr>it_value := v\<rparr>)\<rparr>) } }"

definition patty_list_append ::
  "(nat \<times> nat) option \<Rightarrow> 'v plist \<Rightarrow> 'v \<Rightarrow> ('v option \<times> 'v plist) option" where
  "patty_list_append m l v =
     (case m of
        None \<Rightarrow> Some (None, l)
      | Some (new, junk) \<Rightarrow>
          let h = (ll_items l)(new \<mapsto> \<lparr>it_prev = junk, it_next = 0, it_value = v\<rparr>) in
          if ll_first l = 0
          then Some (Some v, l\<lparr>ll_items := h, ll_first := new, ll_last := new,
                               ll_length := ll_length l + 1\<rparr>)
          else do { it \<leftarrow> h (ll_last l);
                    Some (Some v, l\<lparr>ll_items := h(ll_last l \<mapsto> it\<lparr>it_next := new\<rparr>),
                                    ll_last := new, ll_length := ll_length l + 1\<rparr>) })"

partial_function (option) last_item :: "(nat \<rightharpoonup> 'v item) \<Rightarrow> nat \<Rightarrow> 'v option" where
  "last_item h p =
     (if p = 0 then None
      else do { it \<leftarrow> h p; if it_next it = 0 then Some (it_value it) else last_item h (it_next it) })"

definition patty_list_last :: "'v plist \<Rightarrow> 'v option" where
  "patty_list_last l = last_item (ll_items l) (ll_first l)"

definition patty_list_pop :: "'v plist \<Rightarrow> ('v option \<times> 'v plist) option" where
  "patty_list_pop l =
     (if ll_last l = 0 then Some (None, l)
      else do { it \<leftarrow> ll_items l (ll_last l);
                l' \<leftarrow> (if it_prev it \<noteq> 0
                       then do { pr \<leftarrow> ll_items l (it_prev it);
                                 Some (l\<lparr>ll_last := it_prev it,
                                         ll_items := (ll_items l)(it_prev it \<mapsto> pr\<lparr>it_next := 0\<rparr>)\<rparr>) }
                       else Some (l\<lparr>ll_first := 0, ll_last := 0\<rparr>));
                Some (Some (it_value it),
                      l'\<lparr>ll_length := ll_length l - 1, ll_items := (ll_items l')(ll_last l := None)\<rparr>) })"

definition patty_list_shift :: "'v plist \<Rightarrow> ('v option \<times> 'v plist) option" where
  "patty_list_shift l =
     (if ll_first l = 0 then Some (None, l)
      else do { it \<leftarrow> ll_items l (ll_first l);
                l' \<leftarrow> (if it_next it \<noteq> 0
                       then do { nx \<leftarrow> ll_items l (it_next it);
                                 Some (l\<lparr>ll_first := it_next it,
                                         ll_items := (ll_items l)(it_next it \<mapsto> nx\<lparr>it_prev := 0\<rparr>)\<rparr>) }
                       else Some (l\<lparr>ll_first := 0, ll_last := 0\<rparr>));
                Some (Some (it_value it),
                      l'\<lparr>ll_length := ll_length l - 1, ll_items := (ll_items l')(ll_first l := None)\<rparr>) })"

text \<open>\<open>while (index < 0) index += list->length\<close> does not end on an empty list.\<close>

partial_function (option) splice_index :: "nat \<Rightarrow> int \<Rightarrow> int option" where
  "splice_index n index = (if index < 0 then splice_index n (index + int n) else Some index)"

definition patty_list_splice :: "'v plist \<Rightarrow> int \<Rightarrow> ('v option \<times> 'v plist) option" where
  "patty_list_splice l index =
     do { index \<leftarrow> splice_index (ll_length l) index;
          p \<leftarrow> find_item (ll_items l) (ll_first l) 0 index;
          if p = 0 then Some (None, l)
          else do { it \<leftarrow> ll_items l p;
                    l' \<leftarrow> (if it_prev it \<noteq> 0 \<and> it_next it \<noteq> 0
                           then do { pr \<leftarrow> ll_items l (it_prev it);
                                     Some (l\<lparr>ll_items := (ll_items l)(it_prev it \<mapsto> pr\<lparr>it_next := it_next it\<rparr>)\<rparr>) }
                           else if it_prev it \<noteq> 0
                           then do { pr \<leftarrow> ll_items l (it_prev it);
                                     Some (l\<lparr>ll_last := it_prev it,
                                             ll_items := (ll_items l)(it_prev it \<mapsto> pr\<lparr>it_next := 0\<rparr>)\<rparr>) }
                           else if it_next it \<noteq> 0
                           then do { nx \<leftarrow> ll_items l (it_next it);
                                     Some (l\<lparr>ll_first := it_next it,
                                             ll_items := (ll_items l)(it_next it \<mapsto> nx\<lparr>it_prev := 0\<rparr>)\<rparr>) }
                           else Some l);
                    Some (Some (it_value it), l') } }"

text \<open>The loop of \<open>patty_list_index\<close>: \<open>i < index && item->next != NULL\<close>.\<close>

partial_function (option) index_item :: "(nat \<rightharpoonup> 'v item) \<Rightarrow> nat \<Rightarrow> nat \<Rightarrow> int \<Rightarrow> 'v option" where
  "index_item h p i index =
     do { it \<leftarrow> h p;
          if int i < index \<and> it_next it \<noteq> 0 then index_item h (it_next it) (Suc i) index
          else Some (it_value it) }"

definition patty_list_index :: "'v plist \<Rightarrow> int \<Rightarrow> 'v option option" where
  "patty_list_index l index =
     (let index = (if index < 0 then index + int (ll_length l) else index) in
      if index \<ge> int (ll_length l) \<or> index < 0 then Some None
      else map_option Some (index_item (ll_items l) (ll_first l) 0 index))"

text \<open>
  \<open>patty_list_each\<close>, and the same loop as the callers write it out over \<open>item->next\<close>: the
  values in the order they are visited.
\<close>

partial_function (option) each_item :: "(nat \<rightharpoonup> 'v item) \<Rightarrow> nat \<Rightarrow> 'v list option" where
  "each_item h p =
     (if p = 0 then Some []
      else do { it \<leftarrow> h p; vs \<leftarrow> each_item h (it_next it); Some (it_value it # vs) })"

definition patty_list_values :: "'v plist \<Rightarrow> 'v list option" where
  "patty_list_values l = each_item (ll_items l) (ll_first l)"

definition patty_list_each :: "'v plist \<Rightarrow> ('v \<Rightarrow> 's \<Rightarrow> 's) \<Rightarrow> 's \<Rightarrow> 's option" where
  "patty_list_each l callback ctx = map_option (\<lambda>vs. fold callback vs ctx) (patty_list_values l)"

section \<open>Representation\<close>

fun lseg :: "(nat \<rightharpoonup> 'v item) \<Rightarrow> nat \<Rightarrow> (nat \<times> 'v) list \<Rightarrow> bool" where
  "lseg h p [] = (p = 0)"
| "lseg h p ((a, v) # xs) =
     (p = a \<and> a \<noteq> 0 \<and> (\<exists>it. h a = Some it \<and> it_value it = v \<and> lseg h (it_next it) xs))"

definition list_rep :: "'v plist \<Rightarrow> (nat \<times> 'v) list \<Rightarrow> bool" where
  "list_rep l xs \<longleftrightarrow> lseg (ll_items l) (ll_first l) xs \<and> distinct (map fst xs)
     \<and> ll_last l = (if xs = [] then 0 else fst (last xs)) \<and> ll_length l = length xs"

lemma lseg_0 [simp]: "lseg h 0 xs \<longleftrightarrow> xs = []"
  by (cases xs) auto

lemma lseg_nonzero: "lseg h p xs \<Longrightarrow> xs \<noteq> [] \<longleftrightarrow> p \<noteq> 0"
  by (cases xs) auto

lemma lseg_upd: "a \<notin> fst ` set xs \<Longrightarrow> lseg (h(a := x)) p xs = lseg h p xs"
  by (induction xs arbitrary: p) auto

lemma lseg_link:
  assumes "lseg h p (xs @ [(b, w)])" and "distinct (map fst (xs @ [(b, w)]))"
    and "a \<noteq> 0" and "a \<notin> fst ` set (xs @ [(b, w)])" and "h b = Some it"
  shows "lseg (h(a \<mapsto> \<lparr>it_prev = j, it_next = 0, it_value = v\<rparr>, b \<mapsto> it\<lparr>it_next := a\<rparr>))
           p (xs @ [(b, w), (a, v)])"
  using assms(1,2,4)
proof (induction xs arbitrary: p)
  case Nil
  with assms(3,5) show ?case by auto
next
  case (Cons y ys)
  then show ?case by (cases y) (auto simp: fun_upd_def)
qed

lemma lseg_mem: "lseg h p xs \<Longrightarrow> (a, v) \<in> set xs \<Longrightarrow> \<exists>it. h a = Some it \<and> it_value it = v \<and> a \<noteq> 0"
  by (induction xs arbitrary: p) auto

lemma list_rep_new: "list_rep patty_list_new []"
  by (simp add: list_rep_def patty_list_new_def)

lemma list_rep_append:
  assumes "list_rep l xs" and "a \<noteq> 0" and "a \<notin> fst ` set xs"
  obtains l' where "patty_list_append (Some (a, j)) l v = Some (Some v, l')"
    and "list_rep l' (xs @ [(a, v)])"
proof (cases xs rule: rev_cases)
  case Nil
  with assms that show thesis
    by (auto simp: patty_list_append_def list_rep_def Let_def)
next
  case (snoc ys y)
  obtain b w where y: "y = (b, w)" by (cases y)
  from assms(1) snoc y have seg: "lseg (ll_items l) (ll_first l) (ys @ [(b, w)])"
    and dist: "distinct (map fst (ys @ [(b, w)]))" and last: "ll_last l = b"
    by (auto simp: list_rep_def)
  from lseg_mem [OF seg, of b w] obtain it where it: "ll_items l b = Some it" by auto
  have "b \<noteq> a" using assms(3) snoc y by auto
  moreover have "ll_first l \<noteq> 0" using lseg_nonzero [OF seg] by simp
  moreover from lseg_link [OF seg dist assms(2) _ it, of j v] assms(3) snoc y
  have "lseg ((ll_items l)(a \<mapsto> \<lparr>it_prev = j, it_next = 0, it_value = v\<rparr>, b \<mapsto> it\<lparr>it_next := a\<rparr>))
      (ll_first l) (xs @ [(a, v)])" by simp
  ultimately show thesis
    using assms(1,3) it last snoc y
    by (intro that) (auto simp: patty_list_append_def Let_def list_rep_def)
qed

section \<open>Reading\<close>

lemma each_item_lseg: "lseg h p xs \<Longrightarrow> each_item h p = Some (map snd xs)"
proof (induction xs arbitrary: p)
  case Nil
  then show ?case by (simp add: each_item.simps)
next
  case (Cons x xs)
  obtain a v where x: "x = (a, v)" by (cases x)
  with Cons.prems obtain it where "h a = Some it" "it_value it = v" "lseg h (it_next it) xs" "p = a" "a \<noteq> 0"
    by auto
  with x Cons.IH [of "it_next it"] show ?case by (simp add: each_item.simps [of h a])
qed

lemma patty_list_values_rep: "list_rep l xs \<Longrightarrow> patty_list_values l = Some (map snd xs)"
  by (simp add: patty_list_values_def list_rep_def each_item_lseg)

lemma patty_list_each_rep: "list_rep l xs \<Longrightarrow> patty_list_each l f s = Some (fold f (map snd xs) s)"
  by (simp add: patty_list_each_def patty_list_values_rep)

lemma index_item_lseg:
  "lseg h p xs \<Longrightarrow> n < length xs \<Longrightarrow> index_item h p i (int (i + n)) = Some (snd (xs ! n))"
proof (induction xs arbitrary: p i n)
  case (Cons x xs)
  obtain a v where x: "x = (a, v)" by (cases x)
  show ?case
  proof (cases n)
    case 0
    with Cons.prems x show ?thesis by (auto simp: index_item.simps [of h a])
  next
    case (Suc m)
    with Cons.prems x obtain it where it: "h a = Some it" "lseg h (it_next it) xs" "p = a" by auto
    with Suc Cons.prems have "it_next it \<noteq> 0" by (auto dest: lseg_nonzero)
    with it Suc Cons.IH [OF it(2), of m "Suc i"] Cons.prems x show ?thesis
      by (simp add: index_item.simps [of h a])
  qed
qed simp

lemma patty_list_index_rep:
  assumes "list_rep l xs"
  shows "patty_list_index l index =
    Some (let i = (if index < 0 then index + int (length xs) else index)
          in if 0 \<le> i \<and> i < int (length xs) then Some (snd (xs ! nat i)) else None)"
  using assms index_item_lseg [of "ll_items l" "ll_first l" xs _ 0]
  by (auto simp: patty_list_index_def list_rep_def Let_def)
     (smt (verit) index_item_lseg nat_0_le nat_less_iff of_nat_0 add_0 option.simps(9))+

lemma find_item_lseg:
  "lseg h p xs \<Longrightarrow> find_item h p i index =
     Some (if int i \<le> index \<and> index < int (i + length xs) then fst (xs ! nat (index - int i)) else 0)"
proof (induction xs arbitrary: p i)
  case Nil
  then show ?case by (simp add: find_item.simps)
next
  case (Cons x xs)
  obtain a v where x: "x = (a, v)" by (cases x)
  with Cons.prems obtain it where it: "h a = Some it" "lseg h (it_next it) xs" "p = a" "a \<noteq> 0" by auto
  show ?case
  proof (cases "int i = index")
    case True
    with it x show ?thesis by (auto simp: find_item.simps [of h a])
  next
    case False
    then have "nat (index - int i) = Suc (nat (index - int (Suc i)))" if "int i \<le> index" using that by auto
    with False it x Cons.IH [OF it(2), of "Suc i"] show ?thesis
      by (auto simp: find_item.simps [of h a])
  qed
qed

text \<open>Replacing the value of one item.\<close>

lemma lseg_set:
  assumes "lseg h p (xs @ (a, v) # ys)" and "distinct (map fst (xs @ (a, v) # ys))" and "h a = Some it"
  shows "lseg (h(a \<mapsto> it\<lparr>it_value := w\<rparr>)) p (xs @ (a, w) # ys)"
  using assms(1,2)
proof (induction xs arbitrary: p)
  case Nil
  then have "a \<notin> fst ` set ys" by simp
  from lseg_upd [OF this, of h] Nil assms(3) show ?case
    by (auto simp: fun_upd_same simp del: fun_upd_apply)
next
  case (Cons y xs)
  then show ?case by (cases y) auto
qed

lemma list_rep_set:
  assumes "list_rep l xs" and "0 \<le> index" and "index < int (length xs)"
  obtains l' where "patty_list_set l index v = Some (Some v, l')"
    and "list_rep l' (xs[nat index := (fst (xs ! nat index), v)])"
proof -
  obtain a w where aw: "xs ! nat index = (a, w)" by (cases "xs ! nat index")
  have n: "nat index < length xs" using assms by simp
  have split: "xs = take (nat index) xs @ (a, w) # drop (Suc (nat index)) xs"
    using id_take_nth_drop [OF n] aw by simp
  from assms(1) have seg: "lseg (ll_items l) (ll_first l) xs" and dist: "distinct (map fst xs)"
    by (simp_all add: list_rep_def)
  from n aw have "(a, w) \<in> set xs" by (metis nth_mem)
  with lseg_mem [OF seg] obtain it where it: "ll_items l a = Some it" and "a \<noteq> 0" by blast
  have upd: "xs[nat index := (a, v)] = take (nat index) xs @ (a, v) # drop (Suc (nat index)) xs"
    using n by (simp add: upd_conv_take_nth_drop)
  have "lseg ((ll_items l)(a \<mapsto> it\<lparr>it_value := v\<rparr>)) (ll_first l) (xs[nat index := (a, v)])"
    unfolding upd by (rule lseg_set [where v = w]) (use seg dist split it in auto)
  moreover have "map fst (xs[nat index := (a, v)]) = map fst xs"
    using aw n by (simp add: map_update list_update_same_conv)
  moreover have "fst (last (xs[nat index := (a, v)])) = fst (last xs)" if "xs \<noteq> []"
    using that calculation(2) by (metis last_map list_update_nonempty)
  ultimately show thesis
    using assms it \<open>a \<noteq> 0\<close> aw find_item_lseg [OF seg, of 0 index]
    by (intro that) (auto simp: patty_list_set_def list_rep_def)
qed

text \<open>Taking the first item off: the queue discipline the server relies on.\<close>

lemma list_rep_shift:
  assumes "list_rep l ((a, v) # xs)"
  obtains l' where "patty_list_shift l = Some (Some v, l')" and "list_rep l' xs"
proof -
  from assms obtain it where it: "ll_items l a = Some it" "it_value it = v"
    "lseg (ll_items l) (it_next it) xs" and a: "ll_first l = a" "a \<noteq> 0" "a \<notin> fst ` set xs"
    and dist: "distinct (map fst xs)"
    by (auto simp: list_rep_def)
  show thesis
  proof (cases xs)
    case Nil
    with assms it a show thesis
      by (intro that) (auto simp: patty_list_shift_def list_rep_def)
  next
    case (Cons y ys)
    obtain b w where y: "y = (b, w)" by (cases y)
    with Cons it obtain nx where nx: "ll_items l b = Some nx" "it_next it = b" "b \<noteq> 0" by auto
    have "lseg ((ll_items l)(b \<mapsto> nx\<lparr>it_prev := 0\<rparr>, a := None)) b xs"
      using it nx a dist Cons y by (auto simp: lseg_upd)
    with assms it a nx dist Cons y show thesis
      by (intro that) (auto simp: patty_list_shift_def list_rep_def)
  qed
qed

lemma list_rep_shift_empty: "list_rep l [] \<Longrightarrow> patty_list_shift l = Some (None, l)"
  by (simp add: patty_list_shift_def list_rep_def)

section \<open>What the missing initialisation of \<open>prev\<close> costs\<close>

text \<open>
  When the allocator returns zeroed memory, every \<open>prev\<close> is NULL. Then \<open>patty_list_pop\<close>
  on two or more items drops the whole chain while the length goes down by one only.
\<close>

definition prev_null :: "'v plist \<Rightarrow> bool" where
  "prev_null l \<longleftrightarrow> (\<forall>a it. ll_items l a = Some it \<longrightarrow> it_prev it = 0)"

lemma prev_null_new [simp]: "prev_null patty_list_new"
  by (simp add: prev_null_def patty_list_new_def)

lemma prev_null_append:
  "prev_null l \<Longrightarrow> patty_list_append (Some (a, 0)) l v = Some (r, l') \<Longrightarrow> prev_null l'"
  unfolding prev_null_def patty_list_append_def
  by (auto simp: Let_def bind_eq_Some_conv split: if_splits)

lemma pop_drops_chain:
  assumes "list_rep l (xs @ [(a, v)])" and "prev_null l"
  shows "\<exists>l'. patty_list_pop l = Some (Some v, l') \<and> patty_list_values l' = Some []
           \<and> ll_length l' = length xs"
proof -
  from assms(1) have seg: "lseg (ll_items l) (ll_first l) (xs @ [(a, v)])" and a: "ll_last l = a"
    and n: "ll_length l = Suc (length xs)"
    by (simp_all add: list_rep_def)
  from lseg_mem [OF seg, of a v] obtain it
    where it: "ll_items l a = Some it" "it_value it = v" "a \<noteq> 0" by auto
  with assms(2) have "it_prev it = 0" by (auto simp: prev_null_def)
  with it a n show ?thesis
    by (simp add: patty_list_pop_def patty_list_values_def each_item.simps)
qed

text \<open>\<open>patty_list_splice\<close> cuts off everything before the item too, and leaves the length.\<close>

lemma splice_index_nonneg: "0 \<le> index \<Longrightarrow> splice_index n index = Some index"
  by (simp add: splice_index.simps)

lemma lseg_suffix:
  "lseg h p (xs @ (a, v) # ys) \<Longrightarrow> \<exists>it. h a = Some it \<and> it_value it = v \<and> a \<noteq> 0 \<and> lseg h (it_next it) ys"
  by (induction xs arbitrary: p) auto

lemma splice_cuts:
  assumes "list_rep l (xs @ (a, v) # (b, w) # ys)" and "prev_null l"
  shows "\<exists>l'. patty_list_splice l (int (length xs)) = Some (Some v, l')
           \<and> patty_list_values l' = Some (map snd ((b, w) # ys))
           \<and> ll_length l' = length xs + 2 + length ys"
proof -
  let ?all = "xs @ (a, v) # (b, w) # ys"
  from assms(1) have seg: "lseg (ll_items l) (ll_first l) ?all" and dist: "distinct (map fst ?all)"
    and n: "ll_length l = length ?all"
    by (simp_all add: list_rep_def)
  from lseg_suffix [OF seg] obtain it where it: "ll_items l a = Some it" "it_value it = v" "a \<noteq> 0"
    and tl: "lseg (ll_items l) (it_next it) ((b, w) # ys)" by blast
  from tl obtain nx where nx: "ll_items l b = Some nx" "it_next it = b" "b \<noteq> 0"
    "it_value nx = w" "lseg (ll_items l) (it_next nx) ys" by auto
  have "it_prev it = 0" using assms(2) it by (auto simp: prev_null_def)
  moreover have "find_item (ll_items l) (ll_first l) 0 (int (length xs)) = Some a"
    using find_item_lseg [OF seg, of 0 "int (length xs)"] by simp
  moreover have "lseg ((ll_items l)(b \<mapsto> nx\<lparr>it_prev := 0\<rparr>)) b ((b, w) # ys)"
    using nx dist by (auto simp: lseg_upd)
  from each_item_lseg [OF this] have "each_item ((ll_items l)(b \<mapsto> nx\<lparr>it_prev := 0\<rparr>)) b = Some (w # map snd ys)"
    by simp
  ultimately show ?thesis
    using it nx n
    by (auto simp: patty_list_splice_def splice_index_nonneg patty_list_values_def)
qed

text \<open>A negative index into an empty list never returns.\<close>

lemma splice_index_empty: "index < 0 \<Longrightarrow> splice_index 0 index = None"
proof -
  have "n = 0 \<Longrightarrow> 0 \<le> i" if "splice_index n i = Some y" for n i y
    using that
    by (rule splice_index.raw_induct [of "\<lambda>n i y. n = 0 \<longrightarrow> 0 \<le> i", THEN mp, rotated])
       (force split: if_splits)+
  then show "index < 0 \<Longrightarrow> splice_index 0 index = None"
    by (metis not_Some_eq not_le)
qed

section \<open>Properties\<close>

text \<open>
  The list is a queue: an item appended to a well-formed list comes last, the list stays
  well-formed, and shift takes the oldest item off.
\<close>
theorem list_queue:
  assumes "list_rep l xs" and "a \<noteq> 0" and "a \<notin> fst ` set xs"
  shows "\<exists>l' l''. patty_list_append (Some (a, j)) l v = Some (Some v, l') \<and> list_rep l' (xs @ [(a, v)])
    \<and> patty_list_values l' = Some (map snd xs @ [v])
    \<and> patty_list_shift l' = Some (Some (snd (hd (xs @ [(a, v)]))), l'') \<and> list_rep l'' (tl (xs @ [(a, v)]))"
proof -
  obtain l' where app: "patty_list_append (Some (a, j)) l v = Some (Some v, l')" "list_rep l' (xs @ [(a, v)])"
    by (rule list_rep_append [OF assms])
  obtain b w ys where ys: "xs @ [(a, v)] = (b, w) # ys" by (cases "xs @ [(a, v)]") auto
  obtain l'' where "patty_list_shift l' = Some (Some w, l'')" "list_rep l'' ys"
    by (rule list_rep_shift [OF app(2) [unfolded ys]])
  moreover have "patty_list_values l' = Some (map snd xs @ [v])"
    using patty_list_values_rep [OF app(2)] by simp
  ultimately show ?thesis using app unfolding ys by auto
qed

lemma list_queue_witness:
  "\<exists>l' l''. patty_list_append (Some (8, 0)) patty_list_new ''x'' = Some (Some ''x'', l') \<and> list_rep l' ([] @ [(8, ''x'')])
    \<and> patty_list_values l' = Some (map snd [] @ [''x''])
    \<and> patty_list_shift l' = Some (Some (snd (hd ([] @ [(8 :: nat, ''x'')]))), l'') \<and> list_rep l'' (tl ([] @ [(8, ''x'')]))"
  using list_queue [OF list_rep_new, of 8 0 "''x''"] by simp

text \<open>
  patty_list_pop on a list of two items or more returns the last value but empties the
  list, whose length still counts the others: append never sets the link to the predecessor
  (here NULL, as in zeroed memory).
\<close>
theorem pop_loses_list:
  assumes "list_rep l (xs @ [(a, v)])" and "prev_null l"
  shows "\<exists>l'. patty_list_pop l = Some (Some v, l') \<and> patty_list_values l' = Some [] \<and> ll_length l' = length xs"
  by (rule pop_drops_chain [OF assms])

text \<open>A list of two items made by the code's own operations.\<close>

definition two_items :: "string plist" where
  "two_items = snd (the (patty_list_append (Some (16, 0)) (snd (the (patty_list_append (Some (8, 0)) patty_list_new ''x''))) ''y''))"

lemma two_items: "list_rep two_items [(8, ''x''), (16, ''y'')]" "prev_null two_items"
  by (auto simp: two_items_def patty_list_append_def patty_list_new_def list_rep_def prev_null_def Let_def)

lemma pop_loses_list_witness:
  "\<exists>l'. patty_list_pop two_items = Some (Some ''y'', l') \<and> patty_list_values l' = Some []
     \<and> ll_length l' = length [(8 :: nat, ''x'')]"
  by (rule pop_loses_list) (use two_items in simp_all)

text \<open>
  patty_list_splice at an item that is not the last one cuts off everything before it as
  well, and leaves the length unchanged.
\<close>
theorem splice_cuts_front:
  assumes "list_rep l (xs @ (a, v) # (b, w) # ys)" and "prev_null l"
  shows "\<exists>l'. patty_list_splice l (int (length xs)) = Some (Some v, l')
    \<and> patty_list_values l' = Some (map snd ((b, w) # ys)) \<and> ll_length l' = length xs + 2 + length ys"
  by (rule splice_cuts [OF assms])

lemma splice_cuts_front_witness:
  "\<exists>l'. patty_list_splice two_items 0 = Some (Some ''x'', l')
    \<and> patty_list_values l' = Some [''y''] \<and> ll_length l' = 2"
  using splice_cuts_front [of two_items "[]" 8 "''x''" 16 "''y''" "[]"] two_items by (simp add: numeral_2_eq_2)

end
