(* ===== verification/Patty_Dict.thy ===== *)
theory Patty_Dict
  imports Patty_Prelude
begin

text \<open>
  The dictionary of \<open>src/src/dict.c\<close>: a trie of buckets of 16 slots, indexed at level \<open>c\<close>
  by the \<open>c\<close>-th nibble of the 32-bit key. A slot holds a key and a \<open>void *\<close> value and may
  point to a further bucket for the keys that collide there; at most seven levels are
  searched. A slot pointer is modelled by the path of indices that leads to it.

  The lemmas give the functional behaviour of every operation, an invariant
  \<open>bucket_ok\<close> they keep, the locale \<open>key_store\<close> that states the contract the clients
  (routes, server tables) rely on, and its interpretation on this code.
\<close>

section \<open>Data\<close>

type_synonym index = "4 word"

datatype 'v slot = Slot (skey: u32) (sval: "'v option") (sset: bool)
                        (snext: "(index \<Rightarrow> 'v slot) option")

type_synonym 'v bucket = "index \<Rightarrow> 'v slot"

text \<open>\<open>memset(..., 0x00, ...)\<close> on a slot and on a bucket.\<close>

definition zero_slot :: "'v slot" where
  "zero_slot = Slot 0 None False None"

definition patty_dict_new :: "'v bucket" where
  "patty_dict_new = (\<lambda>_. zero_slot)"

text \<open>\<open>(key & (0x0f << (4 * collisions))) >> (4 * collisions)\<close>\<close>

definition nibble :: "nat \<Rightarrow> u32 \<Rightarrow> index" where
  "nibble c key = ucast (drop_bit (4 * c) (key AND push_bit (4 * c) 0x0f))"

section \<open>Operations\<close>

text \<open>
  The loop of \<open>patty_dict_slot_find\<close>: the first argument counts the levels left (seven at
  the start), \<open>c\<close> is \<open>collisions\<close>.
\<close>

fun slot_find_from :: "nat \<Rightarrow> nat \<Rightarrow> 'v bucket \<Rightarrow> u32 \<Rightarrow> index list option" where
  "slot_find_from 0 c b key = None"
| "slot_find_from (Suc n) c b key =
     (let i = nibble c key; slot = b i in
      if \<not> sset slot then None
      else if skey slot = key then Some [i]
      else (case snext slot of
              None \<Rightarrow> None
            | Some b' \<Rightarrow> map_option ((#) i) (slot_find_from n (Suc c) b' key)))"

definition patty_dict_slot_find :: "'v bucket \<Rightarrow> u32 \<Rightarrow> index list option" where
  "patty_dict_slot_find d key = slot_find_from 7 0 d key"

text \<open>Reading and overwriting the slot at a path (the memory a slot pointer denotes).\<close>

fun slot_at :: "'v bucket \<Rightarrow> index list \<Rightarrow> 'v slot option" where
  "slot_at b [] = None"
| "slot_at b [i] = Some (b i)"
| "slot_at b (i # p) = (case snext (b i) of None \<Rightarrow> None | Some b' \<Rightarrow> slot_at b' p)"

fun slot_put :: "'v bucket \<Rightarrow> index list \<Rightarrow> 'v slot \<Rightarrow> 'v bucket" where
  "slot_put b [] s = b"
| "slot_put b [i] s = b(i := s)"
| "slot_put b (i # p) s =
     (case b i of Slot k v st nx \<Rightarrow>
        b(i := Slot k v st (map_option (\<lambda>b'. slot_put b' p s) nx)))"

definition patty_dict_get :: "'v bucket \<Rightarrow> u32 \<Rightarrow> 'v option" where
  "patty_dict_get d key =
     (case patty_dict_slot_find d key of
        None \<Rightarrow> None
      | Some p \<Rightarrow> (case slot_at d p of None \<Rightarrow> None | Some slot \<Rightarrow> sval slot))"

text \<open>
  The loop of \<open>patty_dict_set\<close>; \<open>m\<close> tells whether the \<open>malloc\<close> of a new bucket succeeds
  (one call of \<open>patty_dict_set\<close> allocates at most once, except that the seventh level may
  allocate an eighth bucket that is never used). The result is the pointer the C function
  returns, NULL for failure, but also NULL when the stored value is NULL.
\<close>

fun dict_set_from :: "nat \<Rightarrow> nat \<Rightarrow> bool \<Rightarrow> 'v bucket \<Rightarrow> u32 \<Rightarrow> 'v option \<Rightarrow> 'v option \<times> 'v bucket" where
  "dict_set_from 0 c m b key v = (None, b)"
| "dict_set_from (Suc n) c m b key v =
     (let i = nibble c key in
      case b i of Slot k x st nx \<Rightarrow>
        if \<not> st then (v, b(i := Slot key v True nx))
        else if k = key then (v, b(i := Slot k v st nx))
        else (case nx of
                Some b' \<Rightarrow>
                  (case dict_set_from n (Suc c) m b' key v of
                     (r, b'') \<Rightarrow> (r, b(i := Slot k x st (Some b''))))
              | None \<Rightarrow>
                  if m then (case dict_set_from n (Suc c) m patty_dict_new key v of
                     (r, b'') \<Rightarrow> (r, b(i := Slot k x st (Some b''))))
                  else (None, b)))"

definition patty_dict_set :: "bool \<Rightarrow> 'v bucket \<Rightarrow> u32 \<Rightarrow> 'v option \<Rightarrow> 'v option \<times> 'v bucket" where
  "patty_dict_set m d key v = dict_set_from 7 0 m d key v"

text \<open>\<open>memset(slot, '\0', sizeof(*slot))\<close> also clears \<open>slot->next\<close>.\<close>

definition patty_dict_delete :: "'v bucket \<Rightarrow> u32 \<Rightarrow> int \<times> 'v bucket" where
  "patty_dict_delete d key =
     (case patty_dict_slot_find d key of
        None \<Rightarrow> (-1, d)
      | Some p \<Rightarrow> (0, slot_put d p zero_slot))"

text \<open>
  \<open>patty_dict_each\<close> and its recursion \<open>bucket_each_slot\<close>. The callback works on a state
  \<open>'s\<close> that contains the dictionary (\<open>rdd\<close> reads it), and the loop reads each slot when
  it gets there, as the C code does: a callback may delete the entry it is called for. The
  levels count down from 8 (\<open>level > 7\<close> returns), the indices run over a list.
  Undefined (\<open>None\<close>) if the callback is, or if it detached the bucket being walked.
\<close>

definition all_index :: "index list" where
  "all_index = map of_nat [0..<16]"

function bucket_each_slot ::
  "('s \<Rightarrow> 'v bucket) \<Rightarrow> (u32 \<Rightarrow> 'v option \<Rightarrow> 's \<Rightarrow> (int \<times> 's) option) \<Rightarrow>
   nat \<Rightarrow> index list \<Rightarrow> index list \<Rightarrow> 's \<Rightarrow> (int \<times> 's) option" where
  "bucket_each_slot rdd cb 0 pre is s = Some (0, s)"
| "bucket_each_slot rdd cb (Suc n) pre [] s = Some (0, s)"
| "bucket_each_slot rdd cb (Suc n) pre (i # is) s =
     do { slot \<leftarrow> slot_at (rdd s) (pre @ [i]);
          (r, s1) \<leftarrow> (if sset slot then cb (skey slot) (sval slot) s else Some (0, s));
          if r < 0 then Some (-1, s1)
          else do { slot' \<leftarrow> slot_at (rdd s1) (pre @ [i]);
                    (r', s2) \<leftarrow> (if snext slot' \<noteq> None
                                 then bucket_each_slot rdd cb n (pre @ [i]) all_index s1
                                 else Some (0, s1));
                    if r' < 0 then Some (-1, s2)
                    else bucket_each_slot rdd cb (Suc n) pre is s2 } }"
  by pat_completeness auto
termination
  by (relation "measures [\<lambda>(rdd, cb, n, pre, is, s). n, \<lambda>(rdd, cb, n, pre, is, s). length is]")
     auto

definition patty_dict_each ::
  "('s \<Rightarrow> 'v bucket) \<Rightarrow> (u32 \<Rightarrow> 'v option \<Rightarrow> 's \<Rightarrow> (int \<times> 's) option) \<Rightarrow> 's \<Rightarrow> (int \<times> 's) option" where
  "patty_dict_each rdd cb s = bucket_each_slot rdd cb 8 [] all_index s"

text \<open>\<open>patty_dict_destroy\<close> frees the root only; the dictionary is gone afterwards.\<close>

section \<open>Invariant\<close>

text \<open>
  \<open>bucket_ok n c P b\<close>: \<open>b\<close> is a well-formed bucket of level \<open>c\<close> with \<open>n\<close> levels left.
  A slot that is not set points nowhere; the key of a set slot satisfies \<open>P\<close> (what the path
  to the bucket says of it) and has the slot's index as its nibble; the keys below a slot
  also differ from the slot's own key. Below the last level there is at most an unused bucket.
\<close>

fun bucket_ok :: "nat \<Rightarrow> nat \<Rightarrow> (u32 \<Rightarrow> bool) \<Rightarrow> 'v bucket \<Rightarrow> bool" where
  "bucket_ok 0 c P b = (\<forall>i. \<not> sset (b i) \<and> snext (b i) = None)"
| "bucket_ok (Suc n) c P b =
     (\<forall>i. if sset (b i)
          then P (skey (b i)) \<and> nibble c (skey (b i)) = i \<and>
               (case snext (b i) of
                  None \<Rightarrow> True
                | Some b' \<Rightarrow>
                    bucket_ok n (Suc c) (\<lambda>k. P k \<and> nibble c k = i \<and> k \<noteq> skey (b i)) b')
          else snext (b i) = None)"

definition dict_ok :: "'v bucket \<Rightarrow> bool" where
  "dict_ok d = bucket_ok 7 0 (\<lambda>_. True) d"

lemma zero_slot_simps [simp]:
  "skey zero_slot = 0" "sval zero_slot = None" "\<not> sset zero_slot" "snext zero_slot = None"
  by (simp_all add: zero_slot_def)

lemma patty_dict_new_apply [simp]: "patty_dict_new i = zero_slot"
  by (simp add: patty_dict_new_def)

lemma bucket_ok_new [simp]: "bucket_ok n c P patty_dict_new"
  by (cases n) auto

lemma dict_ok_new [simp]: "dict_ok patty_dict_new"
  by (simp add: dict_ok_def)

lemma bucket_okD:
  assumes "bucket_ok (Suc n) c P b" and "sset (b i)"
  shows "P (skey (b i))" and "nibble c (skey (b i)) = i"
    and "snext (b i) = Some b' \<Longrightarrow> bucket_ok n (Suc c) (\<lambda>k. P k \<and> nibble c k = i \<and> k \<noteq> skey (b i)) b'"
  using assms by (auto dest!: spec [where x = i] split: option.splits)

lemma bucket_ok_unset: "bucket_ok n c P b \<Longrightarrow> \<not> sset (b i) \<Longrightarrow> snext (b i) = None"
  by (cases n) (auto dest: spec [where x = i])

text \<open>Replacing one slot keeps a bucket well-formed if the new slot is.\<close>

lemma bucket_ok_upd:
  assumes "bucket_ok (Suc n) c P b"
    and "st \<Longrightarrow> P k \<and> nibble c k = i"
    and "\<not> st \<Longrightarrow> nx = None"
    and "\<And>b'. st \<Longrightarrow> nx = Some b' \<Longrightarrow> bucket_ok n (Suc c) (\<lambda>k'. P k' \<and> nibble c k' = i \<and> k' \<noteq> k) b'"
  shows "bucket_ok (Suc n) c P (b(i := Slot k v st nx))"
  using assms by (auto split: option.splits)

section \<open>Lookup\<close>

text \<open>The value at a key, by direct recursion: what \<open>patty_dict_get\<close> computes.\<close>

fun get_from :: "nat \<Rightarrow> nat \<Rightarrow> 'v bucket \<Rightarrow> u32 \<Rightarrow> 'v slot option" where
  "get_from 0 c b key = None"
| "get_from (Suc n) c b key =
     (let slot = b (nibble c key) in
      if \<not> sset slot then None
      else if skey slot = key then Some slot
      else (case snext slot of None \<Rightarrow> None | Some b' \<Rightarrow> get_from n (Suc c) b' key))"

lemma slot_find_from_Nil: "slot_find_from n c b key = Some p \<Longrightarrow> p \<noteq> []"
  by (cases n) (auto simp: Let_def split: if_splits option.splits)

lemma slot_at_Cons: "p \<noteq> [] \<Longrightarrow>
  slot_at b (i # p) = (case snext (b i) of None \<Rightarrow> None | Some b' \<Rightarrow> slot_at b' p)"
  by (cases p) auto

lemma slot_put_Cons: "p \<noteq> [] \<Longrightarrow>
  slot_put b (i # p) s = b(i := Slot (skey (b i)) (sval (b i)) (sset (b i))
     (map_option (\<lambda>b'. slot_put b' p s) (snext (b i))))"
  by (cases p; cases "b i") auto

lemma get_from_find:
  "get_from n c b key = (case slot_find_from n c b key of None \<Rightarrow> None | Some p \<Rightarrow> slot_at b p)"
proof (induction n arbitrary: c b)
  case (Suc n)
  then show ?case
    by (auto simp: Let_def slot_at_Cons slot_find_from_Nil split: option.splits)
qed simp

lemma patty_dict_get_from: "patty_dict_get d key = Option.bind (get_from 7 0 d key) sval"
  by (auto simp: patty_dict_get_def patty_dict_slot_find_def get_from_find split: option.splits)

lemma get_from_key: "get_from n c b key = Some s \<Longrightarrow> sset s \<and> skey s = key"
  by (induction n arbitrary: c b) (auto simp: Let_def split: if_splits option.splits)

lemma get_from_new [simp]: "get_from n c patty_dict_new key = None"
  by (cases n) auto

text \<open>The bucket below a slot, or the fresh one that takes its place.\<close>

definition below :: "'v slot \<Rightarrow> 'v bucket" where
  "below s = (case snext s of None \<Rightarrow> patty_dict_new | Some b' \<Rightarrow> b')"

lemma below_Some [simp]: "below (Slot k x st (Some b')) = b'"
  by (simp add: below_def)

lemma get_from_Suc:
  "get_from (Suc n) c b key =
     (let slot = b (nibble c key) in
      if \<not> sset slot then None
      else if skey slot = key then Some slot
      else get_from n (Suc c) (below slot) key)"
  by (simp add: Let_def below_def split: option.splits)

lemma bucket_ok_below:
  "bucket_ok (Suc n) c P b \<Longrightarrow> sset (b i) \<Longrightarrow>
   bucket_ok n (Suc c) (\<lambda>k. P k \<and> nibble c k = i \<and> k \<noteq> skey (b i)) (below (b i))"
  by (auto simp: below_def split: option.splits intro: bucket_okD)

lemma patty_dict_get_new [simp]: "patty_dict_get patty_dict_new key = None"
  by (simp add: patty_dict_get_from)

section \<open>Insertion\<close>

text \<open>The four ways one level of the insertion loop can go.\<close>

lemma dict_set_from_empty:
  "\<not> sset (b (nibble c key)) \<Longrightarrow>
   dict_set_from (Suc n) c m b key v =
     (v, b(nibble c key := Slot key v True (snext (b (nibble c key)))))"
  by (cases "b (nibble c key)") (simp add: Let_def)

lemma dict_set_from_hit:
  "sset (b (nibble c key)) \<Longrightarrow> skey (b (nibble c key)) = key \<Longrightarrow>
   dict_set_from (Suc n) c m b key v =
     (v, b(nibble c key := Slot key v True (snext (b (nibble c key)))))"
  by (cases "b (nibble c key)") (simp add: Let_def)

lemma dict_set_from_nomem:
  "sset (b (nibble c key)) \<Longrightarrow> skey (b (nibble c key)) \<noteq> key \<Longrightarrow>
   snext (b (nibble c key)) = None \<Longrightarrow> \<not> m \<Longrightarrow>
   dict_set_from (Suc n) c m b key v = (None, b)"
  by (cases "b (nibble c key)") (simp add: Let_def)

lemma dict_set_from_down:
  assumes "sset (b (nibble c key))" and "skey (b (nibble c key)) \<noteq> key"
    and "snext (b (nibble c key)) \<noteq> None \<or> m"
  shows "dict_set_from (Suc n) c m b key v =
    (case dict_set_from n (Suc c) m (below (b (nibble c key))) key v of
       (r, b'') \<Rightarrow> (r, b(nibble c key :=
          Slot (skey (b (nibble c key))) (sval (b (nibble c key))) True (Some b''))))"
  using assms by (cases "b (nibble c key)") (auto simp: Let_def below_def split: option.splits)

lemma dict_set_from_Suc_cases:
  obtains (empty) "\<not> sset (b (nibble c key))"
  | (hit) "sset (b (nibble c key))" "skey (b (nibble c key)) = key"
  | (nomem) "sset (b (nibble c key))" "skey (b (nibble c key)) \<noteq> key"
      "snext (b (nibble c key)) = None" "\<not> m"
  | (down) "sset (b (nibble c key))" "skey (b (nibble c key)) \<noteq> key"
      "snext (b (nibble c key)) \<noteq> None \<or> m"
  by blast

lemmas dict_set_from_Suc =
  dict_set_from_empty dict_set_from_hit dict_set_from_nomem dict_set_from_down

lemma dict_set_from_ok:
  assumes "bucket_ok n c P b" and "P key"
  shows "bucket_ok n c P (snd (dict_set_from n c m b key v))"
  using assms
proof (induction n arbitrary: c P b)
  case (Suc n)
  let ?s = "b (nibble c key)"
  show ?case
  proof (cases rule: dict_set_from_Suc_cases [where b = b and c = c and key = key and m = m])
    case empty
    with Suc.prems show ?thesis
      by (auto simp: dict_set_from_Suc bucket_ok_unset [OF Suc.prems(1)]
          simp del: bucket_ok.simps dict_set_from.simps fun_upd_apply intro!: bucket_ok_upd)
  next
    case hit
    with Suc.prems show ?thesis
      by (auto simp: dict_set_from_Suc simp del: bucket_ok.simps dict_set_from.simps fun_upd_apply
          intro!: bucket_ok_upd dest: bucket_okD(3) [OF Suc.prems(1)])
  next
    case nomem
    with Suc.prems show ?thesis
      by (simp add: dict_set_from_Suc del: bucket_ok.simps dict_set_from.simps)
  next
    case down
    have "bucket_ok n (Suc c) (\<lambda>k. P k \<and> nibble c k = nibble c key \<and> k \<noteq> skey ?s)
        (snd (dict_set_from n (Suc c) m (below ?s) key v))"
      using Suc.prems down by (intro Suc.IH bucket_ok_below) auto
    with Suc.prems down show ?thesis
      by (auto simp: dict_set_from_Suc bucket_okD [OF Suc.prems(1)] split: prod.splits
          simp del: bucket_ok.simps dict_set_from.simps fun_upd_apply intro!: bucket_ok_upd)
  qed
qed simp

text \<open>A later lookup of the stored key finds the value, of any other key what was there.\<close>

lemma get_from_set_same:
  assumes "fst (dict_set_from n c m b key (Some v)) = Some r"
  shows "r = v \<and> (\<exists>s. get_from n c (snd (dict_set_from n c m b key (Some v))) key = Some s \<and> sval s = Some v)"
  using assms
proof (induction n arbitrary: c b)
  case (Suc n)
  show ?case
    using Suc.prems Suc.IH [of "Suc c" "below (b (nibble c key))"]
    by (cases rule: dict_set_from_Suc_cases [where b = b and c = c and key = key and m = m])
       (auto simp: dict_set_from_Suc get_from_Suc Let_def split: prod.splits
        simp del: dict_set_from.simps get_from.simps)
qed simp

lemma get_from_set_other:
  assumes "bucket_ok n c P b" and "key' \<noteq> key"
  shows "map_option sval (get_from n c (snd (dict_set_from n c m b key v)) key')
       = map_option sval (get_from n c b key')"
  using assms(1)
proof (induction n arbitrary: c b P)
  case (Suc n)
  let ?s = "b (nibble c key)"
  have ih: "map_option sval (get_from n (Suc c) (snd (dict_set_from n (Suc c) m (below ?s) key v)) key')
      = map_option sval (get_from n (Suc c) (below ?s) key')" if "sset ?s"
    using Suc.IH [OF bucket_ok_below [OF Suc.prems that]] .
  have unset: "below ?s = patty_dict_new" if "\<not> sset ?s"
    using bucket_ok_unset [OF Suc.prems that] by (simp add: below_def)
  show ?case
    using ih unset assms(2)
    by (cases rule: dict_set_from_Suc_cases [where b = b and c = c and key = key and m = m])
       (auto simp: dict_set_from_Suc get_from_Suc Let_def below_def split: prod.splits option.splits
        simp del: dict_set_from.simps get_from.simps)
qed simp

lemma get_from_set_fail:
  assumes "fst (dict_set_from n c m b key (Some v)) = None"
  shows "get_from n c (snd (dict_set_from n c m b key (Some v))) key = get_from n c b key"
  using assms
proof (induction n arbitrary: c b)
  case (Suc n)
  show ?case
    using Suc.prems Suc.IH [of "Suc c" "below (b (nibble c key))"]
    by (cases rule: dict_set_from_Suc_cases [where b = b and c = c and key = key and m = m])
       (auto simp: dict_set_from_Suc get_from_Suc Let_def split: prod.splits
        simp del: dict_set_from.simps get_from.simps)
qed simp

section \<open>The contract of insertion and lookup\<close>

lemma bind_map_option: "Option.bind x f = Option.bind (map_option f x) id"
  by (cases x) auto

lemma dict_set_ok [simp]: "dict_ok d \<Longrightarrow> dict_ok (snd (patty_dict_set m d key v))"
  by (simp add: dict_ok_def patty_dict_set_def dict_set_from_ok del: bucket_ok.simps)

lemma dict_set_same:
  assumes "fst (patty_dict_set m d key (Some v)) = Some r"
  shows "r = v \<and> patty_dict_get (snd (patty_dict_set m d key (Some v))) key = Some v"
  using get_from_set_same [OF assms [unfolded patty_dict_set_def]]
  by (auto simp: patty_dict_get_from patty_dict_set_def)

lemma dict_set_other:
  assumes "dict_ok d" and "key' \<noteq> key"
  shows "patty_dict_get (snd (patty_dict_set m d key v)) key' = patty_dict_get d key'"
  using get_from_set_other [OF assms [unfolded dict_ok_def], of m v]
  by (simp add: patty_dict_get_from patty_dict_set_def bind_map_option [of _ sval])

lemma dict_set_fail:
  assumes "dict_ok d" and "fst (patty_dict_set m d key (Some v)) = None"
  shows "patty_dict_get (snd (patty_dict_set m d key (Some v))) key' = patty_dict_get d key'"
proof (cases "key' = key")
  case True
  with get_from_set_fail [OF assms(2) [unfolded patty_dict_set_def]] show ?thesis
    by (simp add: patty_dict_get_from patty_dict_set_def)
next
  case False
  with assms(1) show ?thesis by (rule dict_set_other)
qed

section \<open>Deletion\<close>

text \<open>
  The path a key takes. Deleting a key clears the slot at the end of its path, and with it
  the pointer to everything stored below that slot.
\<close>

lemma slot_find_from_Suc:
  "slot_find_from (Suc n) c b key =
     (let i = nibble c key; slot = b i in
      if \<not> sset slot then None
      else if skey slot = key then Some [i]
      else map_option ((#) i) (slot_find_from n (Suc c) (below slot) key))"
proof -
  have "slot_find_from n (Suc c) patty_dict_new key = None" by (cases n) auto
  then show ?thesis by (auto simp: Let_def below_def split: option.splits)
qed

lemma slot_put_ok:
  "bucket_ok n c P b \<Longrightarrow> slot_find_from n c b key = Some p \<Longrightarrow> bucket_ok n c P (slot_put b p zero_slot)"
proof (induction n arbitrary: c P b p)
  case (Suc n)
  let ?s = "b (nibble c key)"
  from Suc.prems(2) have set: "sset ?s" by (auto simp: Let_def split: if_splits)
  show ?case
  proof (cases "skey ?s = key")
    case True
    with Suc.prems set show ?thesis
      by (auto simp: Let_def zero_slot_def simp del: bucket_ok.simps fun_upd_apply intro!: bucket_ok_upd)
  next
    case False
    with Suc.prems(2) set obtain q b' where p: "p = nibble c key # q"
      and q: "slot_find_from n (Suc c) b' key = Some q" and b': "snext ?s = Some b'"
      by (auto simp: Let_def split: option.splits)
    have "bucket_ok n (Suc c) (\<lambda>k. P k \<and> nibble c k = nibble c key \<and> k \<noteq> skey ?s) (slot_put b' q zero_slot)"
      using bucket_okD(3) [OF Suc.prems(1) set b'] q by (rule Suc.IH)
    with p q b' set Suc.prems(1) show ?thesis
      by (auto simp: slot_put_Cons slot_find_from_Nil bucket_okD [OF Suc.prems(1)]
          simp del: bucket_ok.simps fun_upd_apply intro!: bucket_ok_upd)
  qed
qed simp

text \<open>\<open>is_below d key key'\<close>: the slot of \<open>key'\<close> is that of \<open>key\<close> or lies under it.\<close>

fun path_prefix :: "'a list \<Rightarrow> 'a list \<Rightarrow> bool" where
  "path_prefix [] q = True"
| "path_prefix (x # p) (y # q) = (x = y \<and> path_prefix p q)"
| "path_prefix (x # p) [] = False"

definition is_below :: "'v bucket \<Rightarrow> u32 \<Rightarrow> u32 \<Rightarrow> bool" where
  "is_below d key key' =
     (case (patty_dict_slot_find d key, patty_dict_slot_find d key') of
        (Some p, Some q) \<Rightarrow> path_prefix p q
      | _ \<Rightarrow> False)"

lemma path_prefix_Nil [simp]: "path_prefix p [] \<longleftrightarrow> p = []"
  by (cases p) auto

lemma get_from_None: "slot_find_from n c b key = None \<Longrightarrow> get_from n c b key = None"
  by (simp add: get_from_find)

lemma get_from_delete:
  assumes "slot_find_from n c b key = Some p"
  shows "map_option sval (get_from n c (slot_put b p zero_slot) key') =
     (case slot_find_from n c b key' of
        None \<Rightarrow> None
      | Some q \<Rightarrow> if path_prefix p q then None else map_option sval (get_from n c b key'))"
  using assms
proof (induction n arbitrary: c b p)
  case (Suc n)
  let ?s = "b (nibble c key)"
  from Suc.prems have set: "sset ?s" by (auto simp: Let_def split: if_splits)
  show ?case
  proof (cases "skey ?s = key")
    case True
    with Suc.prems set have "p = [nibble c key]" by (auto simp: Let_def)
    then show ?thesis
      by (auto simp: get_from_Suc slot_find_from_Suc Let_def get_from_find slot_at_Cons
          slot_find_from_Nil split: option.splits simp del: get_from.simps slot_find_from.simps)
  next
    case False
    with Suc.prems set obtain q b' where p: "p = nibble c key # q"
      and q: "slot_find_from n (Suc c) b' key = Some q" and b': "snext ?s = Some b'"
      by (auto simp: Let_def split: option.splits)
    have q0: "q \<noteq> []" using q by (rule slot_find_from_Nil)
    have below: "below ?s = b'" using b' by (simp add: below_def)
    show ?thesis
    proof (cases "nibble c key' = nibble c key")
      case True
      with q0 b' p set False below Suc.IH [OF q] show ?thesis
        by (auto simp: get_from_Suc slot_find_from_Suc Let_def slot_put_Cons get_from_None
            split: option.splits simp del: get_from.simps slot_find_from.simps)
    next
      case False
      with q0 p show ?thesis
        by (auto simp: get_from_Suc slot_find_from_Suc Let_def slot_put_Cons get_from_None
            split: option.splits simp del: get_from.simps slot_find_from.simps)
    qed
  qed
qed simp

lemma patty_dict_get_delete:
  "patty_dict_get (snd (patty_dict_delete d key)) key' =
     (if is_below d key key' then None else patty_dict_get d key')"
proof (cases "patty_dict_slot_find d key")
  case None
  then show ?thesis by (simp add: patty_dict_delete_def is_below_def)
next
  case (Some p)
  then have "slot_find_from 7 0 d key = Some p" by (simp add: patty_dict_slot_find_def)
  from get_from_delete [OF this, of key'] Some show ?thesis
    by (auto simp: patty_dict_delete_def is_below_def patty_dict_get_from bind_map_option [of _ sval]
        patty_dict_slot_find_def get_from_find split: option.splits)
qed

lemma dict_delete_ok [simp]: "dict_ok d \<Longrightarrow> dict_ok (snd (patty_dict_delete d key))"
  by (auto simp: dict_ok_def patty_dict_delete_def patty_dict_slot_find_def slot_put_ok
      simp del: bucket_ok.simps split: option.splits)

lemma path_prefix_refl [simp]: "path_prefix p p"
  by (induction p) auto

lemma patty_dict_get_delete_same [simp]: "patty_dict_get (snd (patty_dict_delete d key)) key = None"
  by (simp add: patty_dict_get_delete is_below_def patty_dict_get_def [of d] split: option.splits)

lemma dict_delete_found: "fst (patty_dict_delete d key) = 0 \<longleftrightarrow> patty_dict_slot_find d key \<noteq> None"
  by (auto simp: patty_dict_delete_def split: option.splits)

section \<open>The contract the clients use\<close>

text \<open>
  What the rest of the program relies on when it keeps pointers in a dictionary: a successful
  \<open>store\<close> is a map update, a failed one changes nothing, a \<open>delete\<close> removes the key and
  adds nothing. It is not promised that a \<open>delete\<close> keeps the other keys: this code does not.
\<close>

locale key_store =
  fixes empty :: "'d"
    and lookup :: "'d \<Rightarrow> u32 \<Rightarrow> 'v option"
    and store :: "bool \<Rightarrow> 'd \<Rightarrow> u32 \<Rightarrow> 'v option \<Rightarrow> 'v option \<times> 'd"
    and delete :: "'d \<Rightarrow> u32 \<Rightarrow> int \<times> 'd"
    and invar :: "'d \<Rightarrow> bool"
  assumes invar_empty: "invar empty"
    and invar_store: "invar d \<Longrightarrow> invar (snd (store m d k p))"
    and invar_delete: "invar d \<Longrightarrow> invar (snd (delete d k))"
    and lookup_empty: "lookup empty k = None"
    and store_same: "fst (store m d k (Some v)) = Some r \<Longrightarrow>
          r = v \<and> lookup (snd (store m d k (Some v))) k = Some v"
    and store_other: "invar d \<Longrightarrow> k' \<noteq> k \<Longrightarrow> lookup (snd (store m d k p)) k' = lookup d k'"
    and store_fail: "invar d \<Longrightarrow> fst (store m d k (Some v)) = None \<Longrightarrow>
          lookup (snd (store m d k (Some v))) k' = lookup d k'"
    and delete_same: "lookup (snd (delete d k)) k = None"
    and delete_le: "lookup (snd (delete d k)) \<subseteq>\<^sub>m lookup d"
begin

lemma store_update:
  assumes "invar d" and "fst (store m d k (Some v)) = Some r"
  shows "lookup (snd (store m d k (Some v))) = (lookup d)(k \<mapsto> v)"
  using store_same [OF assms(2)] store_other [OF assms(1)] by auto

lemma store_unchanged:
  assumes "invar d" and "fst (store m d k (Some v)) = None"
  shows "lookup (snd (store m d k (Some v))) = lookup d"
  using store_fail [OF assms] by auto

lemma store_dom:
  assumes "invar d"
  shows "dom (lookup (snd (store m d k (Some v)))) \<subseteq> insert k (dom (lookup d))"
proof (cases "fst (store m d k (Some v))")
  case None
  then show ?thesis using store_unchanged [OF assms] by auto
next
  case (Some r)
  then show ?thesis using store_update [OF assms] by auto
qed

lemma store_range:
  assumes "invar d" and "lookup (snd (store m d k (Some v))) k' = Some x"
  shows "(k' = k \<and> x = v) \<or> lookup d k' = Some x"
proof (cases "fst (store m d k (Some v))")
  case None
  then show ?thesis using store_unchanged [OF assms(1)] assms(2) by simp
next
  case (Some r)
  then show ?thesis using store_update [OF assms(1)] assms(2) by (auto split: if_splits)
qed

lemma delete_range: "lookup (snd (delete d k)) k' = Some x \<Longrightarrow> k' \<noteq> k \<and> lookup d k' = Some x"
  using delete_same [of d k] delete_le [of d k] by (force simp: map_le_def dom_def)

text \<open>A property of all stored values is kept by both operations.\<close>

lemma store_all:
  assumes "invar d" and "\<forall>k' x. lookup d k' = Some x \<longrightarrow> Q k' x" and "Q k v"
  shows "\<forall>k' x. lookup (snd (store m d k (Some v))) k' = Some x \<longrightarrow> Q k' x"
  using store_range [OF assms(1)] assms(2,3) by blast

lemma delete_all:
  assumes "\<forall>k' x. lookup d k' = Some x \<longrightarrow> Q k' x"
  shows "\<forall>k' x. lookup (snd (delete d k)) k' = Some x \<longrightarrow> k' \<noteq> k \<and> Q k' x"
  using delete_range assms by blast

end

lemma patty_dict_delete_le: "patty_dict_get (snd (patty_dict_delete d k)) \<subseteq>\<^sub>m patty_dict_get d"
  by (auto simp: map_le_def patty_dict_get_delete split: if_splits)

interpretation dict: key_store patty_dict_new patty_dict_get patty_dict_set patty_dict_delete dict_ok
  by unfold_locales
     (auto simp: dict_set_other dict_set_fail patty_dict_delete_le dest: dict_set_same)

section \<open>Iteration\<close>

text \<open>The entries of a bucket in the order the loop visits them.\<close>

fun entries_from :: "nat \<Rightarrow> 'v bucket \<Rightarrow> index list \<Rightarrow> (u32 \<times> 'v option) list" where
  "entries_from 0 b is = []"
| "entries_from (Suc n) b [] = []"
| "entries_from (Suc n) b (i # is) =
     (if sset (b i) then [(skey (b i), sval (b i))] else []) @
     (case snext (b i) of None \<Rightarrow> [] | Some b' \<Rightarrow> entries_from n b' all_index) @
     entries_from (Suc n) b is"

definition entries :: "'v bucket \<Rightarrow> (u32 \<times> 'v option) list" where
  "entries d = entries_from 8 d all_index"

text \<open>The bucket at a path.\<close>

fun bucket_at :: "'v bucket \<Rightarrow> index list \<Rightarrow> 'v bucket option" where
  "bucket_at b [] = Some b"
| "bucket_at b (i # p) = (case snext (b i) of None \<Rightarrow> None | Some b' \<Rightarrow> bucket_at b' p)"

lemma bucket_at_snoc:
  "bucket_at b (p @ [i]) = (case bucket_at b p of None \<Rightarrow> None | Some b' \<Rightarrow> snext (b' i))"
  by (induction b p rule: bucket_at.induct) (auto split: option.splits)

lemma slot_at_snoc: "slot_at b (p @ [i]) = map_option (\<lambda>b'. b' i) (bucket_at b p)"
  by (induction b p rule: bucket_at.induct)
     (auto simp: slot_at_Cons split: option.splits)

text \<open>
  With a callback that leaves the dictionary alone and never fails, the iteration is a fold
  over the entries.
\<close>

lemma bucket_each_slot_fold:
  assumes "\<And>k v s. cb k v s = Some (0, f k v s)" and "\<And>k v s. rdd (f k v s) = rdd s"
    and "bucket_at (rdd s) pre = Some b"
  shows "bucket_each_slot rdd cb n pre is s
       = Some (0, fold (\<lambda>(k, v). f k v) (entries_from n b is) s)
    \<and> rdd (fold (\<lambda>(k, v). f k v) (entries_from n b is) s) = rdd s"
  using assms(3)
proof (induction n b "is" arbitrary: pre s rule: entries_from.induct)
  case (3 n b i "is")
  define s1 where "s1 = (if sset (b i) then f (skey (b i)) (sval (b i)) s else s)"
  have s1: "rdd s1 = rdd s" by (simp add: s1_def assms(2))
  have at: "slot_at (rdd s) (pre @ [i]) = Some (b i)"
    using "3.prems" by (simp add: slot_at_snoc)
  define es where "es = (case snext (b i) of None \<Rightarrow> [] | Some b' \<Rightarrow> entries_from n b' all_index)"
  define s2 where "s2 = fold (\<lambda>(k, v). f k v) es s1"
  have below: "(if snext (b i) \<noteq> None then bucket_each_slot rdd cb n (pre @ [i]) all_index s1
      else Some (0, s1)) = Some (0, s2) \<and> rdd s2 = rdd s1"
  proof (cases "snext (b i)")
    case (Some b')
    then have "bucket_at (rdd s1) (pre @ [i]) = Some b'"
      using "3.prems" by (simp add: bucket_at_snoc s1)
    from "3.IH"(1) [OF Some this] Some show ?thesis
      by (simp add: s2_def es_def)
  qed (simp add: s2_def es_def)
  have ih: "bucket_at (rdd s2) pre = Some b" using "3.prems" below s1 by simp
  have eq: "fold (\<lambda>(k, v). f k v) (entries_from (Suc n) b (i # is)) s
      = fold (\<lambda>(k, v). f k v) (entries_from (Suc n) b is) s2"
    by (simp add: s2_def s1_def es_def)
  have cb: "(if sset (b i) then cb (skey (b i)) (sval (b i)) s else Some (0, s)) = Some (0, s1)"
    by (simp add: s1_def assms(1))
  show ?case
    using "3.IH"(2) [OF ih] below at s1 by (simp add: cb eq del: entries_from.simps)
qed simp_all

lemma patty_dict_each_fold:
  assumes "\<And>k v s. cb k v s = Some (0, f k v s)" and "\<And>k v s. rdd (f k v s) = rdd s"
  shows "patty_dict_each rdd cb s = Some (0, fold (\<lambda>(k, v). f k v) (entries (rdd s)) s)"
  using bucket_each_slot_fold [of cb f rdd s "[]" "rdd s" 8 all_index] assms
  by (simp add: patty_dict_each_def entries_def)

text \<open>
  With a callback that does not touch the dictionary, the iteration visits the entries up to
  the first failure.
\<close>

fun entries_until :: "(u32 \<Rightarrow> 'v option \<Rightarrow> 's \<Rightarrow> (int \<times> 's) option) \<Rightarrow> (u32 \<times> 'v option) list \<Rightarrow> 's \<Rightarrow> (int \<times> 's) option" where
  "entries_until cb [] s = Some (0, s)"
| "entries_until cb ((k, v) # es) s =
     do { (r, s) \<leftarrow> cb k v s; if r < 0 then Some (-1, s) else entries_until cb es s }"

lemma entries_until_append:
  "entries_until cb (xs @ ys) s =
     do { (r, s) \<leftarrow> entries_until cb xs s; if r < 0 then Some (-1, s) else entries_until cb ys s }"
proof (induction xs arbitrary: s)
  case (Cons x xs)
  obtain k v where "x = (k, v)" by (cases x)
  with Cons show ?case by (cases "cb k v s") auto
qed simp

lemma entries_until_result: "entries_until cb es s = Some (r, s') \<Longrightarrow> r = 0 \<or> r = -1"
  by (induction es arbitrary: s) (auto simp: bind_eq_Some_conv split: if_splits)

lemma bucket_each_slot_until:
  "bucket_at d pre = Some b \<Longrightarrow>
   bucket_each_slot (\<lambda>_. d) cb n pre is s = entries_until cb (entries_from n b is) s"
proof (induction n b "is" arbitrary: pre s rule: entries_from.induct)
  case (3 n b i "is")
  have at: "slot_at d (pre @ [i]) = Some (b i)"
    using "3.prems" by (simp add: slot_at_snoc)
  define es where "es = (case snext (b i) of None \<Rightarrow> [] | Some b' \<Rightarrow> entries_from n b' all_index)"
  have below: "(if snext (b i) \<noteq> None then bucket_each_slot (\<lambda>_. d) cb n (pre @ [i]) all_index s1
      else Some (0, s1)) = entries_until cb es s1" for s1
  proof (cases "snext (b i)")
    case (Some b')
    then have "bucket_at d (pre @ [i]) = Some b'"
      using "3.prems" by (simp add: bucket_at_snoc)
    from "3.IH"(1) [OF Some this] Some show ?thesis by (simp add: es_def)
  qed (simp add: es_def)
  have one: "(if sset (b i) then cb (skey (b i)) (sval (b i)) s else Some (0, s))
      = Some x \<Longrightarrow> entries_until cb (if sset (b i) then [(skey (b i), sval (b i))] else []) s
      = Some (if fst x < 0 then -1 else 0, snd x)" for x
    by (auto split: if_splits prod.splits)
  show ?case
  proof (cases "if sset (b i) then cb (skey (b i)) (sval (b i)) s else Some (0, s)")
    case None
    then show ?thesis
      using at by (auto simp: entries_until_append split: if_splits simp del: entries_from.simps(1,2))
  next
    case (Some x)
    obtain r s1 where x: "x = (r, s1)" by (cases x)
    have "bucket_each_slot (\<lambda>_. d) cb (Suc n) pre (i # is) s =
      (if r < 0 then Some (-1, s1)
       else do { (r', s2) \<leftarrow> entries_until cb es s1;
                 if r' < 0 then Some (-1, s2) else bucket_each_slot (\<lambda>_. d) cb (Suc n) pre is s2 })"
      using Some x at below by simp
    also have "\<dots> = (if r < 0 then Some (-1, s1)
       else do { (r', s2) \<leftarrow> entries_until cb es s1;
                 if r' < 0 then Some (-1, s2) else entries_until cb (entries_from (Suc n) b is) s2 })"
      unfolding "3.IH"(2) [OF "3.prems"] ..
    also have "\<dots> = entries_until cb (entries_from (Suc n) b (i # is)) s"
      using one [OF Some] x
      by (simp add: entries_until_append es_def [symmetric] del: entries_from.simps(1,2))
    finally show ?thesis .
  qed
qed simp_all

lemma patty_dict_each_until:
  "patty_dict_each (\<lambda>_. d) cb s = entries_until cb (entries d) s"
  using bucket_each_slot_until [of d "[]" d cb 8 all_index s] by (simp add: patty_dict_each_def entries_def)

text \<open>The entries are the stored bindings: each key once, with the value a lookup finds.\<close>

lemma all_index_set: "set all_index = UNIV"
proof -
  have "i \<in> set all_index" for i :: index
    unfolding all_index_def using unsigned_less [of i, where 'a = nat]
    by (auto simp: image_iff intro!: bexI [where x = "unat i"])
  then show ?thesis by auto
qed

lemma all_index_distinct: "distinct all_index"
  by (auto simp: all_index_def distinct_map inj_on_def word_of_nat_eq_iff take_bit_eq_mod)

lemma get_from_P: "bucket_ok n c P b \<Longrightarrow> get_from n c b k = Some s \<Longrightarrow> P k"
proof (induction n arbitrary: c P b)
  case (Suc n)
  from Suc.prems(2) have set: "sset (b (nibble c k))" by (auto simp: Let_def split: if_splits)
  show ?case
  proof (cases "skey (b (nibble c k)) = k")
    case True
    with bucket_okD(1) [OF Suc.prems(1) set] show ?thesis by simp
  next
    case False
    with Suc.prems(2) set have "get_from n (Suc c) (below (b (nibble c k))) k = Some s"
      by (simp add: get_from_Suc Let_def del: get_from.simps)
    with Suc.IH [OF bucket_ok_below [OF Suc.prems(1) set]] show ?thesis by blast
  qed
qed simp

text \<open>The entries one slot contributes.\<close>

definition slot_entries :: "nat \<Rightarrow> 'v slot \<Rightarrow> (u32 \<times> 'v option) list" where
  "slot_entries n s = (if sset s then [(skey s, sval s)] else []) @
     (case snext s of None \<Rightarrow> [] | Some b' \<Rightarrow> entries_from n b' all_index)"

lemma entries_from_concat:
  "entries_from (Suc n) b is = concat (map (\<lambda>i. slot_entries n (b i)) is)"
  by (induction "is") (auto simp: slot_entries_def split: option.splits)

lemma entries_from_unset: "\<forall>i. \<not> sset (b i) \<and> snext (b i) = None \<Longrightarrow> entries_from n b is = []"
  by (induction n b "is" rule: entries_from.induct) auto

lemma entries_from_mem:
  "bucket_ok n c P b \<Longrightarrow>
   (k, v) \<in> set (entries_from (Suc n) b is) \<longleftrightarrow>
   nibble c k \<in> set is \<and> (\<exists>s. get_from n c b k = Some s \<and> sval s = v)"
proof (induction n arbitrary: c P b "is")
  case 0
  then show ?case by (simp add: entries_from_unset del: entries_from.simps)
next
  case (Suc n)
  have slot: "(k, v) \<in> set (slot_entries (Suc n) (b i)) \<longleftrightarrow>
      nibble c k = i \<and> (\<exists>s. get_from (Suc n) c b k = Some s \<and> sval s = v)" for i
  proof (cases "sset (b i)")
    case False
    then show ?thesis using bucket_ok_unset [OF Suc.prems False]
      by (auto simp: slot_entries_def Let_def split: if_splits)
  next
    case True
    note ok = bucket_okD [OF Suc.prems True]
    have "(k, v) \<in> set (case snext (b i) of None \<Rightarrow> [] | Some b' \<Rightarrow> entries_from (Suc n) b' all_index)
        \<longleftrightarrow> (\<exists>b' s. snext (b i) = Some b' \<and> get_from n (Suc c) b' k = Some s \<and> sval s = v)"
      using Suc.IH [OF ok(3)]
      by (cases "snext (b i)") (simp_all add: all_index_set del: entries_from.simps)
    moreover have "nibble c k = i \<and> k \<noteq> skey (b i)"
      if "snext (b i) = Some b'" "get_from n (Suc c) b' k = Some s" for b' s
      using get_from_P [OF ok(3) [OF that(1)] that(2)] by simp
    ultimately show ?thesis using True ok(2)
      by (auto simp: slot_entries_def Let_def split: option.splits if_splits simp del: entries_from.simps)
         blast
  qed
  show ?case by (auto simp: entries_from_concat slot simp del: get_from.simps)
qed

lemma entries_from_distinct:
  "bucket_ok n c P b \<Longrightarrow> distinct is \<Longrightarrow> distinct (map fst (entries_from (Suc n) b is))"
proof (induction n arbitrary: c P b "is")
  case 0
  then show ?case by (simp add: entries_from_unset del: entries_from.simps)
next
  case (Suc n)
  have one: "distinct (map fst (slot_entries (Suc n) (b i)))" for i
  proof (cases "sset (b i)")
    case True
    note ok = bucket_okD [OF Suc.prems(1) True]
    show ?thesis
    proof (cases "snext (b i)")
      case (Some b')
      have "skey (b i) \<notin> fst ` set (entries_from (Suc n) b' all_index)"
        using entries_from_mem [OF ok(3) [OF Some]] get_from_P [OF ok(3) [OF Some]] by fastforce
      then show ?thesis
        using Suc.IH [OF ok(3) [OF Some] all_index_distinct] True Some
        by (simp add: slot_entries_def del: entries_from.simps)
    qed (simp add: slot_entries_def)
  next
    case False
    then show ?thesis using bucket_ok_unset [OF Suc.prems(1) False] by (simp add: slot_entries_def)
  qed
  have nib: "nibble c k = i" if "(k, v) \<in> set (slot_entries (Suc n) (b i))" for k v i
    using that entries_from_mem [OF Suc.prems(1), of k v "[i]"]
    by (simp add: entries_from_concat del: get_from.simps)
  show ?case
    using Suc.prems(2)
  proof (induction "is")
    case (Cons i "is")
    have "fst ` set (slot_entries (Suc n) (b i)) \<inter> fst ` set (entries_from (Suc (Suc n)) b is) = {}"
    proof (rule ccontr)
      assume "\<not> ?thesis"
      then obtain k v v' j where "(k, v) \<in> set (slot_entries (Suc n) (b i))"
        and "j \<in> set is" and "(k, v') \<in> set (slot_entries (Suc n) (b j))"
        by (fastforce simp: entries_from_concat simp del: entries_from.simps)
      with nib Cons.prems show False by (metis distinct.simps(2))
    qed
    with Cons one show ?case by (simp add: entries_from_concat del: entries_from.simps)
  qed simp
qed

lemma entries_spec:
  assumes "dict_ok d"
  shows "(k, v) \<in> set (entries d) \<longleftrightarrow> (\<exists>s. get_from 7 0 d k = Some s \<and> sval s = v)"
    and "distinct (map fst (entries d))"
  using entries_from_mem [OF assms [unfolded dict_ok_def], of k v all_index]
    entries_from_distinct [OF assms [unfolded dict_ok_def] all_index_distinct]
  by (simp_all add: entries_def all_index_set numeral_eq_Suc del: get_from.simps entries_from.simps)

text \<open>For a stored (non-NULL) value, an entry is exactly a key that \<open>patty_dict_get\<close> finds.\<close>

lemma entries_get:
  assumes "dict_ok d"
  shows "(k, Some x) \<in> set (entries d) \<longleftrightarrow> patty_dict_get d k = Some x"
  by (auto simp: entries_spec [OF assms] patty_dict_get_from bind_eq_Some_conv)

text \<open>A callback that changes the state, but not the dictionary in it, sees the entries as they are.\<close>

lemma bucket_each_slot_keeps:
  assumes cb: "\<And>k v s r s'. cb k v s = Some (r, s') \<Longrightarrow> rdd s = d \<Longrightarrow> rdd s' = d" and "rdd s = d"
  shows "bucket_each_slot rdd cb n pre is s = bucket_each_slot (\<lambda>_. d) cb n pre is s
    \<and> (\<forall>r s'. bucket_each_slot (\<lambda>_. d) cb n pre is s = Some (r, s') \<longrightarrow> rdd s' = d)"
  using assms(2)
proof (induction n arbitrary: pre "is" s)
  case (Suc n)
  note outer = Suc.IH
  from Suc.prems show ?case
  proof (induction "is" arbitrary: s)
    case (Cons i "is")
    show ?case
    proof (cases "slot_at d (pre @ [i])")
      case (Some slot)
      define one where "one = (if sset slot then cb (skey slot) (sval slot) s else Some (0, s))"
      show ?thesis
      proof (cases one)
        case None
        then show ?thesis using Some Cons.prems by (simp add: one_def)
      next
        case o: (Some x)
        obtain r s1 where x: "x = (r, s1)" by (cases x)
        have d1: "rdd s1 = d" using o x cb Cons.prems by (auto simp: one_def split: if_splits)
        let ?in = "\<lambda>rdd. if snext slot \<noteq> None then bucket_each_slot rdd cb n (pre @ [i]) all_index s1 else Some (0, s1)"
        have inn: "?in rdd = ?in (\<lambda>_. d)" "\<And>r s'. ?in (\<lambda>_. d) = Some (r, s') \<Longrightarrow> rdd s' = d"
        proof -
          note o1 = outer [OF d1, of "pre @ [i]" all_index]
          show "?in rdd = ?in (\<lambda>_. d)" by (simp only: o1 [THEN conjunct1])
          show "rdd s' = d" if "?in (\<lambda>_. d) = Some (r, s')" for r s'
            using o1 [THEN conjunct2, rule_format, of r s'] that d1 by (cases "snext slot = None") simp_all
        qed
        show ?thesis
        proof (cases "?in (\<lambda>_. d)")
          case None
          then show ?thesis using Some o x Cons.prems d1 inn(1) by (simp add: one_def)
        next
          case s2: (Some y)
          obtain r' s2 where y: "y = (r', s2)" by (cases y)
          have d2: "rdd s2 = d" using inn(2) s2 y by simp
          then show ?thesis using Some o x Cons.prems d1 inn(1) s2 y Cons.IH [OF d2] by (simp add: one_def)
        qed
      qed
    qed (use Cons.prems in simp)
  qed simp
qed simp

lemma patty_dict_each_keeps:
  assumes "\<And>k v s r s'. cb k v s = Some (r, s') \<Longrightarrow> rdd s' = rdd s"
  shows "patty_dict_each rdd cb s = entries_until cb (entries (rdd s)) s"
  using bucket_each_slot_keeps [of cb rdd "rdd s" s 8 "[]" all_index] assms
  by (simp add: patty_dict_each_def patty_dict_each_until [symmetric])

text \<open>No entry is NULL.\<close>

definition no_null :: "'v bucket \<Rightarrow> bool" where
  "no_null d \<longleftrightarrow> (\<forall>k. map_option sval (get_from 7 0 d k) \<noteq> Some None)"

lemma no_null_new [simp]: "no_null patty_dict_new"
  by (simp add: no_null_def)

lemma no_null_set:
  assumes "dict_ok d" and "no_null d"
  shows "no_null (snd (patty_dict_set m d key (Some v)))"
  unfolding no_null_def
proof
  fix k
  let ?d = "snd (dict_set_from 7 0 m d key (Some v))"
  have "map_option sval (get_from 7 0 ?d k) \<noteq> Some None"
  proof (cases "k = key")
    case True
    show ?thesis
    proof (cases "fst (dict_set_from 7 0 m d key (Some v))")
      case None
      then show ?thesis using get_from_set_fail [OF None] assms(2) True by (simp add: no_null_def del: get_from.simps)
    next
      case (Some r)
      from get_from_set_same [OF this] show ?thesis using True by auto
    qed
  next
    case False
    then show ?thesis
      using get_from_set_other [OF assms(1) [unfolded dict_ok_def] False, of m "Some v"] assms(2)
      by (simp add: no_null_def del: get_from.simps)
  qed
  then show "map_option sval (get_from 7 0 (snd (patty_dict_set m d key (Some v))) k) \<noteq> Some None"
    by (simp add: patty_dict_set_def del: get_from.simps)
qed

lemma no_null_delete:
  assumes "no_null d"
  shows "no_null (snd (patty_dict_delete d key))"
proof (cases "slot_find_from 7 0 d key")
  case (Some p)
  have "map_option sval (get_from 7 0 (slot_put d p zero_slot) k) \<noteq> Some None" for k
    using get_from_delete [OF Some, of k] assms by (simp add: no_null_def split: option.splits del: get_from.simps slot_find_from.simps)
  then show ?thesis by (simp add: no_null_def patty_dict_delete_def patty_dict_slot_find_def Some del: get_from.simps)
qed (use assms in \<open>simp add: patty_dict_delete_def patty_dict_slot_find_def\<close>)

lemma no_null_entries: "dict_ok d \<Longrightarrow> no_null d \<Longrightarrow> (k, v) \<in> set (entries d) \<Longrightarrow> \<exists>x. v = Some x \<and> patty_dict_get d k = Some x"
  using entries_spec(1) [of d k v] entries_get [of d k] by (fastforce simp: no_null_def simp del: get_from.simps)

text \<open>The first entry of a dictionary.\<close>

lemma dict_set_new:
  "snd (patty_dict_set m patty_dict_new k v) = patty_dict_new(nibble 0 k := Slot k v True None)"
  by (simp add: patty_dict_set_def numeral_eq_Suc dict_set_from_empty del: dict_set_from.simps)

lemma dict_set_new_eq:
  "patty_dict_set m patty_dict_new k v = (v, patty_dict_new(nibble 0 k := Slot k v True None))"
  by (simp add: patty_dict_set_def numeral_eq_Suc dict_set_from_empty del: dict_set_from.simps)

lemma get_from_singleton:
  "get_from 7 0 (patty_dict_new(nibble 0 k := Slot k v True None)) k' =
     (if k' = k then Some (Slot k v True None) else None)"
  by (simp add: numeral_eq_Suc)

section \<open>Properties\<close>

text \<open>
  C10: A dictionary is a finite map: patty_dict_set of a value updates exactly its key, or, when
  it returns NULL, changes no binding; the structure stays well-formed.
\<close>
theorem dict_set_is_update:
  assumes "dict_ok d" and "patty_dict_set m d key (Some v) = (r, d')"
  shows "dict_ok d' \<and> patty_dict_get d' = (case r of None \<Rightarrow> patty_dict_get d
    | Some v' \<Rightarrow> (patty_dict_get d)(key \<mapsto> v)) \<and> (\<forall>v'. r = Some v' \<longrightarrow> v' = v)"
proof -
  from assms(2) have d': "d' = snd (patty_dict_set m d key (Some v))" and r: "r = fst (patty_dict_set m d key (Some v))"
    by simp_all
  show ?thesis
    using dict.store_update [OF assms(1), of m key v] dict.store_unchanged [OF assms(1), of m key v]
      dict_set_same [of m d key v] dict_set_ok [OF assms(1)]
    unfolding d' r by (auto split: option.split)
qed

lemma dict_set_is_update_witness:
  "patty_dict_get (snd (patty_dict_set True (snd (patty_dict_set True patty_dict_new 1 (Some ''a''))) 17 (Some ''b''))) 17
     = Some ''b''"
proof -
  let ?d = "snd (patty_dict_set True patty_dict_new 1 (Some ''a''))"
  obtain r d' where s: "patty_dict_set True ?d 17 (Some ''b'') = (r, d')" by (rule prod.exhaust)
  have "nibble 0 1 = 1" "nibble 0 17 = 1" by (simp_all add: nibble_def)
  moreover have "dict_set_from 7 0 True (patty_dict_new(1 := Slot 1 (Some ''a'') True None)) 17 (Some ''b'') = (r, d')"
    using s calculation by (simp add: dict_set_new patty_dict_set_def [of True "patty_dict_new(_ := _)"] del: dict_set_from.simps)
  moreover have "(1 :: u32) \<noteq> 17" by simp
  ultimately have "r = Some ''b''"
    using dict_set_from_down [of "patty_dict_new(1 := Slot 1 (Some ''a'') True None)" 0 17 True 6 "Some ''b''"]
      dict_set_from_empty [of patty_dict_new 1 17 5 True "Some ''b''"]
    by (simp add: numeral_eq_Suc below_def del: dict_set_from.simps)
  with dict_set_is_update [OF dict_set_ok [OF dict_ok_new] s] s show ?thesis by simp
qed

text \<open>
  C31: What patty_dict_delete removes: the key, and with it every key whose entry lies below the
  deleted slot (those that collide with it and were added later); all others keep their value.
\<close>
theorem dict_delete_exact:
  "patty_dict_get (snd (patty_dict_delete d key)) key' =
     (if key' = key \<or> is_below d key key' then None else patty_dict_get d key')"
  using patty_dict_get_delete [of d key key'] patty_dict_get_delete_same [of d key] by auto

text \<open>
  C32: patty_dict_each calls its callback for each binding exactly once.
\<close>
theorem dict_each_visits_all:
  assumes "dict_ok d"
  shows "\<exists>es. (\<forall>(f :: u32 \<Rightarrow> 'v option \<Rightarrow> 's \<Rightarrow> 's) s.
      patty_dict_each (\<lambda>_. d) (\<lambda>k v s. Some (0, f k v s)) s = Some (0, fold (\<lambda>(k, v). f k v) es s))
    \<and> distinct (map fst es) \<and> (\<forall>k v. (k, Some v) \<in> set es \<longleftrightarrow> patty_dict_get d k = Some v)"
  using entries_spec(2) [OF assms] entries_get [OF assms]
  by (intro exI [of _ "entries d"] conjI allI) (simp_all add: patty_dict_each_fold)

lemma dict_each_visits_all_witness:
  "\<exists>es. (\<forall>(f :: u32 \<Rightarrow> string option \<Rightarrow> nat \<Rightarrow> nat) s.
      patty_dict_each (\<lambda>_. snd (patty_dict_set True patty_dict_new 5 (Some ''a''))) (\<lambda>k v s. Some (0, f k v s)) s
        = Some (0, fold (\<lambda>(k, v). f k v) es s))
    \<and> distinct (map fst es)
    \<and> (\<forall>k v. (k, Some v) \<in> set es \<longleftrightarrow> patty_dict_get (snd (patty_dict_set True patty_dict_new 5 (Some ''a''))) k = Some v)"
  by (rule dict_each_visits_all) simp

end
