(* ===== verification/Patty_If.thy ===== *)
theory Patty_If
  imports Patty_Tnc Patty_Frame Patty_List Patty_Dict
begin

text \<open>
  Interfaces: \<open>src/src/if.c\<close>. An interface reaches its device through a table of functions
  (\<open>patty_ax25_if_driver\<close>), modelled by the record \<open>if_driver\<close>. The contract a driver owes its
  callers is the locale \<open>link_driver\<close>, proved for the KISS driver; under it the receive loop
  always returns.

  Promiscuous listeners are the keys of a dictionary whose values are all NULL.
\<close>

section \<open>Drivers and interfaces\<close>

record 'p if_driver =
  d_destroy :: "'p \<Rightarrow> world \<Rightarrow> world"
  d_stats :: "'p \<Rightarrow> if_stats"
  d_stats_upd :: "(if_stats \<Rightarrow> if_stats) \<Rightarrow> 'p \<Rightarrow> 'p"
  d_fd :: "'p \<Rightarrow> int"
  d_ready :: "'p \<Rightarrow> (int \<Rightarrow> bool) \<Rightarrow> bool"
  d_reset :: "'p \<Rightarrow> world \<Rightarrow> (int \<times> 'p \<times> world) option"
  d_fill :: "'p \<Rightarrow> world \<Rightarrow> int \<times> 'p \<times> world"
  d_drain :: "'p \<Rightarrow> byte list \<Rightarrow> nat \<Rightarrow> (int cres \<times> 'p \<times> byte list) option"
  d_pending :: "'p \<Rightarrow> bool"
  d_flush :: "'p \<Rightarrow> int \<times> 'p"
  d_send :: "'p \<Rightarrow> byte list \<Rightarrow> world \<Rightarrow> (int \<times> 'p \<times> world) option"

text \<open>\<open>patty_kiss_tnc_driver\<close>; the pointer that \<open>stats\<close> returns is written through \<open>d_stats_upd\<close>.\<close>

definition patty_kiss_tnc_driver :: "tnc if_driver" where
  "patty_kiss_tnc_driver =
     \<lparr>d_destroy = patty_kiss_tnc_destroy, d_stats = patty_kiss_tnc_stats, d_stats_upd = t_stats_update,
      d_fd = patty_kiss_tnc_fd, d_ready = patty_kiss_tnc_ready, d_reset = (\<lambda>tnc w. Some (patty_kiss_tnc_reset tnc w)),
      d_fill = patty_kiss_tnc_fill, d_drain = patty_kiss_tnc_drain, d_pending = patty_kiss_tnc_pending,
      d_flush = patty_kiss_tnc_flush, d_send = (\<lambda>tnc buf w. Some (patty_kiss_tnc_send tnc buf w))\<rparr>"

datatype if_status = PATTY_AX25_IF_DOWN | PATTY_AX25_IF_UP | PATTY_AX25_IF_ERROR

record 'p iface =
  if_flags_classes :: u32
  if_rx_buf :: "byte list"
  if_tx_buf :: "byte list"
  if_mru :: nat
  if_mtu :: nat
  if_state :: if_status
  if_addr :: addr
  if_aliases :: "addr plist"
  if_promisc_fds :: "unit bucket"
  if_drv :: "'p if_driver"
  if_phy :: 'p

definition PATTY_AX25_IF_DEFAULT_CLASSES :: u32 where
  "PATTY_AX25_IF_DEFAULT_CLASSES = PATTY_AX25_PARAM_CLASSES_HALF_DUPLEX"
definition PATTY_AX25_IF_DEFAULT_MTU :: nat where "PATTY_AX25_IF_DEFAULT_MTU = 4096"
definition PATTY_AX25_IF_DEFAULT_MRU :: nat where "PATTY_AX25_IF_DEFAULT_MRU = 4096"

text \<open>
  \<open>patty_ax25_if_new\<close>: the \<open>malloc\<close> calls fail as the script says; \<open>create\<close> is the driver's
  constructor applied to its argument, \<open>rx\<close> and \<open>tx\<close> what the allocations of the two buffers hold.
\<close>

definition patty_ax25_if_new ::
  "'p if_driver \<Rightarrow> (world \<Rightarrow> 'p option \<times> world) \<Rightarrow> byte list \<Rightarrow> byte list \<Rightarrow> world \<Rightarrow> 'p iface option \<times> world" where
  "patty_ax25_if_new driver create rx tx w =
     (case sys_call w of (r, w) \<Rightarrow>
      if r < 0 then (None, w)
      else case create w of
        (None, w) \<Rightarrow> (None, w)
      | (Some phy, w) \<Rightarrow>
         (case sys_call w of (r, w) \<Rightarrow>
          if r < 0 then (None, d_destroy driver phy w)
          else case sys_call w of (r, w) \<Rightarrow>
          if r < 0 then (None, d_destroy driver phy w)
          else case sys_call w of (r, w) \<Rightarrow>
          if r < 0 then (None, d_destroy driver phy w)
          else case sys_call w of (r, w) \<Rightarrow>
          if r < 0 then (None, d_destroy driver phy w)
          else (Some \<lparr>if_flags_classes = PATTY_AX25_IF_DEFAULT_CLASSES, if_rx_buf = rx, if_tx_buf = tx,
                     if_mru = PATTY_AX25_IF_DEFAULT_MRU, if_mtu = PATTY_AX25_IF_DEFAULT_MTU,
                     if_state = PATTY_AX25_IF_DOWN, if_addr = addr_zero, if_aliases = patty_list_new,
                     if_promisc_fds = patty_dict_new, if_drv = driver, if_phy = phy\<rparr>, w)))"

definition patty_ax25_if_destroy :: "'p iface \<Rightarrow> world \<Rightarrow> world" where
  "patty_ax25_if_destroy iface w = d_destroy (if_drv iface) (if_phy iface) w"

definition patty_ax25_if_addr_set :: "'p iface \<Rightarrow> addr \<Rightarrow> int \<times> 'p iface" where
  "patty_ax25_if_addr_set iface addr =
     (let bs = patty_ax25_addr_copy addr 0 in
      (int (length bs), iface\<lparr>if_addr := \<lparr>callsign = take 6 bs, addr_ssid = bs ! 6\<rparr>\<rparr>))"

definition patty_ax25_if_up :: "'p iface \<Rightarrow> 'p iface" where
  "patty_ax25_if_up iface = iface\<lparr>if_state := PATTY_AX25_IF_UP\<rparr>"

definition patty_ax25_if_down :: "'p iface \<Rightarrow> 'p iface" where
  "patty_ax25_if_down iface = iface\<lparr>if_state := PATTY_AX25_IF_DOWN\<rparr>"

definition patty_ax25_if_error :: "'p iface \<Rightarrow> 'p iface" where
  "patty_ax25_if_error iface = iface\<lparr>if_state := PATTY_AX25_IF_ERROR\<rparr>"

section \<open>Addresses\<close>

text \<open>\<open>patty_ax25_if_addr_each\<close>: stop at the first callback that returns a negative number.\<close>

fun each_until :: "('a \<Rightarrow> 's \<Rightarrow> int \<times> 's) \<Rightarrow> 'a list \<Rightarrow> 's \<Rightarrow> int \<times> 's" where
  "each_until callback [] s = (0, s)"
| "each_until callback (a # as) s =
     (case callback a s of (r, s) \<Rightarrow> if r < 0 then (-1, s) else each_until callback as s)"

definition patty_ax25_if_addr_each :: "'p iface \<Rightarrow> (addr \<Rightarrow> 's \<Rightarrow> int \<times> 's) \<Rightarrow> 's \<Rightarrow> (int \<times> 's) option" where
  "patty_ax25_if_addr_each iface callback ctx =
     map_option (\<lambda>as. each_until callback (if_addr iface # as) ctx) (patty_list_values (if_aliases iface))"

text \<open>\<open>find_addr\<close> compares callsigns only, as the other functions do.\<close>

definition find_addr :: "'p iface \<Rightarrow> addr \<Rightarrow> bool option" where
  "find_addr iface addr =
     map_option (\<lambda>as. \<exists>cur \<in> set as. callsign addr = callsign cur) (patty_list_values (if_aliases iface))"

text \<open>
  \<open>patty_ax25_if_addr_add\<close>. The SSID of the new alias is whatever its allocation holds
  (\<open>junk_ssid\<close>), the caller's address loses its own. \<open>m\<close> and \<open>m'\<close> are the outcomes of the
  two allocations.
\<close>

definition patty_ax25_if_addr_add ::
  "bool \<Rightarrow> (nat \<times> nat) option \<Rightarrow> byte \<Rightarrow> 'p iface \<Rightarrow> addr \<Rightarrow> (unit cres \<times> 'p iface \<times> addr) option" where
  "patty_ax25_if_addr_add m m' junk_ssid iface addr =
     do { found \<leftarrow> find_addr iface addr;
          if found then Some (Inl EADDRINUSE, iface, addr)
          else if \<not> m then Some (Inl ENOMEM, iface, addr)
          else (let alias = \<lparr>callsign = callsign addr, addr_ssid = junk_ssid\<rparr>;
                    addr' = addr\<lparr>addr_ssid := 0\<rparr> in
                do { (r, l) \<leftarrow> patty_list_append m' (if_aliases iface) alias;
                     case r of
                       None \<Rightarrow> Some (Inl ENOMEM, iface, addr')
                     | Some _ \<Rightarrow> Some (Inr (), iface\<lparr>if_aliases := l\<rparr>, addr') }) }"

text \<open>The loop of \<open>patty_ax25_if_addr_delete\<close> at item \<open>p\<close> and index \<open>i\<close>.\<close>

partial_function (option) addr_delete_loop ::
  "addr \<Rightarrow> addr plist \<Rightarrow> nat \<Rightarrow> int \<Rightarrow> (int \<times> addr plist) option" where
  "addr_delete_loop addr l p i =
     (if p = 0 then Some (0, l)
      else do { it \<leftarrow> ll_items l p;
                (r, l) \<leftarrow> (if callsign addr = callsign (it_value it)
                          then patty_list_splice l i else Some (Some addr, l));
                if r = None then Some (-1, l)
                else do { it \<leftarrow> ll_items l p; addr_delete_loop addr l (it_next it) (i + 1) } })"

definition patty_ax25_if_addr_delete :: "'p iface \<Rightarrow> addr \<Rightarrow> (int \<times> 'p iface) option" where
  "patty_ax25_if_addr_delete iface addr =
     map_option (\<lambda>(r, l). (r, iface\<lparr>if_aliases := l\<rparr>))
       (addr_delete_loop addr (if_aliases iface) (ll_first (if_aliases iface)) 0)"

definition patty_ax25_if_addr_match :: "'p iface \<Rightarrow> addr \<Rightarrow> bool option" where
  "patty_ax25_if_addr_match iface addr =
     (if callsign (if_addr iface) = callsign addr then Some True
      else map_option (\<lambda>as. \<exists>alias \<in> set as. callsign alias = callsign addr)
             (patty_list_values (if_aliases iface)))"

section \<open>Promiscuous listeners\<close>

definition patty_ax25_if_promisc_add :: "bool \<Rightarrow> 'p iface \<Rightarrow> int \<Rightarrow> unit cres \<times> 'p iface" where
  "patty_ax25_if_promisc_add m iface fd =
     (if patty_dict_get (if_promisc_fds iface) (word_of_int fd) \<noteq> None then (Inl EEXIST, iface)
      else case patty_dict_set m (if_promisc_fds iface) (word_of_int fd) None of
             (r, d) \<Rightarrow> (if r = None then Inl ENOMEM else Inr (), iface\<lparr>if_promisc_fds := d\<rparr>))"

definition patty_ax25_if_promisc_delete :: "'p iface \<Rightarrow> int \<Rightarrow> int \<times> 'p iface" where
  "patty_ax25_if_promisc_delete iface fd =
     (case patty_dict_delete (if_promisc_fds iface) (word_of_int fd) of
        (r, d) \<Rightarrow> (r, iface\<lparr>if_promisc_fds := d\<rparr>))"

definition handle_promisc_frame :: "byte list \<Rightarrow> u32 \<Rightarrow> unit option \<Rightarrow> world \<Rightarrow> (int \<times> world) option" where
  "handle_promisc_frame buf key value w = Some (patty_kiss_frame_send (sint key) buf 0 w)"

text \<open>\<open>patty_dict_each(iface->promisc_fds, handle_promisc_frame, &frame)\<close>\<close>

definition promisc_each :: "'p iface \<Rightarrow> byte list \<Rightarrow> world \<Rightarrow> (int \<times> world) option" where
  "promisc_each iface buf w =
     patty_dict_each (\<lambda>_. if_promisc_fds iface) (handle_promisc_frame buf) w"

section \<open>Input and output\<close>

definition patty_ax25_if_drop :: "'p iface \<Rightarrow> 'p iface" where
  "patty_ax25_if_drop iface =
     iface\<lparr>if_phy := d_stats_upd (if_drv iface) (\<lambda>s. s\<lparr>dropped := dropped s + 1\<rparr>) (if_phy iface)\<rparr>"

definition patty_ax25_if_fd :: "'p iface \<Rightarrow> int" where
  "patty_ax25_if_fd iface = d_fd (if_drv iface) (if_phy iface)"

definition patty_ax25_if_ready :: "'p iface \<Rightarrow> (int \<Rightarrow> bool) \<Rightarrow> bool" where
  "patty_ax25_if_ready iface fds =
     (if if_state iface = PATTY_AX25_IF_UP then d_ready (if_drv iface) (if_phy iface) fds else False)"

definition patty_ax25_if_reset :: "'p iface \<Rightarrow> world \<Rightarrow> (int \<times> 'p iface \<times> world) option" where
  "patty_ax25_if_reset iface w =
     do { (ret, phy, w) \<leftarrow> d_reset (if_drv iface) (if_phy iface) w;
          Some (ret, iface\<lparr>if_phy := phy, if_state := (if ret < 0 then PATTY_AX25_IF_ERROR else PATTY_AX25_IF_UP)\<rparr>, w) }"

definition patty_ax25_if_fill :: "'p iface \<Rightarrow> world \<Rightarrow> int \<times> 'p iface \<times> world" where
  "patty_ax25_if_fill iface w =
     (case d_fill (if_drv iface) (if_phy iface) w of (r, phy, w) \<Rightarrow> (r, iface\<lparr>if_phy := phy\<rparr>, w))"

definition patty_ax25_if_drain ::
  "'p iface \<Rightarrow> byte list \<Rightarrow> nat \<Rightarrow> (int cres \<times> 'p iface \<times> byte list) option" where
  "patty_ax25_if_drain iface buf len =
     map_option (\<lambda>(r, phy, buf). (r, iface\<lparr>if_phy := phy\<rparr>, buf))
       (d_drain (if_drv iface) (if_phy iface) buf len)"

definition patty_ax25_if_pending :: "'p iface \<Rightarrow> bool" where
  "patty_ax25_if_pending iface = d_pending (if_drv iface) (if_phy iface)"

text \<open>The frame handed to the listeners is read from \<open>rx_buf\<close>, whatever buffer was drained into.\<close>

definition patty_ax25_if_flush :: "'p iface \<Rightarrow> world \<Rightarrow> (int \<times> 'p iface \<times> world) option" where
  "patty_ax25_if_flush iface w =
     (case d_flush (if_drv iface) (if_phy iface) of (len, phy) \<Rightarrow>
        if len > 0
        then let iface = iface\<lparr>if_phy := d_stats_upd (if_drv iface)
                     (\<lambda>s. s\<lparr>rx_frames := rx_frames s + 1, rx_bytes := rx_bytes s + of_int len\<rparr>) phy\<rparr> in
             do { frame \<leftarrow> slice (if_rx_buf iface) 0 (nat len);
                  (r, w) \<leftarrow> promisc_each iface frame w;
                  Some (if r < 0 then -1 else len, iface, w) }
        else Some (len, iface\<lparr>if_phy := phy\<rparr>, w))"

partial_function (option) patty_ax25_if_recv ::
  "'p iface \<Rightarrow> byte list \<Rightarrow> nat \<Rightarrow> world \<Rightarrow> (int \<times> 'p iface \<times> byte list \<times> world) option" where
  "patty_ax25_if_recv iface buf len w =
     (if patty_ax25_if_pending iface
      then do { (n, iface, w) \<leftarrow> patty_ax25_if_flush iface w; Some (n, iface, buf, w) }
      else do { (drained, iface, buf) \<leftarrow> patty_ax25_if_drain iface buf len;
                case drained of
                  Inl e \<Rightarrow> Some (-1, iface, buf, w\<lparr>err := Some e\<rparr>)
                | Inr n \<Rightarrow>
                    if n < 0 then Some (-1, iface, buf, w)
                    else if n = 0
                    then (case patty_ax25_if_fill iface w of (filled, iface, w) \<Rightarrow>
                            if filled < 0 then Some (-1, iface, buf, w)
                            else if filled = 0 then Some (0, iface, buf, w)
                            else patty_ax25_if_recv iface buf len w)
                    else patty_ax25_if_recv iface buf len w })"

definition patty_ax25_if_send :: "'p iface \<Rightarrow> byte list \<Rightarrow> world \<Rightarrow> (int \<times> 'p iface \<times> world) option" where
  "patty_ax25_if_send iface buf w =
     do { (wrlen, phy, w) \<leftarrow> d_send (if_drv iface) (if_phy iface) buf w;
          if wrlen < 0 then Some (-1, iface\<lparr>if_phy := phy\<rparr>, w)
          else let iface = iface\<lparr>if_phy := d_stats_upd (if_drv iface)
                       (\<lambda>s. s\<lparr>tx_frames := tx_frames s + 1, tx_bytes := tx_bytes s + of_int wrlen\<rparr>) phy\<rparr> in
               do { frame \<leftarrow> slice buf 0 (nat wrlen);
                    (r, w) \<leftarrow> promisc_each iface frame w;
                    Some (if r < 0 then -1 else wrlen, iface, w) } }"

section \<open>What the listeners get\<close>

lemma promisc_each_total: "\<exists>r w'. promisc_each iface buf w = Some (r, w') \<and> (r = 0 \<or> r = -1)"
proof -
  have "\<exists>r w'. entries_until (handle_promisc_frame buf) es w = Some (r, w')" for es
  proof (induction es arbitrary: w)
    case (Cons e es)
    obtain k v where "e = (k, v)" by (cases e)
    with Cons show ?case
      by (auto simp: handle_promisc_frame_def split: prod.splits)
  qed simp
  then obtain r w' where "promisc_each iface buf w = Some (r, w')"
    unfolding promisc_each_def patty_dict_each_until by blast
  then show ?thesis
    unfolding promisc_each_def patty_dict_each_until by (blast dest: entries_until_result)
qed

section \<open>The contract of a driver\<close>

text \<open>
  \<open>ok len p\<close>: the device is in a state from which frames of up to \<open>len\<close> bytes can be drained;
  \<open>todo p\<close>: the bytes read but not yet drained. A driver promises that draining into a buffer
  of at least \<open>len\<close> bytes stays inside of it and uses up what it consumes, that flushing a
  frame yields at most \<open>len\<close> bytes and leaves nothing pending, and that every successful fill
  uses up a reply of the system.
\<close>

locale link_driver =
  fixes drv :: "'p if_driver" and ok :: "nat \<Rightarrow> 'p \<Rightarrow> bool" and todo :: "'p \<Rightarrow> nat"
  assumes drain_ok: "ok len p \<Longrightarrow> len \<le> length buf \<Longrightarrow>
      \<exists>r p' buf'. d_drain drv p buf len = Some (r, p', buf') \<and> ok len p' \<and> length buf' = length buf
        \<and> todo p' \<le> todo p \<and> (\<forall>n. r = Inr n \<longrightarrow> 0 < n \<longrightarrow> todo p' < todo p)"
    and flush_ok: "ok len p \<Longrightarrow> d_flush drv p = (n, p') \<Longrightarrow>
      ok len p' \<and> \<not> d_pending drv p' \<and> todo p' \<le> todo p \<and> -1 \<le> n \<and> n \<le> int len"
    and fill_ok: "ok len p \<Longrightarrow> d_fill drv p w = (r, p', w') \<Longrightarrow> 0 \<le> r \<Longrightarrow>
      ok len p' \<and> (0 < r \<longrightarrow> length (script w') < length (script w))"
    and stats_ok: "ok len (d_stats_upd drv f p) = ok len p"
    and stats_pending: "d_pending drv (d_stats_upd drv f p) = d_pending drv p"
begin

text \<open>The interface uses this driver and its buffers have their nominal sizes.\<close>

definition iface_ok :: "nat \<Rightarrow> 'p iface \<Rightarrow> bool" where
  "iface_ok len iface \<longleftrightarrow> if_drv iface = drv \<and> ok len (if_phy iface) \<and> len \<le> length (if_rx_buf iface)
     \<and> dict_ok (if_promisc_fds iface)"

lemma iface_ok_phy: "iface_ok len iface \<Longrightarrow> ok len p \<Longrightarrow> iface_ok len (iface\<lparr>if_phy := p\<rparr>)"
  by (simp add: iface_ok_def)

lemma if_drain_ok:
  assumes "iface_ok len iface" and "len \<le> length buf"
  obtains r iface' buf' where "patty_ax25_if_drain iface buf len = Some (r, iface', buf')"
    and "iface_ok len iface'" and "length buf' = length buf"
    and "todo (if_phy iface') \<le> todo (if_phy iface)"
    and "\<forall>n. r = Inr n \<longrightarrow> 0 < n \<longrightarrow> todo (if_phy iface') < todo (if_phy iface)"
proof -
  have drv: "if_drv iface = drv" using assms(1) by (simp add: iface_ok_def)
  from drain_ok [of len "if_phy iface" buf] assms obtain r p' buf' where
    d: "d_drain drv (if_phy iface) buf len = Some (r, p', buf')" and p: "ok len p'"
    and rest: "length buf' = length buf" "todo p' \<le> todo (if_phy iface)"
      "\<forall>n. r = Inr n \<longrightarrow> 0 < n \<longrightarrow> todo p' < todo (if_phy iface)"
    by (auto simp: iface_ok_def)
  from d drv have "patty_ax25_if_drain iface buf len = Some (r, iface\<lparr>if_phy := p'\<rparr>, buf')"
    by (simp add: patty_ax25_if_drain_def)
  with iface_ok_phy [OF assms(1) p] rest show thesis
    by (intro that [of r "iface\<lparr>if_phy := p'\<rparr>" buf']) auto
qed

lemma if_flush_ok:
  assumes "iface_ok len iface"
  obtains n iface' w' where "patty_ax25_if_flush iface w = Some (n, iface', w')"
    and "iface_ok len iface'" and "\<not> patty_ax25_if_pending iface'"
    and "-1 \<le> n" and "n \<le> int len"
proof -
  have drv: "if_drv iface = drv" using assms by (simp add: iface_ok_def)
  obtain n p where f: "d_flush drv (if_phy iface) = (n, p)" by fastforce
  from flush_ok [OF _ f, of len] assms have p: "ok len p" "\<not> d_pending drv p" "-1 \<le> n" "n \<le> int len"
    by (auto simp: iface_ok_def)
  show thesis
  proof (cases "0 < n")
    case False
    with f drv have "patty_ax25_if_flush iface w = Some (n, iface\<lparr>if_phy := p\<rparr>, w)"
      by (simp add: patty_ax25_if_flush_def)
    with iface_ok_phy [OF assms p(1)] p drv show thesis
      by (intro that [of n "iface\<lparr>if_phy := p\<rparr>" w]) (simp_all add: patty_ax25_if_pending_def)
  next
    case True
    define f :: "if_stats \<Rightarrow> if_stats" where "f = (\<lambda>s. s\<lparr>rx_frames := rx_frames s + 1, rx_bytes := rx_bytes s + of_int n\<rparr>)"
    let ?p = "d_stats_upd drv f p"
    let ?i = "iface\<lparr>if_phy := ?p\<rparr>"
    have i: "iface_ok len ?i" using iface_ok_phy [OF assms] p(1) stats_ok by simp
    have "nat n \<le> len" using p(4) by simp
    then have "slice (if_rx_buf iface) 0 (nat n) \<noteq> None"
      using assms by (simp add: iface_ok_def slice_def)
    then obtain fr where fr: "slice (if_rx_buf ?i) 0 (nat n) = Some fr" by auto
    obtain r w1 where e: "promisc_each ?i fr w = Some (r, w1)" using promisc_each_total by blast
    have "patty_ax25_if_flush iface w = Some (if r < 0 then -1 else n, ?i, w1)"
      using f fr e drv True \<open>d_flush drv (if_phy iface) = (n, p)\<close>
      by (simp add: patty_ax25_if_flush_def Let_def f_def)
    moreover have "\<not> patty_ax25_if_pending ?i"
      using p(2) drv stats_pending by (simp add: patty_ax25_if_pending_def)
    ultimately show thesis
      using i p by (intro that [of "if r < 0 then -1 else n" ?i w1]) auto
  qed
qed

lemma if_fill_ok:
  assumes "iface_ok len iface" and "patty_ax25_if_fill iface w = (r, iface', w')" and "0 \<le> r"
  shows "iface_ok len iface'" and "0 < r \<Longrightarrow> length (script w') < length (script w)"
proof -
  have drv: "if_drv iface = drv" using assms(1) by (simp add: iface_ok_def)
  obtain p where f: "d_fill drv (if_phy iface) w = (r, p, w')" and i: "iface' = iface\<lparr>if_phy := p\<rparr>"
    using assms(2) drv by (auto simp: patty_ax25_if_fill_def split: prod.splits)
  from fill_ok [OF _ f assms(3), of len] assms(1) show "iface_ok len iface'"
    and "0 < r \<Longrightarrow> length (script w') < length (script w)"
    by (auto simp: iface_ok_def i)
qed

text \<open>
  The receive loop of \<open>patty_ax25_if_recv\<close> returns, with at most \<open>len\<close> bytes: every round uses
  up either bytes already read or a reply of the system. Unless it fails, it can be called again.
\<close>

lemma if_recv_returns:
  assumes "iface_ok len iface" and "len \<le> length buf"
  shows "\<exists>n iface' buf' w'. patty_ax25_if_recv iface buf len w = Some (n, iface', buf', w')
    \<and> n \<le> int len \<and> length buf' = length buf \<and> (0 \<le> n \<longrightarrow> iface_ok len iface')"
  using assms
proof (induction "(length (script w), todo (if_phy iface))" arbitrary: iface buf w
    rule: wf_induct_rule [OF wf_lex_prod [OF wf_less_than wf_less_than]])
  case less: 1
  note IH = less.hyps
  show ?case
  proof (cases "patty_ax25_if_pending iface")
    case True
    obtain n iface' w' where "patty_ax25_if_flush iface w = Some (n, iface', w')" "n \<le> int len" "iface_ok len iface'"
      by (rule if_flush_ok [OF less.prems(1)])
    with True show ?thesis by (simp add: patty_ax25_if_recv.simps [of iface])
  next
    case False
    obtain r i1 b1 where d: "patty_ax25_if_drain iface buf len = Some (r, i1, b1)"
      and i1: "iface_ok len i1" and b1: "length b1 = length buf"
      and le: "todo (if_phy i1) \<le> todo (if_phy iface)"
      and dec: "\<forall>n. r = Inr n \<longrightarrow> 0 < n \<longrightarrow> todo (if_phy i1) < todo (if_phy iface)"
      by (rule if_drain_ok [OF less.prems])
    have len1: "len \<le> length b1" using less.prems(2) b1 by simp
    show ?thesis
    proof (cases r)
      case (Inl e)
      with d False b1 show ?thesis by (simp add: patty_ax25_if_recv.simps [of iface])
    next
      case (Inr n)
      consider "n < 0" | "n = 0" | "0 < n" by linarith
      then show ?thesis
      proof cases
        case 1
        with d False Inr b1 show ?thesis by (simp add: patty_ax25_if_recv.simps [of iface])
      next
        case 2
        obtain f i2 w2 where f: "patty_ax25_if_fill i1 w = (f, i2, w2)" using prod_cases3 by blast
        show ?thesis
        proof (cases "f \<le> 0")
          case True
          have "iface_ok len i2" if "0 \<le> f" using if_fill_ok(1) [OF i1 f that] .
          with True d False Inr 2 f b1 show ?thesis by (auto simp: patty_ax25_if_recv.simps [of iface])
        next
          case pos: False
          with if_fill_ok [OF i1 f] have i2: "iface_ok len i2" "length (script w2) < length (script w)" by auto
          then have "((length (script w2), todo (if_phy i2)), (length (script w), todo (if_phy iface)))
              \<in> less_than <*lex*> less_than" by simp
          from IH [OF this i2(1) len1] d False Inr 2 f pos b1 show ?thesis
            by (auto simp: patty_ax25_if_recv.simps [of iface])
        qed
      next
        case 3
        then have "((length (script w), todo (if_phy i1)), (length (script w), todo (if_phy iface)))
            \<in> less_than <*lex*> less_than" using dec Inr by simp
        from IH [OF this i1 len1] d False Inr 3 b1 show ?thesis
          by (auto simp: patty_ax25_if_recv.simps [of iface])
      qed
    qed
  qed
qed

end

text \<open>A driver whose send never goes wrong: the frame may be refused, but is not read beyond its end.\<close>

locale sending_driver = link_driver drv ok todo
  for drv :: "'p if_driver" and ok todo +
  assumes send_ok: "ok len p \<Longrightarrow>
      \<exists>r p' w'. d_send drv p bs w = Some (r, p', w') \<and> ok len p' \<and> r \<le> int (length bs)"
begin

lemma if_send_ok:
  assumes "iface_ok len iface"
  obtains n iface' w' where "patty_ax25_if_send iface bs w = Some (n, iface', w')"
    and "iface_ok len iface'" and "n \<le> int (length bs)"
proof -
  have drv: "if_drv iface = drv" using assms by (simp add: iface_ok_def)
  obtain r p w1 where s: "d_send drv (if_phy iface) bs w = Some (r, p, w1)" and p: "ok len p" "r \<le> int (length bs)"
    using send_ok [of len "if_phy iface" bs w] assms by (auto simp: iface_ok_def)
  show thesis
  proof (cases "r < 0")
    case True
    with s drv have "patty_ax25_if_send iface bs w = Some (-1, iface\<lparr>if_phy := p\<rparr>, w1)"
      by (simp add: patty_ax25_if_send_def)
    with iface_ok_phy [OF assms p(1)] show thesis
      by (intro that [of "-1" "iface\<lparr>if_phy := p\<rparr>" w1]) simp_all
  next
    case False
    define f :: "if_stats \<Rightarrow> if_stats" where "f = (\<lambda>s. s\<lparr>tx_frames := tx_frames s + 1, tx_bytes := tx_bytes s + of_int r\<rparr>)"
    let ?i = "iface\<lparr>if_phy := d_stats_upd drv f p\<rparr>"
    have i: "iface_ok len ?i" using iface_ok_phy [OF assms] p(1) stats_ok by simp
    have "nat r \<le> length bs" using p(2) by simp
    then have "slice bs 0 (nat r) = Some (take (nat r) bs)" by (simp add: slice_def)
    then obtain fr where fr: "slice bs 0 (nat r) = Some fr" ..
    obtain r' w2 where e: "promisc_each ?i fr w1 = Some (r', w2)" using promisc_each_total by blast
    have "patty_ax25_if_send iface bs w = Some (if r' < 0 then -1 else r, ?i, w2)"
      using s fr e drv False by (simp add: patty_ax25_if_send_def Let_def f_def)
    with i p show thesis
      by (intro that [of "if r' < 0 then -1 else r" ?i w2]) auto
  qed
qed

end

section \<open>The KISS driver\<close>

definition tnc_drv_ok :: "nat \<Rightarrow> tnc \<Rightarrow> bool" where
  "tnc_drv_ok len tnc \<longleftrightarrow> unat (t_readlen tnc) \<le> length (t_buf tnc) \<and> 0 < length (t_buf tnc)
     \<and> t_bufsz tnc = length (t_buf tnc) \<and> t_bufsz tnc < 2 ^ 64 \<and> t_offset_o tnc \<le> len"

definition tnc_todo :: "tnc \<Rightarrow> nat" where
  "tnc_todo tnc = unat (t_readlen tnc) - t_offset_i tnc"

lemma tnc_byte_ok:
  assumes "t_offset_o tnc < len \<or> t_state tnc = KISS_NONE \<and> t_offset_o tnc \<le> len" and "len \<le> length buf"
  shows "\<exists>oc tnc' buf'. tnc_byte c tnc buf = Some (oc, tnc', buf') \<and> t_offset_o tnc' \<le> len
    \<and> length buf' = length buf"
proof -
  have w: "t_offset_o tnc < len \<Longrightarrow> wr buf (t_offset_o tnc) x = Some (buf[t_offset_o tnc := x])" for x
    using assms(2) by (simp add: wr_def)
  show ?thesis
    using assms w
    by (cases "t_state tnc") (simp_all add: tnc_byte_def Let_def, auto)
qed

lemma tnc_drain_loop_ok:
  assumes "tnc_drv_ok len tnc" and "len \<le> length buf"
  shows "\<exists>r tnc' buf'. tnc_drain_loop tnc buf len = Some (r, tnc', buf') \<and> tnc_drv_ok len tnc'
    \<and> length buf' = length buf \<and> tnc_todo tnc' \<le> tnc_todo tnc
    \<and> (tnc' = tnc \<or> tnc_todo tnc' < tnc_todo tnc)"
  using assms
proof (induction tnc buf len rule: tnc_drain_loop.induct)
  case (1 tnc buf len)
  show ?case
  proof (cases "t_offset_i tnc < unat (t_readlen tnc)")
    case False
    with "1.prems" show ?thesis by (simp add: tnc_drain_loop.simps)
  next
    case True
    define t1 where "t1 = (if t_offset_o tnc = len then tnc_drop tnc else tnc)"
    have t1: "t_offset_i t1 < length (t_buf t1)" "unat (t_readlen t1) \<le> length (t_buf t1)" "0 < length (t_buf t1)"
      "t_bufsz t1 = length (t_buf t1)" "t_bufsz t1 < 2 ^ 64"
      "t_offset_o t1 < len \<or> t_state t1 = KISS_NONE \<and> t_offset_o t1 \<le> len"
      "unat (t_readlen t1) - (t_offset_i t1 + 1) < tnc_todo tnc"
      using "1.prems" True by (auto simp: t1_def tnc_drop_def tnc_drv_ok_def tnc_todo_def)
    obtain c where c: "rd (t_buf t1) (t_offset_i t1) = Some c" using t1(1) by (simp add: rd_def)
    let ?t = "t1\<lparr>t_offset_i := t_offset_i t1 + 1\<rparr>"
    obtain oc t2 b2 where b: "tnc_byte c ?t buf = Some (oc, t2, b2)" and o2: "t_offset_o t2 \<le> len"
      and l2: "length b2 = length buf"
      using tnc_byte_ok [of ?t len buf c] t1(6) "1.prems"(2) by fastforce
    from tnc_byte_offsets [OF b] t1 o2 have ok2: "tnc_drv_ok len t2" and td: "tnc_todo t2 < tnc_todo tnc"
      by (simp_all add: tnc_drv_ok_def tnc_todo_def)
    show ?thesis
    proof (cases oc)
      case Go
      have "tnc_drain_loop tnc buf len = tnc_drain_loop t2 b2 len"
        using True c b Go by (simp add: tnc_drain_loop.simps [of tnc] t1_def Let_def)
      moreover have "\<exists>r tnc' buf'. tnc_drain_loop t2 b2 len = Some (r, tnc', buf') \<and> tnc_drv_ok len tnc'
          \<and> length buf' = length b2 \<and> tnc_todo tnc' \<le> tnc_todo t2 \<and> (tnc' = t2 \<or> tnc_todo tnc' < tnc_todo t2)"
        using "1.IH" [OF True t1_def c b [unfolded Go] refl refl refl ok2] l2 "1.prems"(2) by simp
      ultimately show ?thesis using td l2 by fastforce
    next
      case Done
      then have "tnc_drain_loop tnc buf len = Some (Inr (), t2, b2)"
        using True c b by (simp add: tnc_drain_loop.simps [of tnc] t1_def Let_def)
      with ok2 td l2 show ?thesis by auto
    next
      case (Fail e)
      then have "tnc_drain_loop tnc buf len = Some (Inl e, t2, b2)"
        using True c b by (simp add: tnc_drain_loop.simps [of tnc] t1_def Let_def)
      with ok2 td l2 show ?thesis by auto
    qed
  qed
qed

lemma tnc_drain_ok:
  assumes "tnc_drv_ok len tnc" and "len \<le> length buf"
  shows "\<exists>r tnc' buf'. patty_kiss_tnc_drain tnc buf len = Some (r, tnc', buf') \<and> tnc_drv_ok len tnc'
    \<and> length buf' = length buf \<and> tnc_todo tnc' \<le> tnc_todo tnc
    \<and> (\<forall>n. r = Inr n \<longrightarrow> 0 < n \<longrightarrow> tnc_todo tnc' < tnc_todo tnc)"
proof -
  obtain r tnc' buf' where "tnc_drain_loop tnc buf len = Some (r, tnc', buf')" "tnc_drv_ok len tnc'"
    "length buf' = length buf" "tnc_todo tnc' \<le> tnc_todo tnc" "tnc' = tnc \<or> tnc_todo tnc' < tnc_todo tnc"
    using tnc_drain_loop_ok [OF assms] by blast
  then show ?thesis
    unfolding patty_kiss_tnc_drain_def by (cases r) auto
qed

lemma tnc_fill_ok:
  assumes "tnc_drv_ok len tnc" and "patty_kiss_tnc_fill tnc w = (r, tnc', w')" and "0 \<le> r"
  shows "tnc_drv_ok len tnc' \<and> (0 < r \<longrightarrow> length (script w') < length (script w))"
proof -
  obtain bs where s: "sys_read (t_bufsz tnc) w = (Inr bs, w')" and r: "r = int (length bs)"
    and t: "tnc' = tnc\<lparr>t_buf := bs @ drop (length bs) (t_buf tnc), t_readlen := of_nat (length bs), t_offset_i := 0\<rparr>"
    using assms(2,3) by (auto simp: patty_kiss_tnc_fill_def split: prod.splits sum.splits)
  from sys_read_bound [OF s] assms(1) have len: "length bs \<le> length (t_buf tnc)" "length bs < 2 ^ 64"
    by (auto simp: tnc_drv_ok_def)
  then have "unat (of_nat (length bs) :: size_t) = length bs" by (subst unat_of_nat) simp
  with len assms(1) have "tnc_drv_ok len tnc'" by (simp add: tnc_drv_ok_def t)
  moreover from s r have "0 < r \<longrightarrow> length (script w') < length (script w)"
    by (auto simp: sys_read_def split: list.splits reply.splits)
  ultimately show ?thesis ..
qed

lemma frame_send_le: "patty_kiss_frame_send fd bs port w = (r, w') \<Longrightarrow> r \<le> int (length bs)"
  by (erule kiss_frame_send_stream) auto

interpretation kiss_driver: sending_driver patty_kiss_tnc_driver tnc_drv_ok tnc_todo
proof unfold_locales
  show "\<exists>r p' buf'. d_drain patty_kiss_tnc_driver p buf len = Some (r, p', buf') \<and> tnc_drv_ok len p'
      \<and> length buf' = length buf \<and> tnc_todo p' \<le> tnc_todo p
      \<and> (\<forall>n. r = Inr n \<longrightarrow> 0 < n \<longrightarrow> tnc_todo p' < tnc_todo p)"
    if "tnc_drv_ok len p" and "len \<le> length buf" for len p buf
    using tnc_drain_ok [OF that] by (simp add: patty_kiss_tnc_driver_def)
  show "tnc_drv_ok len p' \<and> (0 < r \<longrightarrow> length (script w') < length (script w))"
    if "tnc_drv_ok len p" and "d_fill patty_kiss_tnc_driver p w = (r, p', w')" and "0 \<le> r" for len p w r p' w'
    using tnc_fill_ok [OF that(1) _ that(3)] that(2) by (simp add: patty_kiss_tnc_driver_def)
  show "\<exists>r p' w'. d_send patty_kiss_tnc_driver p bs w = Some (r, p', w') \<and> tnc_drv_ok len p' \<and> r \<le> int (length bs)"
    if "tnc_drv_ok len p" for len p bs w
    using that frame_send_le [of "t_fd p" bs PATTY_KISS_TNC_PORT w]
    by (auto simp: patty_kiss_tnc_driver_def patty_kiss_tnc_send_def split: prod.splits)
qed (auto simp: patty_kiss_tnc_driver_def patty_kiss_tnc_flush_def patty_kiss_tnc_pending_def
       tnc_drv_ok_def tnc_todo_def)

section \<open>Listeners and their frames\<close>

text \<open>The descriptors that listen on an interface, in the order they are served.\<close>

definition listeners :: "'p iface \<Rightarrow> int list" where
  "listeners iface = map (\<lambda>(k, _). sint k) (entries (if_promisc_fds iface))"

lemma sint_u32_inj: "sint (a :: u32) = sint b \<longleftrightarrow> a = b"
  by (auto intro: signed_word_eqI)

lemma listeners_distinct: "dict_ok (if_promisc_fds iface) \<Longrightarrow> distinct (listeners iface)"
proof -
  assume ok: "dict_ok (if_promisc_fds iface)"
  have "listeners iface = map sint (map fst (entries (if_promisc_fds iface)))"
    by (simp add: listeners_def case_prod_unfold)
  then show ?thesis
    using entries_spec(2) [OF ok] by (auto simp: distinct_map inj_on_def sint_u32_inj)
qed

lemma listeners_iff:
  assumes "dict_ok (if_promisc_fds iface)"
  shows "fd \<in> set (listeners iface) \<longleftrightarrow>
    (\<exists>k. fd = sint k \<and> get_from 7 0 (if_promisc_fds iface) k \<noteq> None)"
  using entries_spec(1) [OF assms]
  by (force simp: listeners_def image_iff simp del: get_from.simps)

text \<open>A frame goes to its descriptor only.\<close>

lemma sys_write_other:
  "sys_write fd bs w = (r, w') \<Longrightarrow> fd' \<noteq> fd \<Longrightarrow> stream_of fd' (out w') = stream_of fd' (out w)"
  by (auto simp: sys_write_def stream_of_def split: prod.splits if_splits)

lemma frame_send_loop_other:
  "frame_send_loop fd bs cs i start stop w = (res, w') \<Longrightarrow> fd' \<noteq> fd \<Longrightarrow>
   stream_of fd' (out w') = stream_of fd' (out w)"
  by (induction cs arbitrary: i start stop w)
     (auto simp: Let_def sys_write_other split: option.splits if_splits prod.splits)

lemma kiss_frame_send_other:
  "patty_kiss_frame_send fd bs port w = (r, w') \<Longrightarrow> fd' \<noteq> fd \<Longrightarrow>
   stream_of fd' (out w') = stream_of fd' (out w)"
  by (auto simp: patty_kiss_frame_send_def write_start_def write_byte_def sys_write_other frame_send_loop_other
      split: prod.splits option.splits if_splits)

lemma kiss_frame_send_quiet:
  assumes "script w = []"
  shows "\<exists>w'. patty_kiss_frame_send fd bs port w = (int (length bs), w') \<and> script w' = []
    \<and> (\<forall>fd'. stream_of fd' (out w') = stream_of fd' (out w) @ (if fd' = fd then kiss_frame port bs else []))"
proof -
  obtain w' where w': "patty_kiss_frame_send fd bs port w = (int (length bs), w')" "script w' = []"
    using frame_send_quiet [OF assms] by blast
  with frame_send_quiet_stream(1) [OF assms w'(1)] kiss_frame_send_other [OF w'(1)] show ?thesis by auto
qed

lemma promisc_each_quiet:
  assumes "dict_ok (if_promisc_fds iface)" and "script w = []"
  shows "\<exists>w'. promisc_each iface buf w = Some (0, w') \<and> script w' = []
    \<and> (\<forall>fd. stream_of fd (out w') = stream_of fd (out w) @
          (if fd \<in> set (listeners iface) then kiss_frame 0 buf else []))"
proof -
  have "\<exists>w'. entries_until (handle_promisc_frame buf) es w = Some (0, w') \<and> script w' = []
      \<and> (\<forall>fd. stream_of fd (out w') = stream_of fd (out w) @
            (if fd \<in> sint ` fst ` set es then kiss_frame 0 buf else []))"
    if "distinct (map (\<lambda>(k, _). sint k) es)" for es :: "(u32 \<times> unit option) list"
    using that assms(2)
  proof (induction es arbitrary: w)
    case (Cons e es)
    obtain k v where e: "e = (k, v)" by (cases e)
    obtain w1 where w1: "patty_kiss_frame_send (sint k) buf 0 w = (int (length buf), w1)" "script w1 = []"
      "\<forall>fd. stream_of fd (out w1) = stream_of fd (out w) @ (if fd = sint k then kiss_frame 0 buf else [])"
      using kiss_frame_send_quiet [OF Cons.prems(2)] by blast
    from Cons.IH [OF _ w1(2)] Cons.prems(1) obtain w2 where w2:
      "entries_until (handle_promisc_frame buf) es w1 = Some (0, w2)" "script w2 = []"
      "\<forall>fd. stream_of fd (out w2) = stream_of fd (out w1) @
            (if fd \<in> sint ` fst ` set es then kiss_frame 0 buf else [])"
      by auto
    have "sint k \<notin> sint ` fst ` set es" using Cons.prems(1) e by (force simp: case_prod_unfold)
    moreover have "handle_promisc_frame buf k v w = Some (int (length buf), w1)"
      using w1(1) by (simp add: handle_promisc_frame_def)
    ultimately show ?case using w1 w2 by (intro exI [of _ w2]) (auto simp: e)
  qed simp
  from this [of "entries (if_promisc_fds iface)"] listeners_distinct [OF assms(1)] show ?thesis
    by (simp add: promisc_each_def patty_dict_each_until listeners_def case_prod_unfold image_image)
qed

text \<open>No listener has a value other than NULL: the state all operations keep.\<close>

definition promisc_null :: "'p iface \<Rightarrow> bool" where
  "promisc_null iface \<longleftrightarrow> (\<forall>k. patty_dict_get (if_promisc_fds iface) k = None)"

lemma fst_dict_set_None: "fst (dict_set_from n c m b key None) = None"
proof (induction n arbitrary: c b)
  case (Suc n)
  show ?case
    using Suc [of "Suc c" "below (b (nibble c key))"]
    by (cases rule: dict_set_from_Suc_cases [where b = b and c = c and key = key and m = m])
       (auto simp: dict_set_from_Suc split: prod.splits simp del: dict_set_from.simps)
qed simp

lemma get_from_set_None:
  "map_option sval (get_from n c (snd (dict_set_from n c m b key None)) key)
     \<in> {map_option sval (get_from n c b key), Some None}"
proof (induction n arbitrary: c b)
  case (Suc n)
  show ?case
    using Suc [of "Suc c" "below (b (nibble c key))"]
    by (cases rule: dict_set_from_Suc_cases [where b = b and c = c and key = key and m = m])
       (auto simp: dict_set_from_Suc get_from_Suc Let_def split: prod.splits
         simp del: get_from.simps dict_set_from.simps)
qed simp

lemma dict_get_set_None:
  assumes "dict_ok d" and "patty_dict_get d key = None"
  shows "patty_dict_get (snd (patty_dict_set m d key None)) k = (if k = key then None else patty_dict_get d k)"
proof (cases "k = key")
  case False
  with dict_set_other [OF assms(1)] show ?thesis by simp
next
  case True
  with assms(2) get_from_set_None [of 7 0 m d key] show ?thesis
    by (auto simp: patty_dict_get_from patty_dict_set_def bind_map_option [of _ sval] simp del: get_from.simps)
qed

lemma promisc_add_result:
  assumes "dict_ok (if_promisc_fds iface)" and "promisc_null iface"
  shows "fst (patty_ax25_if_promisc_add m iface fd) = Inl ENOMEM"
    and "promisc_null (snd (patty_ax25_if_promisc_add m iface fd))"
    and "dict_ok (if_promisc_fds (snd (patty_ax25_if_promisc_add m iface fd)))"
proof -
  obtain r d where set: "patty_dict_set m (if_promisc_fds iface) (word_of_int fd) None = (r, d)"
    by (rule prod.exhaust)
  have r: "r = None"
    using fst_dict_set_None [of 7 0 m "if_promisc_fds iface" "word_of_int fd"] set
    by (simp add: patty_dict_set_def)
  have null: "\<forall>k. patty_dict_get (if_promisc_fds iface) k = None" using assms(2) by (simp add: promisc_null_def)
  with set r have add: "patty_ax25_if_promisc_add m iface fd = (Inl ENOMEM, iface\<lparr>if_promisc_fds := d\<rparr>)"
    by (simp add: patty_ax25_if_promisc_add_def)
  then show "fst (patty_ax25_if_promisc_add m iface fd) = Inl ENOMEM" by simp
  from dict_get_set_None [OF assms(1) null [rule_format], of m "word_of_int fd"] set null add
  show "promisc_null (snd (patty_ax25_if_promisc_add m iface fd))" by (simp add: promisc_null_def)
  from dict_set_ok [OF assms(1), of m "word_of_int fd" None] set add
  show "dict_ok (if_promisc_fds (snd (patty_ax25_if_promisc_add m iface fd)))" by simp
qed

lemma sint_word_of_int_u32: "- (2 ^ 31) \<le> fd \<Longrightarrow> fd < 2 ^ 31 \<Longrightarrow> sint (word_of_int fd :: u32) = fd"
  by (subst int_word_sint) simp

lemma listeners_add_first:
  assumes "if_promisc_fds iface = patty_dict_new" and "- (2 ^ 31) \<le> fd" and "fd < 2 ^ 31"
  shows "listeners (snd (patty_ax25_if_promisc_add m iface fd)) = [fd]"
proof -
  let ?i = "snd (patty_ax25_if_promisc_add m iface fd)"
  have "if_promisc_fds ?i = snd (patty_dict_set m patty_dict_new (word_of_int fd) None)"
    using assms(1) by (simp add: patty_ax25_if_promisc_add_def split: prod.split)
  then have d: "if_promisc_fds ?i = patty_dict_new(nibble 0 (word_of_int fd) := Slot (word_of_int fd) None True None)"
    by (simp only: dict_set_new)
  have ok: "dict_ok (if_promisc_fds ?i)"
    unfolding d using dict_set_ok [OF dict_ok_new, of m "word_of_int fd" None] by (simp only: dict_set_new)
  have "set (listeners ?i) = {fd}"
    using listeners_iff [OF ok] assms(2,3)
    by (auto simp: d get_from_singleton sint_word_of_int_u32 simp del: get_from.simps fun_upd_apply split: if_splits)
  with listeners_distinct [OF ok] show ?thesis
    by (cases "listeners ?i" rule: list.exhaust; cases "tl (listeners ?i)") auto
qed

section \<open>Properties\<close>

text \<open>What holds of an interface over a KISS device whose frames are at most \<open>len\<close> bytes.\<close>

definition kiss_iface_ok :: "nat \<Rightarrow> tnc iface \<Rightarrow> bool" where
  "kiss_iface_ok len iface \<longleftrightarrow> if_drv iface = patty_kiss_tnc_driver \<and> tnc_drv_ok len (if_phy iface)
     \<and> len \<le> length (if_rx_buf iface) \<and> dict_ok (if_promisc_fds iface)"

lemma kiss_iface_ok_iff: "kiss_iface_ok len iface \<longleftrightarrow> kiss_driver.iface_ok len iface"
  by (simp add: kiss_iface_ok_def kiss_driver.iface_ok_def)

text \<open>The interface that \<open>patty_ax25_if_new\<close> makes of an open KISS device.\<close>

definition kiss_iface :: "int \<Rightarrow> tnc iface" where
  "kiss_iface fd = the (fst (patty_ax25_if_new patty_kiss_tnc_driver
     (\<lambda>w. (Some (tnc_fields fd (replicate 4096 0)), w)) (replicate 4096 0) (replicate 4096 0) (world0 [])))"

lemma kiss_iface_simps [simp]:
  "if_drv (kiss_iface fd) = patty_kiss_tnc_driver" "if_phy (kiss_iface fd) = tnc_fields fd (replicate 4096 0)"
  "if_rx_buf (kiss_iface fd) = replicate 4096 0" "if_promisc_fds (kiss_iface fd) = patty_dict_new"
  "if_aliases (kiss_iface fd) = patty_list_new" "if_addr (kiss_iface fd) = addr_zero"
  by (simp_all add: kiss_iface_def patty_ax25_if_new_def sys_call_def world0_def)

lemma kiss_iface_ok_new: "len \<le> 4096 \<Longrightarrow> kiss_iface_ok len (kiss_iface fd)"
  by (simp add: kiss_iface_ok_def tnc_drv_ok_def tnc_fields_def PATTY_KISS_TNC_BUFSZ_def)

text \<open>
  C22: On a KISS interface in a good state, patty_ax25_if_recv returns whatever the device
  delivers: it neither loops forever nor leaves its buffers, returns at most the length asked
  for, and leaves the interface in a good state again unless it fails.
\<close>
theorem iface_recv_returns:
  assumes "kiss_iface_ok len iface" and "len \<le> length buf"
  shows "\<exists>n iface' buf' w'. patty_ax25_if_recv iface buf len w = Some (n, iface', buf', w')
    \<and> n \<le> int len \<and> length buf' = length buf \<and> (0 \<le> n \<longrightarrow> kiss_iface_ok len iface')"
  using kiss_driver.if_recv_returns [of len iface buf w] assms unfolding kiss_iface_ok_iff by blast

lemma iface_recv_returns_witness:
  "\<exists>n iface' buf' w'. patty_ax25_if_recv (kiss_iface 3) (replicate 1500 0) 1500 (world0 [RBytes [0xc0, 0, 1, 0xc0]])
      = Some (n, iface', buf', w')
    \<and> n \<le> int 1500 \<and> length buf' = length (replicate 1500 (0 :: byte)) \<and> (0 \<le> n \<longrightarrow> kiss_iface_ok 1500 iface')"
  by (rule iface_recv_returns) (simp_all add: kiss_iface_ok_new)

text \<open>
  C30: Every frame an interface delivers is copied as one KISS frame to each of its promiscuous
  listeners, once, and to nobody else.
\<close>
theorem flush_serves_listeners:
  assumes "d_flush (if_drv iface) (if_phy iface) = (n, p)" and "0 < n" and "nat n \<le> length (if_rx_buf iface)"
    and "dict_ok (if_promisc_fds iface)" and "script w = []"
  shows "\<exists>iface' w'. patty_ax25_if_flush iface w = Some (n, iface', w') \<and> listeners iface' = listeners iface
    \<and> (\<forall>fd. stream_of fd (out w') = stream_of fd (out w) @
          (if fd \<in> set (listeners iface) then kiss_frame 0 (take (nat n) (if_rx_buf iface)) else []))"
proof -
  define f :: "if_stats \<Rightarrow> if_stats" where "f = (\<lambda>s. s\<lparr>rx_frames := rx_frames s + 1, rx_bytes := rx_bytes s + of_int n\<rparr>)"
  let ?i = "iface\<lparr>if_phy := d_stats_upd (if_drv iface) f p\<rparr>" and ?buf = "take (nat n) (if_rx_buf iface)"
  have l: "listeners ?i = listeners iface" by (simp add: listeners_def)
  have "dict_ok (if_promisc_fds ?i)" using assms(4) by simp
  from promisc_each_quiet [OF this assms(5), of ?buf] obtain w' where
    e: "promisc_each ?i ?buf w = Some (0, w')" and
    s: "\<forall>fd. stream_of fd (out w') = stream_of fd (out w) @ (if fd \<in> set (listeners iface) then kiss_frame 0 ?buf else [])"
    unfolding l by blast
  have "slice (if_rx_buf iface) 0 (nat n) = Some ?buf" using assms(3) by (simp add: slice_def)
  with assms(1,2) e have "patty_ax25_if_flush iface w = Some (n, ?i, w')"
    by (simp add: patty_ax25_if_flush_def f_def)
  with l s show ?thesis by (intro exI conjI)
qed

lemma flush_serves_listeners_witness:
  "\<exists>iface' w'. patty_ax25_if_flush
       ((snd (patty_ax25_if_promisc_add True (kiss_iface 3) 7))
          \<lparr>if_phy := (tnc_fields 3 (replicate 4096 0))\<lparr>t_offset_o := 5\<rparr>\<rparr>) (world0 []) = Some (5, iface', w')
     \<and> stream_of 7 (out w') = kiss_frame 0 (replicate 5 0)"
proof -
  let ?p = "(tnc_fields 3 (replicate 4096 0))\<lparr>t_offset_o := 5\<rparr>"
  let ?j = "snd (patty_ax25_if_promisc_add True (kiss_iface 3) 7)"
  let ?i = "?j\<lparr>if_phy := ?p\<rparr>"
  have j: "if_drv ?j = patty_kiss_tnc_driver" "if_rx_buf ?j = replicate 4096 0"
    by (simp_all add: patty_ax25_if_promisc_add_def split: prod.split)
  have "listeners ?i = listeners ?j" by (simp add: listeners_def)
  then have l: "listeners ?i = [7]" using listeners_add_first [of "kiss_iface 3" 7 True] by simp
  have "dict_ok (if_promisc_fds ?j)" by (rule promisc_add_result(3)) (simp_all add: promisc_null_def)
  then show ?thesis
    using flush_serves_listeners [of ?i 5 "snd (patty_kiss_tnc_flush ?p)" "world0 []"] l j
    by (force simp: patty_kiss_tnc_driver_def patty_kiss_tnc_flush_def world0_def)
qed

text \<open>
  patty_ax25_if_promisc_add reports ENOMEM for every descriptor, although it registers it:
  the NULL it stores is what it takes for a failure.
\<close>
theorem promisc_add_reports_failure:
  assumes "dict_ok (if_promisc_fds iface)" and "promisc_null iface"
  shows "fst (patty_ax25_if_promisc_add m iface fd) = Inl ENOMEM
    \<and> promisc_null (snd (patty_ax25_if_promisc_add m iface fd))
    \<and> (if_promisc_fds iface = patty_dict_new \<and> - (2 ^ 31) \<le> fd \<and> fd < 2 ^ 31 \<longrightarrow>
         listeners (snd (patty_ax25_if_promisc_add m iface fd)) = [fd])"
  using promisc_add_result [OF assms, of m fd] listeners_add_first [of iface fd m] by blast

lemma promisc_add_reports_failure_witness:
  "fst (patty_ax25_if_promisc_add True (kiss_iface 3) 7) = Inl ENOMEM
   \<and> listeners (snd (patty_ax25_if_promisc_add True (kiss_iface 3) 7)) = [7]"
  using promisc_add_reports_failure [of "kiss_iface 3" True 7] by (simp add: promisc_null_def)

text \<open>After a failed fill the unsigned length is the largest there is, so drain runs off the buffer.\<close>

lemma drain_loop_overreads:
  assumes "t_state tnc = KISS_NONE" and "t_readlen tnc = -1" and "t_offset_o tnc \<noteq> len"
    and "\<forall>c \<in> set (drop (t_offset_i tnc) (t_buf tnc)). c \<noteq> PATTY_KISS_FEND"
    and "length (t_buf tnc) < 2 ^ 64 - 1" and "t_offset_i tnc \<le> length (t_buf tnc)"
  shows "tnc_drain_loop tnc buf len = None"
  using assms
proof (induction "length (t_buf tnc) - t_offset_i tnc" arbitrary: tnc rule: less_induct)
  case less
  have max: "unat (- 1 :: size_t) = 2 ^ 64 - 1" by (simp add: unsigned_minus_1_eq_mask mask_eq_exp_minus_1)
  have loop: "t_offset_i tnc < unat (t_readlen tnc)"
    using less.prems(2,5,6) unfolding less.prems(2) max by linarith
  show ?case
  proof (cases "t_offset_i tnc < length (t_buf tnc)")
    case False
    then show ?thesis using less.prems loop by (simp add: tnc_drain_loop.simps [of tnc] rd_def)
  next
    case True
    let ?c = "t_buf tnc ! t_offset_i tnc" and ?t = "tnc\<lparr>t_offset_i := t_offset_i tnc + 1\<rparr>"
    have "?c \<in> set (drop (t_offset_i tnc) (t_buf tnc))"
      using True by (metis Cons_nth_drop_Suc list.set_intros(1))
    then have byte: "tnc_byte ?c ?t buf = Some (Go, ?t, buf)"
      using less.prems(1,4) by (auto simp: tnc_byte_def)
    have "tnc_drain_loop ?t buf len = None"
      using less.hyps [of ?t] less.prems True
      by (simp add: Cons_nth_drop_Suc [symmetric])
    with byte loop True less.prems(3) show ?thesis
      by (simp add: tnc_drain_loop.simps [of tnc] rd_def)
  qed
qed

text \<open>
  When read fails, patty_kiss_tnc_fill returns -1 but leaves readlen at its largest value;
  a drain that follows, with no frame begun, runs past the end of the input buffer unless a
  byte left over in it happens to start a frame.
\<close>
theorem failed_fill_overread:
  assumes "patty_kiss_tnc_fill tnc w = (-1, tnc', w')" and "t_state tnc = KISS_NONE"
    and "t_offset_o tnc \<noteq> len" and "\<forall>c \<in> set (t_buf tnc). c \<noteq> PATTY_KISS_FEND"
    and "length (t_buf tnc) = PATTY_KISS_TNC_BUFSZ"
  shows "patty_kiss_tnc_drain tnc' buf len = None"
proof -
  have "tnc' = tnc\<lparr>t_readlen := -1, t_offset_i := 0\<rparr>"
    using assms(1) by (auto simp: patty_kiss_tnc_fill_def split: prod.splits sum.splits)
  with assms drain_loop_overreads [of tnc' len buf] show ?thesis
    by (simp add: patty_kiss_tnc_drain_def PATTY_KISS_TNC_BUFSZ_def)
qed

lemma failed_fill_overread_witness:
  "patty_kiss_tnc_drain (fst (snd (patty_kiss_tnc_fill (tnc_fields 3 (replicate 4096 0)) (world0 [RErr EIO]))))
     (replicate 1500 0) 1500 = None"
  by (rule failed_fill_overread [of "tnc_fields 3 (replicate 4096 0)" "world0 [RErr EIO]"
        _ "snd (snd (patty_kiss_tnc_fill (tnc_fields 3 (replicate 4096 0)) (world0 [RErr EIO])))"])
     (simp_all add: patty_kiss_tnc_fill_def sys_read_def world0_def tnc_fields_def PATTY_KISS_TNC_BUFSZ_def)

text \<open>
  Adding an alias to an interface: a callsign the interface already answers to is refused
  with EADDRINUSE and nothing changes; otherwise the interface answers to the new callsign
  and to those it answered to before, and to no other. The caller's address loses its SSID.
\<close>
theorem addr_add_match:
  assumes "list_rep (if_aliases iface) xs" and "p \<noteq> 0" and "p \<notin> fst ` set xs"
  shows "if callsign a \<in> callsign ` snd ` set xs
    then patty_ax25_if_addr_add True (Some (p, junk)) ssid iface a = Some (Inl EADDRINUSE, iface, a)
    else \<exists>iface'. patty_ax25_if_addr_add True (Some (p, junk)) ssid iface a
             = Some (Inr (), iface', a\<lparr>addr_ssid := 0\<rparr>)
         \<and> list_rep (if_aliases iface') (xs @ [(p, a\<lparr>addr_ssid := ssid\<rparr>)])
         \<and> (\<forall>b. patty_ax25_if_addr_match iface' b =
                Some (callsign b = callsign a \<or> patty_ax25_if_addr_match iface b = Some True))"
proof -
  note vals = patty_list_values_rep [OF assms(1)]
  have find: "find_addr iface a = Some (callsign a \<in> callsign ` snd ` set xs)"
    using vals by (auto simp: find_addr_def)
  let ?new = "a\<lparr>addr_ssid := ssid\<rparr>"
  obtain l' where app: "patty_list_append (Some (p, junk)) (if_aliases iface) ?new = Some (Some ?new, l')"
    and rep: "list_rep l' (xs @ [(p, ?new)])"
    by (rule list_rep_append [OF assms])
  let ?iface = "iface\<lparr>if_aliases := l'\<rparr>"
  have al: "\<lparr>callsign = callsign a, addr_ssid = ssid\<rparr> = ?new" by simp
  have "patty_ax25_if_addr_match ?iface b =
      Some (callsign b = callsign a \<or> patty_ax25_if_addr_match iface b = Some True)" for b
    using vals patty_list_values_rep [OF rep]
    by (auto simp: patty_ax25_if_addr_match_def)
  moreover have "callsign a \<notin> callsign ` snd ` set xs \<Longrightarrow>
      patty_ax25_if_addr_add True (Some (p, junk)) ssid iface a = Some (Inr (), ?iface, a\<lparr>addr_ssid := 0\<rparr>)"
    using find app by (simp add: patty_ax25_if_addr_add_def al Let_def del: addr.simps)
  ultimately show ?thesis
    using find rep by (auto simp: patty_ax25_if_addr_add_def)
qed

lemma addr_add_match_witness:
  "\<exists>iface'. patty_ax25_if_addr_add True (Some (1, 0)) 9 (kiss_iface 3) \<lparr>callsign = [1, 2, 3, 4, 5, 6], addr_ssid = 7\<rparr>
      = Some (Inr (), iface', \<lparr>callsign = [1, 2, 3, 4, 5, 6], addr_ssid = 0\<rparr>)
    \<and> patty_ax25_if_addr_match iface' \<lparr>callsign = [1, 2, 3, 4, 5, 6], addr_ssid = 0\<rparr> = Some True"
  using addr_add_match [of "kiss_iface 3" "[]" 1 "\<lparr>callsign = [1, 2, 3, 4, 5, 6], addr_ssid = 7\<rparr>" 0 9]
  by (auto simp: list_rep_new)

end
