(* ===== verification/Patty_Route.thy ===== *)
theory Patty_Route
  imports Patty_If
begin

text \<open>
  Routes: \<open>src/src/route.c\<close>. A route and the interface it leads to are objects of the heap;
  a pointer is a number and 0 is NULL. The table is a dictionary from the hash of the destination
  to the route, and the hash of the empty address stands for the default route. What the table
  promises is proved from the contract \<open>key_store\<close> of the dictionary.
\<close>

section \<open>Operations\<close>

record route =
  rt_iface :: nat
  rt_dest :: addr
  rt_repeaters :: "addr list"
  rt_hops :: size_t

definition route_zero :: route where
  "route_zero = \<lparr>rt_iface = 0, rt_dest = addr_zero,
     rt_repeaters = replicate PATTY_AX25_MAX_HOPS addr_zero, rt_hops = 0\<rparr>"

text \<open>The address that the seven octets of \<open>patty_ax25_addr_copy\<close> make in memory.\<close>

definition copied_addr :: "addr \<Rightarrow> addr" where
  "copied_addr a = (let bs = patty_ax25_addr_copy a 0 in \<lparr>callsign = take 6 bs, addr_ssid = bs ! 6\<rparr>)"

text \<open>
  \<open>patty_ax25_route_new\<close>: the loop copies every repeater to the start of the array, and
  \<open>hops\<close> is never stored. Reading a repeater behind the caller's array is undefined.
\<close>

definition route_repeaters :: "addr list \<Rightarrow> int \<Rightarrow> addr list \<Rightarrow> addr list option" where
  "route_repeaters repeaters hops slots =
     (if nat hops > length repeaters then None
      else Some (fold (\<lambda>i s. s[0 := copied_addr (repeaters ! i)]) [0..<nat hops] slots))"

definition patty_ax25_route_new ::
  "nat \<Rightarrow> addr option \<Rightarrow> addr list \<Rightarrow> int \<Rightarrow> world \<Rightarrow> (route cres \<times> world) option" where
  "patty_ax25_route_new iface dest repeaters hops w =
     (if hops \<ge> int PATTY_AX25_MAX_HOPS then Some (Inl EOVERFLOW, w)
      else case sys_call w of (r, w) \<Rightarrow>
        if r < 0 then Some (Inl ENOMEM, w)
        else let route = route_zero\<lparr>rt_iface := iface\<rparr>;
                 route = (case dest of None \<Rightarrow> route | Some d \<Rightarrow> route\<lparr>rt_dest := copied_addr d\<rparr>) in
             do { rs \<leftarrow> route_repeaters repeaters hops (rt_repeaters route);
                  Some (Inr (route\<lparr>rt_repeaters := rs\<rparr>), w) })"

definition patty_ax25_route_new_default :: "nat \<Rightarrow> world \<Rightarrow> (route cres \<times> world) option" where
  "patty_ax25_route_new_default iface w = patty_ax25_route_new iface None [] 0 w"

type_synonym route_table = "nat bucket"

definition patty_ax25_route_table_new :: route_table where
  "patty_ax25_route_table_new = patty_dict_new"

text \<open>The key of an address: \<open>hash_addr\<close> of server.c, written out in every function of route.c.\<close>

definition hash_addr :: "addr \<Rightarrow> u32" where
  "hash_addr a = patty_hash_end (patty_ax25_addr_hash patty_hash_init a)"

definition patty_ax25_route_table_default :: "route_table \<Rightarrow> nat option" where
  "patty_ax25_route_table_default table = patty_dict_get table (hash_addr addr_zero)"

definition patty_ax25_route_table_find :: "route_table \<Rightarrow> addr \<Rightarrow> nat option" where
  "patty_ax25_route_table_find table dest =
     (case patty_dict_get table (hash_addr dest) of
        Some route \<Rightarrow> Some route
      | None \<Rightarrow> patty_ax25_route_table_default table)"

definition each_dict_callback :: "(nat option \<Rightarrow> 's \<Rightarrow> (int \<times> 's) option) \<Rightarrow> u32 \<Rightarrow> nat option \<Rightarrow> 's \<Rightarrow> (int \<times> 's) option" where
  "each_dict_callback callback key value ctx = callback value ctx"

definition patty_ax25_route_table_each ::
  "('s \<Rightarrow> route_table) \<Rightarrow> (nat option \<Rightarrow> 's \<Rightarrow> (int \<times> 's) option) \<Rightarrow> 's \<Rightarrow> (int \<times> 's) option" where
  "patty_ax25_route_table_each table callback ctx = patty_dict_each table (each_dict_callback callback) ctx"

text \<open>\<open>p\<close> is the pointer to \<open>route\<close>; \<open>m\<close> the outcome of the allocation in \<open>patty_dict_set\<close>.\<close>

definition patty_ax25_route_table_add ::
  "bool \<Rightarrow> route_table \<Rightarrow> nat \<Rightarrow> route \<Rightarrow> unit cres \<times> route_table" where
  "patty_ax25_route_table_add m table p route =
     (if patty_ax25_route_table_find table (rt_dest route) \<noteq> None then (Inl EEXIST, table)
      else case patty_dict_set m table (hash_addr (rt_dest route)) (Some p) of
             (r, table) \<Rightarrow> (if r = None then Inl ENOMEM else Inr (), table))"

definition patty_ax25_route_table_delete :: "route_table \<Rightarrow> addr \<Rightarrow> int \<times> route_table" where
  "patty_ax25_route_table_delete table dest = patty_dict_delete table (hash_addr dest)"

section \<open>Properties\<close>

text \<open>
  Adding a route. It is refused with EEXIST when a lookup of its destination already
  succeeds, and then the table is unchanged; otherwise, if the dictionary accepts it, a lookup
  of any destination with its key finds it and the keyed lookup of all others is unchanged.
\<close>
theorem route_add_find:
  assumes "dict_ok table" and "patty_ax25_route_table_add m table p route = (r, table')"
  shows "dict_ok table'
    \<and> (patty_ax25_route_table_find table (rt_dest route) \<noteq> None \<longrightarrow> r = Inl EEXIST \<and> table' = table)
    \<and> (r = Inr () \<longrightarrow> (\<forall>d. patty_dict_get table' (hash_addr d) =
         (if hash_addr d = hash_addr (rt_dest route) then Some p else patty_dict_get table (hash_addr d)))
         \<and> patty_ax25_route_table_find table' (rt_dest route) = Some p)
    \<and> (r \<noteq> Inr () \<longrightarrow> patty_dict_get table' = patty_dict_get table)"
proof (cases "patty_ax25_route_table_find table (rt_dest route)")
  case (Some q)
  with assms show ?thesis by (auto simp: patty_ax25_route_table_add_def)
next
  case None
  obtain x t where s: "patty_dict_set m table (hash_addr (rt_dest route)) (Some p) = (x, t)" by (rule prod.exhaust)
  with None assms(2) have r: "r = (if x = None then Inl ENOMEM else Inr ())" "table' = t"
    by (simp_all add: patty_ax25_route_table_add_def split: if_splits)
  have ok: "dict_ok t" using dict.invar_store [OF assms(1), of m "hash_addr (rt_dest route)" "Some p"] s by simp
  show ?thesis
  proof (cases x)
    case x: None
    then have "patty_dict_get t = patty_dict_get table"
      using dict.store_unchanged [OF assms(1), of m "hash_addr (rt_dest route)" p] s by simp
    with r x ok None show ?thesis by simp
  next
    case x: (Some y)
    then have "patty_dict_get t = (patty_dict_get table)(hash_addr (rt_dest route) \<mapsto> p)"
      using dict.store_update [OF assms(1), of m "hash_addr (rt_dest route)" p y] s by simp
    with r x ok None show ?thesis by (simp add: patty_ax25_route_table_find_def)
  qed
qed

text \<open>A station, and the table with a default route that the code's own operations make.\<close>

definition sample_addr :: addr where
  "sample_addr = \<lparr>callsign = [0x96, 0xb4, 0x66, 0xa4, 0x9e, 0xa6], addr_ssid = 0x02\<rparr>"

definition default_table :: route_table where
  "default_table = snd (patty_ax25_route_table_add True patty_ax25_route_table_new 8 route_zero)"

lemma default_table: "dict_ok default_table" "patty_ax25_route_table_default default_table = Some 8"
proof -
  have s: "default_table = snd (patty_dict_set True patty_dict_new (hash_addr addr_zero) (Some 8))"
    by (simp add: default_table_def patty_ax25_route_table_add_def patty_ax25_route_table_new_def
        patty_ax25_route_table_find_def patty_ax25_route_table_default_def route_zero_def dict_set_new_eq)
  show "dict_ok default_table" unfolding s by simp
  show "patty_ax25_route_table_default default_table = Some 8"
    unfolding s patty_ax25_route_table_default_def
    by (rule dict_set_same [THEN conjunct2]) (simp add: dict_set_new_eq)
qed

lemma route_add_find_witness:
  "fst (patty_ax25_route_table_add True patty_ax25_route_table_new 16 (route_zero\<lparr>rt_dest := sample_addr\<rparr>)) = Inr ()
   \<and> patty_ax25_route_table_find
       (snd (patty_ax25_route_table_add True patty_ax25_route_table_new 16 (route_zero\<lparr>rt_dest := sample_addr\<rparr>))) sample_addr
     = Some 16"
proof -
  let ?route = "route_zero\<lparr>rt_dest := sample_addr\<rparr>"
  obtain r t where a: "patty_ax25_route_table_add True patty_ax25_route_table_new 16 ?route = (r, t)" by (rule prod.exhaust)
  from a have "r = Inr ()"
    by (simp add: patty_ax25_route_table_add_def patty_ax25_route_table_new_def patty_ax25_route_table_find_def
        patty_ax25_route_table_default_def dict_set_new_eq)
  with route_add_find [OF _ a] a show ?thesis by (simp add: patty_ax25_route_table_new_def)
qed

text \<open>
  Once a default route exists, no other route can be added: the test for an existing route
  falls back to the default.
\<close>
theorem default_route_blocks:
  assumes "patty_ax25_route_table_default table \<noteq> None"
  shows "patty_ax25_route_table_add m table p route = (Inl EEXIST, table)"
  using assms by (auto simp: patty_ax25_route_table_add_def patty_ax25_route_table_find_def split: option.splits)

lemma default_route_blocks_witness:
  "patty_ax25_route_table_add True default_table 16 (route_zero\<lparr>rt_dest := sample_addr\<rparr>) = (Inl EEXIST, default_table)"
  by (rule default_route_blocks) (simp add: default_table)

text \<open>
  The path of a route is lost: of the repeaters given to patty_ax25_route_new only the last
  one is kept, in the first place, and the number of hops stays 0.
\<close>
theorem route_new_loses_path:
  assumes "script w = []" and "hops < int PATTY_AX25_MAX_HOPS" and "nat hops = length repeaters"
  shows "\<exists>route. patty_ax25_route_new iface dest repeaters hops w = Some (Inr route, w)
    \<and> rt_hops route = 0 \<and> rt_iface route = iface
    \<and> rt_repeaters route = (if repeaters = [] then replicate 8 addr_zero
         else copied_addr (last repeaters) # replicate 7 addr_zero)"
proof -
  have loop: "n \<noteq> 0 \<Longrightarrow> fold (\<lambda>i s. s[0 := copied_addr (repeaters ! i)]) [0..<n] slots
      = slots[0 := copied_addr (repeaters ! (n - 1))]" for n and slots :: "addr list"
  proof (induction n)
    case (Suc n)
    then show ?case by (cases "n = 0") simp_all
  qed simp
  have "replicate 8 addr_zero = addr_zero # replicate 7 addr_zero" by (simp add: eval_nat_numeral)
  then have "route_repeaters repeaters hops (replicate 8 addr_zero) = Some (if repeaters = [] then replicate 8 addr_zero
         else copied_addr (last repeaters) # replicate 7 addr_zero)"
    using assms(3) loop [of "length repeaters" "replicate 8 addr_zero"]
    by (simp add: route_repeaters_def last_conv_nth)
  then show ?thesis
    using assms(1,2)
    by (auto simp: patty_ax25_route_new_def sys_call_def route_zero_def PATTY_AX25_MAX_HOPS_def Let_def split: option.splits)
qed

lemma route_new_loses_path_witness:
  "\<exists>route. patty_ax25_route_new 1 None [sample_addr, sample_addr\<lparr>addr_ssid := 4\<rparr>] 2 (world0 []) = Some (Inr route, world0 [])
    \<and> rt_hops route = 0"
  using route_new_loses_path [of "world0 []" 2 "[sample_addr, sample_addr\<lparr>addr_ssid := 4\<rparr>]" 1 None]
  by (auto simp: world0_def PATTY_AX25_MAX_HOPS_def)

end
