(* ===== verification/Patty_Timer.thy ===== *)
theory Patty_Timer
  imports Patty_Prelude
begin

text \<open>
  The countdown timers of \<open>src/src/timer.c\<close>. \<open>time_t\<close>, \<open>tv_sec\<close> and \<open>tv_nsec\<close> are
  signed 64-bit integers that stay far from their bounds; they are modelled as \<open>int\<close>, with
  C's truncating division. The remaining time of a timer is \<open>total (tmr_t x)\<close>
  nanoseconds; the lemmas say when \<open>patty_timer_sub\<close> subtracts it exactly and by how much
  it is off otherwise.
\<close>

record timespec =
  tv_sec :: int
  tv_nsec :: int

record timer =
  tmr_ms :: int
  tmr_t :: timespec
  tmr_flags :: u32

definition PATTY_TIMER_RUNNING :: u32 where
  "PATTY_TIMER_RUNNING = 1"

definition timer_zero :: timer where
  "timer_zero = \<lparr>tmr_ms = 0, tmr_t = \<lparr>tv_sec = 0, tv_nsec = 0\<rparr>, tmr_flags = 0\<rparr>"

definition patty_timer_init :: "timer \<Rightarrow> int \<Rightarrow> timer" where
  "patty_timer_init timer ms = timer\<lparr>tmr_ms := ms\<rparr>"

definition patty_timer_running :: "timer \<Rightarrow> bool" where
  "patty_timer_running timer \<longleftrightarrow> tmr_flags timer AND PATTY_TIMER_RUNNING \<noteq> 0"

definition patty_timer_expired :: "timer \<Rightarrow> bool" where
  "patty_timer_expired timer =
     (if tmr_flags timer AND PATTY_TIMER_RUNNING = 0 then False
      else tv_sec (tmr_t timer) < 0
         \<or> (tv_sec (tmr_t timer) = 0 \<and> tv_nsec (tmr_t timer) \<le> 0))"

definition patty_timer_clear :: "timer \<Rightarrow> timer" where
  "patty_timer_clear timer =
     timer\<lparr>tmr_t := \<lparr>tv_sec = 0, tv_nsec = 0\<rparr>,
           tmr_flags := tmr_flags timer AND NOT PATTY_TIMER_RUNNING\<rparr>"

definition patty_timer_start :: "timer \<Rightarrow> timer" where
  "patty_timer_start timer =
     timer\<lparr>tmr_t := \<lparr>tv_sec = c_div (tmr_ms timer) 1000,
                     tv_nsec = c_mod (tmr_ms timer) 1000 * 1000000\<rparr>,
           tmr_flags := tmr_flags timer OR PATTY_TIMER_RUNNING\<rparr>"

definition patty_timer_stop :: "timer \<Rightarrow> timer" where
  "patty_timer_stop timer = timer\<lparr>tmr_flags := tmr_flags timer AND NOT PATTY_TIMER_RUNNING\<rparr>"

definition patty_timer_sub :: "timespec \<Rightarrow> timespec \<Rightarrow> timespec" where
  "patty_timer_sub a b =
     (let ns = tv_nsec a - tv_nsec b
      in \<lparr>tv_sec = tv_sec a - tv_sec b - c_div ns 1000000000, tv_nsec = c_mod ns 1000000000\<rparr>)"

definition patty_timer_tick :: "timer \<Rightarrow> timespec \<Rightarrow> timer" where
  "patty_timer_tick timer elapsed =
     (if tmr_flags timer AND PATTY_TIMER_RUNNING = 0 then timer
      else timer\<lparr>tmr_t := patty_timer_sub (tmr_t timer) elapsed\<rparr>)"

lemmas timer_ops [ops] =
  patty_timer_init_def patty_timer_clear_def patty_timer_start_def patty_timer_stop_def

section \<open>Flags\<close>

lemma running_bit: "tmr_flags x AND PATTY_TIMER_RUNNING = 0 \<longleftrightarrow> \<not> bit (tmr_flags x) 0"
  by (simp add: PATTY_TIMER_RUNNING_def and_one_eq bit_0 even_iff_mod_2_eq_zero)

lemma running_start [simp]: "patty_timer_running (patty_timer_start x)"
  by (simp add: patty_timer_running_def running_bit patty_timer_start_def PATTY_TIMER_RUNNING_def bit_simps)

lemma cleared_flag: "(f AND NOT PATTY_TIMER_RUNNING) AND PATTY_TIMER_RUNNING = 0"
  by (rule bit_eqI) (simp add: bit_simps)

lemma not_running_stop [simp]: "\<not> patty_timer_running (patty_timer_stop x)"
  by (simp add: patty_timer_running_def patty_timer_stop_def cleared_flag)

lemma not_running_clear [simp]: "\<not> patty_timer_running (patty_timer_clear x)"
  by (simp add: patty_timer_running_def patty_timer_clear_def cleared_flag)

lemma running_tick [simp]: "patty_timer_running (patty_timer_tick x e) = patty_timer_running x"
  by (simp add: patty_timer_running_def patty_timer_tick_def)

lemma running_upd [simp]: "patty_timer_running (x\<lparr>tmr_t := a\<rparr>) = patty_timer_running x"
  by (simp add: patty_timer_running_def)

lemma tick_stopped: "\<not> patty_timer_running x \<Longrightarrow> patty_timer_tick x e = x"
  by (simp add: patty_timer_running_def patty_timer_tick_def)

lemma tick_running:
  "patty_timer_running x \<Longrightarrow> patty_timer_tick x e = x\<lparr>tmr_t := patty_timer_sub (tmr_t x) e\<rparr>"
  by (simp add: patty_timer_running_def patty_timer_tick_def)

lemma expired_running: "patty_timer_expired x \<Longrightarrow> patty_timer_running x"
  by (simp add: patty_timer_expired_def patty_timer_running_def split: if_splits)

section \<open>Time\<close>

definition total :: "timespec \<Rightarrow> int" where
  "total a = tv_sec a * 1000000000 + tv_nsec a"

text \<open>What \<open>clock_gettime\<close> returns and \<open>patty_timer_start\<close> sets.\<close>

definition canonical :: "timespec \<Rightarrow> bool" where
  "canonical a \<longleftrightarrow> 0 \<le> tv_nsec a \<and> tv_nsec a < 1000000000"

lemma start_total:
  assumes "0 \<le> tmr_ms x"
  shows "total (tmr_t (patty_timer_start x)) = tmr_ms x * 1000000"
    and "canonical (tmr_t (patty_timer_start x))"
proof -
  have "tmr_ms x div 1000 * 1000 + tmr_ms x mod 1000 = tmr_ms x" by simp
  then have "tmr_ms x div 1000 * 1000000000 + tmr_ms x mod 1000 * 1000000 = tmr_ms x * 1000000"
    by linarith
  with assms show "total (tmr_t (patty_timer_start x)) = tmr_ms x * 1000000"
    by (simp add: total_def patty_timer_start_def c_div_nonneg c_mod_nonneg)
  have "0 \<le> tmr_ms x mod 1000" "tmr_ms x mod 1000 < 1000" by simp_all
  with assms show "canonical (tmr_t (patty_timer_start x))"
    unfolding canonical_def by (simp add: patty_timer_start_def c_mod_nonneg)
qed

text \<open>
  The carry of the nanoseconds is subtracted from the seconds where it has to be added: the
  difference is exact only while the nanoseconds differ by less than a second.
\<close>

lemma sub_total:
  "total (patty_timer_sub a b)
     = total a - total b - 2 * (c_div (tv_nsec a - tv_nsec b) 1000000000 * 1000000000)"
  by (simp add: total_def patty_timer_sub_def Let_def c_mod_def)

lemma sub_exact:
  "\<bar>tv_nsec a - tv_nsec b\<bar> < 1000000000 \<Longrightarrow> total (patty_timer_sub a b) = total a - total b"
  by (simp add: sub_total c_div_small)

lemma sub_canonical_exact:
  "canonical a \<Longrightarrow> canonical b \<Longrightarrow> total (patty_timer_sub a b) = total a - total b"
  by (rule sub_exact) (auto simp: canonical_def)

lemma sub_nsec_bound: "\<bar>tv_nsec (patty_timer_sub a b)\<bar> < 1000000000"
  by (simp add: patty_timer_sub_def Let_def c_mod_bound)

lemma expired_total:
  assumes "\<bar>tv_nsec (tmr_t x)\<bar> < 1000000000"
  shows "patty_timer_expired x \<longleftrightarrow> patty_timer_running x \<and> total (tmr_t x) \<le> 0"
proof -
  have "total (tmr_t x) \<le> 0 \<longleftrightarrow>
      tv_sec (tmr_t x) < 0 \<or> (tv_sec (tmr_t x) = 0 \<and> tv_nsec (tmr_t x) \<le> 0)"
    using assms unfolding total_def by auto
  then show ?thesis by (simp add: patty_timer_expired_def patty_timer_running_def)
qed

text \<open>A run of the event loop that finds the same elapsed time in every iteration.\<close>

fun ticks :: "nat \<Rightarrow> timespec \<Rightarrow> timer \<Rightarrow> timer" where
  "ticks 0 e x = x"
| "ticks (Suc n) e x = patty_timer_tick (ticks n e x) e"

lemma ticks_add: "ticks (m + n) e x = ticks m e (ticks n e x)"
  by (induction m) auto

lemma running_ticks [simp]: "patty_timer_running (ticks n e x) = patty_timer_running x"
  by (induction n) auto

text \<open>Five ticks of 0.6 seconds add three seconds to the timer instead of taking three off.\<close>

lemma five_ticks:
  assumes "patty_timer_running x" and "tv_nsec (tmr_t x) = 0"
    and "e = \<lparr>tv_sec = 0, tv_nsec = 600000000\<rparr>" and "i < 5"
  shows "tv_sec (tmr_t (ticks i e x)) \<ge> tv_sec (tmr_t x)"
    and "tmr_t (ticks 5 e x) = \<lparr>tv_sec = tv_sec (tmr_t x) + 3, tv_nsec = 0\<rparr>"
proof -
  obtain s where s: "tmr_t x = \<lparr>tv_sec = s, tv_nsec = 0\<rparr>"
    using assms(2) by (cases "tmr_t x") auto
  have step: "tmr_t (ticks (Suc n) e x) = patty_timer_sub (tmr_t (ticks n e x)) e" for n
    using assms(1) by (simp add: tick_running)
  note sub = patty_timer_sub_def c_div_def c_mod_def assms(3)
  have 1: "tmr_t (ticks 1 e x) = \<lparr>tv_sec = s, tv_nsec = -600000000\<rparr>"
    using step [of 0] s by (simp add: sub)
  have 2: "tmr_t (ticks 2 e x) = \<lparr>tv_sec = s + 1, tv_nsec = -200000000\<rparr>"
    using step [of 1] 1 by (simp add: sub numeral_2_eq_2 del: ticks.simps)
  have 3: "tmr_t (ticks 3 e x) = \<lparr>tv_sec = s + 1, tv_nsec = -800000000\<rparr>"
    using step [of 2] 2 by (simp add: sub del: ticks.simps)
  have 4: "tmr_t (ticks 4 e x) = \<lparr>tv_sec = s + 2, tv_nsec = -400000000\<rparr>"
    using step [of 3] 3 by (simp add: sub del: ticks.simps)
  show "tmr_t (ticks 5 e x) = \<lparr>tv_sec = tv_sec (tmr_t x) + 3, tv_nsec = 0\<rparr>"
    using step [of 4] 4 s by (simp add: sub del: ticks.simps)
  have "i \<in> {0, 1, 2, 3, 4}" using assms(4) by auto
  then show "tv_sec (tmr_t (ticks i e x)) \<ge> tv_sec (tmr_t x)"
    using 1 2 3 4 s by (auto simp del: ticks.simps(2))
qed

lemma ticks_grow:
  assumes "patty_timer_running x" and "tv_nsec (tmr_t x) = 0"
    and "e = \<lparr>tv_sec = 0, tv_nsec = 600000000\<rparr>"
  shows "tmr_t (ticks (5 * k) e x) = \<lparr>tv_sec = tv_sec (tmr_t x) + 3 * int k, tv_nsec = 0\<rparr>"
proof (induction k)
  case 0
  then show ?case using assms(2) by (cases "tmr_t x") simp
next
  case (Suc k)
  have "ticks (5 * Suc k) e x = ticks 5 e (ticks (5 * k) e x)" by (simp flip: ticks_add)
  with Suc five_ticks(2) [of "ticks (5 * k) e x" e 0] assms show ?case by simp
qed

section \<open>Properties\<close>

lemma ticks_exact:
  assumes "patty_timer_running x" and "\<forall>e \<in> set es. 0 \<le> tv_nsec e" 
    and "(\<Sum>e \<leftarrow> es. tv_nsec e) - tv_nsec (tmr_t x) < 1000000000" and "\<bar>tv_nsec (tmr_t x)\<bar> < 1000000000"
  shows "total (tmr_t (fold (\<lambda>e x. patty_timer_tick x e) es x)) = total (tmr_t x) - (\<Sum>e \<leftarrow> es. total e)
    \<and> \<bar>tv_nsec (tmr_t (fold (\<lambda>e x. patty_timer_tick x e) es x))\<bar> < 1000000000
    \<and> patty_timer_running (fold (\<lambda>e x. patty_timer_tick x e) es x)"
  using assms
proof (induction es arbitrary: x)
  case (Cons e es)
  let ?d = "tv_nsec (tmr_t x) - tv_nsec e"
  have pos: "0 \<le> (\<Sum>e \<leftarrow> es. tv_nsec e)" using Cons.prems(2) by (intro sum_list_nonneg) auto
  with Cons.prems(2-4) have d: "\<bar>?d\<bar> < 1000000000" by auto
  let ?x = "patty_timer_tick x e"
  have x: "tmr_t ?x = patty_timer_sub (tmr_t x) e" using Cons.prems(1) by (simp add: tick_running)
  have ns: "tv_nsec (tmr_t ?x) = ?d"
    using d by (simp add: x patty_timer_sub_def Let_def c_mod_small)
  have "total (tmr_t ?x) = total (tmr_t x) - total e" using d by (simp add: x sub_exact)
  with Cons.IH [of ?x] Cons.prems ns d show ?case by simp
qed simp

text \<open>
  C12: A timer of a positive number of milliseconds, once started, expires exactly when the time
  that the ticks have reported adds up to that many, as long as the nanoseconds of the ticks
  add up to less than a second.
\<close>
theorem timer_expires_on_time:
  assumes "0 \<le> tmr_ms x" and "\<forall>e \<in> set es. 0 \<le> tv_nsec e" and "(\<Sum>e \<leftarrow> es. tv_nsec e) < 1000000000"
  shows "patty_timer_expired (fold (\<lambda>e x. patty_timer_tick x e) es (patty_timer_start x))
    \<longleftrightarrow> tmr_ms x * 1000000 \<le> (\<Sum>e \<leftarrow> es. total e)"
proof -
  note s = start_total [OF assms(1)]
  have n: "\<bar>tv_nsec (tmr_t (patty_timer_start x))\<bar> < 1000000000" using s(2) by (auto simp: canonical_def)
  have "(\<Sum>e \<leftarrow> es. tv_nsec e) - tv_nsec (tmr_t (patty_timer_start x)) < 1000000000"
    using s(2) assms(3) by (auto simp: canonical_def)
  from ticks_exact [OF running_start assms(2) this n] s(1) show ?thesis
    by (simp add: expired_total)
qed

lemma timer_expires_on_time_witness:
  "patty_timer_expired (fold (\<lambda>e x. patty_timer_tick x e)
     [\<lparr>tv_sec = 1, tv_nsec = 0\<rparr>, \<lparr>tv_sec = 0, tv_nsec = 500000000\<rparr>]
     (patty_timer_start (patty_timer_init timer_zero 1500)))"
  using timer_expires_on_time [of "patty_timer_init timer_zero 1500"
      "[\<lparr>tv_sec = 1, tv_nsec = 0\<rparr>, \<lparr>tv_sec = 0, tv_nsec = 500000000\<rparr>]"]
  by (simp add: total_def patty_timer_init_def)

text \<open>
  C33: With an event loop that wakes up every 0.6 seconds, a timer of a whole number of seconds
  never expires: the wrong sign of the carry makes it run up instead of down.
\<close>
theorem timer_never_expires:
  assumes "0 < s" and "tmr_ms x = 1000 * s"
  shows "\<not> patty_timer_expired (ticks n \<lparr>tv_sec = 0, tv_nsec = 600000000\<rparr> (patty_timer_start x))"
proof -
  let ?e = "\<lparr>tv_sec = 0, tv_nsec = 600000000\<rparr>" and ?x = "patty_timer_start x"
  have x: "tmr_t ?x = \<lparr>tv_sec = s, tv_nsec = 0\<rparr>"
    using assms by (simp add: patty_timer_start_def c_div_nonneg c_mod_nonneg)
  let ?y = "ticks (5 * (n div 5)) ?e ?x"
  have y: "tmr_t ?y = \<lparr>tv_sec = s + 3 * int (n div 5), tv_nsec = 0\<rparr>"
    using ticks_grow [of ?x ?e "n div 5"] x by simp
  have "ticks n ?e ?x = ticks (n mod 5) ?e ?y"
    by (subst ticks_add [symmetric]) simp
  moreover have "tv_sec (tmr_t ?y) \<le> tv_sec (tmr_t (ticks (n mod 5) ?e ?y))"
    using y by (intro five_ticks(1)) simp_all
  ultimately show ?thesis using y assms(1) by (simp add: patty_timer_expired_def)
qed

lemma timer_never_expires_witness:
  "\<not> patty_timer_expired (ticks 1000000 \<lparr>tv_sec = 0, tv_nsec = 600000000\<rparr>
     (patty_timer_start (patty_timer_init timer_zero 3000)))"
  by (rule timer_never_expires [of 3]) (simp_all add: patty_timer_init_def)

end
