(* ===== verification/Patty_Sock.thy ===== *)
theory Patty_Sock
  imports Patty_Route Patty_Timer
begin

text \<open>
  Sockets: \<open>src/src/sock.c\<close> and \<open>src/include/patty/ax25/sock.h\<close>. The operations that send
  work on a \<open>link\<close>: the socket, the interface its \<open>iface\<close> pointer leads to (\<open>None\<close> for
  NULL) and the system.

  The transmit slots are one allocation, cut into records of the size that the current transmit
  length gives. The model remembers the record size of the allocation; using it with another
  record size, or an index behind its end, is undefined (\<open>None\<close>), as is storing more than fits
  a record. Lengths are 64-bit words and wrap. The sequence variables are \<open>int\<close>s.
\<close>

section \<open>Data\<close>

text \<open>A type that a client sends need not be one of the three.\<close>

datatype sock_type = PATTY_AX25_SOCK_STREAM | PATTY_AX25_SOCK_DGRAM | PATTY_AX25_SOCK_RAW
  | SOCK_TYPE_OTHER int

datatype sock_state = PATTY_AX25_SOCK_CLOSED | PATTY_AX25_SOCK_LISTENING
  | PATTY_AX25_SOCK_PENDING_ACCEPT | PATTY_AX25_SOCK_PENDING_CONNECT
  | PATTY_AX25_SOCK_PENDING_DISCONNECT | PATTY_AX25_SOCK_ESTABLISHED | PATTY_AX25_SOCK_PROMISC

datatype sock_mode = PATTY_AX25_SOCK_DM | PATTY_AX25_SOCK_SABM | PATTY_AX25_SOCK_SABME

datatype sock_flow = PATTY_AX25_SOCK_WAIT | PATTY_AX25_SOCK_READY

record tx_slot =
  ts_len :: size_t
  ts_ack :: bool
  ts_data :: "byte list"

definition slot_empty :: tx_slot where
  "slot_empty = \<lparr>ts_len = 0, ts_ack = False, ts_data = []\<rparr>"

text \<open>The allocation at \<open>tx_slots\<close>: the size of a record when it was made, and its records.\<close>

record slots =
  sl_size :: nat
  sl_list :: "tx_slot list"

record assembler =
  a_total :: size_t
  a_remaining :: size_t
  a_offset :: size_t
  a_buf :: "byte list"

record sock =
  s_proto :: byte
  s_type :: sock_type
  s_version :: ax25_version
  s_state :: sock_state
  s_mode :: sock_mode
  s_flow :: sock_flow
  s_iface :: nat
  s_local :: addr
  s_remote :: addr
  s_repeaters :: "addr list"
  s_hops :: nat
  s_raw :: "tnc option"
  s_fd :: int
  s_pty :: cstring
  s_tx_buf :: "byte list option"
  s_io_buf :: "byte list option"
  s_tx_slots :: "slots option"
  s_assembler :: "assembler option"
  s_flags_classes :: u32
  s_flags_hdlc :: u32
  s_n_maxlen_tx :: size_t
  s_n_maxlen_rx :: size_t
  s_n_window_tx :: size_t
  s_n_window_rx :: size_t
  s_n_ack :: size_t
  s_n_retry :: size_t
  s_timer_t1 :: timer
  s_timer_t2 :: timer
  s_timer_t3 :: timer
  s_vs :: int
  s_vr :: int
  s_va :: int
  s_retries :: size_t
  s_rx_pending :: size_t

definition sock_zero :: sock where
  "sock_zero = \<lparr>s_proto = 0, s_type = PATTY_AX25_SOCK_STREAM, s_version = PATTY_AX25_OLD,
     s_state = PATTY_AX25_SOCK_CLOSED, s_mode = PATTY_AX25_SOCK_DM, s_flow = PATTY_AX25_SOCK_WAIT,
     s_iface = 0, s_local = addr_zero, s_remote = addr_zero,
     s_repeaters = replicate PATTY_AX25_MAX_HOPS addr_zero, s_hops = 0, s_raw = None, s_fd = 0, s_pty = [],
     s_tx_buf = None, s_io_buf = None, s_tx_slots = None, s_assembler = None,
     s_flags_classes = 0, s_flags_hdlc = 0, s_n_maxlen_tx = 0, s_n_maxlen_rx = 0,
     s_n_window_tx = 0, s_n_window_rx = 0, s_n_ack = 0, s_n_retry = 0,
     s_timer_t1 = timer_zero, s_timer_t2 = timer_zero, s_timer_t3 = timer_zero,
     s_vs = 0, s_vr = 0, s_va = 0, s_retries = 0, s_rx_pending = 0\<rparr>"

definition PATTY_AX25_SOCK_DEFAULT_DELAY :: int where "PATTY_AX25_SOCK_DEFAULT_DELAY = 3000"
definition PATTY_AX25_SOCK_DEFAULT_KEEPALIVE :: int where "PATTY_AX25_SOCK_DEFAULT_KEEPALIVE = 1000 * 30"
definition PATTY_AX25_SOCK_DEFAULT_CLASSES :: u32 where
  "PATTY_AX25_SOCK_DEFAULT_CLASSES = PATTY_AX25_PARAM_CLASSES_ABM"
definition PATTY_AX25_SOCK_DEFAULT_HDLC :: u32 where
  "PATTY_AX25_SOCK_DEFAULT_HDLC = PATTY_AX25_PARAM_HDLC_REJ OR PATTY_AX25_PARAM_HDLC_XADDR
     OR PATTY_AX25_PARAM_HDLC_MODULO_8 OR PATTY_AX25_PARAM_HDLC_TEST OR PATTY_AX25_PARAM_HDLC_SYNC_TX"
definition PATTY_AX25_SOCK_DEFAULT_I_LEN :: size_t where "PATTY_AX25_SOCK_DEFAULT_I_LEN = 127"
definition PATTY_AX25_SOCK_DEFAULT_WINDOW :: size_t where "PATTY_AX25_SOCK_DEFAULT_WINDOW = 4"
definition PATTY_AX25_SOCK_DEFAULT_RETRY :: size_t where "PATTY_AX25_SOCK_DEFAULT_RETRY = 10"
definition PATTY_AX25_SOCK_DEFAULT_ACK :: size_t where "PATTY_AX25_SOCK_DEFAULT_ACK = 3000"
definition PATTY_AX25_SOCK_2_2_DEFAULT_HDLC :: u32 where
  "PATTY_AX25_SOCK_2_2_DEFAULT_HDLC = PATTY_AX25_PARAM_HDLC_REJ OR PATTY_AX25_PARAM_HDLC_SREJ
     OR PATTY_AX25_PARAM_HDLC_XADDR OR PATTY_AX25_PARAM_HDLC_MODULO_128 OR PATTY_AX25_PARAM_HDLC_TEST
     OR PATTY_AX25_PARAM_HDLC_FCS_16 OR PATTY_AX25_PARAM_HDLC_SYNC_TX"
definition PATTY_AX25_SOCK_2_2_DEFAULT_I_LEN :: size_t where "PATTY_AX25_SOCK_2_2_DEFAULT_I_LEN = 255"
definition PATTY_AX25_SOCK_2_2_DEFAULT_WINDOW :: size_t where "PATTY_AX25_SOCK_2_2_DEFAULT_WINDOW = 32"
definition PATTY_AX25_SOCK_2_2_MAX_HDLC :: u32 where
  "PATTY_AX25_SOCK_2_2_MAX_HDLC = PATTY_AX25_PARAM_HDLC_REJ OR PATTY_AX25_PARAM_HDLC_SREJ
     OR PATTY_AX25_PARAM_HDLC_XADDR OR PATTY_AX25_PARAM_HDLC_MODULO_128 OR PATTY_AX25_PARAM_HDLC_TEST
     OR PATTY_AX25_PARAM_HDLC_FCS_16 OR PATTY_AX25_PARAM_HDLC_SYNC_TX OR PATTY_AX25_PARAM_HDLC_SREJ_MULTI"
definition PATTY_AX25_SOCK_2_2_MAX_I_LEN :: size_t where "PATTY_AX25_SOCK_2_2_MAX_I_LEN = 1536"
definition PATTY_AX25_SOCK_2_2_MAX_WINDOW :: size_t where "PATTY_AX25_SOCK_2_2_MAX_WINDOW = 127"
definition PATTY_AX25_SOCK_SEGMENTS_MAX :: size_t where "PATTY_AX25_SOCK_SEGMENTS_MAX = 128"
definition PATTY_AX25_SOCK_PATH_SIZE :: nat where "PATTY_AX25_SOCK_PATH_SIZE = 256"

lemmas sock_defaults [simp] =
  PATTY_AX25_SOCK_DEFAULT_DELAY_def PATTY_AX25_SOCK_DEFAULT_KEEPALIVE_def
  PATTY_AX25_SOCK_DEFAULT_I_LEN_def PATTY_AX25_SOCK_DEFAULT_WINDOW_def
  PATTY_AX25_SOCK_DEFAULT_RETRY_def PATTY_AX25_SOCK_DEFAULT_ACK_def
  PATTY_AX25_SOCK_2_2_DEFAULT_I_LEN_def PATTY_AX25_SOCK_2_2_DEFAULT_WINDOW_def
  PATTY_AX25_SOCK_2_2_MAX_I_LEN_def PATTY_AX25_SOCK_2_2_MAX_WINDOW_def

section \<open>Buffers\<close>

definition overhead :: size_t where "overhead = of_nat PATTY_AX25_FRAME_OVERHEAD"

definition tx_bufsz :: "sock \<Rightarrow> size_t" where "tx_bufsz sock = overhead + s_n_maxlen_tx sock"
definition io_bufsz :: "sock \<Rightarrow> size_t" where "io_bufsz sock = overhead + s_n_maxlen_tx sock"

definition tx_slots :: "sock \<Rightarrow> size_t" where
  "tx_slots sock = (if s_mode sock = PATTY_AX25_SOCK_SABME then 128 else 8)"

text \<open>\<open>sizeof(struct slot)\<close> is 16.\<close>

definition tx_slot_size :: "sock \<Rightarrow> size_t" where "tx_slot_size sock = 16 + s_n_maxlen_tx sock"
definition tx_slots_size :: "sock \<Rightarrow> size_t" where "tx_slots_size sock = tx_slots sock * tx_slot_size sock"

text \<open>\<open>seq\<close> is converted to the unsigned type of the modulus.\<close>

definition tx_seq :: "sock \<Rightarrow> int \<Rightarrow> int" where
  "tx_seq sock seq = uint ((word_of_int seq :: size_t) mod tx_slots sock)"

text \<open>The record \<open>tx_slot\<close> points to: its index and its contents.\<close>

definition tx_slot :: "sock \<Rightarrow> int \<Rightarrow> (nat \<times> tx_slot) option" where
  "tx_slot sock seq =
     do { sl \<leftarrow> s_tx_slots sock;
          let i = nat (tx_seq sock seq) in
          if sl_size sl = unat (tx_slot_size sock) \<and> i < length (sl_list sl)
          then Some (i, sl_list sl ! i) else None }"

text \<open>Storing through that pointer.\<close>

definition tx_slot_put :: "sock \<Rightarrow> nat \<Rightarrow> tx_slot \<Rightarrow> sock" where
  "tx_slot_put sock i slot =
     sock\<lparr>s_tx_slots := map_option (\<lambda>sl. sl\<lparr>sl_list := (sl_list sl)[i := slot]\<rparr>) (s_tx_slots sock)\<rparr>"

definition tx_slot_save :: "sock \<Rightarrow> byte list \<Rightarrow> sock option" where
  "tx_slot_save sock bs =
     do { (i, slot) \<leftarrow> tx_slot sock (s_vs sock);
          if length bs > unat (s_n_maxlen_tx sock) then None
          else Some (tx_slot_put sock i (slot\<lparr>ts_len := of_nat (length bs), ts_ack := False, ts_data := bs\<rparr>)) }"

text \<open>The loops of \<open>init_bufs\<close> and \<open>patty_ax25_sock_reset\<close> over the slots \<open>i\<close> on.\<close>

fun clear_slots :: "nat \<Rightarrow> nat \<Rightarrow> sock \<Rightarrow> sock option" where
  "clear_slots 0 i sock = Some sock"
| "clear_slots (Suc n) i sock =
     do { (j, slot) \<leftarrow> tx_slot sock (int i);
          clear_slots n (i + 1) (tx_slot_put sock j (slot\<lparr>ts_len := 0, ts_ack := False\<rparr>)) }"

text \<open>
  A fresh allocation of \<open>size\<close> bytes: the records that fit into it. Their contents are
  indeterminate until the loop has cleared them.
\<close>

definition alloc_slots :: "sock \<Rightarrow> slots" where
  "alloc_slots sock = \<lparr>sl_size = unat (tx_slot_size sock),
     sl_list = replicate (unat (tx_slots_size sock) div unat (tx_slot_size sock)) slot_empty\<rparr>"

text \<open>
  What \<open>realloc\<close> leaves in the two byte buffers is taken to be zero. Nothing depends on it: frames and
  segments are written from the start of a buffer, and only what was written is sent.
\<close>

definition init_bufs :: "sock \<Rightarrow> world \<Rightarrow> (int \<times> sock \<times> world) option" where
  "init_bufs sock w =
     (case sys_call w of (r, w) \<Rightarrow>
      if r < 0 then Some (-1, sock\<lparr>s_tx_buf := None\<rparr>, w)
      else let sock = sock\<lparr>s_tx_buf := Some (replicate (unat (tx_bufsz sock)) 0)\<rparr> in
      case sys_call w of (r, w) \<Rightarrow>
      if r < 0 then Some (-1, sock\<lparr>s_io_buf := None, s_tx_buf := None\<rparr>, w)
      else let sock = sock\<lparr>s_io_buf := Some (replicate (unat (io_bufsz sock)) 0)\<rparr> in
      case sys_call w of (r, w) \<Rightarrow>
      if r < 0 then Some (-1, sock\<lparr>s_tx_slots := None, s_io_buf := None, s_tx_buf := None\<rparr>, w)
      else do { sock \<leftarrow> clear_slots (unat (tx_slots sock)) 0 (sock\<lparr>s_tx_slots := Some (alloc_slots sock)\<rparr>);
                Some (0, sock, w) })"

section \<open>Creation and parameters\<close>

text \<open>
  \<open>openpty\<close> yields two descriptors, either of which it may fail to open, and a name; a failing
  \<open>tcsetattr\<close> only clears \<open>errno\<close>. The descriptor \<open>ptysub\<close> of the terminal's other end is closed on
  failure only.
\<close>

definition bind_pty :: "sock \<Rightarrow> world \<Rightarrow> int \<times> sock \<times> world" where
  "bind_pty sock w =
     (case sys_fd w of (fd, w) \<Rightarrow>
      if fd < 0 then (-1, sock, w)
      else case sys_fd w of (ptysub, w) \<Rightarrow>
      if ptysub < 0 then (-1, sock, w)
      else case sys_read (PATTY_AX25_SOCK_PATH_SIZE - 1) w of (name, w) \<Rightarrow>
      let sock = sock\<lparr>s_fd := fd, s_pty := (case name of Inl _ \<Rightarrow> [] | Inr bs \<Rightarrow> bs)\<rparr> in
      case sys_call w of (r, w) \<Rightarrow>
      if r < 0 then (-1, sock, snd (sys_close fd (snd (sys_close ptysub w))))
      else case sys_call w of (r, w) \<Rightarrow>
      if r < 0 then (-1, sock, snd (sys_close fd (snd (sys_close ptysub w))))
      else case sys_call w of (r, w) \<Rightarrow> (0, sock, if r < 0 then w\<lparr>err := None\<rparr> else w))"

definition init_dgram :: "sock \<Rightarrow> byte \<Rightarrow> sock" where
  "init_dgram sock proto = sock\<lparr>s_proto := proto, s_type := PATTY_AX25_SOCK_DGRAM\<rparr>"

text \<open>The KISS reader of a raw socket: \<open>line\<close>, \<open>blank\<close> and \<open>garbage\<close> as in \<open>patty_kiss_tnc_new\<close>.\<close>

definition init_raw :: "termios \<Rightarrow> tnc \<Rightarrow> byte list \<Rightarrow> sock \<Rightarrow> world \<Rightarrow> sock option \<times> world" where
  "init_raw line blank garbage sock w =
     (let info = \<lparr>ti_flags = PATTY_KISS_TNC_FD, ti_device = [], ti_fd = s_fd sock, ti_baud = 0,
                  ti_flow = PATTY_KISS_TNC_FLOW_NONE\<rparr> in
      case patty_kiss_tnc_new line blank garbage info w of
        (None, w) \<Rightarrow> (None, snd (sys_close (s_fd sock) w))
      | (Some raw, w) \<Rightarrow> (Some (sock\<lparr>s_raw := Some raw, s_proto := PATTY_AX25_PROTO_NONE,
            s_type := PATTY_AX25_SOCK_RAW, s_state := PATTY_AX25_SOCK_ESTABLISHED\<rparr>), w))"

definition patty_ax25_sock_init :: "sock \<Rightarrow> sock" where
  "patty_ax25_sock_init sock = sock
     \<lparr>s_state := PATTY_AX25_SOCK_CLOSED, s_mode := PATTY_AX25_SOCK_DM, s_flow := PATTY_AX25_SOCK_WAIT,
      s_n_maxlen_tx := PATTY_AX25_SOCK_DEFAULT_I_LEN, s_n_maxlen_rx := PATTY_AX25_SOCK_DEFAULT_I_LEN,
      s_n_window_tx := PATTY_AX25_SOCK_DEFAULT_WINDOW, s_n_window_rx := PATTY_AX25_SOCK_DEFAULT_WINDOW,
      s_n_ack := PATTY_AX25_SOCK_DEFAULT_ACK, s_n_retry := PATTY_AX25_SOCK_DEFAULT_RETRY,
      s_retries := PATTY_AX25_SOCK_DEFAULT_RETRY, s_rx_pending := 0,
      s_timer_t1 := patty_timer_init (s_timer_t1 sock) (sint PATTY_AX25_SOCK_DEFAULT_ACK),
      s_timer_t2 := patty_timer_init (s_timer_t2 sock) PATTY_AX25_SOCK_DEFAULT_DELAY,
      s_timer_t3 := patty_timer_init (s_timer_t3 sock) PATTY_AX25_SOCK_DEFAULT_KEEPALIVE\<rparr>"

definition patty_ax25_sock_new ::
  "termios \<Rightarrow> tnc \<Rightarrow> byte list \<Rightarrow> byte \<Rightarrow> sock_type \<Rightarrow> world \<Rightarrow> (sock option \<times> world) option" where
  "patty_ax25_sock_new line blank garbage proto type w =
     (case sys_call w of (r, w) \<Rightarrow>
      if r < 0 then Some (None, w)
      else case bind_pty sock_zero w of (r, sock, w) \<Rightarrow>
      if r < 0 then Some (None, w)
      else if type = PATTY_AX25_SOCK_DGRAM then Some (Some (init_dgram sock proto), w)
      else if type = PATTY_AX25_SOCK_RAW then Some (init_raw line blank garbage sock w)
      else let sock = (if type = PATTY_AX25_SOCK_STREAM then patty_ax25_sock_init sock else sock);
               sock = sock\<lparr>s_proto := proto, s_type := type, s_version := PATTY_AX25_2_0,
                           s_flags_classes := PATTY_AX25_SOCK_DEFAULT_CLASSES,
                           s_flags_hdlc := PATTY_AX25_SOCK_DEFAULT_HDLC\<rparr> in
           do { (r, sock, w) \<leftarrow> init_bufs sock w; Some (if r < 0 then None else Some sock, w) })"

text \<open>
  \<open>patty_ax25_sock_destroy\<close>: what happens to the interface of a listening raw socket, and to
  the descriptors. A raw socket always has a reader.
\<close>

definition patty_ax25_sock_destroy :: "sock \<Rightarrow> 'p iface option \<Rightarrow> world \<Rightarrow> ('p iface option \<times> world) option" where
  "patty_ax25_sock_destroy sock iface w =
     do { (iface, w) \<leftarrow>
            (if s_type sock = PATTY_AX25_SOCK_RAW
             then do { iface \<leftarrow> (if s_state sock = PATTY_AX25_SOCK_PROMISC
                                then (case iface of
                                        None \<Rightarrow> None
                                      | Some i \<Rightarrow> Some (Some (snd (patty_ax25_if_promisc_delete i (s_fd sock)))))
                                else Some iface);
                       raw \<leftarrow> s_raw sock;
                       Some (iface, patty_kiss_tnc_destroy raw w) }
             else Some (iface, w));
          Some (iface, if s_fd sock > 0 then snd (sys_close (s_fd sock) w) else w) }"

definition patty_ax25_sock_reset :: "sock \<Rightarrow> sock option" where
  "patty_ax25_sock_reset sock =
     do { sock \<leftarrow> clear_slots (unat (tx_slots sock)) 0
            (sock\<lparr>s_flow := PATTY_AX25_SOCK_READY, s_vs := 0, s_vr := 0, s_va := 0,
                  s_retries := s_n_retry sock, s_rx_pending := 0\<rparr>);
          Some (sock\<lparr>s_timer_t1 := patty_timer_start (s_timer_t1 sock),
                     s_timer_t2 := patty_timer_clear (s_timer_t2 sock),
                     s_timer_t3 := patty_timer_clear (s_timer_t3 sock)\<rparr>) }"

definition patty_ax25_sock_mtu_set :: "sock \<Rightarrow> size_t \<Rightarrow> sock" where
  "patty_ax25_sock_mtu_set sock mtu = sock\<lparr>s_n_maxlen_tx := mtu\<rparr>"

definition patty_ax25_sock_ack_set :: "sock \<Rightarrow> int \<Rightarrow> sock" where
  "patty_ax25_sock_ack_set sock ack = sock\<lparr>s_n_ack := word_of_int ack\<rparr>"

definition patty_ax25_sock_window_set :: "sock \<Rightarrow> size_t \<Rightarrow> sock" where
  "patty_ax25_sock_window_set sock window = sock\<lparr>s_n_window_tx := window\<rparr>"

definition patty_ax25_sock_retry_set :: "sock \<Rightarrow> size_t \<Rightarrow> sock" where
  "patty_ax25_sock_retry_set sock retry = sock\<lparr>s_n_retry := retry\<rparr>"

definition patty_ax25_sock_params_upgrade :: "sock \<Rightarrow> sock" where
  "patty_ax25_sock_params_upgrade sock =
     (if s_version sock = PATTY_AX25_2_2 then sock
      else sock\<lparr>s_version := PATTY_AX25_2_2, s_flags_hdlc := PATTY_AX25_SOCK_2_2_DEFAULT_HDLC,
                s_n_maxlen_tx := PATTY_AX25_SOCK_2_2_DEFAULT_I_LEN,
                s_n_maxlen_rx := PATTY_AX25_SOCK_2_2_DEFAULT_I_LEN,
                s_n_window_tx := PATTY_AX25_SOCK_2_2_DEFAULT_WINDOW,
                s_n_window_rx := PATTY_AX25_SOCK_2_2_DEFAULT_WINDOW\<rparr>)"

definition patty_ax25_sock_params_max :: "sock \<Rightarrow> sock" where
  "patty_ax25_sock_params_max sock =
     sock\<lparr>s_version := PATTY_AX25_2_2, s_flags_hdlc := PATTY_AX25_SOCK_2_2_MAX_HDLC,
          s_n_maxlen_tx := PATTY_AX25_SOCK_2_2_MAX_I_LEN, s_n_maxlen_rx := PATTY_AX25_SOCK_2_2_MAX_I_LEN,
          s_n_window_tx := PATTY_AX25_SOCK_2_2_MAX_WINDOW, s_n_window_rx := PATTY_AX25_SOCK_2_2_MAX_WINDOW\<rparr>"

section \<open>Negotiation\<close>

text \<open>
  The flags are tested against the parameter numbers themselves (\<open>flags & 2\<close>, \<open>flags & 3\<close>,
  ...), not against their bits. \<open>HAS f c\<close> is \<open>f & c\<close> as a condition.
\<close>

definition HAS :: "u32 \<Rightarrow> u32 \<Rightarrow> bool" where "HAS f c \<longleftrightarrow> f AND c \<noteq> 0"

definition negotiate_classes :: "params \<Rightarrow> unit cres" where
  "negotiate_classes params =
     (if HAS (p_flags params) (of_nat PATTY_AX25_PARAM_CLASSES)
        \<and> (\<not> HAS (p_classes params) PATTY_AX25_PARAM_CLASSES_ABM
           \<or> \<not> HAS (p_classes params) PATTY_AX25_PARAM_CLASSES_HALF_DUPLEX
           \<or> HAS (p_classes params) PATTY_AX25_PARAM_CLASSES_FULL_DUPLEX)
      then Inl ENOTSUP else Inr ())"

definition negotiate_hdlc :: "sock \<Rightarrow> params \<Rightarrow> unit cres \<times> sock \<times> params" where
  "negotiate_hdlc sock params =
     (if \<not> HAS (p_flags params) (of_nat PATTY_AX25_PARAM_HDLC) then (Inr (), sock, params)
      else let sock = (if \<not> HAS (p_hdlc params) PATTY_AX25_PARAM_HDLC_REJ
                       then sock\<lparr>s_flags_hdlc := s_flags_hdlc sock AND NOT PATTY_AX25_PARAM_HDLC_REJ\<rparr> else sock);
               sock = (if \<not> HAS (p_hdlc params) PATTY_AX25_PARAM_HDLC_SREJ
                       then sock\<lparr>s_flags_hdlc := s_flags_hdlc sock AND NOT PATTY_AX25_PARAM_HDLC_SREJ\<rparr> else sock) in
           if \<not> HAS (p_hdlc params) PATTY_AX25_PARAM_HDLC_XADDR then (Inl EINVAL, sock, params)
           else if \<not> HAS (p_hdlc params) PATTY_AX25_PARAM_HDLC_MODULO_128 then (Inl EINVAL, sock, params)
           else let params = (if HAS (p_hdlc params) PATTY_AX25_PARAM_HDLC_MODULO_8
                              then params\<lparr>p_hdlc := (p_hdlc params AND NOT PATTY_AX25_PARAM_HDLC_MODULO_8)
                                                     OR PATTY_AX25_PARAM_HDLC_MODULO_128\<rparr>
                              else params);
                    params = (if \<not> HAS (p_hdlc params) PATTY_AX25_PARAM_HDLC_TEST
                              then params\<lparr>p_hdlc := p_hdlc params AND NOT PATTY_AX25_PARAM_HDLC_TEST\<rparr> else params) in
                if \<not> HAS (p_hdlc params) PATTY_AX25_PARAM_HDLC_SYNC_TX then (Inl EINVAL, sock, params)
                else (Inr (), sock, params))"

definition negotiate_values :: "sock \<Rightarrow> params \<Rightarrow> sock" where
  "negotiate_values sock params =
     (let sock = (if HAS (p_flags params) (of_nat PATTY_AX25_PARAM_INFO_RX)
                    \<and> s_n_maxlen_tx sock > drop_bit 3 (p_info_rx params)
                  then sock\<lparr>s_n_maxlen_tx := drop_bit 3 (p_info_rx params)\<rparr> else sock);
          sock = (if HAS (p_flags params) (of_nat PATTY_AX25_PARAM_WINDOW_RX)
                    \<and> s_n_window_tx sock > p_window_rx params
                  then sock\<lparr>s_n_window_tx := p_window_rx params\<rparr> else sock);
          sock = (if HAS (p_flags params) (of_nat PATTY_AX25_PARAM_ACK) \<and> s_n_ack sock < p_ack params
                  then sock\<lparr>s_n_ack := p_ack params,
                            s_timer_t1 := patty_timer_init (s_timer_t1 sock) (sint (p_ack params))\<rparr> else sock) in
      if HAS (p_flags params) (of_nat PATTY_AX25_PARAM_RETRY) \<and> s_n_retry sock < p_retry params
      then sock\<lparr>s_n_retry := p_retry params\<rparr> else sock)"

definition patty_ax25_sock_params_negotiate :: "sock \<Rightarrow> params \<Rightarrow> unit cres \<times> sock \<times> params" where
  "patty_ax25_sock_params_negotiate sock params =
     (case negotiate_classes params of
        Inl e \<Rightarrow> (Inl e, sock, params)
      | Inr _ \<Rightarrow>
          (case negotiate_hdlc sock params of
             (Inl e, sock, params) \<Rightarrow> (Inl e, sock, params)
           | (Inr _, sock, params) \<Rightarrow> (Inr (), negotiate_values sock params, params)))"

definition patty_ax25_sock_realloc_bufs :: "sock \<Rightarrow> world \<Rightarrow> (int \<times> sock \<times> world) option" where
  "patty_ax25_sock_realloc_bufs sock w = init_bufs sock w"

definition patty_ax25_sock_pty :: "sock \<Rightarrow> cstring" where
  "patty_ax25_sock_pty sock = s_pty sock"

text \<open>\<open>p\<close> is the pointer to \<open>iface\<close>, \<open>m\<close> the allocation in the dictionary of listeners.\<close>

definition patty_ax25_sock_bind_if ::
  "bool \<Rightarrow> sock \<Rightarrow> nat \<Rightarrow> 'p iface \<Rightarrow> unit cres \<times> sock \<times> 'p iface" where
  "patty_ax25_sock_bind_if m sock p iface =
     (let sock = sock\<lparr>s_iface := p, s_flags_classes := s_flags_classes sock OR if_flags_classes iface\<rparr> in
      if s_state sock = PATTY_AX25_SOCK_PROMISC
      then case patty_ax25_if_promisc_add m iface (s_fd sock) of (r, iface) \<Rightarrow> (r, sock, iface)
      else (Inr (), sock, iface))"

section \<open>Sequence variables and the window\<close>

definition seq_mask :: "sock \<Rightarrow> int" where
  "seq_mask sock = (if s_mode sock = PATTY_AX25_SOCK_SABM then 0x07 else 0x7f)"

definition patty_ax25_sock_vs_incr :: "sock \<Rightarrow> sock" where
  "patty_ax25_sock_vs_incr sock = sock\<lparr>s_vs := (s_vs sock + 1) AND seq_mask sock\<rparr>"

definition patty_ax25_sock_vr_incr :: "sock \<Rightarrow> sock" where
  "patty_ax25_sock_vr_incr sock = sock\<lparr>s_vr := (s_vr sock + 1) AND seq_mask sock\<rparr>"

text \<open>The sum is computed as a \<open>size_t\<close> and passed as an \<open>int\<close>.\<close>

definition patty_ax25_sock_flow_left :: "sock \<Rightarrow> int" where
  "patty_ax25_sock_flow_left sock =
     (if s_n_window_tx sock = 1 then 1
      else s_vs sock - tx_seq sock (sint (ucast (word_of_int (s_va sock) + s_n_window_tx sock) :: u32)))"

section \<open>Reassembly\<close>

definition patty_ax25_sock_assembler_init :: "sock \<Rightarrow> size_t \<Rightarrow> world \<Rightarrow> unit cres \<times> sock \<times> world" where
  "patty_ax25_sock_assembler_init sock tot w =
     (if tot < 2 then (Inl EINVAL, sock, w)
      else case s_assembler sock of
        Some a \<Rightarrow>
          if a_total a < tot
          then case sys_call w of (r, w) \<Rightarrow>
            if r < 0 then (Inl ENOMEM, sock\<lparr>s_assembler := None\<rparr>, w)
            else (Inr (), sock\<lparr>s_assembler := Some \<lparr>a_total = tot, a_remaining = tot, a_offset = 0,
                    a_buf = replicate (unat (tot * s_n_maxlen_rx sock)) 0\<rparr>\<rparr>, w)
          else (Inr (), sock, w)
      | None \<Rightarrow>
          case sys_call w of (r, w) \<Rightarrow>
            if r < 0 then (Inl ENOMEM, sock, w)
            else (Inr (), sock\<lparr>s_assembler := Some \<lparr>a_total = tot, a_remaining = tot, a_offset = 0,
                    a_buf = replicate (unat (tot * s_n_maxlen_rx sock)) 0\<rparr>\<rparr>, w))"

definition patty_ax25_sock_assembler_pending :: "sock \<Rightarrow> size_t \<Rightarrow> bool" where
  "patty_ax25_sock_assembler_pending sock remaining =
     (case s_assembler sock of
        None \<Rightarrow> False
      | Some a \<Rightarrow> if a_total a = 0 then False else remaining + 1 = a_remaining a)"

definition patty_ax25_sock_assembler_stop :: "sock \<Rightarrow> sock" where
  "patty_ax25_sock_assembler_stop sock =
     sock\<lparr>s_assembler := map_option (\<lambda>a. a\<lparr>a_remaining := 0, a_total := 0\<rparr>) (s_assembler sock)\<rparr>"

definition patty_ax25_sock_assembler_save :: "sock \<Rightarrow> byte list \<Rightarrow> (size_t cres \<times> sock) option" where
  "patty_ax25_sock_assembler_save sock bs =
     (if of_nat (length bs) > s_n_maxlen_rx sock - 1 then Some (Inl EOVERFLOW, sock)
      else do { a \<leftarrow> s_assembler sock;
                if a_remaining a = 0 then Some (Inl EIO, sock)
                else do { buf \<leftarrow> blit (a_buf a) (unat (a_offset a)) bs;
                          Some (Inr (of_nat (length bs)),
                                sock\<lparr>s_assembler := Some (a\<lparr>a_buf := buf, a_offset := a_offset a + of_nat (length bs),
                                                            a_remaining := a_remaining a - 1\<rparr>)\<rparr>) } })"

text \<open>The protocol octet, the length, and the memory from the data on; \<open>None\<close> inside is NULL.\<close>

definition patty_ax25_sock_assembler_read :: "sock \<Rightarrow> (byte \<times> size_t \<times> byte list) option option" where
  "patty_ax25_sock_assembler_read sock =
     (case s_assembler sock of
        None \<Rightarrow> Some None
      | Some a \<Rightarrow> do { c \<leftarrow> rd (a_buf a) 0; Some (Some (c, a_offset a - 1, drop 1 (a_buf a))) })"

section \<open>Sending frames\<close>

record 'p link =
  l_sock :: sock
  l_iface :: "'p iface option"
  l_world :: world

definition link_err :: "errno \<Rightarrow> 'p link \<Rightarrow> (int \<times> 'p link) option" where
  "link_err e l = Some (-1, l\<lparr>l_world := (l_world l)\<lparr>err := Some e\<rparr>\<rparr>)"

text \<open>\<open>patty_ax25_if_send(sock->iface, ...)\<close>; a NULL interface is followed.\<close>

definition link_if_send :: "byte list \<Rightarrow> 'p link \<Rightarrow> (int \<times> 'p link) option" where
  "link_if_send bs l =
     do { iface \<leftarrow> l_iface l;
          (r, iface, w) \<leftarrow> patty_ax25_if_send iface bs (l_world l);
          Some (r, l\<lparr>l_iface := Some iface, l_world := w\<rparr>) }"

definition toobig :: "sock \<Rightarrow> nat \<Rightarrow> bool" where
  "toobig sock infolen \<longleftrightarrow> infolen > unat (overhead + s_n_maxlen_tx sock)"

text \<open>The addresses one after the other, before the last octet is marked.\<close>

definition sock_address_octets :: "sock \<Rightarrow> frame_cr \<Rightarrow> byte list" where
  "sock_address_octets sock cr =
     patty_ax25_addr_copy (s_remote sock) (if cr = PATTY_AX25_FRAME_COMMAND then 0x80 else 0x00)
     @ patty_ax25_addr_copy (s_local sock) (if cr = PATTY_AX25_FRAME_RESPONSE then 0x80 else 0x00)
     @ concat (map (\<lambda>i. patty_ax25_addr_copy (s_repeaters sock ! i) 0) [0..<s_hops sock])"

definition sock_encode_address :: "sock \<Rightarrow> frame_cr \<Rightarrow> byte list \<Rightarrow> nat \<Rightarrow> (nat cres \<times> byte list) option" where
  "sock_encode_address sock cr buf len =
     (if (2 + s_hops sock) * 7 > len then Some (Inl EOVERFLOW, buf)
      else if s_hops sock > length (s_repeaters sock) then None
      else let octets = sock_address_octets sock cr; offset = length octets in
           do { buf \<leftarrow> blit buf 0 octets;
                b \<leftarrow> rd buf (offset - 1);
                buf \<leftarrow> wr buf (offset - 1) (b OR 1);
                Some (Inr offset, buf) })"

definition patty_ax25_sock_send :: "byte list \<Rightarrow> 'p link \<Rightarrow> (int \<times> 'p link) option" where
  "patty_ax25_sock_send bs l =
     (if s_type (l_sock l) \<noteq> PATTY_AX25_SOCK_RAW then link_err EINVAL l
      else if l_iface l = None then link_err ENETDOWN l
      else link_if_send bs l)"

definition patty_ax25_sock_recv :: "byte list \<Rightarrow> nat \<Rightarrow> 'p link \<Rightarrow> (int \<times> byte list \<times> 'p link) option" where
  "patty_ax25_sock_recv buf len l =
     (if s_type (l_sock l) \<noteq> PATTY_AX25_SOCK_RAW
      then map_option (\<lambda>(r, l). (r, buf, l)) (link_err EINVAL l)
      else do { raw \<leftarrow> s_raw (l_sock l);
                (r, raw, buf, w) \<leftarrow> patty_kiss_tnc_recv raw buf len (l_world l);
                Some (r, buf, l\<lparr>l_sock := (l_sock l)\<lparr>s_raw := Some raw\<rparr>, l_world := w\<rparr>) })"

text \<open>Control fields. A sequence number is masked, shifted and cut to 16 bits.\<close>

definition control_i :: "sock \<Rightarrow> int \<Rightarrow> u16" where
  "control_i sock ns =
     (let flag = (if patty_ax25_sock_flow_left sock = 1 then 1 else 0) in
      case s_mode sock of
        PATTY_AX25_SOCK_SABM \<Rightarrow>
          push_bit 5 (word_of_int (s_vr sock) AND 0x07) OR push_bit 1 (word_of_int ns AND 0x07) OR push_bit 4 flag
      | PATTY_AX25_SOCK_SABME \<Rightarrow>
          push_bit 9 (word_of_int (s_vr sock) AND 0x7f) OR push_bit 1 (word_of_int ns AND 0x7f) OR push_bit 8 flag
      | PATTY_AX25_SOCK_DM \<Rightarrow> 0)"

definition control_ui :: "u16 \<Rightarrow> u16" where
  "control_ui flag = ucast PATTY_AX25_FRAME_UI OR push_bit 4 flag"

definition control_s :: "sock \<Rightarrow> byte \<Rightarrow> u16 \<Rightarrow> u16" where
  "control_s sock type flag =
     (case s_mode sock of
        PATTY_AX25_SOCK_SABM \<Rightarrow>
          push_bit 5 (word_of_int (s_vr sock) AND 0x07) OR (ucast type AND 0x0f) OR push_bit 4 flag
      | PATTY_AX25_SOCK_SABME \<Rightarrow>
          push_bit 9 (word_of_int (s_vr sock) AND 0x7f) OR (ucast type AND 0x0f) OR push_bit 8 flag
      | PATTY_AX25_SOCK_DM \<Rightarrow> 0)"

definition control_u :: "byte \<Rightarrow> u16 \<Rightarrow> u16" where
  "control_u type pf = (ucast type AND PATTY_AX25_FRAME_U_MASK) OR push_bit 4 pf"

text \<open>
  The information field that \<open>frame_send\<close> is given: none (NULL), memory of the caller, or the
  socket's own \<open>tx_buf\<close>, into which the frame is being built. Copying a buffer onto a part of
  itself with \<open>memcpy\<close> is undefined when the two ranges overlap.
\<close>

datatype info_src = NoInfo | Info "byte list" | TxBuf

definition copy_info :: "info_src \<Rightarrow> nat \<Rightarrow> byte list \<Rightarrow> nat \<Rightarrow> byte list option" where
  "copy_info info infolen buf offset =
     (case info of
        NoInfo \<Rightarrow> Some buf
      | Info bs \<Rightarrow> do { src \<leftarrow> slice bs 0 infolen; blit buf offset src }
      | TxBuf \<Rightarrow> if offset < infolen then None else do { src \<leftarrow> slice buf 0 infolen; blit buf offset src })"

definition control_octets :: "sock \<Rightarrow> u16 \<Rightarrow> byte list" where
  "control_octets sock control =
     (if s_mode sock = PATTY_AX25_SOCK_SABME \<and> \<not> PATTY_AX25_FRAME_CONTROL_U control
      then [ucast (control AND 0x00ff), ucast (drop_bit 8 (control AND 0xff00))]
      else [ucast (control AND 0x00ff)])"

definition frame_send :: "frame_cr \<Rightarrow> u16 \<Rightarrow> byte \<Rightarrow> info_src \<Rightarrow> nat \<Rightarrow> 'p link \<Rightarrow> (int \<times> 'p link) option" where
  "frame_send cr control proto info infolen l =
     (let sock = l_sock l in
      if l_iface l = None then link_err ENETDOWN l
      else if callsign (s_remote sock) ! 0 = 0 then link_err EBADF l
      else if toobig sock infolen then Some (-1, l)
      else do { buf \<leftarrow> (case s_tx_buf sock of None \<Rightarrow> None | Some b \<Rightarrow> Some b);
                (r, buf) \<leftarrow> sock_encode_address sock cr buf (unat (tx_bufsz sock));
                case r of
                  Inl e \<Rightarrow> link_err e l
                | Inr offset \<Rightarrow>
                    do { buf \<leftarrow> blit buf offset (control_octets sock control);
                         let offset = offset + length (control_octets sock control);
                         (buf, offset) \<leftarrow>
                           (if info \<noteq> NoInfo \<and> infolen \<noteq> 0
                            then let pid = (if PATTY_AX25_FRAME_CONTROL_I control then [proto] else []) in
                                 do { buf \<leftarrow> blit buf offset pid;
                                      buf \<leftarrow> copy_info info infolen buf (offset + length pid);
                                      Some (buf, offset + length pid + infolen) }
                            else Some (buf, offset));
                         link_if_send (take offset buf) (l\<lparr>l_sock := sock\<lparr>s_tx_buf := Some buf\<rparr>\<rparr>) } })"

section \<open>Acknowledgement and repetition\<close>

definition patty_ax25_sock_resend :: "int \<Rightarrow> 'p link \<Rightarrow> (int \<times> 'p link) option" where
  "patty_ax25_sock_resend seq l =
     do { (i, slot) \<leftarrow> tx_slot (l_sock l) seq;
          if ts_len slot > 0
          then frame_send PATTY_AX25_FRAME_COMMAND (control_i (l_sock l) seq) (s_proto (l_sock l))
                 (Info (ts_data slot)) (unat (ts_len slot)) l
          else Some (0, l) }"

definition patty_ax25_sock_resend_pending :: "'p link \<Rightarrow> (int \<times> 'p link) option" where
  "patty_ax25_sock_resend_pending l =
     do { (i, slot) \<leftarrow> tx_slot (l_sock l) (s_vs (l_sock l));
          if ts_len slot > 0 \<and> \<not> ts_ack slot
          then do { (n, l) \<leftarrow> patty_ax25_sock_resend (s_vs (l_sock l)) l;
                    if n < 0 then Some (-1, l)
                    else Some (n, l\<lparr>l_sock := (l_sock l)\<lparr>s_vs := tx_seq (l_sock l) (s_vs (l_sock l) + 1)\<rparr>\<rparr>) }
          else Some (0, l) }"

fun ack_loop :: "nat \<Rightarrow> int \<Rightarrow> int \<Rightarrow> sock \<Rightarrow> (int \<times> sock) option" where
  "ack_loop 0 i ret sock = Some (ret, sock)"
| "ack_loop (Suc n) i ret sock =
     do { (j, slot) \<leftarrow> tx_slot sock i;
          if ts_len slot > 0 \<and> \<not> ts_ack slot
          then ack_loop n (i + 1) (ret + 1)
                 ((tx_slot_put sock j (slot\<lparr>ts_ack := True\<rparr>))\<lparr>s_va := tx_seq sock (i + 1)\<rparr>)
          else ack_loop n (i + 1) ret sock }"

definition seq_modulus :: "sock \<Rightarrow> int" where
  "seq_modulus sock = (if s_mode sock = PATTY_AX25_SOCK_SABME then 128 else 8)"

definition patty_ax25_sock_ack :: "sock \<Rightarrow> int \<Rightarrow> (int \<times> sock) option" where
  "patty_ax25_sock_ack sock nr =
     (let min = s_va sock in
      if min = nr then Some (1, sock)
      else let max = (if nr < min then nr + seq_modulus sock else nr) in
           ack_loop (nat (max - min)) min 0 sock)"

fun ack_pending_loop :: "nat \<Rightarrow> nat \<Rightarrow> int \<Rightarrow> sock \<Rightarrow> int option" where
  "ack_pending_loop 0 i ret sock = Some ret"
| "ack_pending_loop (Suc n) i ret sock =
     do { (j, slot) \<leftarrow> tx_slot sock (int i);
          ack_pending_loop n (i + 1) (if ts_len slot > 0 \<and> \<not> ts_ack slot then ret + 1 else ret) sock }"

definition patty_ax25_sock_ack_pending :: "sock \<Rightarrow> int option" where
  "patty_ax25_sock_ack_pending sock = ack_pending_loop (unat (tx_slots sock)) 0 0 sock"

section \<open>The frames of the protocol\<close>

definition patty_ax25_sock_send_rr :: "frame_cr \<Rightarrow> u16 \<Rightarrow> 'p link \<Rightarrow> (int \<times> 'p link) option" where
  "patty_ax25_sock_send_rr cr pf l = frame_send cr (control_s (l_sock l) PATTY_AX25_FRAME_RR pf) 0 NoInfo 0 l"

definition patty_ax25_sock_send_rnr :: "frame_cr \<Rightarrow> u16 \<Rightarrow> 'p link \<Rightarrow> (int \<times> 'p link) option" where
  "patty_ax25_sock_send_rnr cr pf l = frame_send cr (control_s (l_sock l) PATTY_AX25_FRAME_RNR pf) 0 NoInfo 0 l"

definition patty_ax25_sock_send_rej :: "frame_cr \<Rightarrow> u16 \<Rightarrow> 'p link \<Rightarrow> (int \<times> 'p link) option" where
  "patty_ax25_sock_send_rej cr pf l = frame_send cr (control_s (l_sock l) PATTY_AX25_FRAME_REJ pf) 0 NoInfo 0 l"

definition patty_ax25_sock_send_srej :: "frame_cr \<Rightarrow> 'p link \<Rightarrow> (int \<times> 'p link) option" where
  "patty_ax25_sock_send_srej cr l = frame_send cr (control_s (l_sock l) PATTY_AX25_FRAME_SREJ 1) 0 NoInfo 0 l"

definition patty_ax25_sock_send_sabm :: "u16 \<Rightarrow> 'p link \<Rightarrow> (int \<times> 'p link) option" where
  "patty_ax25_sock_send_sabm pf l =
     (let type = (if s_mode (l_sock l) = PATTY_AX25_SOCK_SABME then PATTY_AX25_FRAME_SABME else PATTY_AX25_FRAME_SABM) in
      frame_send PATTY_AX25_FRAME_COMMAND (control_u type pf) 0 NoInfo 0 l)"

definition patty_ax25_sock_send_disc :: "u16 \<Rightarrow> 'p link \<Rightarrow> (int \<times> 'p link) option" where
  "patty_ax25_sock_send_disc pf l =
     frame_send PATTY_AX25_FRAME_COMMAND (control_u PATTY_AX25_FRAME_DISC pf) 0 NoInfo 0 l"

text \<open>The fields that \<open>patty_ax25_sock_send_xid\<close> leaves unset are never read by the encoder.\<close>

definition xid_params :: "sock \<Rightarrow> params" where
  "xid_params sock = params_zero
     \<lparr>p_flags := push_bit PATTY_AX25_PARAM_CLASSES 1 OR push_bit PATTY_AX25_PARAM_HDLC 1
        OR push_bit PATTY_AX25_PARAM_INFO_RX 1 OR push_bit PATTY_AX25_PARAM_WINDOW_RX 1
        OR push_bit PATTY_AX25_PARAM_ACK 1 OR push_bit PATTY_AX25_PARAM_RETRY 1,
      p_classes := s_flags_classes sock, p_hdlc := PATTY_AX25_SOCK_2_2_MAX_HDLC,
      p_info_rx := push_bit 3 PATTY_AX25_SOCK_2_2_MAX_I_LEN, p_window_rx := PATTY_AX25_SOCK_2_2_MAX_WINDOW,
      p_ack := s_n_ack sock, p_retry := s_n_retry sock\<rparr>"

definition patty_ax25_sock_send_xid :: "frame_cr \<Rightarrow> 'p link \<Rightarrow> (int \<times> 'p link) option" where
  "patty_ax25_sock_send_xid cr l =
     (if l_iface l = None then link_err ENETDOWN l
      else do { (r, buf) \<leftarrow> patty_ax25_frame_encode_xid (xid_params (l_sock l)) (replicate 256 0) 256;
                case r of
                  Inl e \<Rightarrow> link_err e l
                | Inr encoded \<Rightarrow> frame_send cr (control_u PATTY_AX25_FRAME_XID 0) 0 (Info buf) encoded l })"

definition patty_ax25_sock_send_test :: "frame_cr \<Rightarrow> info_src \<Rightarrow> nat \<Rightarrow> 'p link \<Rightarrow> (int \<times> 'p link) option" where
  "patty_ax25_sock_send_test cr info infolen l =
     frame_send PATTY_AX25_FRAME_COMMAND (control_u PATTY_AX25_FRAME_TEST 1) 0 info infolen l"

section \<open>Writing\<close>

text \<open>
  \<open>buf\<close> is the memory at the pointer, \<open>len\<close> the length that is asked for. The loop of
  \<open>write_segmented\<close> has \<open>n\<close> segments left; each segment is built in \<open>tx_buf\<close> and handed to
  \<open>frame_send\<close> there.
\<close>

fun write_segments :: "nat \<Rightarrow> bool \<Rightarrow> nat \<Rightarrow> size_t \<Rightarrow> byte list \<Rightarrow> nat \<Rightarrow> 'p link \<Rightarrow> (int \<times> 'p link) option" where
  "write_segments 0 first i seglen buf len l = Some (int len, l)"
| "write_segments (Suc n) first i seglen buf len l =
     (let sock = l_sock l;
          header = (of_nat n AND 0xff :: byte) OR (if first then 0x80 else 0);
          copylen = (if n = 0 then of_nat len - of_nat len mod seglen else seglen AND 0xff)
                    - (if first then 1 else 0);
          head = (if first then [header, s_proto sock] else [header]);
          control = (if s_type sock = PATTY_AX25_SOCK_STREAM then control_i sock (s_vs sock) else control_ui 0) in
      do { tx \<leftarrow> s_tx_buf sock;
           tx \<leftarrow> blit tx 0 head;
           bs \<leftarrow> slice buf i (unat copylen);
           sock \<leftarrow> tx_slot_save sock bs;
           tx \<leftarrow> blit tx (length head) bs;
           (r, l) \<leftarrow> frame_send PATTY_AX25_FRAME_COMMAND control PATTY_AX25_PROTO_FRAGMENT TxBuf
             (length head + length bs) (l\<lparr>l_sock := sock\<lparr>s_tx_buf := Some tx\<rparr>\<rparr>);
           if r < 0 then Some (-1, l)
           else write_segments n False (i + unat copylen) seglen buf len
                  (if s_type (l_sock l) = PATTY_AX25_SOCK_STREAM
                   then l\<lparr>l_sock := patty_ax25_sock_vs_incr (l_sock l)\<rparr> else l) })"

definition write_segmented :: "byte list \<Rightarrow> nat \<Rightarrow> 'p link \<Rightarrow> (int \<times> 'p link) option" where
  "write_segmented buf len l =
     (let sock = l_sock l in
      if s_n_maxlen_tx sock < 2 then link_err EOVERFLOW l
      else let seglen = s_n_maxlen_tx sock - 1;
               segments = (of_nat len + 1) div seglen + (if of_nat len mod seglen \<noteq> 0 then 1 else 0) in
           if segments > PATTY_AX25_SOCK_SEGMENTS_MAX then link_err EOVERFLOW l
           else write_segments (unat segments) True 0 seglen buf len l)"

definition patty_ax25_sock_write :: "byte list \<Rightarrow> nat \<Rightarrow> 'p link \<Rightarrow> (int \<times> 'p link) option" where
  "patty_ax25_sock_write buf len l =
     (let sock = l_sock l in
      if s_mode sock = PATTY_AX25_SOCK_DM then link_err EBADF l
      else case s_type sock of
        PATTY_AX25_SOCK_STREAM \<Rightarrow>
          if len > unat (s_n_maxlen_tx sock) then write_segmented buf len l
          else do { bs \<leftarrow> slice buf 0 len;
                    sock \<leftarrow> tx_slot_save sock bs;
                    (r, l) \<leftarrow> frame_send PATTY_AX25_FRAME_COMMAND (control_i sock (s_vs sock)) (s_proto sock)
                               (Info buf) len (l\<lparr>l_sock := sock\<rparr>);
                    if r < 0 then Some (-1, l)
                    else Some (int len, l\<lparr>l_sock := patty_ax25_sock_vs_incr (l_sock l)\<rparr>) }
      | PATTY_AX25_SOCK_DGRAM \<Rightarrow>
          if len > unat (s_n_maxlen_tx sock) then write_segmented buf len l
          else do { (r, l) \<leftarrow> frame_send PATTY_AX25_FRAME_COMMAND (control_ui 0) (s_proto sock) (Info buf) len l;
                    Some (if r < 0 then -1 else int len, l) }
      | PATTY_AX25_SOCK_RAW \<Rightarrow> do { bs \<leftarrow> slice buf 0 len; link_if_send bs l }
      | SOCK_TYPE_OTHER _ \<Rightarrow> Some (int len, l))"

end
