(* ===== verification/Patty_Message.thy ===== *)
theory Patty_Message
  imports Patty_Sock
begin

text \<open>
  The messages between a client and the server: \<open>src/include/patty/client.h\<close>. A message is a C
  struct on a little-endian LP64 machine, written and read as its bytes. Reading a field that the
  received bytes do not reach is undefined (\<open>None\<close>): the struct was never initialised. The
  \<open>errno\<close> values have their Linux numbers.

  The lemmas show that each request is read back from the bytes that are written for it.
\<close>

section \<open>Numbers and addresses\<close>

definition put_u32 :: "u32 \<Rightarrow> byte list" where
  "put_u32 w = [ucast w, ucast (drop_bit 8 w), ucast (drop_bit 16 w), ucast (drop_bit 24 w)]"

definition put_int :: "int \<Rightarrow> byte list" where
  "put_int n = put_u32 (word_of_int n)"

definition put_size :: "size_t \<Rightarrow> byte list" where
  "put_size n = put_u32 (ucast n) @ put_u32 (ucast (drop_bit 32 n))"

definition put_addr :: "addr \<Rightarrow> byte list" where
  "put_addr a = callsign a @ [addr_ssid a]"

definition u32_of :: "byte list \<Rightarrow> u32" where
  "u32_of bs = ucast (bs ! 0) OR push_bit 8 (ucast (bs ! 1)) OR push_bit 16 (ucast (bs ! 2))
     OR push_bit 24 (ucast (bs ! 3))"

definition get_u32 :: "byte list \<Rightarrow> nat \<Rightarrow> u32 option" where
  "get_u32 buf off = map_option u32_of (slice buf off 4)"

definition get_int :: "byte list \<Rightarrow> nat \<Rightarrow> int option" where
  "get_int buf off = map_option sint (get_u32 buf off)"

definition get_size :: "byte list \<Rightarrow> nat \<Rightarrow> size_t option" where
  "get_size buf off =
     do { lo \<leftarrow> get_u32 buf off; hi \<leftarrow> get_u32 buf (off + 4); Some (ucast lo OR push_bit 32 (ucast hi)) }"

definition get_addr :: "byte list \<Rightarrow> nat \<Rightarrow> addr option" where
  "get_addr buf off = map_option (\<lambda>bs. \<lparr>callsign = take 6 bs, addr_ssid = bs ! 6\<rparr>) (slice buf off 7)"

fun errno_num :: "errno option \<Rightarrow> int" where
  "errno_num None = 0"
| "errno_num (Some EIO) = 5"
| "errno_num (Some EBADF) = 9"
| "errno_num (Some ENOMEM) = 12"
| "errno_num (Some EBUSY) = 16"
| "errno_num (Some EEXIST) = 17"
| "errno_num (Some ENODEV) = 19"
| "errno_num (Some EINVAL) = 22"
| "errno_num (Some ENOSYS) = 38"
| "errno_num (Some EOVERFLOW) = 75"
| "errno_num (Some ENOTSUP) = 95"
| "errno_num (Some EOPNOTSUPP) = 95"
| "errno_num (Some EADDRINUSE) = 98"
| "errno_num (Some ENETDOWN) = 100"
| "errno_num (Some EISCONN) = 106"
| "errno_num (Some ETIMEDOUT) = 110"
| "errno_num (Some ECONNREFUSED) = 111"

section \<open>Calls\<close>

datatype client_call = PATTY_CLIENT_NONE | PATTY_CLIENT_PING | PATTY_CLIENT_SOCKET
  | PATTY_CLIENT_SETSOCKOPT | PATTY_CLIENT_BIND | PATTY_CLIENT_LISTEN | PATTY_CLIENT_ACCEPT
  | PATTY_CLIENT_CONNECT | PATTY_CLIENT_CLOSE | PATTY_CLIENT_SENDTO | PATTY_CLIENT_RECVFROM
  | PATTY_CLIENT_CALL_COUNT

definition client_calls :: "client_call list" where
  "client_calls = [PATTY_CLIENT_NONE, PATTY_CLIENT_PING, PATTY_CLIENT_SOCKET,
     PATTY_CLIENT_SETSOCKOPT, PATTY_CLIENT_BIND, PATTY_CLIENT_LISTEN, PATTY_CLIENT_ACCEPT,
     PATTY_CLIENT_CONNECT, PATTY_CLIENT_CLOSE, PATTY_CLIENT_SENDTO, PATTY_CLIENT_RECVFROM,
     PATTY_CLIENT_CALL_COUNT]"

fun call_num :: "client_call \<Rightarrow> int" where
  "call_num PATTY_CLIENT_NONE = 0"
| "call_num PATTY_CLIENT_PING = 1"
| "call_num PATTY_CLIENT_SOCKET = 2"
| "call_num PATTY_CLIENT_SETSOCKOPT = 3"
| "call_num PATTY_CLIENT_BIND = 4"
| "call_num PATTY_CLIENT_LISTEN = 5"
| "call_num PATTY_CLIENT_ACCEPT = 6"
| "call_num PATTY_CLIENT_CONNECT = 7"
| "call_num PATTY_CLIENT_CLOSE = 8"
| "call_num PATTY_CLIENT_SENDTO = 9"
| "call_num PATTY_CLIENT_RECVFROM = 10"
| "call_num PATTY_CLIENT_CALL_COUNT = 11"

text \<open>The numbers of the enumerations of sock.h that travel in messages.\<close>

definition sock_type_of :: "int \<Rightarrow> sock_type" where
  "sock_type_of n = (if n = 0 then PATTY_AX25_SOCK_STREAM else if n = 1 then PATTY_AX25_SOCK_DGRAM
     else if n = 2 then PATTY_AX25_SOCK_RAW else SOCK_TYPE_OTHER n)"

definition PATTY_AX25_SOCK_PARAMS :: int where "PATTY_AX25_SOCK_PARAMS = 0"
definition PATTY_AX25_SOCK_IF :: int where "PATTY_AX25_SOCK_IF = 1"
definition PATTY_AX25_SOCK_PARAM_MTU :: u32 where "PATTY_AX25_SOCK_PARAM_MTU = push_bit PATTY_AX25_PARAM_INFO_TX 1"
definition PATTY_AX25_SOCK_PARAM_WINDOW :: u32 where "PATTY_AX25_SOCK_PARAM_WINDOW = push_bit PATTY_AX25_PARAM_WINDOW_TX 1"
definition PATTY_AX25_SOCK_PARAM_ACK :: u32 where "PATTY_AX25_SOCK_PARAM_ACK = push_bit PATTY_AX25_PARAM_ACK 1"
definition PATTY_AX25_SOCK_PARAM_RETRY :: u32 where "PATTY_AX25_SOCK_PARAM_RETRY = push_bit PATTY_AX25_PARAM_RETRY 1"

text \<open>\<open>PATTY_AX25_SOCK_PROMISC\<close> as the number a client sends.\<close>

definition promisc_num :: int where "promisc_num = 6"

section \<open>Requests\<close>

record socket_request =
  rq_proto :: int
  rq_type :: int

record setsockopt_request =
  rq_fd :: int
  rq_opt :: int
  rq_len :: size_t

record addr_request =
  rq_afd :: int
  rq_addr :: addr

text \<open>\<open>pad\<close> is what the struct holds behind the address.\<close>

definition put_socket_request :: "socket_request \<Rightarrow> byte list" where
  "put_socket_request r = put_int (rq_proto r) @ put_int (rq_type r)"

definition get_socket_request :: "byte list \<Rightarrow> socket_request option" where
  "get_socket_request bs =
     do { proto \<leftarrow> get_int bs 0; type \<leftarrow> get_int bs 4; Some \<lparr>rq_proto = proto, rq_type = type\<rparr> }"

definition put_setsockopt_request :: "setsockopt_request \<Rightarrow> byte list" where
  "put_setsockopt_request r = put_int (rq_fd r) @ put_int (rq_opt r) @ put_size (rq_len r)"

definition get_setsockopt_request :: "byte list \<Rightarrow> setsockopt_request option" where
  "get_setsockopt_request bs =
     do { fd \<leftarrow> get_int bs 0; opt \<leftarrow> get_int bs 4; len \<leftarrow> get_size bs 8;
          Some \<lparr>rq_fd = fd, rq_opt = opt, rq_len = len\<rparr> }"

definition put_addr_request :: "byte \<Rightarrow> addr_request \<Rightarrow> byte list" where
  "put_addr_request pad r = put_int (rq_afd r) @ put_addr (rq_addr r) @ [pad]"

definition get_addr_request :: "byte list \<Rightarrow> addr_request option" where
  "get_addr_request bs =
     do { fd \<leftarrow> get_int bs 0; addr \<leftarrow> get_addr bs 4; Some \<lparr>rq_afd = fd, rq_addr = addr\<rparr> }"

section \<open>Responses\<close>

text \<open>Those of two \<open>int\<close>s, that of \<open>socket\<close>, and the message that tells of a connection.\<close>

definition put_response :: "int \<Rightarrow> int \<Rightarrow> byte list" where
  "put_response ret eno = put_int ret @ put_int eno"

definition put_path :: "cstring \<Rightarrow> byte list" where
  "put_path path = path @ replicate (PATTY_AX25_SOCK_PATH_SIZE - length path) 0"

definition put_socket_response :: "int \<Rightarrow> int \<Rightarrow> cstring \<Rightarrow> byte list" where
  "put_socket_response fd eno path = put_int fd @ put_int eno @ put_path path"

definition put_accept_message :: "int \<Rightarrow> addr \<Rightarrow> cstring \<Rightarrow> byte list" where
  "put_accept_message fd peer path =
     put_int fd @ put_addr peer @ put_path (fst (patty_strlcpy path (of_nat PATTY_AX25_SOCK_PATH_SIZE))) @ [0]"

section \<open>Round trips\<close>

lemma u32_of_put_u32: "u32_of (put_u32 w @ rest) = w"
proof (rule bit_word_eqI)
  fix n :: nat
  assume "n < LENGTH(32)"
  then have "n < 8 \<or> 8 \<le> n \<and> n < 16 \<or> 16 \<le> n \<and> n < 24 \<or> 24 \<le> n \<and> n < 32" by auto
  then show "bit (u32_of (put_u32 w @ rest)) n = bit w n"
    by (auto simp: u32_of_def put_u32_def bits)
qed

lemma length_put_u32 [simp]: "length (put_u32 w) = 4"
  by (simp add: put_u32_def)

lemma get_u32_put: "length a = off \<Longrightarrow> get_u32 (a @ put_u32 w @ rest) off = Some w"
  using u32_of_put_u32 [of w "[]"] by (simp add: get_u32_def slice_append)

lemma get_int_put: "length a = off \<Longrightarrow> get_int (a @ put_int n @ rest) off = Some (sint (word_of_int n :: u32))"
  by (simp add: get_int_def put_int_def get_u32_put)

lemma get_addr_put:
  "length a = off \<Longrightarrow> length (callsign x) = 6 \<Longrightarrow> get_addr (a @ put_addr x @ rest) off = Some x"
  by (cases x) (simp add: get_addr_def put_addr_def slice_def nth_append)

lemma get_size_put:
  assumes "length a = off"
  shows "get_size (a @ put_size n @ rest) off = Some n"
proof -
  have lo: "get_u32 (a @ put_size n @ rest) off = Some (ucast n)"
    using assms by (simp add: put_size_def get_u32_put)
  have hi: "get_u32 (a @ put_size n @ rest) (off + 4) = Some (ucast (drop_bit 32 n))"
    using assms get_u32_put [of "a @ put_u32 (ucast n)" "off + 4"] by (simp add: put_size_def)
  have "(ucast (ucast n :: u32) :: size_t) OR push_bit 32 (ucast (ucast (drop_bit 32 n) :: u32)) = n"
    by (rule bit_word_eqI) (auto simp: bits)
  with lo hi show ?thesis by (simp add: get_size_def)
qed

lemma length_put_int [simp]: "length (put_int n) = 4"
  by (simp add: put_int_def)

lemma get_socket_request_put:
  "get_socket_request (put_socket_request r)
   = Some \<lparr>rq_proto = sint (word_of_int (rq_proto r) :: u32), rq_type = sint (word_of_int (rq_type r) :: u32)\<rparr>"
  using get_int_put [of "[]" 0 "rq_proto r" "put_int (rq_type r)"] get_int_put [of "put_int (rq_proto r)" 4 _ "[]"]
  by (simp add: get_socket_request_def put_socket_request_def)

lemma get_setsockopt_request_put:
  "get_setsockopt_request (put_setsockopt_request r)
   = Some \<lparr>rq_fd = sint (word_of_int (rq_fd r) :: u32), rq_opt = sint (word_of_int (rq_opt r) :: u32), rq_len = rq_len r\<rparr>"
  using get_int_put [of "[]" 0 "rq_fd r"] get_int_put [of "put_int (rq_fd r)" 4]
    get_size_put [of "put_int (rq_fd r) @ put_int (rq_opt r)" 8 _ "[]"]
  by (simp add: get_setsockopt_request_def put_setsockopt_request_def)

lemma get_addr_request_put:
  assumes "length (callsign (rq_addr r)) = 6"
  shows "get_addr_request (put_addr_request pad r)
    = Some \<lparr>rq_afd = sint (word_of_int (rq_afd r) :: u32), rq_addr = rq_addr r\<rparr>"
  using assms get_int_put [of "[]" 0 "rq_afd r"] get_addr_put [of "put_int (rq_afd r)" 4 "rq_addr r"]
  by (simp add: get_addr_request_def put_addr_request_def)

end
