(* ===== verification/Patty_Server.thy ===== *)
theory Patty_Server
  imports Patty_Message
begin

text \<open>
  The server's state and its bookkeeping: the first part of \<open>src/src/server.c\<close>. The record
  \<open>server\<close> holds the fields of the C struct, the objects its pointers lead to (sockets,
  interfaces and their entries, routes and the per-client dictionaries, each a map from addresses), and the system.
  Address 0 is NULL; an object that was freed is not in its map, so following a stale pointer is
  undefined (\<open>None\<close>).

  Every operation yields C's return value and the new state. Descriptor sets hold descriptors
  below \<open>FD_SETSIZE\<close>; the macros are undefined on others.
\<close>

section \<open>State\<close>

record if_entry =
  en_fd :: int
  en_name :: cstring
  en_iface :: nat

text \<open>
  What fresh memory holds: the attributes of a terminal line, new KISS readers and their buffers,
  the \<open>prev\<close> field of a list item, and the uninitialised locals \<open>response.ret\<close> of
  \<open>server_listen\<close>, \<open>frame\<close> of \<open>handle_frame\<close> and \<open>params\<close> of \<open>handle_xid\<close>.
\<close>

record env =
  ev_line :: termios
  ev_blank :: tnc
  ev_garbage :: "byte list"
  ev_prev :: nat
  ev_ret :: int
  ev_frame :: frame
  ev_params :: params

record 'p server =
  sv_fd :: int
  sv_fd_max :: int
  sv_elapsed :: timespec
  sv_fds_watch :: "int \<Rightarrow> bool"
  sv_fds_r :: "int \<Rightarrow> bool"
  sv_ifaces :: "nat plist"
  sv_routes :: route_table
  sv_socks_by_fd :: "nat bucket"
  sv_socks_by_client :: "nat bucket"
  sv_socks_local :: "nat bucket"
  sv_socks_remote :: "nat bucket"
  sv_clients :: "nat bucket"
  sv_clients_by_sock :: "nat bucket"
  h_socks :: "nat \<rightharpoonup> sock"
  h_ifaces :: "nat \<rightharpoonup> 'p iface"
  h_entries :: "nat \<rightharpoonup> if_entry"
  h_routes :: "nat \<rightharpoonup> route"
  h_dicts :: "nat \<rightharpoonup> nat bucket"
  h_next :: nat
  sv_env :: env
  sv_world :: world

text \<open>The state with no object and nothing allocated, around which \<open>patty_ax25_server_new\<close> builds.\<close>

definition server_zero :: "env \<Rightarrow> world \<Rightarrow> 'p server" where
  "server_zero ev w = \<lparr>sv_fd = 0, sv_fd_max = 0, sv_elapsed = \<lparr>tv_sec = 0, tv_nsec = 0\<rparr>,
     sv_fds_watch = (\<lambda>_. False), sv_fds_r = (\<lambda>_. False), sv_ifaces = patty_list_new,
     sv_routes = patty_dict_new, sv_socks_by_fd = patty_dict_new, sv_socks_by_client = patty_dict_new,
     sv_socks_local = patty_dict_new, sv_socks_remote = patty_dict_new, sv_clients = patty_dict_new,
     sv_clients_by_sock = patty_dict_new, h_socks = Map.empty, h_ifaces = Map.empty, h_entries = Map.empty,
     h_routes = Map.empty, h_dicts = Map.empty, h_next = 1, sv_env = ev, sv_world = w\<rparr>"

text \<open>A call into the system from the server's state.\<close>

definition on_world :: "(world \<Rightarrow> 'a \<times> world) \<Rightarrow> 'p server \<Rightarrow> 'a \<times> 'p server" where
  "on_world f s = (case f (sv_world s) of (r, w) \<Rightarrow> (r, s\<lparr>sv_world := w\<rparr>))"

definition set_errno :: "errno \<Rightarrow> 'p server \<Rightarrow> 'p server" where
  "set_errno e s = s\<lparr>sv_world := (sv_world s)\<lparr>err := Some e\<rparr>\<rparr>"

text \<open>Storing through a socket pointer, and handing it to an operation of sock.c that sends.\<close>

definition upd_sock :: "nat \<Rightarrow> (sock \<Rightarrow> sock) \<Rightarrow> 'p server \<Rightarrow> 'p server option" where
  "upd_sock p f s = do { k \<leftarrow> h_socks s p; Some (s\<lparr>h_socks := (h_socks s)(p \<mapsto> f k)\<rparr>) }"

definition on_link :: "nat \<Rightarrow> ('p link \<Rightarrow> (int \<times> 'p link) option) \<Rightarrow> 'p server \<Rightarrow> (int \<times> 'p server) option" where
  "on_link p f s =
     do { k \<leftarrow> h_socks s p;
          iface \<leftarrow> (if s_iface k = 0 then Some None else map_option Some (h_ifaces s (s_iface k)));
          (r, l) \<leftarrow> f \<lparr>l_sock = k, l_iface = iface, l_world = sv_world s\<rparr>;
          Some (r, s\<lparr>h_socks := (h_socks s)(p \<mapsto> l_sock l),
                     h_ifaces := (case l_iface l of None \<Rightarrow> h_ifaces s
                                  | Some i \<Rightarrow> (h_ifaces s)(s_iface k \<mapsto> i)),
                     sv_world := l_world l\<rparr>) }"

text \<open>
  Storing in one of the dictionaries; one reply of the script decides about the allocations of the
  call. An integer stored as \<open>NULL + n\<close> is NULL for 0.
\<close>

definition dict_store :: "nat bucket \<Rightarrow> u32 \<Rightarrow> nat option \<Rightarrow> world \<Rightarrow> bool \<times> nat bucket \<times> world" where
  "dict_store d key v w =
     (case sys_call w of (r, w) \<Rightarrow>
      case patty_dict_set (r \<ge> 0) d key v of (x, d) \<Rightarrow> (x \<noteq> None, d, w))"

definition int_ptr :: "int \<Rightarrow> nat option" where
  "int_ptr n = (if n = 0 then None else Some (nat n))"

section \<open>Creation\<close>

text \<open>Nine allocations; \<open>calls_fail n w\<close> makes \<open>n\<close> of them and stops at the first that fails.\<close>

fun calls_fail :: "nat \<Rightarrow> world \<Rightarrow> bool \<times> world" where
  "calls_fail 0 w = (False, w)"
| "calls_fail (Suc n) w = (case sys_call w of (r, w) \<Rightarrow> if r < 0 then (True, w) else calls_fail n w)"

definition patty_ax25_server_new :: "env \<Rightarrow> world \<Rightarrow> 'p server option \<times> world" where
  "patty_ax25_server_new ev w =
     (case calls_fail 9 w of (failed, w) \<Rightarrow> if failed then (None, w) else (Some (server_zero ev w), w))"

text \<open>The interfaces that are registered are destroyed; everything else only frees memory.\<close>

definition destroy_ifaces :: "'p server \<Rightarrow> world option" where
  "destroy_ifaces s =
     do { entries \<leftarrow> patty_list_values (sv_ifaces s);
          fold (\<lambda>p w. do { w \<leftarrow> w; e \<leftarrow> h_entries s p; i \<leftarrow> h_ifaces s (en_iface e); Some (patty_ax25_if_destroy i w) })
            entries (Some (sv_world s)) }"

definition patty_ax25_server_destroy :: "'p server \<Rightarrow> world option" where
  "patty_ax25_server_destroy s = destroy_ifaces s"

section \<open>Descriptor sets\<close>

definition FD_SETSIZE :: int where "FD_SETSIZE = 1024"

definition fd_ok :: "int \<Rightarrow> bool" where
  "fd_ok fd \<longleftrightarrow> 0 \<le> fd \<and> fd < FD_SETSIZE"

definition fd_isset :: "int \<Rightarrow> (int \<Rightarrow> bool) \<Rightarrow> bool option" where
  "fd_isset fd fds = (if fd_ok fd then Some (fds fd) else None)"

definition fd_watch :: "int \<Rightarrow> 'p server \<Rightarrow> 'p server option" where
  "fd_watch fd s =
     (if fd_ok fd
      then Some (s\<lparr>sv_fds_watch := (sv_fds_watch s)(fd := True),
                   sv_fd_max := (if sv_fd_max s \<le> fd then fd + 1 else sv_fd_max s)\<rparr>)
      else None)"

text \<open>The loop runs over \<open>8 * sizeof(&server->fds_watch)\<close> descriptors, the bits of a pointer.\<close>

definition fd_clear :: "int \<Rightarrow> 'p server \<Rightarrow> 'p server option" where
  "fd_clear fd s =
     (if fd_ok fd
      then let watch = (sv_fds_watch s)(fd := False) in
           Some (s\<lparr>sv_fds_watch := watch,
                   sv_fd_max := (if sv_fd_max s = fd + 1
                                 then fold (\<lambda>i m. if watch (int i) then int i else m) [0..<64] (sv_fd_max s) + 1
                                 else sv_fd_max s)\<rparr>)
      else None)"

section \<open>Finding and saving sockets\<close>

definition sock_by_fd :: "nat bucket \<Rightarrow> int \<Rightarrow> nat option" where
  "sock_by_fd dict fd = patty_dict_get dict (word_of_int fd)"

definition sock_by_addr :: "nat bucket \<Rightarrow> addr \<Rightarrow> nat option" where
  "sock_by_addr dict addr =
     patty_dict_get dict (patty_hash_end (patty_ax25_addr_hash patty_hash_init addr))"

definition hash_addrpair :: "addr \<Rightarrow> addr \<Rightarrow> u32" where
  "hash_addrpair local remote =
     patty_hash_end (patty_ax25_addr_hash (patty_ax25_addr_hash patty_hash_init local) remote)"

definition sock_by_addrpair :: "nat bucket \<Rightarrow> addr \<Rightarrow> addr \<Rightarrow> nat option" where
  "sock_by_addrpair dict local remote =
     patty_dict_get dict (patty_hash_end (patty_ax25_addr_hash (patty_ax25_addr_hash patty_hash_init local) remote))"

definition sock_save_by_fd :: "nat bucket \<Rightarrow> nat \<Rightarrow> sock \<Rightarrow> world \<Rightarrow> int \<times> nat bucket \<times> world" where
  "sock_save_by_fd dict p sock w =
     (case dict_store dict (word_of_int (s_fd sock)) (Some p) w of
        (ok, d, w) \<Rightarrow> (if ok then s_fd sock else -1, d, w))"

definition client_by_sock :: "'p server \<Rightarrow> sock \<Rightarrow> int" where
  "client_by_sock s sock =
     (case patty_dict_get (sv_clients_by_sock s) (word_of_int (s_fd sock)) of None \<Rightarrow> -1 | Some v \<Rightarrow> int v)"

definition client_save_by_sock :: "int \<Rightarrow> sock \<Rightarrow> 'p server \<Rightarrow> int \<times> 'p server" where
  "client_save_by_sock client sock s =
     (case dict_store (sv_clients_by_sock s) (word_of_int (s_fd sock)) (int_ptr client) (sv_world s) of
        (ok, d, w) \<Rightarrow> (if ok then 0 else -1, s\<lparr>sv_clients_by_sock := d, sv_world := w\<rparr>))"

definition client_delete_by_sock :: "sock \<Rightarrow> 'p server \<Rightarrow> int \<times> 'p server" where
  "client_delete_by_sock sock s =
     (case patty_dict_delete (sv_clients_by_sock s) (word_of_int (s_fd sock)) of
        (r, d) \<Rightarrow> (r, s\<lparr>sv_clients_by_sock := d\<rparr>))"

definition sock_save_local :: "nat \<Rightarrow> sock \<Rightarrow> 'p server \<Rightarrow> int \<times> 'p server" where
  "sock_save_local p sock s =
     (case dict_store (sv_socks_local s) (hash_addr (s_local sock)) (Some p) (sv_world s) of
        (ok, d, w) \<Rightarrow> (if ok then 0 else -1, s\<lparr>sv_socks_local := d, sv_world := w\<rparr>))"

definition sock_save_remote :: "nat \<Rightarrow> sock \<Rightarrow> 'p server \<Rightarrow> int \<times> 'p server" where
  "sock_save_remote p sock s =
     (case dict_store (sv_socks_remote s) (hash_addrpair (s_local sock) (s_remote sock)) (Some p) (sv_world s) of
        (ok, d, w) \<Rightarrow> (if ok then 0 else -1, s\<lparr>sv_socks_remote := d, sv_world := w\<rparr>))"

definition sock_delete_local :: "sock \<Rightarrow> 'p server \<Rightarrow> int \<times> 'p server" where
  "sock_delete_local sock s =
     (case patty_dict_delete (sv_socks_local s) (hash_addr (s_local sock)) of
        (r, d) \<Rightarrow> (r, s\<lparr>sv_socks_local := d\<rparr>))"

definition sock_delete_remote :: "sock \<Rightarrow> 'p server \<Rightarrow> int \<times> 'p server" where
  "sock_delete_remote sock s =
     (case patty_dict_delete (sv_socks_remote s) (hash_addrpair (s_local sock) (s_remote sock)) of
        (r, d) \<Rightarrow> (r, s\<lparr>sv_socks_remote := d\<rparr>))"

section \<open>Shutting down, saving, closing\<close>

definition sock_shutdown :: "nat \<Rightarrow> 'p server \<Rightarrow> (int \<times> 'p server) option" where
  "sock_shutdown p s =
     do { sock \<leftarrow> h_socks s p;
          s \<leftarrow> fd_clear (s_fd sock) s;
          if s_type sock \<noteq> PATTY_AX25_SOCK_STREAM then Some (0, s)
          else if s_state sock \<noteq> PATTY_AX25_SOCK_ESTABLISHED then Some (0, s)
          else do { s \<leftarrow> upd_sock p (\<lambda>k. k\<lparr>s_state := PATTY_AX25_SOCK_PENDING_DISCONNECT, s_retries := s_n_retry k,
                        s_timer_t1 := patty_timer_start (s_timer_t1 k)\<rparr>) s;
                    on_link p (patty_ax25_sock_send_disc 1) s } }"

definition sock_save :: "int \<Rightarrow> nat \<Rightarrow> 'p server \<Rightarrow> (int \<times> 'p server) option" where
  "sock_save client p s =
     do { sock \<leftarrow> h_socks s p;
          let (r, s) = (case s_state sock of
                          PATTY_AX25_SOCK_LISTENING \<Rightarrow> sock_save_local p sock s
                        | PATTY_AX25_SOCK_PENDING_ACCEPT \<Rightarrow> sock_save_remote p sock s
                        | PATTY_AX25_SOCK_PENDING_CONNECT \<Rightarrow> sock_save_remote p sock s
                        | PATTY_AX25_SOCK_ESTABLISHED \<Rightarrow> sock_save_remote p sock s
                        | _ \<Rightarrow> (0, s));
          if r < 0 then Some (-1, s)
          else case client_save_by_sock client sock s of (r, s) \<Rightarrow>
          if r < 0 then Some (-1, s)
          else case patty_dict_get (sv_socks_by_client s) (word_of_int client) of
            None \<Rightarrow> Some (-1, s)
          | Some q \<Rightarrow>
              do { socks \<leftarrow> h_dicts s q;
                   case sock_save_by_fd socks p sock (sv_world s) of (r, socks, w) \<Rightarrow>
                   let s = s\<lparr>h_dicts := (h_dicts s)(q \<mapsto> socks), sv_world := w\<rparr> in
                   if r < 0 then Some (-1, s)
                   else case sock_save_by_fd (sv_socks_by_fd s) p sock (sv_world s) of (r, d, w) \<Rightarrow>
                   Some (r, s\<lparr>sv_socks_by_fd := d, sv_world := w\<rparr>) } }"

text \<open>\<open>patty_ax25_sock_destroy\<close> on the socket at \<open>p\<close>, which is freed.\<close>

definition sock_destroy :: "nat \<Rightarrow> 'p server \<Rightarrow> 'p server option" where
  "sock_destroy p s =
     do { sock \<leftarrow> h_socks s p;
          iface \<leftarrow> (if s_iface sock = 0 then Some None else Some (h_ifaces s (s_iface sock)));
          (iface, w) \<leftarrow> patty_ax25_sock_destroy sock iface (sv_world s);
          Some (s\<lparr>h_socks := (h_socks s)(p := None),
                  h_ifaces := (case iface of None \<Rightarrow> h_ifaces s | Some i \<Rightarrow> (h_ifaces s)(s_iface sock \<mapsto> i)),
                  sv_world := w\<rparr>) }"

definition sock_close :: "nat \<Rightarrow> 'p server \<Rightarrow> (int \<times> 'p server) option" where
  "sock_close p s =
     do { sock \<leftarrow> h_socks s p;
          let (r, s) = (case s_state sock of
                          PATTY_AX25_SOCK_LISTENING \<Rightarrow> sock_delete_local sock s
                        | PATTY_AX25_SOCK_PENDING_ACCEPT \<Rightarrow> sock_delete_remote sock s
                        | PATTY_AX25_SOCK_PENDING_CONNECT \<Rightarrow> sock_delete_remote sock s
                        | PATTY_AX25_SOCK_PENDING_DISCONNECT \<Rightarrow> sock_delete_remote sock s
                        | PATTY_AX25_SOCK_ESTABLISHED \<Rightarrow> sock_delete_remote sock s
                        | _ \<Rightarrow> (0, s));
          if r < 0 then Some (-1, s)
          else let client = client_by_sock s sock in
          if client < 0 then Some (-1, s)
          else case patty_dict_get (sv_socks_by_client s) (word_of_int client) of
            None \<Rightarrow> Some (-1, s)
          | Some q \<Rightarrow>
              do { socks \<leftarrow> h_dicts s q;
                   case patty_dict_delete socks (word_of_int (s_fd sock)) of (r, socks) \<Rightarrow>
                   let s = s\<lparr>h_dicts := (h_dicts s)(q \<mapsto> socks)\<rparr> in
                   if r < 0 then Some (-1, s)
                   else case patty_dict_delete (sv_socks_by_fd s) (word_of_int (s_fd sock)) of (r, d) \<Rightarrow>
                   let s = s\<lparr>sv_socks_by_fd := d\<rparr> in
                   if r < 0 then Some (-1, s)
                   else do { s \<leftarrow> fd_clear (s_fd sock) (snd (client_delete_by_sock sock s));
                             s \<leftarrow> sock_destroy p s;
                             Some (0, s) } } }"

definition sock_flow_stop :: "nat \<Rightarrow> 'p server \<Rightarrow> 'p server option" where
  "sock_flow_stop p s =
     do { sock \<leftarrow> h_socks s p; s \<leftarrow> fd_clear (s_fd sock) s;
          upd_sock p (\<lambda>k. k\<lparr>s_flow := PATTY_AX25_SOCK_WAIT\<rparr>) s }"

definition sock_flow_start :: "nat \<Rightarrow> 'p server \<Rightarrow> 'p server option" where
  "sock_flow_start p s = do { sock \<leftarrow> h_socks s p; fd_watch (s_fd sock) s }"

section \<open>Interfaces and routes\<close>

definition IF_ENTRY_NAME_SIZE :: nat where "IF_ENTRY_NAME_SIZE = 10"

definition patty_ax25_server_if_add :: "nat \<Rightarrow> cstring \<Rightarrow> 'p server \<Rightarrow> (int \<times> 'p server) option" where
  "patty_ax25_server_if_add p name s =
     (case on_world sys_call s of (r, s) \<Rightarrow>
      if r < 0 then Some (-1, s)
      else do { iface \<leftarrow> h_ifaces s p;
                let fd = patty_ax25_if_fd iface;
                if fd < 0 then Some (-1, s)
                else let entry = \<lparr>en_fd = fd, en_name = fst (patty_strlcpy name (of_nat IF_ENTRY_NAME_SIZE)),
                                  en_iface = p\<rparr>;
                         e = h_next s;
                         s = s\<lparr>h_entries := (h_entries s)(e \<mapsto> entry), h_next := e + 1\<rparr> in
                     case on_world sys_call s of (r, s) \<Rightarrow>
                     do { (x, l) \<leftarrow> patty_list_append (if r < 0 then None else Some (h_next s, ev_prev (sv_env s)))
                                    (sv_ifaces s) e;
                          if x = None then Some (-1, s\<lparr>h_entries := (h_entries s)(e := None)\<rparr>)
                          else do { s \<leftarrow> fd_watch fd (s\<lparr>sv_ifaces := l, h_next := h_next s + 1\<rparr>); Some (0, s) } } })"

text \<open>The first entry with a name: its index and its address. Entries are followed one by one.\<close>

fun find_entry :: "(nat \<rightharpoonup> if_entry) \<Rightarrow> cstring \<Rightarrow> int \<Rightarrow> nat list \<Rightarrow> (int \<times> nat) option option" where
  "find_entry h name i [] = Some None"
| "find_entry h name i (p # ps) =
     do { e \<leftarrow> h p;
          if strncmp_eq (en_name e) name IF_ENTRY_NAME_SIZE then Some (Some (i, p))
          else find_entry h name (i + 1) ps }"

definition patty_ax25_server_if_delete :: "cstring \<Rightarrow> 'p server \<Rightarrow> (int \<times> 'p server) option" where
  "patty_ax25_server_if_delete name s =
     do { ps \<leftarrow> patty_list_values (sv_ifaces s);
          found \<leftarrow> find_entry (h_entries s) name 0 ps;
          case found of
            None \<Rightarrow> Some (0, s)
          | Some (i, p) \<Rightarrow>
              do { e \<leftarrow> h_entries s p;
                   s \<leftarrow> fd_clear (en_fd e) s;
                   (x, l) \<leftarrow> patty_list_splice (sv_ifaces s) i;
                   Some (if x = None then (-1, s)
                         else (0, s\<lparr>sv_ifaces := l, h_entries := (h_entries s)(p := None)\<rparr>)) } }"

definition patty_ax25_server_if_get :: "'p server \<Rightarrow> cstring \<Rightarrow> nat option option" where
  "patty_ax25_server_if_get s name =
     do { ps \<leftarrow> patty_list_values (sv_ifaces s);
          found \<leftarrow> find_entry (h_entries s) name 0 ps;
          case found of None \<Rightarrow> Some None
          | Some (i, p) \<Rightarrow> map_option (\<lambda>e. Some (en_iface e)) (h_entries s p) }"

fun entries_each ::
  "(nat \<rightharpoonup> if_entry) \<Rightarrow> (cstring \<Rightarrow> nat \<Rightarrow> 's \<Rightarrow> int \<times> 's) \<Rightarrow> nat list \<Rightarrow> 's \<Rightarrow> (int \<times> 's) option" where
  "entries_each h callback [] ctx = Some (0, ctx)"
| "entries_each h callback (p # ps) ctx =
     do { e \<leftarrow> h p;
          case callback (en_name e) (en_iface e) ctx of (r, ctx) \<Rightarrow>
          if r < 0 then Some (-1, ctx) else entries_each h callback ps ctx }"

definition patty_ax25_server_if_each ::
  "'p server \<Rightarrow> (cstring \<Rightarrow> nat \<Rightarrow> 's \<Rightarrow> int \<times> 's) \<Rightarrow> 's \<Rightarrow> (int \<times> 's) option" where
  "patty_ax25_server_if_each s callback ctx =
     do { ps \<leftarrow> patty_list_values (sv_ifaces s); entries_each (h_entries s) callback ps ctx }"

text \<open>\<open>p\<close> is the pointer to the route.\<close>

definition patty_ax25_server_route_add :: "nat \<Rightarrow> 'p server \<Rightarrow> (int \<times> 'p server) option" where
  "patty_ax25_server_route_add p s =
     do { route \<leftarrow> h_routes s p;
          case on_world sys_call s of (m, s) \<Rightarrow>
          case patty_ax25_route_table_add (m \<ge> 0) (sv_routes s) p route of
            (Inl e, t) \<Rightarrow> Some (-1, set_errno e (s\<lparr>sv_routes := t\<rparr>))
          | (Inr _, t) \<Rightarrow> Some (0, s\<lparr>sv_routes := t\<rparr>) }"

definition patty_ax25_server_route_delete :: "addr \<Rightarrow> 'p server \<Rightarrow> int \<times> 'p server" where
  "patty_ax25_server_route_delete dest s =
     (case patty_ax25_route_table_delete (sv_routes s) dest of (r, t) \<Rightarrow> (r, s\<lparr>sv_routes := t\<rparr>))"

definition patty_ax25_server_route_find :: "'p server \<Rightarrow> addr \<Rightarrow> nat option" where
  "patty_ax25_server_route_find s dest = patty_ax25_route_table_find (sv_routes s) dest"

definition patty_ax25_server_route_default :: "'p server \<Rightarrow> nat option" where
  "patty_ax25_server_route_default s = patty_ax25_route_table_default (sv_routes s)"

definition patty_ax25_server_route_each ::
  "'p server \<Rightarrow> (nat option \<Rightarrow> 's \<Rightarrow> (int \<times> 's) option) \<Rightarrow> 's \<Rightarrow> (int \<times> 's) option" where
  "patty_ax25_server_route_each s callback ctx = patty_ax25_route_table_each (\<lambda>_. sv_routes s) callback ctx"

end
