(* ===== verification/Patty_Calls.thy ===== *)
theory Patty_Calls
  imports Patty_Server
begin

text \<open>
  The requests of clients: \<open>respond_accept\<close> to \<open>handle_clients\<close> of \<open>src/src/server.c\<close>. Each call
  reads its request from the client's descriptor, works on the tables of the server and writes
  a response. The results are those of the C functions: negative for failure.
\<close>

section \<open>Answers\<close>

definition respond :: "int \<Rightarrow> int \<Rightarrow> int \<Rightarrow> 'p server \<Rightarrow> (int \<times> 'p server) option" where
  "respond client ret eno s = Some (on_world (sys_write client (put_response ret eno)) s)"

definition respond_accept :: "int \<Rightarrow> int \<Rightarrow> int \<Rightarrow> 'p server \<Rightarrow> (int \<times> 'p server) option" where
  "respond_accept client ret eno s = Some (on_world (sys_write client (put_response ret eno)) s)"

definition respond_connect :: "int \<Rightarrow> int \<Rightarrow> int \<Rightarrow> 'p server \<Rightarrow> (int \<times> 'p server) option" where
  "respond_connect client ret eno s = Some (on_world (sys_write client (put_response ret eno)) s)"

definition notify_accept :: "int \<Rightarrow> int \<Rightarrow> addr \<Rightarrow> cstring \<Rightarrow> 'p server \<Rightarrow> (int \<times> 'p server) option" where
  "notify_accept local remote peer path s =
     Some (on_world (sys_write local (put_accept_message remote peer path)) s)"

abbreviation eno :: "errno \<Rightarrow> int" where "eno e \<equiv> errno_num (Some e)"

text \<open>\<open>read(client, &request, n)\<close>, then \<open>k\<close> on the bytes received.\<close>

definition with_request ::
  "nat \<Rightarrow> int \<Rightarrow> (byte list \<Rightarrow> 'p server \<Rightarrow> (int \<times> 'p server) option) \<Rightarrow> 'p server \<Rightarrow> (int \<times> 'p server) option" where
  "with_request n client k s =
     (case on_world (sys_read n) s of
        (Inl e, s) \<Rightarrow> Some (-1, s)
      | (Inr bs, s) \<Rightarrow> k bs s)"

section \<open>Calls\<close>

definition server_ping :: "int \<Rightarrow> 'p server \<Rightarrow> (int \<times> 'p server) option" where
  "server_ping client s = Some (on_world (sys_write client (put_int 1)) s)"

text \<open>A new socket, stored at a fresh address.\<close>

definition new_sock :: "byte \<Rightarrow> sock_type \<Rightarrow> 'p server \<Rightarrow> (nat option \<times> 'p server) option" where
  "new_sock proto type s =
     do { (k, w) \<leftarrow> patty_ax25_sock_new (ev_line (sv_env s)) (ev_blank (sv_env s)) (ev_garbage (sv_env s))
                     proto type (sv_world s);
          let s = s\<lparr>sv_world := w\<rparr>;
          case k of
            None \<Rightarrow> Some (None, s)
          | Some k \<Rightarrow> Some (Some (h_next s),
                            s\<lparr>h_socks := (h_socks s)(h_next s \<mapsto> k), h_next := h_next s + 1\<rparr>) }"

definition server_socket :: "int \<Rightarrow> 'p server \<Rightarrow> (int \<times> 'p server) option" where
  "server_socket client = with_request 8 client (\<lambda>bs s.
     do { request \<leftarrow> get_socket_request bs;
          (p, s) \<leftarrow> new_sock (word_of_int (rq_proto request)) (sock_type_of (rq_type request)) s;
          case p of
            None \<Rightarrow> Some (-1, s)
          | Some p \<Rightarrow>
              do { (r, s) \<leftarrow> sock_save client p s;
                   if r < 0 then do { s \<leftarrow> sock_destroy p s; Some (-1, s) }
                   else do { sock \<leftarrow> h_socks s p;
                             Some (on_world (sys_write client
                               (put_socket_response (s_fd sock) 0 (patty_ax25_sock_pty sock))) s) } } })"

text \<open>\<open>patty_ax25_sock_bind_if\<close> on the socket at \<open>p\<close> and the interface at \<open>ip\<close>.\<close>

definition bind_if :: "nat \<Rightarrow> nat \<Rightarrow> 'p server \<Rightarrow> (int \<times> 'p server) option" where
  "bind_if p ip s =
     do { sock \<leftarrow> h_socks s p;
          iface \<leftarrow> h_ifaces s ip;
          let (m, s) = (if s_state sock = PATTY_AX25_SOCK_PROMISC then on_world sys_call s else (0, s));
          case patty_ax25_sock_bind_if (m \<ge> 0) sock ip iface of (r, sock, iface) \<Rightarrow>
          let s = s\<lparr>h_socks := (h_socks s)(p \<mapsto> sock), h_ifaces := (h_ifaces s)(ip \<mapsto> iface)\<rparr> in
          Some (case r of Inl e \<Rightarrow> (-1, set_errno e s) | Inr _ \<Rightarrow> (0, s)) }"

text \<open>
  \<open>case PATTY_AX25_SOCK_PARAMS\<close>: the data is read with the length the client asked for, into a
  struct of 40 bytes; a field is looked at when its flag is set. \<open>None\<close> inside is the way out
  with -1.
\<close>

definition setsockopt_params :: "nat \<Rightarrow> byte list \<Rightarrow> 'p server \<Rightarrow> (int \<times> 'p server) option" where
  "setsockopt_params p data s =
     do { flags \<leftarrow> (if length data > 40 then None else get_u32 data 0);
          sock \<leftarrow> h_socks s p;
          sock \<leftarrow> (if HAS flags PATTY_AX25_SOCK_PARAM_MTU
                   then map_option (patty_ax25_sock_mtu_set sock) (get_size data 8) else Some sock);
          sock \<leftarrow> (if HAS flags PATTY_AX25_SOCK_PARAM_WINDOW
                   then map_option (patty_ax25_sock_window_set sock) (get_size data 16) else Some sock);
          sock \<leftarrow> (if HAS flags PATTY_AX25_SOCK_PARAM_ACK
                   then map_option (\<lambda>a. patty_ax25_sock_ack_set sock (sint a)) (get_size data 32) else Some sock);
          sock \<leftarrow> (if HAS flags PATTY_AX25_SOCK_PARAM_RETRY
                   then map_option (patty_ax25_sock_retry_set sock) (get_size data 24) else Some sock);
          (r, sock, w) \<leftarrow> (if HAS flags (PATTY_AX25_SOCK_PARAM_MTU OR PATTY_AX25_SOCK_PARAM_WINDOW)
                           then patty_ax25_sock_realloc_bufs sock (sv_world s) else Some (0, sock, sv_world s));
          Some (r, s\<lparr>h_socks := (h_socks s)(p \<mapsto> sock), sv_world := w\<rparr>) }"

text \<open>The string at the start of a struct of 12 bytes, of which at most ten are compared.\<close>

definition if_name :: "byte list \<Rightarrow> cstring option" where
  "if_name data =
     (if 0 \<in> set data \<or> length data \<ge> IF_ENTRY_NAME_SIZE then Some (takeWhile (\<lambda>b. b \<noteq> 0) data) else None)"

text \<open>
  \<open>case PATTY_AX25_SOCK_IF\<close> once the data is there. The result says what is answered: the
  error number of a negative response, or \<open>None\<close> for success.
\<close>

definition setsockopt_if :: "nat \<Rightarrow> byte list \<Rightarrow> 'p server \<Rightarrow> (errno option \<times> 'p server) option" where
  "setsockopt_if p data s =
     do { name \<leftarrow> (if length data > 12 then None else if_name data);
          iface \<leftarrow> patty_ax25_server_if_get s name;
          case iface of
            None \<Rightarrow> Some (Some ENODEV, s)
          | Some ip \<Rightarrow>
              do { state \<leftarrow> get_int data 8;
                   s \<leftarrow> (if state = promisc_num
                         then upd_sock p (\<lambda>k. k\<lparr>s_state := PATTY_AX25_SOCK_PROMISC\<rparr>) s else Some s);
                   (r, s) \<leftarrow> bind_if p ip s;
                   sock \<leftarrow> h_socks s p;
                   s \<leftarrow> fd_watch (s_fd sock) s;
                   Some (None, s) } }"

definition server_setsockopt :: "int \<Rightarrow> 'p server \<Rightarrow> (int \<times> 'p server) option" where
  "server_setsockopt client = with_request 16 client (\<lambda>bs s.
     do { request \<leftarrow> get_setsockopt_request bs;
          case sock_by_fd (sv_socks_by_fd s) (rq_fd request) of
            None \<Rightarrow> respond client (-1) (eno EBADF) s
          | Some p \<Rightarrow>
              if rq_opt request = PATTY_AX25_SOCK_PARAMS
              then with_request (unat (rq_len request)) client (\<lambda>data s.
                     do { (r, s) \<leftarrow> setsockopt_params p data s;
                          if r < 0 then Some (-1, s) else respond client 0 0 s }) s
              else if rq_opt request = PATTY_AX25_SOCK_IF
              then do { sock \<leftarrow> h_socks s p;
                        if s_type sock \<noteq> PATTY_AX25_SOCK_RAW then respond client (-1) (eno EINVAL) s
                        else with_request (unat (rq_len request)) client (\<lambda>data s.
                               do { (e, s) \<leftarrow> setsockopt_if p data s;
                                    case e of Some e \<Rightarrow> respond client (-1) (eno e) s
                                    | None \<Rightarrow> respond client 0 0 s }) s }
              else respond client (-1) (eno EINVAL) s })"

definition server_bind :: "int \<Rightarrow> 'p server \<Rightarrow> (int \<times> 'p server) option" where
  "server_bind client = with_request 12 client (\<lambda>bs s.
     do { request \<leftarrow> get_addr_request bs;
          case sock_by_fd (sv_socks_by_fd s) (rq_afd request) of
            None \<Rightarrow> respond client (-1) (eno EBADF) s
          | Some p \<Rightarrow>
              do { sock \<leftarrow> h_socks s p;
                   if callsign (s_local sock) ! 0 \<noteq> 0 then respond client (-1) (eno EINVAL) s
                   else if sock_by_addr (sv_socks_local s) (rq_addr request) \<noteq> None
                   then respond client (-1) (eno EADDRINUSE) s
                   else do { s \<leftarrow> upd_sock p (\<lambda>k. k\<lparr>s_local := rq_addr request\<rparr>) s;
                             respond client 0 0 s } } })"

text \<open>For a socket without address \<open>response.ret\<close> is never assigned.\<close>

definition server_listen :: "int \<Rightarrow> 'p server \<Rightarrow> (int \<times> 'p server) option" where
  "server_listen client = with_request 4 client (\<lambda>bs s.
     do { fd \<leftarrow> get_int bs 0;
          case sock_by_fd (sv_socks_by_fd s) fd of
            None \<Rightarrow> respond client (-1) (eno EBADF) s
          | Some p \<Rightarrow>
              do { sock \<leftarrow> h_socks s p;
                   if callsign (s_local sock) ! 0 = 0 then respond client (ev_ret (sv_env s)) (eno EINVAL) s
                   else do { s \<leftarrow> upd_sock p (\<lambda>k. k\<lparr>s_state := PATTY_AX25_SOCK_LISTENING\<rparr>) s;
                             case sock_save_local p sock s of (r, s) \<Rightarrow>
                             if r < 0 then Some (-1, s) else respond client 0 0 s } } })"

definition server_accept :: "int \<Rightarrow> 'p server \<Rightarrow> (int \<times> 'p server) option" where
  "server_accept client = with_request 4 client (\<lambda>bs s.
     do { fd \<leftarrow> get_int bs 0;
          case sock_by_fd (sv_socks_by_fd s) fd of
            None \<Rightarrow> respond_accept client (-1) (eno EBADF) s
          | Some p \<Rightarrow>
              do { sock \<leftarrow> h_socks s p;
                   if s_type sock \<noteq> PATTY_AX25_SOCK_STREAM then respond_accept client (-1) (eno EOPNOTSUPP) s
                   else if s_state sock \<noteq> PATTY_AX25_SOCK_LISTENING then respond_accept client (-1) (eno EINVAL) s
                   else respond_accept client 0 0 s } })"

text \<open>The part of \<open>server_connect\<close> behind the lookup of the route.\<close>

definition connect_sock :: "int \<Rightarrow> addr \<Rightarrow> nat \<Rightarrow> nat \<Rightarrow> 'p server \<Rightarrow> (int \<times> 'p server) option" where
  "connect_sock client peer p ip s =
     do { (r, s) \<leftarrow> bind_if p ip s;
          iface \<leftarrow> h_ifaces s ip;
          s \<leftarrow> upd_sock p (\<lambda>k. k\<lparr>s_local := (if callsign (s_local k) ! 0 = 0 then if_addr iface else s_local k),
                 s_remote := peer\<rparr>) s;
          sock \<leftarrow> h_socks s p;
          case sock_save_remote p sock s of (r, s) \<Rightarrow>
          if r < 0 then Some (-1, s)
          else case client_save_by_sock client sock s of (r, s) \<Rightarrow>
          if r < 0 then Some (-1, s)
          else case s_type sock of
            PATTY_AX25_SOCK_DGRAM \<Rightarrow>
              do { s \<leftarrow> upd_sock p (\<lambda>k. k\<lparr>s_state := PATTY_AX25_SOCK_ESTABLISHED\<rparr>) s; Some (0, s) }
          | PATTY_AX25_SOCK_STREAM \<Rightarrow>
              do { s \<leftarrow> upd_sock p (\<lambda>k. k\<lparr>s_state := PATTY_AX25_SOCK_PENDING_CONNECT\<rparr>) s;
                   (r, s) \<leftarrow> on_link p (patty_ax25_sock_send_xid PATTY_AX25_FRAME_COMMAND) s;
                   if r < 0 then respond_connect client (-1) (errno_num (err (sv_world s))) s
                   else do { s \<leftarrow> upd_sock p (\<lambda>k. k\<lparr>s_retries := s_n_retry k,
                                  s_timer_t1 := patty_timer_start (s_timer_t1 k)\<rparr>) s;
                             Some (0, s) } }
          | _ \<Rightarrow> Some (0, s) }"

definition server_connect :: "int \<Rightarrow> 'p server \<Rightarrow> (int \<times> 'p server) option" where
  "server_connect client = with_request 12 client (\<lambda>bs s.
     do { request \<leftarrow> get_addr_request bs;
          case sock_by_fd (sv_socks_by_fd s) (rq_afd request) of
            None \<Rightarrow> respond_connect client (-1) (eno EBADF) s
          | Some p \<Rightarrow>
              do { sock \<leftarrow> h_socks s p;
                   if s_type sock = PATTY_AX25_SOCK_RAW then respond_connect client (-1) (eno ENOTSUP) s
                   else if s_state sock = PATTY_AX25_SOCK_LISTENING then respond_connect client (-1) (eno EINVAL) s
                   else if s_state sock = PATTY_AX25_SOCK_ESTABLISHED then respond_connect client (-1) (eno EISCONN) s
                   else case (if callsign (s_local sock) ! 0 \<noteq> 0
                              then patty_ax25_route_table_find (sv_routes s) (s_local sock)
                              else patty_ax25_route_table_default (sv_routes s)) of
                     None \<Rightarrow> respond_connect client (-1) (eno ENETDOWN) s
                   | Some rp \<Rightarrow>
                       do { route \<leftarrow> h_routes s rp;
                            connect_sock client (rq_addr request) p (rt_iface route) s } } })"

definition server_close :: "int \<Rightarrow> 'p server \<Rightarrow> (int \<times> 'p server) option" where
  "server_close client = with_request 4 client (\<lambda>bs s.
     do { fd \<leftarrow> get_int bs 0;
          case sock_by_fd (sv_socks_by_fd s) fd of
            None \<Rightarrow> respond client (-1) (eno EBADF) s
          | Some p \<Rightarrow>
              if patty_dict_get (sv_socks_by_client s) (word_of_int client) = None
              then respond client (-1) (eno EBADF) s
              else do { (r, s) \<leftarrow> sock_shutdown p s;
                        if r < 0 then respond client (-1) (errno_num (err (sv_world s))) s
                        else do { (r, s) \<leftarrow> sock_close p s;
                                  if r < 0 then respond client (-1) (eno EBADF) s
                                  else respond client 0 0 s } } })"

definition server_calls :: "(int \<Rightarrow> 'p server \<Rightarrow> (int \<times> 'p server) option) option list" where
  "server_calls = [None, Some server_ping, Some server_socket, Some server_setsockopt, Some server_bind,
     Some server_listen, Some server_accept, Some server_connect, Some server_close, None, None]"

section \<open>Clients come and go\<close>

definition listen_unix :: "'p server \<Rightarrow> (int \<times> 'p server) option" where
  "listen_unix s =
     (if sv_fd s \<noteq> 0 then Some (-1, set_errno EBUSY s)
      else case on_world sys_call s of (r, s) \<Rightarrow>
      let s = (if r \<ge> 0 then snd (on_world sys_call s) else s) in
      case on_world sys_fd s of (fd, s) \<Rightarrow>
      let s = s\<lparr>sv_fd := fd\<rparr> in
      if fd < 0 then Some (-1, s)
      else case on_world sys_call s of (r, s) \<Rightarrow>
      if r < 0 then Some (-1, snd (on_world (sys_close fd) s))
      else case on_world sys_call s of (r, s) \<Rightarrow>
      if r < 0 then Some (-1, snd (on_world (sys_close fd) s))
      else do { s \<leftarrow> fd_watch fd s; Some (0, s) })"

definition accept_client :: "'p server \<Rightarrow> (int \<times> 'p server) option" where
  "accept_client s =
     do { ready \<leftarrow> fd_isset (sv_fd s) (sv_fds_r s);
          if \<not> ready then Some (0, s)
          else case on_world sys_fd s of (fd, s) \<Rightarrow>
          if fd < 0 then Some (-1, s)
          else case on_world sys_call s of (r, s) \<Rightarrow>
          if r < 0 then Some (-1, snd (on_world (sys_close fd) s))
          else let q = h_next s; s = s\<lparr>h_dicts := (h_dicts s)(q \<mapsto> patty_dict_new), h_next := q + 1\<rparr> in
          case dict_store (sv_clients s) (word_of_int fd) (int_ptr fd) (sv_world s) of (ok, d, w) \<Rightarrow>
          let s = s\<lparr>sv_clients := d, sv_world := w\<rparr> in
          if \<not> ok then Some (-1, snd (on_world (sys_close fd) (s\<lparr>h_dicts := (h_dicts s)(q := None)\<rparr>)))
          else case dict_store (sv_socks_by_client s) (word_of_int fd) (Some q) (sv_world s) of (ok, d, w) \<Rightarrow>
          let s = s\<lparr>sv_socks_by_client := d, sv_world := w\<rparr> in
          if \<not> ok then Some (-1, snd (on_world (sys_close fd) (s\<lparr>h_dicts := (h_dicts s)(q := None)\<rparr>)))
          else do { s \<leftarrow> fd_watch fd s; Some (0, s) } }"

definition client_sock_close :: "u32 \<Rightarrow> nat option \<Rightarrow> 'p server \<Rightarrow> (int \<times> 'p server) option" where
  "client_sock_close key value s =
     do { p \<leftarrow> value;
          (r, s) \<leftarrow> sock_shutdown p s;
          if r < 0 then Some (-1, s) else sock_close p s }"

text \<open>The dictionary at \<open>q\<close>, as \<open>patty_dict_each\<close> reads it.\<close>

definition dict_at :: "nat \<Rightarrow> 'p server \<Rightarrow> nat bucket" where
  "dict_at q s = (case h_dicts s q of None \<Rightarrow> patty_dict_new | Some d \<Rightarrow> d)"

definition client_gone :: "int \<Rightarrow> u32 \<Rightarrow> 'p server \<Rightarrow> (int \<times> 'p server) option" where
  "client_gone client key s =
     do { s \<leftarrow> fd_clear client s;
          s \<leftarrow> (case patty_dict_get (sv_socks_by_client s) (word_of_int client) of
                  None \<Rightarrow> Some s
                | Some q \<Rightarrow>
                    do { _ \<leftarrow> h_dicts s q;
                         (r, s) \<leftarrow> patty_dict_each (dict_at q) client_sock_close s;
                         Some (s\<lparr>h_dicts := (h_dicts s)(q := None)\<rparr>) });
          case patty_dict_delete (sv_socks_by_client s) key of (r, d) \<Rightarrow>
          let s = s\<lparr>sv_socks_by_client := d\<rparr> in
          if r < 0 then Some (-1, s)
          else case patty_dict_delete (sv_clients s) key of (r, d) \<Rightarrow>
          let s = s\<lparr>sv_clients := d\<rparr> in
          if r < 0 then Some (-1, s)
          else case on_world (sys_close client) s of (r, s) \<Rightarrow> Some (if r < 0 then -1 else 0, s) }"

definition handle_client :: "u32 \<Rightarrow> nat option \<Rightarrow> 'p server \<Rightarrow> (int \<times> 'p server) option" where
  "handle_client key value s =
     (let client = sint key in
      do { ready \<leftarrow> fd_isset client (sv_fds_r s);
           if \<not> ready then Some (0, s)
           else with_request 4 client (\<lambda>bs s.
             if bs = [] then client_gone client key s
             else do { call \<leftarrow> get_int bs 0;
                       if call \<le> call_num PATTY_CLIENT_NONE \<or> call \<ge> call_num PATTY_CLIENT_CALL_COUNT then Some (0, s)
                       else case server_calls ! nat call of
                         None \<Rightarrow> Some (0, s)
                       | Some f \<Rightarrow> f client s }) s })"

definition handle_clients :: "'p server \<Rightarrow> (int \<times> 'p server) option" where
  "handle_clients s = patty_dict_each sv_clients handle_client s"

end
