(* ===== verification/Patty_Input.thy ===== *)
theory Patty_Input
  imports Patty_Calls
begin

text \<open>
  Frames from the interfaces: \<open>save_reply_addr\<close> to \<open>handle_frame\<close> of \<open>src/src/server.c\<close>. Each
  handler takes the address \<open>ip\<close> of the interface, the socket the frame belongs to (\<open>None\<close> for
  NULL) and the frame, and yields the C function's result.
\<close>

section \<open>Replies\<close>

text \<open>
  The number of hops is taken from the socket unless the frame has more than eight. A repeater
  index behind the array is undefined.
\<close>

definition save_reply_addr :: "sock \<Rightarrow> frame \<Rightarrow> sock option" where
  "save_reply_addr sock frame =
     (let hops = (if f_hops frame > PATTY_AX25_MAX_HOPS then PATTY_AX25_MAX_HOPS else s_hops sock) in
      if hops > length (s_repeaters sock) \<or> hops > length (f_repeaters frame) then None
      else Some (sock\<lparr>s_remote := f_src frame, s_local := f_dest frame,
                      s_repeaters := map (\<lambda>i. f_repeaters frame ! (hops - 1 - i)) [0..<hops] @ drop hops (s_repeaters sock),
                      s_hops := hops\<rparr>))"

text \<open>\<open>patty_ax25_if_send\<close> on the interface at \<open>ip\<close>.\<close>

definition if_send :: "nat \<Rightarrow> byte list \<Rightarrow> 'p server \<Rightarrow> (int \<times> 'p server) option" where
  "if_send ip bs s =
     do { iface \<leftarrow> h_ifaces s ip;
          (r, iface, w) \<leftarrow> patty_ax25_if_send iface bs (sv_world s);
          Some (r, s\<lparr>h_ifaces := (h_ifaces s)(ip \<mapsto> iface), sv_world := w\<rparr>) }"

definition reply_to :: "nat \<Rightarrow> frame \<Rightarrow> frame \<Rightarrow> 'p server \<Rightarrow> (int \<times> 'p server) option" where
  "reply_to ip frame reply s =
     do { iface \<leftarrow> h_ifaces s ip;
          (r, buf) \<leftarrow> patty_ax25_frame_encode_reply_to frame reply (if_tx_buf iface) (if_mtu iface);
          let s = s\<lparr>h_ifaces := (h_ifaces s)(ip \<mapsto> iface\<lparr>if_tx_buf := buf\<rparr>)\<rparr>;
          case r of
            Inl e \<Rightarrow> Some (-1, set_errno e s)
          | Inr len \<Rightarrow> do { bs \<leftarrow> slice buf 0 len; if_send ip bs s } }"

definition reply_dm :: "nat \<Rightarrow> frame \<Rightarrow> u16 \<Rightarrow> 'p server \<Rightarrow> (int \<times> 'p server) option" where
  "reply_dm ip frame flag =
     reply_to ip frame (frame_zero\<lparr>f_control := ucast PATTY_AX25_FRAME_DM OR push_bit 4 flag,
       f_proto := PATTY_AX25_PROTO_NONE\<rparr>)"

definition reply_ua :: "nat \<Rightarrow> frame \<Rightarrow> u16 \<Rightarrow> 'p server \<Rightarrow> (int \<times> 'p server) option" where
  "reply_ua ip frame flag =
     reply_to ip frame (frame_zero\<lparr>f_control := ucast PATTY_AX25_FRAME_UA OR push_bit 4 flag,
       f_proto := PATTY_AX25_PROTO_NONE\<rparr>)"

definition reply_test :: "nat \<Rightarrow> frame \<Rightarrow> 'p server \<Rightarrow> (int \<times> 'p server) option" where
  "reply_test ip frame =
     reply_to ip frame (frame_zero\<lparr>f_control := ucast PATTY_AX25_FRAME_UA OR push_bit 4 1,
       f_proto := PATTY_AX25_PROTO_NONE, f_info := f_info frame, f_infolen := f_infolen frame\<rparr>)"

section \<open>Acknowledgement\<close>

definition frame_ack :: "sock \<Rightarrow> frame \<Rightarrow> sock option" where
  "frame_ack sock frame =
     do { (n, sock) \<leftarrow> patty_ax25_sock_ack (sock\<lparr>s_rx_pending := 0, s_timer_t3 := patty_timer_start (s_timer_t3 sock)\<rparr>)
                         (uint (f_nr frame));
          sock \<leftarrow> (if n > 0
                   then let sock = sock\<lparr>s_timer_t1 := patty_timer_stop (s_timer_t1 sock)\<rparr> in
                        do { m \<leftarrow> patty_ax25_sock_ack_pending sock;
                             Some (if m > 0 then sock\<lparr>s_retries := s_n_retry sock,
                                                      s_timer_t1 := patty_timer_start (s_timer_t1 sock)\<rparr> else sock) }
                   else Some sock);
          Some (if PATTY_AX25_FRAME_CONTROL_S (f_control frame) \<and> f_pf frame \<noteq> 0
                then let min = s_va sock;
                         max = (if s_vs sock < min then s_vs sock + seq_modulus sock else s_vs sock) in
                     if uint (f_nr frame) \<ge> min \<and> uint (f_nr frame) \<le> max
                     then sock\<lparr>s_vs := uint (f_nr frame), s_retries := s_n_retry sock\<rparr> else sock
                else sock) }"

definition do_ack :: "nat \<Rightarrow> frame \<Rightarrow> 'p server \<Rightarrow> 'p server option" where
  "do_ack p frame s =
     do { sock \<leftarrow> h_socks s p; sock \<leftarrow> frame_ack sock frame; Some (s\<lparr>h_socks := (h_socks s)(p \<mapsto> sock)\<rparr>) }"

text \<open>The test that several handlers begin with, on the station the frame is for.\<close>

definition addr_match :: "nat \<Rightarrow> frame \<Rightarrow> 'p server \<Rightarrow> bool option" where
  "addr_match ip frame s = do { iface \<leftarrow> h_ifaces s ip; patty_ax25_if_addr_match iface (f_dest frame) }"

section \<open>Unnumbered frames\<close>

definition handle_frmr :: "nat option \<Rightarrow> 'p server \<Rightarrow> (int \<times> 'p server) option" where
  "handle_frmr sock s =
     (case sock of
        None \<Rightarrow> Some (0, s)
      | Some p \<Rightarrow>
          do { k \<leftarrow> h_socks s p;
               case s_state k of
                 PATTY_AX25_SOCK_PENDING_CONNECT \<Rightarrow>
                   do { s \<leftarrow> upd_sock p (\<lambda>k. k\<lparr>s_retries := s_n_retry k,
                              s_timer_t1 := patty_timer_start (s_timer_t1 k)\<rparr>) s;
                        on_link p (patty_ax25_sock_send_sabm 1) s }
               | PATTY_AX25_SOCK_ESTABLISHED \<Rightarrow>
                   do { k \<leftarrow> patty_ax25_sock_reset k; Some (0, s\<lparr>h_socks := (h_socks s)(p \<mapsto> k)\<rparr>) }
               | _ \<Rightarrow> Some (0, s) })"

text \<open>
  The part of \<open>handle_sabm\<close> from \<open>remote->state = PATTY_AX25_SOCK_ESTABLISHED\<close> on, for a socket that
  is \<open>PENDING_ACCEPT\<close>; \<open>local\<close> is the listening socket.
\<close>

definition sabm_accept :: "nat \<Rightarrow> frame \<Rightarrow> int \<Rightarrow> nat \<Rightarrow> bool \<Rightarrow> nat \<Rightarrow> 'p server \<Rightarrow> (int \<times> 'p server) option" where
  "sabm_accept ip frame client local created remote s =
     (let fail = (\<lambda>s. do { s \<leftarrow> sock_destroy remote s; Some (-1, s) }) in
      do { k \<leftarrow> h_socks s remote;
           let k = k\<lparr>s_state := PATTY_AX25_SOCK_ESTABLISHED\<rparr>;
           let k = (if f_type frame = PATTY_AX25_FRAME_SABME
                    then (patty_ax25_sock_params_upgrade k)\<lparr>s_mode := PATTY_AX25_SOCK_SABME\<rparr>
                    else k\<lparr>s_mode := PATTY_AX25_SOCK_SABM\<rparr>);
           (r, k, w) \<leftarrow> patty_ax25_sock_realloc_bufs k (sv_world s);
           let s = s\<lparr>h_socks := (h_socks s)(remote \<mapsto> k), sv_world := w\<rparr>;
           if r < 0 then fail s
           else do { (r, s) \<leftarrow> bind_if remote ip s;
                     (r, s) \<leftarrow> (if created then sock_save client remote s else Some (0, s));
                     if r < 0 then fail s
                     else do { k \<leftarrow> h_socks s remote;
                               l \<leftarrow> h_socks s local;
                               s \<leftarrow> fd_watch (s_fd k) s;
                               (r, s) \<leftarrow> notify_accept (s_fd l) (s_fd k) (s_remote k) (s_pty k) s;
                               if r < 0 then fail s
                               else do { s \<leftarrow> upd_sock remote (\<lambda>k. k\<lparr>s_timer_t3 := patty_timer_start (s_timer_t3 k)\<rparr>) s;
                                         reply_ua ip frame 1 s } } } })"

definition handle_sabm :: "nat \<Rightarrow> frame \<Rightarrow> 'p server \<Rightarrow> (int \<times> 'p server) option" where
  "handle_sabm ip frame s =
     (case sock_by_addr (sv_socks_local s) (f_dest frame) of
        None \<Rightarrow> reply_dm ip frame 1 s
      | Some local \<Rightarrow>
          do { l \<leftarrow> h_socks s local;
               if s_type l \<noteq> PATTY_AX25_SOCK_STREAM \<or> s_state l \<noteq> PATTY_AX25_SOCK_LISTENING
               then reply_dm ip frame 1 s
               else let client = client_by_sock s l in
               if client < 0 then Some (-1, s)
               else do { (r, created, s) \<leftarrow>
                           (case sock_by_addrpair (sv_socks_remote s) (f_dest frame) (f_src frame) of
                              Some remote \<Rightarrow> Some (Some remote, False, s)
                            | None \<Rightarrow>
                                do { (p, s) \<leftarrow> new_sock (s_proto l) (s_type l) s;
                                     case p of
                                       None \<Rightarrow> Some (None, True, s)
                                     | Some p \<Rightarrow>
                                         do { k \<leftarrow> h_socks s p;
                                              k \<leftarrow> save_reply_addr (k\<lparr>s_state := PATTY_AX25_SOCK_PENDING_ACCEPT\<rparr>) frame;
                                              Some (Some p, True, s\<lparr>h_socks := (h_socks s)(p \<mapsto> k)\<rparr>) } });
                         case r of
                           None \<Rightarrow> Some (-1, s)
                         | Some remote \<Rightarrow>
                             do { k \<leftarrow> h_socks s remote;
                                  case s_state k of
                                    PATTY_AX25_SOCK_PENDING_ACCEPT \<Rightarrow> sabm_accept ip frame client local created remote s
                                  | PATTY_AX25_SOCK_ESTABLISHED \<Rightarrow>
                                      do { k \<leftarrow> patty_ax25_sock_reset k;
                                           let s = s\<lparr>h_socks := (h_socks s)(remote \<mapsto> k)\<rparr>;
                                           if f_pf frame = 1 then reply_ua ip frame 1 s else Some (0, s) }
                                  | _ \<Rightarrow> reply_dm ip frame 1 s } } })"

definition handle_test :: "nat \<Rightarrow> frame \<Rightarrow> 'p server \<Rightarrow> (int \<times> 'p server) option" where
  "handle_test ip frame s =
     do { match \<leftarrow> addr_match ip frame s; if \<not> match then Some (0, s) else reply_test ip frame s }"

definition ua_connected :: "nat \<Rightarrow> 'p server \<Rightarrow> (int \<times> 'p server) option" where
  "ua_connected p s =
     do { k \<leftarrow> h_socks s p;
          (r, k, w) \<leftarrow> patty_ax25_sock_realloc_bufs k (sv_world s);
          let s = s\<lparr>h_socks := (h_socks s)(p \<mapsto> k), sv_world := w\<rparr>;
          if r < 0 then Some (-1, s)
          else do { s \<leftarrow> upd_sock p (\<lambda>k. k\<lparr>s_timer_t1 := patty_timer_stop (s_timer_t1 k),
                           s_timer_t3 := patty_timer_start (s_timer_t3 k), s_state := PATTY_AX25_SOCK_ESTABLISHED\<rparr>) s;
                    k \<leftarrow> h_socks s p;
                    let client = client_by_sock s k;
                    if client < 0 then Some (-1, s)
                    else do { (r, s) \<leftarrow> sock_save client p s;
                              if r < 0 then Some (-1, s)
                              else do { s \<leftarrow> fd_watch (s_fd k) s; respond_connect client 0 0 s } } } }"

definition handle_ua :: "nat \<Rightarrow> nat option \<Rightarrow> frame \<Rightarrow> 'p server \<Rightarrow> (int \<times> 'p server) option" where
  "handle_ua ip sock frame s =
     do { match \<leftarrow> addr_match ip frame s;
          if \<not> match then Some (0, s)
          else case sock of
            None \<Rightarrow> reply_dm ip frame 1 s
          | Some p \<Rightarrow>
              do { k \<leftarrow> h_socks s p;
                   case s_state k of
                     PATTY_AX25_SOCK_PENDING_CONNECT \<Rightarrow> ua_connected p s
                   | PATTY_AX25_SOCK_PENDING_DISCONNECT \<Rightarrow> sock_close p s
                   | PATTY_AX25_SOCK_ESTABLISHED \<Rightarrow> Some (0, s)
                   | _ \<Rightarrow> reply_dm ip frame 1 s } }"

definition handle_dm :: "nat option \<Rightarrow> 'p server \<Rightarrow> (int \<times> 'p server) option" where
  "handle_dm sock s =
     (case sock of
        None \<Rightarrow> Some (0, s)
      | Some p \<Rightarrow>
          do { k \<leftarrow> h_socks s p;
               case s_state k of
                 PATTY_AX25_SOCK_PENDING_CONNECT \<Rightarrow>
                   (let client = client_by_sock s k in
                    if client < 0 then Some (-1, s)
                    else do { k \<leftarrow> patty_ax25_sock_reset k;
                              respond_connect client (-1) (eno ECONNREFUSED) (s\<lparr>h_socks := (h_socks s)(p \<mapsto> k)\<rparr>) })
               | PATTY_AX25_SOCK_PENDING_DISCONNECT \<Rightarrow>
                   do { s \<leftarrow> upd_sock p (\<lambda>k. k\<lparr>s_timer_t1 := patty_timer_stop (s_timer_t1 k)\<rparr>) s; sock_close p s }
               | _ \<Rightarrow> Some (0, s) })"

definition handle_disc :: "nat \<Rightarrow> nat option \<Rightarrow> frame \<Rightarrow> 'p server \<Rightarrow> (int \<times> 'p server) option" where
  "handle_disc ip sock frame s =
     (case sock of
        None \<Rightarrow> reply_dm ip frame 1 s
      | Some p \<Rightarrow>
          do { k \<leftarrow> h_socks s p;
               case s_state k of
                 PATTY_AX25_SOCK_ESTABLISHED \<Rightarrow> do { (r, s) \<leftarrow> sock_close p s; reply_ua ip frame 1 s }
               | PATTY_AX25_SOCK_PENDING_DISCONNECT \<Rightarrow> Some (0, s)
               | _ \<Rightarrow> reply_dm ip frame 1 s })"

section \<open>Data\<close>

definition put_sock :: "nat \<Rightarrow> sock \<Rightarrow> 'p server \<Rightarrow> 'p server" where
  "put_sock p k s = s\<lparr>h_socks := (h_socks s)(p \<mapsto> k)\<rparr>"

text \<open>
  Saving the \<open>n\<close> bytes behind the first of \<open>info\<close>: the length is compared before any byte is
  read.
\<close>

definition save_info :: "sock \<Rightarrow> byte list \<Rightarrow> size_t \<Rightarrow> (size_t cres \<times> sock) option" where
  "save_info sock info n =
     (if n > s_n_maxlen_rx sock - 1 then Some (Inl EOVERFLOW, sock)
      else do { bs \<leftarrow> slice info 1 (unat n); patty_ax25_sock_assembler_save sock bs })"

text \<open>The last segment is in: what was assembled goes to the terminal.\<close>

definition segment_done :: "nat \<Rightarrow> 'p server \<Rightarrow> (int \<times> 'p server) option" where
  "segment_done p s =
     do { k \<leftarrow> h_socks s p;
          r \<leftarrow> patty_ax25_sock_assembler_read k;
          case r of
            None \<Rightarrow> Some (-1, s)
          | Some (proto, len, mem) \<Rightarrow>
              do { bs \<leftarrow> slice mem 0 (unat len);
                   case on_world (sys_write (s_fd k) bs) s of (r, s) \<Rightarrow>
                   if r < 0 then Some (-1, s)
                   else Some (0, put_sock p (patty_ax25_sock_assembler_stop k) s) } }"

definition segment_save :: "nat \<Rightarrow> frame \<Rightarrow> byte list \<Rightarrow> byte \<Rightarrow> 'p server \<Rightarrow> (int \<times> 'p server) option" where
  "segment_save p frame info remaining s =
     do { k \<leftarrow> h_socks s p;
          if \<not> patty_ax25_sock_assembler_pending k (ucast remaining)
          then on_link p (patty_ax25_sock_send_srej PATTY_AX25_FRAME_RESPONSE)
                 (put_sock p (patty_ax25_sock_assembler_stop k) s)
          else do { (r, k) \<leftarrow> save_info k info (f_infolen frame - 1);
                    let s = put_sock p k s;
                    case r of
                      Inl e \<Rightarrow> Some (-1, set_errno e s)
                    | Inr _ \<Rightarrow> if remaining = 0 then segment_done p s else Some (0, s) } }"

definition handle_segment :: "nat \<Rightarrow> frame \<Rightarrow> 'p server \<Rightarrow> (int \<times> 'p server) option" where
  "handle_segment p frame s =
     (let reply_rej = on_link p (patty_ax25_sock_send_srej PATTY_AX25_FRAME_RESPONSE) in
      if f_infolen frame < 2 then reply_rej s
      else do { info \<leftarrow> f_info frame;
                b \<leftarrow> rd info 0;
                k \<leftarrow> h_socks s p;
                let first = (b AND 0x80 \<noteq> 0);
                let remaining = b AND 0x7f;
                if first
                then if remaining = 0 then reply_rej s
                     else (case patty_ax25_sock_assembler_init k (ucast remaining + 1) (sv_world s) of (r, k, w) \<Rightarrow>
                          let s = put_sock p k (s\<lparr>sv_world := w\<rparr>) in
                          (case r of Inl e \<Rightarrow> Some (-1, set_errno e s)
                           | Inr _ \<Rightarrow> segment_save p frame info remaining s))
                else if remaining > 0 \<and> f_infolen frame \<noteq> s_n_maxlen_rx k then reply_rej s
                else if remaining = 0 \<and> f_infolen frame > s_n_maxlen_rx k then reply_rej s
                else segment_save p frame info remaining s })"

text \<open>\<open>write(sock->fd, frame->info, frame->infolen)\<close>\<close>

definition write_info :: "nat \<Rightarrow> frame \<Rightarrow> 'p server \<Rightarrow> (int \<times> 'p server) option" where
  "write_info p frame s =
     do { k \<leftarrow> h_socks s p; info \<leftarrow> f_info frame; bs \<leftarrow> slice info 0 (unat (f_infolen frame));
          Some (on_world (sys_write (s_fd k) bs) s) }"

text \<open>What \<open>handle_i\<close> does once the information is delivered.\<close>

definition i_delivered :: "nat \<Rightarrow> frame \<Rightarrow> 'p server \<Rightarrow> (int \<times> 'p server) option" where
  "i_delivered p frame s =
     do { k \<leftarrow> h_socks s p;
          let k = (if f_pf frame \<noteq> 0 then k else k\<lparr>s_rx_pending := s_rx_pending k + 1\<rparr>);
          if f_pf frame \<noteq> 0 \<or> s_rx_pending k = s_n_window_rx k div 2
          then let s = put_sock p (k\<lparr>s_rx_pending := 0, s_timer_t2 := patty_timer_stop (s_timer_t2 k)\<rparr>) s in
               if f_pf frame \<noteq> 0 then on_link p (patty_ax25_sock_send_rr PATTY_AX25_FRAME_RESPONSE 1) s
               else Some (0, s)
          else Some (0, put_sock p (k\<lparr>s_timer_t2 := patty_timer_start (s_timer_t2 k),
                                      s_timer_t3 := patty_timer_start (s_timer_t3 k)\<rparr>) s) }"

definition handle_i :: "nat \<Rightarrow> nat option \<Rightarrow> frame \<Rightarrow> 'p server \<Rightarrow> (int \<times> 'p server) option" where
  "handle_i ip sock frame s =
     (case sock of
        None \<Rightarrow> if f_pf frame \<noteq> 0 then reply_dm ip frame 1 s else Some (0, s)
      | Some p \<Rightarrow>
          do { k \<leftarrow> h_socks s p;
               if s_state k \<noteq> PATTY_AX25_SOCK_ESTABLISHED
               then if f_pf frame \<noteq> 0 then reply_dm ip frame 1 s else Some (0, s)
               else do { s \<leftarrow> do_ack p frame s;
                         k \<leftarrow> h_socks s p;
                         let ns = uint (f_ns frame);
                         if ns = s_vr k + 1
                         then on_link p (patty_ax25_sock_send_srej PATTY_AX25_FRAME_RESPONSE) s
                         else if ns > s_vr k + 1
                         then on_link p (patty_ax25_sock_send_rej PATTY_AX25_FRAME_RESPONSE 1) s
                         else let s = (if ns = s_vr k then put_sock p (patty_ax25_sock_vr_incr k) s else s) in
                         do { (r, s) \<leftarrow> (if f_proto frame = PATTY_AX25_PROTO_FRAGMENT
                                         then handle_segment p frame s else write_info p frame s);
                              if r < 0 then Some (-1, s) else i_delivered p frame s } } })"

definition handle_ui :: "nat option \<Rightarrow> frame \<Rightarrow> 'p server \<Rightarrow> (int \<times> 'p server) option" where
  "handle_ui sock frame s =
     (case sock of
        None \<Rightarrow> Some (0, s)
      | Some p \<Rightarrow>
          do { k \<leftarrow> h_socks s p;
               if s_type k \<noteq> PATTY_AX25_SOCK_DGRAM then Some (0, s)
               else if f_proto frame = PATTY_AX25_PROTO_FRAGMENT then handle_segment p frame s
               else write_info p frame s })"

section \<open>Supervisory frames\<close>

text \<open>
  The three handlers differ in what a response does to the flow of the socket.
\<close>

definition supervisory :: "(nat \<Rightarrow> 'p server \<Rightarrow> 'p server option) \<Rightarrow> nat option \<Rightarrow> frame \<Rightarrow> 'p server \<Rightarrow> (int \<times> 'p server) option" where
  "supervisory flow sock frame s =
     (case sock of
        None \<Rightarrow> Some (0, s)
      | Some p \<Rightarrow>
          do { s \<leftarrow> do_ack p frame s;
               case f_cr frame of
                 PATTY_AX25_FRAME_COMMAND \<Rightarrow>
                   if f_pf frame \<noteq> 0 then on_link p (patty_ax25_sock_send_rr PATTY_AX25_FRAME_RESPONSE 1) s
                   else Some (0, s)
               | PATTY_AX25_FRAME_RESPONSE \<Rightarrow> do { s \<leftarrow> flow p s; Some (0, s) }
               | PATTY_AX25_FRAME_OLD \<Rightarrow> Some (0, s) })"

definition handle_rr :: "nat option \<Rightarrow> frame \<Rightarrow> 'p server \<Rightarrow> (int \<times> 'p server) option" where
  "handle_rr = supervisory sock_flow_start"

definition handle_rnr :: "nat option \<Rightarrow> frame \<Rightarrow> 'p server \<Rightarrow> (int \<times> 'p server) option" where
  "handle_rnr = supervisory sock_flow_stop"

definition handle_rej :: "nat option \<Rightarrow> frame \<Rightarrow> 'p server \<Rightarrow> (int \<times> 'p server) option" where
  "handle_rej = supervisory sock_flow_start"

definition handle_srej :: "nat option \<Rightarrow> frame \<Rightarrow> 'p server \<Rightarrow> (int \<times> 'p server) option" where
  "handle_srej sock frame s =
     (case sock of
        None \<Rightarrow> Some (0, s)
      | Some p \<Rightarrow>
          do { s \<leftarrow> do_ack p frame s;
               (r, s) \<leftarrow> on_link p (patty_ax25_sock_resend (uint (f_nr frame))) s;
               Some (if r < 0 then -1 else 0, s) })"

section \<open>Negotiation\<close>

text \<open>An XID for a socket that waits for its connection.\<close>

definition xid_connect :: "nat \<Rightarrow> params \<Rightarrow> 'p server \<Rightarrow> (int \<times> 'p server) option" where
  "xid_connect p params s =
     do { k \<leftarrow> h_socks s p;
          case patty_ax25_sock_params_negotiate k params of
            (Inl e, k, params) \<Rightarrow>
              (let client = client_by_sock s k; s = set_errno e (put_sock p k s) in
               if client < 0 then Some (-1, s)
               else do { k \<leftarrow> patty_ax25_sock_reset (patty_ax25_sock_init k);
                         respond_connect client (-1) (errno_num (err (sv_world s))) (put_sock p k s) })
          | (Inr _, k, params) \<Rightarrow>
              (let k = (if HAS (p_hdlc params) PATTY_AX25_PARAM_HDLC_MODULO_128
                        then k\<lparr>s_mode := PATTY_AX25_SOCK_SABME\<rparr> else k) in
               do { (ret, s) \<leftarrow> on_link p (patty_ax25_sock_send_sabm 1) (put_sock p k s);
                    s \<leftarrow> upd_sock p (\<lambda>k. k\<lparr>s_timer_t1 := patty_timer_start (s_timer_t1 k), s_retries := s_n_retry k\<rparr>) s;
                    Some (ret, s) }) }"

text \<open>An XID for a listening socket.\<close>

definition xid_accept :: "nat \<Rightarrow> frame \<Rightarrow> sock \<Rightarrow> params \<Rightarrow> 'p server \<Rightarrow> (int \<times> 'p server) option" where
  "xid_accept ip frame l params s =
     (let client = client_by_sock s l in
      if client < 0 then Some (-1, s)
      else do { (r, s) \<leftarrow> new_sock (s_proto l) (s_type l) s;
                case r of
                  None \<Rightarrow> Some (-1, s)
                | Some p \<Rightarrow>
                    let fail = (\<lambda>s. do { s \<leftarrow> sock_destroy p s; Some (-1, s) }) in
                    do { s \<leftarrow> upd_sock p (\<lambda>k. k\<lparr>s_state := PATTY_AX25_SOCK_PENDING_ACCEPT,
                                s_mode := (if HAS (p_hdlc params) PATTY_AX25_PARAM_HDLC_MODULO_128
                                           then PATTY_AX25_SOCK_SABME else s_mode k)\<rparr>) s;
                         (r, s) \<leftarrow> bind_if p ip s;
                         k \<leftarrow> h_socks s p;
                         case patty_ax25_sock_params_negotiate (patty_ax25_sock_params_max k) params of
                           (Inl e, k, params) \<Rightarrow> fail (set_errno e (put_sock p k s))
                         | (Inr _, k, params) \<Rightarrow>
                             do { k \<leftarrow> save_reply_addr k frame;
                                  (r, s) \<leftarrow> sock_save client p (put_sock p k s);
                                  if r < 0 then fail s
                                  else do { (ret, s) \<leftarrow> on_link p (patty_ax25_sock_send_xid PATTY_AX25_FRAME_RESPONSE) s;
                                            s \<leftarrow> upd_sock p (\<lambda>k. k\<lparr>s_timer_t1 := patty_timer_start (s_timer_t1 k),
                                                   s_retries := s_n_retry k\<rparr>) s;
                                            Some (ret, s) } } } })"

definition handle_xid :: "nat \<Rightarrow> frame \<Rightarrow> byte list \<Rightarrow> nat \<Rightarrow> nat \<Rightarrow> 'p server \<Rightarrow> (int \<times> 'p server) option" where
  "handle_xid ip frame buf offset len s =
     do { match \<leftarrow> addr_match ip frame s;
          if \<not> match then Some (0, s)
          else do { (r, params) \<leftarrow> patty_ax25_frame_decode_xid (ev_params (sv_env s)) buf offset len;
                    case r of
                      Inl e \<Rightarrow> Some (-1, set_errno e s)
                    | Inr _ \<Rightarrow>
                        (case sock_by_addrpair (sv_socks_remote s) (f_dest frame) (f_src frame) of
                           Some p \<Rightarrow>
                             do { k \<leftarrow> h_socks s p;
                                  if s_state k \<noteq> PATTY_AX25_SOCK_PENDING_CONNECT then reply_dm ip frame 1 s
                                  else xid_connect p params s }
                         | None \<Rightarrow>
                             (case sock_by_addr (sv_socks_local s) (f_dest frame) of
                                None \<Rightarrow> reply_dm ip frame 1 s
                              | Some lp \<Rightarrow>
                                  do { l \<leftarrow> h_socks s lp;
                                       if s_state l \<noteq> PATTY_AX25_SOCK_LISTENING then reply_dm ip frame 1 s
                                       else xid_accept ip frame l params s })) } }"

section \<open>Dispatch\<close>

definition dispatch :: "nat \<Rightarrow> nat option \<Rightarrow> frame \<Rightarrow> byte list \<Rightarrow> nat \<Rightarrow> nat \<Rightarrow> 'p server \<Rightarrow> (int \<times> 'p server) option" where
  "dispatch ip sock frame buf offset len s =
     (let t = f_type frame in
      if t = PATTY_AX25_FRAME_I then handle_i ip sock frame s
      else if t = PATTY_AX25_FRAME_UI then handle_ui sock frame s
      else if t = PATTY_AX25_FRAME_RR then handle_rr sock frame s
      else if t = PATTY_AX25_FRAME_RNR then handle_rnr sock frame s
      else if t = PATTY_AX25_FRAME_REJ then handle_rej sock frame s
      else if t = PATTY_AX25_FRAME_SREJ then handle_srej sock frame s
      else if t = PATTY_AX25_FRAME_XID then handle_xid ip frame buf offset len s
      else if t = PATTY_AX25_FRAME_SABM \<or> t = PATTY_AX25_FRAME_SABME then handle_sabm ip frame s
      else if t = PATTY_AX25_FRAME_TEST then handle_test ip frame s
      else if t = PATTY_AX25_FRAME_UA then handle_ua ip sock frame s
      else if t = PATTY_AX25_FRAME_DM then handle_dm sock s
      else if t = PATTY_AX25_FRAME_DISC then handle_disc ip sock frame s
      else if t = PATTY_AX25_FRAME_FRMR then handle_frmr sock s
      else Some (0, s))"

definition drop_frame :: "nat \<Rightarrow> 'p server \<Rightarrow> (int \<times> 'p server) option" where
  "drop_frame ip s =
     do { iface \<leftarrow> h_ifaces s ip;
          Some (0, s\<lparr>h_ifaces := (h_ifaces s)(ip \<mapsto> patty_ax25_if_drop iface)\<rparr>) }"

definition handle_frame :: "nat \<Rightarrow> byte list \<Rightarrow> nat \<Rightarrow> 'p server \<Rightarrow> (int \<times> 'p server) option" where
  "handle_frame ip buf len s =
     do { (r, frame) \<leftarrow> patty_ax25_frame_decode_address (ev_frame (sv_env s)) buf len;
          case r of
            Inl e \<Rightarrow> drop_frame ip (set_errno e s)
          | Inr offset \<Rightarrow>
              let sock = sock_by_addrpair (sv_socks_remote s) (f_dest frame) (f_src frame) in
              do { format \<leftarrow> (case sock of
                                None \<Rightarrow> Some PATTY_AX25_FRAME_NORMAL
                              | Some p \<Rightarrow> do { k \<leftarrow> h_socks s p;
                                               Some (if s_mode k = PATTY_AX25_SOCK_SABME
                                                     then PATTY_AX25_FRAME_EXTENDED else PATTY_AX25_FRAME_NORMAL) });
                   (r, frame) \<leftarrow> patty_ax25_frame_decode_control frame format buf offset len;
                   case r of
                     Inl e \<Rightarrow> drop_frame ip (set_errno e s)
                   | Inr decoded \<Rightarrow>
                       if decoded < 0 then drop_frame ip s
                       else dispatch ip sock frame buf (offset + nat decoded) len s } }"

end
