(* ===== verification/Patty_Event.thy ===== *)
theory Patty_Event
  imports Patty_Input
begin

text \<open>
  The event loop: \<open>handle_iface\<close> to \<open>patty_ax25_server_event_handle\<close> of \<open>src/src/server.c\<close>. One
  event takes the time that passed, the descriptors that \<open>select\<close> reports and the state to the
  state after every socket, client and interface was served. The loops that drain a reader are
  \<open>partial_function\<close>s, so not returning is \<open>None\<close> too.
\<close>

section \<open>Interfaces\<close>

partial_function (option) iface_frames :: "nat \<Rightarrow> 'p server \<Rightarrow> (int \<times> 'p server) option" where
  "iface_frames ip s =
     do { iface \<leftarrow> h_ifaces s ip;
          (r, iface, buf) \<leftarrow> patty_ax25_if_drain iface (if_rx_buf iface) (if_mru iface);
          let iface = iface\<lparr>if_rx_buf := buf\<rparr>;
          let s = s\<lparr>h_ifaces := (h_ifaces s)(ip \<mapsto> iface)\<rparr>;
          case r of
            Inl e \<Rightarrow> Some (-1, set_errno e s)
          | Inr n \<Rightarrow>
              if n < 0 then Some (-1, s)
              else if \<not> patty_ax25_if_pending iface then Some (0, s)
              else do { (len, iface, w) \<leftarrow> patty_ax25_if_flush iface (sv_world s);
                        let s = s\<lparr>h_ifaces := (h_ifaces s)(ip \<mapsto> iface), sv_world := w\<rparr>;
                        if len < 0 then Some (-1, s)
                        else do { (r, s) \<leftarrow> handle_frame ip (if_rx_buf iface) (nat len) s;
                                  if r < 0 then Some (-1, s) else iface_frames ip s } } }"

definition handle_iface :: "nat \<Rightarrow> 'p server \<Rightarrow> (int \<times> 'p server) option" where
  "handle_iface ep s =
     do { entry \<leftarrow> h_entries s ep;
          let ip = en_iface entry;
          iface \<leftarrow> h_ifaces s ip;
          if \<not> patty_ax25_if_ready iface (sv_fds_r s) then Some (0, s)
          else case patty_ax25_if_fill iface (sv_world s) of (len, iface, w) \<Rightarrow>
          let s = s\<lparr>h_ifaces := (h_ifaces s)(ip \<mapsto> iface), sv_world := w\<rparr> in
          if len < 0
          then do { s \<leftarrow> fd_clear (en_fd entry) s;
                    (fd, iface, w) \<leftarrow> patty_ax25_if_reset iface (sv_world s);
                    let s = s\<lparr>h_ifaces := (h_ifaces s)(ip \<mapsto> iface), sv_world := w\<rparr>;
                    if fd < 0 then Some (-1, s)
                    else do { s \<leftarrow> fd_watch fd (s\<lparr>h_entries := (h_entries s)(ep \<mapsto> entry\<lparr>en_fd := fd\<rparr>)\<rparr>);
                              iface_frames ip s } }
          else if len = 0
          then do { s \<leftarrow> fd_clear (en_fd entry) (snd (on_world (sys_close (en_fd entry)) s)); Some (0, s) }
          else iface_frames ip s }"

fun handle_entries :: "nat list \<Rightarrow> 'p server \<Rightarrow> (int \<times> 'p server) option" where
  "handle_entries [] s = Some (0, s)"
| "handle_entries (ep # eps) s =
     do { (r, s) \<leftarrow> handle_iface ep s;
          if r < 0
          then if err (sv_world s) = Some EIO
               then do { entry \<leftarrow> h_entries s ep;
                         iface \<leftarrow> h_ifaces s (en_iface entry);
                         s \<leftarrow> fd_clear (en_fd entry)
                                (s\<lparr>h_ifaces := (h_ifaces s)(en_iface entry \<mapsto> patty_ax25_if_down iface)\<rparr>);
                         handle_entries eps s }
               else Some (-1, s)
          else handle_entries eps s }"

definition handle_ifaces :: "'p server \<Rightarrow> (int \<times> 'p server) option" where
  "handle_ifaces s = do { eps \<leftarrow> patty_list_values (sv_ifaces s); handle_entries eps s }"

section \<open>Sockets without connection\<close>

text \<open>
  \<open>read(sock->fd, sock->io_buf, sock->n_maxlen_tx)\<close>, kept in the buffer. Reading nothing is
  possible without a buffer; data behind the end of the buffer is undefined.
\<close>

definition read_io :: "nat \<Rightarrow> 'p server \<Rightarrow> (int \<times> 'p server) option" where
  "read_io p s =
     do { k \<leftarrow> h_socks s p;
          case on_world (sys_read (unat (s_n_maxlen_tx k))) s of
            (Inl e, s) \<Rightarrow> Some (-1, s)
          | (Inr bs, s) \<Rightarrow>
              if bs = [] then Some (0, s)
              else do { buf \<leftarrow> s_io_buf k; buf \<leftarrow> blit buf 0 bs;
                        Some (int (length bs), put_sock p (k\<lparr>s_io_buf := Some buf\<rparr>) s) } }"

text \<open>\<open>patty_ax25_sock_write(sock, sock->io_buf, len)\<close>\<close>

definition write_io :: "nat \<Rightarrow> nat \<Rightarrow> 'p server \<Rightarrow> (int \<times> 'p server) option" where
  "write_io p len s =
     do { k \<leftarrow> h_socks s p; buf \<leftarrow> s_io_buf k; on_link p (patty_ax25_sock_write buf len) s }"

text \<open>\<open>(void)sock_close(server, sock); ...  return 0;\<close>\<close>

definition close_quietly :: "nat \<Rightarrow> 'p server \<Rightarrow> (int \<times> 'p server) option" where
  "close_quietly p s = do { (r, s) \<leftarrow> sock_close p s; Some (0, s) }"

definition handle_sock_dgram :: "nat \<Rightarrow> 'p server \<Rightarrow> (int \<times> 'p server) option" where
  "handle_sock_dgram p s =
     do { k \<leftarrow> h_socks s p;
          ready \<leftarrow> fd_isset (s_fd k) (sv_fds_r s);
          if \<not> ready then Some (0, s)
          else do { (len, s) \<leftarrow> read_io p s;
                    if len < 0
                    then if err (sv_world s) = Some EIO then close_quietly p s else Some (-1, s)
                    else if len = 0 then close_quietly p s
                    else do { (r, s) \<leftarrow> write_io p (nat len) s;
                              if r < 0 then close_quietly p s else Some (0, s) } } }"

partial_function (option) raw_frames :: "nat \<Rightarrow> 'p server \<Rightarrow> (int \<times> 'p server) option" where
  "raw_frames p s =
     do { k \<leftarrow> h_socks s p;
          raw \<leftarrow> s_raw k;
          iface \<leftarrow> h_ifaces s (s_iface k);
          (r, raw, buf) \<leftarrow> patty_kiss_tnc_drain raw (if_tx_buf iface) (if_mtu iface);
          let s = (put_sock p (k\<lparr>s_raw := Some raw\<rparr>) s)
                    \<lparr>h_ifaces := (h_ifaces s)(s_iface k \<mapsto> iface\<lparr>if_tx_buf := buf\<rparr>)\<rparr>;
          case r of
            Inl e \<Rightarrow> Some (-1, set_errno e s)
          | Inr n \<Rightarrow>
              if n < 0 then Some (-1, s)
              else if \<not> patty_kiss_tnc_pending raw then Some (0, s)
              else case patty_kiss_tnc_flush raw of (len, raw) \<Rightarrow>
              let s = put_sock p (k\<lparr>s_raw := Some raw\<rparr>) s in
              if len < 0 then Some (-1, s)
              else do { bs \<leftarrow> slice buf 0 (nat len);
                        (r, s) \<leftarrow> if_send (s_iface k) bs s;
                        if r < 0 then Some (-1, s) else raw_frames p s } }"

definition handle_sock_raw :: "nat \<Rightarrow> 'p server \<Rightarrow> (int \<times> 'p server) option" where
  "handle_sock_raw p s =
     do { k \<leftarrow> h_socks s p;
          ready \<leftarrow> fd_isset (s_fd k) (sv_fds_r s);
          case s_raw k of
            None \<Rightarrow> Some (0, s)
          | Some raw \<Rightarrow>
              if \<not> ready \<or> s_iface k = 0 then Some (0, s)
              else case patty_kiss_tnc_fill raw (sv_world s) of (len, raw, w) \<Rightarrow>
              let s = (put_sock p (k\<lparr>s_raw := Some raw\<rparr>) s)\<lparr>sv_world := w\<rparr> in
              if len < 0 then Some (-1, s)
              else if len = 0 then close_quietly p s
              else raw_frames p s }"

section \<open>Connections\<close>

text \<open>
  \<open>patty_timer_expired(&sock->timer_t1)\<close> and \<open>sock->retries--\<close>: with a retry left the timer
  is started again and \<open>again\<close> runs, else \<open>over\<close>. The counter wraps when it is 0.
\<close>

definition retry_t1 ::
  "nat \<Rightarrow> ('p server \<Rightarrow> (int \<times> 'p server) option) \<Rightarrow> ('p server \<Rightarrow> (int \<times> 'p server) option)
    \<Rightarrow> 'p server \<Rightarrow> (int \<times> 'p server) option" where
  "retry_t1 p again over s =
     do { k \<leftarrow> h_socks s p;
          let s = put_sock p (k\<lparr>s_retries := s_retries k - 1\<rparr>) s;
          if s_retries k \<noteq> 0
          then do { s \<leftarrow> upd_sock p (\<lambda>k. k\<lparr>s_timer_t1 := patty_timer_start (s_timer_t1 k)\<rparr>) s; again s }
          else over s }"

definition connect_timed_out :: "nat \<Rightarrow> 'p server \<Rightarrow> (int \<times> 'p server) option" where
  "connect_timed_out p s =
     do { k \<leftarrow> h_socks s p;
          let client = client_by_sock s k;
          if client < 0 then Some (-1, s)
          else do { (r, s) \<leftarrow> sock_shutdown p s;
                    (r, s) \<leftarrow> sock_close p s;
                    respond_connect client (-1) (eno ETIMEDOUT) s } }"

text \<open>
  The timers of an established connection. \<open>None\<close> inside means that none of them made the
  function return. \<open>||\<close> turns a failure into 1.
\<close>

definition established_timers :: "nat \<Rightarrow> 'p server \<Rightarrow> (int option \<times> 'p server) option" where
  "established_timers p s =
     do { k \<leftarrow> h_socks s p;
          if patty_timer_expired (s_timer_t1 k)
          then map_option (map_prod Some id)
                 (retry_t1 p
                   (\<lambda>s. do { (r, s) \<leftarrow> on_link p patty_ax25_sock_resend_pending s;
                             if r \<noteq> 0 then Some (1, s)
                             else do { (r, s) \<leftarrow> on_link p (patty_ax25_sock_send_rr PATTY_AX25_FRAME_COMMAND 1) s;
                                       Some (if r \<noteq> 0 then 1 else 0, s) } })
                   (\<lambda>s. do { (r, s) \<leftarrow> sock_shutdown p s; sock_close p s }) s)
          else let due = patty_timer_expired (s_timer_t2 k);
                   k = (if due then k\<lparr>s_timer_t2 := patty_timer_stop (s_timer_t2 k)\<rparr> else k) in
               if due \<and> s_rx_pending k \<noteq> 0
               then map_option (map_prod Some id)
                      (on_link p (patty_ax25_sock_send_rr PATTY_AX25_FRAME_RESPONSE 1)
                        (put_sock p (k\<lparr>s_rx_pending := 0\<rparr>) s))
               else if patty_timer_expired (s_timer_t3 k)
               then map_option (map_prod Some id)
                      (on_link p (patty_ax25_sock_send_rr PATTY_AX25_FRAME_COMMAND 1)
                        (put_sock p (k\<lparr>s_retries := s_n_retry k, s_timer_t3 := patty_timer_stop (s_timer_t3 k),
                                       s_timer_t1 := patty_timer_start (s_timer_t1 k)\<rparr>) s))
               else Some (None, put_sock p k s) }"

text \<open>The rest of \<open>handle_sock\<close>: data from the client's terminal.\<close>

definition sock_input :: "nat \<Rightarrow> 'p server \<Rightarrow> (int \<times> 'p server) option" where
  "sock_input p s =
     do { k \<leftarrow> h_socks s p;
          ready \<leftarrow> fd_isset (s_fd k) (sv_fds_r s);
          if \<not> ready then Some (0, s)
          else do { s \<leftarrow> upd_sock p (\<lambda>k. k\<lparr>s_flow := PATTY_AX25_SOCK_READY\<rparr>) s;
                    s \<leftarrow> (if patty_ax25_sock_flow_left k = 1 then sock_flow_stop p s else Some s);
                    (len, s) \<leftarrow> on_link p patty_ax25_sock_resend_pending s;
                    if len < 0 then Some (-1, s)
                    else if len > 0
                    then do { s \<leftarrow> upd_sock p (\<lambda>k. k\<lparr>s_timer_t1 := patty_timer_start (s_timer_t1 k)\<rparr>) s; Some (0, s) }
                    else do { (len, s) \<leftarrow> read_io p s;
                              if len < 0
                              then if err (sv_world s) = Some EIO
                                   then do { (r, s) \<leftarrow> sock_shutdown p s; Some (0, s) }
                                   else Some (-1, s)
                              else if len = 0 then do { (r, s) \<leftarrow> sock_shutdown p s; Some (0, s) }
                              else do { (r, s) \<leftarrow> write_io p (nat len) s;
                                        if r < 0 then close_quietly p s
                                        else do { s \<leftarrow> upd_sock p (\<lambda>k. k\<lparr>s_timer_t1 := patty_timer_start (s_timer_t1 k),
                                                       s_timer_t3 := patty_timer_stop (s_timer_t3 k)\<rparr>) s;
                                                  Some (0, s) } } } } }"

definition tick_timers :: "timespec \<Rightarrow> sock \<Rightarrow> sock" where
  "tick_timers elapsed k = k\<lparr>s_timer_t1 := patty_timer_tick (s_timer_t1 k) elapsed,
     s_timer_t2 := patty_timer_tick (s_timer_t2 k) elapsed, s_timer_t3 := patty_timer_tick (s_timer_t3 k) elapsed\<rparr>"

definition handle_stream :: "nat \<Rightarrow> 'p server \<Rightarrow> (int \<times> 'p server) option" where
  "handle_stream p s =
     do { s \<leftarrow> upd_sock p (tick_timers (sv_elapsed s)) s;
          k \<leftarrow> h_socks s p;
          case s_state k of
            PATTY_AX25_SOCK_PENDING_ACCEPT \<Rightarrow>
              if patty_timer_expired (s_timer_t1 k)
              then retry_t1 p (on_link p (patty_ax25_sock_send_xid PATTY_AX25_FRAME_RESPONSE)) (close_quietly p) s
              else Some (0, s)
          | PATTY_AX25_SOCK_PENDING_CONNECT \<Rightarrow>
              if patty_timer_expired (s_timer_t1 k)
              then retry_t1 p (on_link p (patty_ax25_sock_send_sabm 1)) (connect_timed_out p) s
              else Some (0, s)
          | PATTY_AX25_SOCK_ESTABLISHED \<Rightarrow>
              do { (r, s) \<leftarrow> established_timers p s;
                   case r of Some r \<Rightarrow> Some (r, s) | None \<Rightarrow> sock_input p s }
          | PATTY_AX25_SOCK_PENDING_DISCONNECT \<Rightarrow>
              if patty_timer_expired (s_timer_t1 k)
              then retry_t1 p (on_link p (patty_ax25_sock_send_disc 1)) (sock_close p) s
              else sock_input p s
          | _ \<Rightarrow> sock_input p s }"

text \<open>The callback of \<open>patty_dict_each\<close>; a NULL value is followed.\<close>

definition handle_sock :: "u32 \<Rightarrow> nat option \<Rightarrow> 'p server \<Rightarrow> (int \<times> 'p server) option" where
  "handle_sock key value s =
     do { p \<leftarrow> value;
          k \<leftarrow> h_socks s p;
          case s_type k of
            PATTY_AX25_SOCK_DGRAM \<Rightarrow> handle_sock_dgram p s
          | PATTY_AX25_SOCK_RAW \<Rightarrow> handle_sock_raw p s
          | _ \<Rightarrow> handle_stream p s }"

definition handle_socks :: "'p server \<Rightarrow> (int \<times> 'p server) option" where
  "handle_socks s = patty_dict_each sv_socks_by_fd handle_sock s"

section \<open>One event\<close>

definition patty_ax25_server_start :: "'p server \<Rightarrow> (int \<times> 'p server) option" where
  "patty_ax25_server_start s = listen_unix s"

definition patty_ax25_server_stop :: "'p server \<Rightarrow> int \<times> 'p server" where
  "patty_ax25_server_stop s = on_world (sys_close (sv_fd s)) s"

text \<open>
  \<open>before\<close> and \<open>after\<close> are what the clock shows, \<open>ready\<close> the descriptors that can be read. Of the
  watched ones, \<open>select\<close> looks at those below \<open>fd_max\<close>.
\<close>

definition patty_ax25_server_event_handle ::
  "timespec \<Rightarrow> timespec \<Rightarrow> (int \<Rightarrow> bool) \<Rightarrow> 'p server \<Rightarrow> (int \<times> 'p server) option" where
  "patty_ax25_server_event_handle before after ready s =
     (case on_world sys_call s of (r, s) \<Rightarrow>
      if r < 0 then Some (-1, s)
      else case on_world sys_fd s of (nready, s) \<Rightarrow>
      if nready < 0 then Some (-1, s)
      else let s = s\<lparr>sv_fds_r := (\<lambda>fd. sv_fds_watch s fd \<and> fd < sv_fd_max s \<and> ready fd)\<rparr> in
      case on_world sys_call s of (r, s) \<Rightarrow>
      if r < 0 then Some (-1, s)
      else do { (r, s) \<leftarrow> handle_socks (s\<lparr>sv_elapsed := patty_timer_sub after before\<rparr>);
                if r < 0 then Some (-1, s)
                else if nready = 0 then Some (0, s)
                else do { (r, s) \<leftarrow> handle_clients s;
                          if r < 0 then Some (-1, s)
                          else do { (r, s) \<leftarrow> handle_ifaces s;
                                    if r < 0 then Some (-1, s)
                                    else do { (r, s) \<leftarrow> accept_client s;
                                              Some (if r < 0 then -1 else 0, s) } } } })"

end
