(* ===== verification/Patty_Machine.thy ===== *)
theory Patty_Machine
  imports Patty_Event
begin

text \<open>
  The connections as a state machine. The relation \<open>conn_step\<close> says how the state of one
  connection may change when a frame of some type arrives; the handlers of \<open>Patty_Input\<close> refine
  it, for every socket of the server at once. \<open>hears\<close> is its closure over any number of frames; the
  part of the event loop that serves the interfaces is such a run, and what all runs keep is proved
  by induction over it.
\<close>

section \<open>What sending leaves alone\<close>

text \<open>Every result that an operation can have satisfies \<open>Q\<close>.\<close>

definition post :: "'a option \<Rightarrow> ('a \<Rightarrow> bool) \<Rightarrow> bool" where
  "post m Q \<longleftrightarrow> (\<forall>x. m = Some x \<longrightarrow> Q x)"

lemma post_simps [simp]: "post (Some x) Q \<longleftrightarrow> Q x" "post None Q"
  by (auto simp: post_def)

lemma postI: "(\<And>x. m = Some x \<Longrightarrow> Q x) \<Longrightarrow> post m Q"
  by (simp add: post_def)

lemma postD: "post m Q \<Longrightarrow> m = Some x \<Longrightarrow> Q x"
  by (simp add: post_def)

lemma post_ifI: "(c \<Longrightarrow> post a Q) \<Longrightarrow> (\<not> c \<Longrightarrow> post b Q) \<Longrightarrow> post (if c then a else b) Q"
  by simp

lemma post_bindI: "(\<And>x. m = Some x \<Longrightarrow> post (f x) Q) \<Longrightarrow> post (m \<bind> f) Q"
  by (cases m) simp_all

lemma post_bind_mono: "post m P \<Longrightarrow> (\<And>x. P x \<Longrightarrow> post (f x) Q) \<Longrightarrow> post (m \<bind> f) Q"
  by (cases m) simp_all

lemma post_mono: "post m P \<Longrightarrow> (\<And>x. P x \<Longrightarrow> Q x) \<Longrightarrow> post m Q"
  by (simp add: post_def)

text \<open>What identifies a connection; operations on a link that keep it.\<close>

definition same_conn :: "sock \<Rightarrow> sock \<Rightarrow> bool" where
  "same_conn k k' \<longleftrightarrow> s_state k' = s_state k \<and> s_type k' = s_type k \<and> s_fd k' = s_fd k \<and> s_iface k' = s_iface k
     \<and> s_local k' = s_local k \<and> s_remote k' = s_remote k"

definition link_keeps :: "('p link \<Rightarrow> (int \<times> 'p link) option) \<Rightarrow> bool" where
  "link_keeps f \<longleftrightarrow> (\<forall>l. post (f l) (\<lambda>(r, l'). same_conn (l_sock l) (l_sock l')))"

lemma same_conn_refl [simp]: "same_conn k k"
  by (simp add: same_conn_def)

lemma same_conn_trans: "same_conn k k' \<Longrightarrow> same_conn k' k'' \<Longrightarrow> same_conn k k''"
  by (simp add: same_conn_def)

lemma link_keepsD: "link_keeps f \<Longrightarrow> f l = Some (r, l') \<Longrightarrow> same_conn (l_sock l) (l_sock l')"
  by (auto simp: link_keeps_def dest: postD)

lemma link_err_conn: "post (link_err e l) (\<lambda>(r, l'). l_sock l' = l_sock l)"
  by (simp add: link_err_def)

lemma link_if_send_conn: "post (link_if_send bs l) (\<lambda>(r, l'). l_sock l' = l_sock l)"
  by (auto simp: link_if_send_def intro!: post_bindI)

lemma frame_send_conn: "post (frame_send cr c proto info n l) (\<lambda>(r, l'). same_conn (l_sock l) (l_sock l'))"
  by (auto simp: frame_send_def Let_def same_conn_def
      intro!: post_bindI post_mono [OF link_err_conn] post_mono [OF link_if_send_conn] split: option.split sum.split)

lemma tx_slot_put_conn: "same_conn k (tx_slot_put k i t)"
  by (simp add: tx_slot_put_def same_conn_def)

lemma tx_slot_save_conn: "tx_slot_save k bs = Some k' \<Longrightarrow> same_conn k k'"
  by (auto simp: tx_slot_save_def bind_eq_Some_conv tx_slot_put_conn split: if_splits)

lemma resend_conn: "post (patty_ax25_sock_resend n l) (\<lambda>(r, l'). same_conn (l_sock l) (l_sock l'))"
  by (auto simp: patty_ax25_sock_resend_def intro!: post_bindI frame_send_conn)

lemma vs_incr_conn: "same_conn k (patty_ax25_sock_vs_incr k)" "same_conn k (patty_ax25_sock_vr_incr k)"
  by (simp_all add: same_conn_def patty_ax25_sock_vs_incr_def patty_ax25_sock_vr_incr_def)

lemma tx_buf_conn: "same_conn k k' \<Longrightarrow> same_conn k (k'\<lparr>s_tx_buf := b\<rparr>)"
  by (simp add: same_conn_def)

lemma write_segments_conn:
  "post (write_segments n first i seglen buf len l) (\<lambda>(r, l'). same_conn (l_sock l) (l_sock l'))"
proof (induction n arbitrary: first i l)
  case (Suc n)
  show ?case
    by (simp only: write_segments.simps Let_def)
      (auto simp: same_conn_def patty_ax25_sock_vs_incr_def simp del: write_segments.simps(2)
        intro!: post_bindI post_mono [OF Suc.IH] dest!: tx_slot_save_conn postD [OF frame_send_conn] split: if_splits)
qed simp

lemma sock_write_conn: "post (patty_ax25_sock_write buf n l) (\<lambda>(r, l'). same_conn (l_sock l) (l_sock l'))"
  by (auto simp: patty_ax25_sock_write_def write_segmented_def Let_def same_conn_def patty_ax25_sock_vs_incr_def
      intro!: post_bindI post_mono [OF write_segments_conn] post_mono [OF link_err_conn] post_mono [OF link_if_send_conn]
      dest!: tx_slot_save_conn postD [OF frame_send_conn] split: sock_type.split)

lemma links_keep:
  "link_keeps (patty_ax25_sock_send_rr cr pf)" "link_keeps (patty_ax25_sock_send_rnr cr pf)"
  "link_keeps (patty_ax25_sock_send_rej cr pf)" "link_keeps (patty_ax25_sock_send_srej cr)"
  "link_keeps (patty_ax25_sock_send_sabm pf)" "link_keeps (patty_ax25_sock_send_disc pf)"
  "link_keeps (patty_ax25_sock_resend n)"
  by (auto simp: link_keeps_def patty_ax25_sock_send_rr_def patty_ax25_sock_send_rnr_def patty_ax25_sock_send_rej_def
        patty_ax25_sock_send_srej_def patty_ax25_sock_send_sabm_def patty_ax25_sock_send_disc_def Let_def
      intro: frame_send_conn resend_conn)

lemma xid_keeps: "link_keeps (patty_ax25_sock_send_xid cr)"
  by (auto simp: link_keeps_def patty_ax25_sock_send_xid_def intro!: post_bindI frame_send_conn
      post_mono [OF link_err_conn] split: sum.split)

lemma resend_pending_keeps: "link_keeps patty_ax25_sock_resend_pending"
  by (auto simp: link_keeps_def patty_ax25_sock_resend_pending_def same_conn_def intro!: post_bindI
      dest!: postD [OF resend_conn])

section \<open>What the server's operations leave alone\<close>

definition state_at :: "'p server \<Rightarrow> nat \<Rightarrow> sock_state option" where
  "state_at s p = map_option s_state (h_socks s p)"

text \<open>Nothing changes about the sockets at all; or their states stay.\<close>

definition same_socks :: "'p server \<Rightarrow> 'p server \<Rightarrow> bool" where
  "same_socks s s' \<longleftrightarrow> h_next s' = h_next s \<and> h_socks s' = h_socks s"

definition same_states :: "'p server \<Rightarrow> 'p server \<Rightarrow> bool" where
  "same_states s s' \<longleftrightarrow> h_next s' = h_next s \<and> (\<forall>q. state_at s' q = state_at s q)"

lemma same_socks_states: "same_socks s s' \<Longrightarrow> same_states s s'"
  by (simp add: same_socks_def same_states_def state_at_def)

lemma same_refl [simp]: "same_socks s s" "same_states s s"
  by (simp_all add: same_socks_def same_states_def)

lemma same_states_trans: "same_states s s' \<Longrightarrow> same_states s' s'' \<Longrightarrow> same_states s s''"
  by (simp add: same_states_def)

lemma same_socks_trans: "same_socks s s' \<Longrightarrow> same_socks s' s'' \<Longrightarrow> same_socks s s''"
  by (simp add: same_socks_def)

lemma on_world_socks: "on_world f s = (r, s') \<Longrightarrow> same_socks s s'"
  by (auto simp: on_world_def same_socks_def split: prod.splits)

lemma on_world_snd_socks [simp]: "h_socks (snd (on_world f s)) = h_socks s" "h_next (snd (on_world f s)) = h_next s"
  by (simp_all add: on_world_def split: prod.split)

lemma set_errno_socks [simp]: "h_socks (set_errno e s) = h_socks s" "h_next (set_errno e s) = h_next s"
  by (simp_all add: set_errno_def)

lemma set_errno_same [simp]: "same_states s (set_errno e s') \<longleftrightarrow> same_states s s'"
  "same_socks s (set_errno e s') \<longleftrightarrow> same_socks s s'"
  by (simp_all add: same_states_def same_socks_def state_at_def)

lemma fd_watch_socks: "post (fd_watch fd s) (same_socks s)" "post (fd_clear fd s) (same_socks s)"
  by (simp_all add: fd_watch_def fd_clear_def same_socks_def Let_def)

lemma if_send_socks: "post (if_send ip bs s) (\<lambda>(r, s'). same_socks s s')"
  by (auto simp: if_send_def same_socks_def intro!: post_bindI)

lemma reply_to_socks: "post (reply_to ip frame reply s) (\<lambda>(r, s'). same_socks s s')"
  by (auto simp: reply_to_def same_socks_def Let_def intro!: post_bindI post_mono [OF if_send_socks] split: sum.split)

lemma replies_socks:
  "post (reply_dm ip frame flag s) (\<lambda>(r, s'). same_socks s s')" "post (reply_ua ip frame flag s) (\<lambda>(r, s'). same_socks s s')"
  "post (reply_test ip frame s) (\<lambda>(r, s'). same_socks s s')"
  by (simp_all add: reply_dm_def reply_ua_def reply_test_def reply_to_socks)

lemma responds_socks:
  "post (respond c r e s) (\<lambda>(r, s'). same_socks s s')" "post (respond_accept c r e s) (\<lambda>(r, s'). same_socks s s')"
  "post (respond_connect c r e s) (\<lambda>(r, s'). same_socks s s')" "post (notify_accept l fd a path s) (\<lambda>(r, s'). same_socks s s')"
  by (auto simp: respond_def respond_accept_def respond_connect_def notify_accept_def dest: on_world_socks)

lemma on_link_states:
  assumes "link_keeps f"
  shows "post (on_link p f s) (\<lambda>(r, s'). same_states s s')"
  by (auto simp: on_link_def same_states_def state_at_def intro!: post_bindI
      dest!: link_keepsD [OF assms] simp: same_conn_def)

lemma put_sock_states: "h_socks s p = Some k \<Longrightarrow> s_state k' = s_state k \<Longrightarrow> same_states s (put_sock p k' s)"
  by (simp add: put_sock_def same_states_def state_at_def)

lemma upd_sock_states: "(\<And>k. s_state (f k) = s_state k) \<Longrightarrow> post (upd_sock p f s) (same_states s)"
  by (auto simp: upd_sock_def same_states_def state_at_def intro!: post_bindI)

lemma clear_slots_conn: "post (clear_slots n i k) (same_conn k)"
proof (induction n arbitrary: i k)
  case (Suc n)
  show ?case
    by (auto intro!: post_bindI post_mono [OF Suc.IH] intro: same_conn_trans [OF tx_slot_put_conn])
qed simp

lemma reset_conn: "post (patty_ax25_sock_reset k) (same_conn k)"
  by (auto simp: patty_ax25_sock_reset_def same_conn_def intro!: post_bindI dest!: postD [OF clear_slots_conn])

lemma ack_slot_conn: "same_conn k ((tx_slot_put k i t)\<lparr>s_va := n\<rparr>)"
  by (simp add: tx_slot_put_def same_conn_def)

lemma ack_loop_conn: "post (ack_loop n i ret k) (\<lambda>(r, k'). same_conn k k')"
proof (induction n arbitrary: i ret k)
  case (Suc n)
  show ?case
    by (auto intro!: post_bindI post_mono [OF Suc.IH] intro: same_conn_trans [OF ack_slot_conn])
qed simp

lemma sock_ack_conn: "post (patty_ax25_sock_ack k nr) (\<lambda>(r, k'). same_conn k k')"
  by (simp add: patty_ax25_sock_ack_def Let_def ack_loop_conn)

lemma frame_ack_conn: "post (frame_ack k frame) (same_conn k)"
proof -
  have a: "post (patty_ax25_sock_ack (k\<lparr>s_rx_pending := x, s_timer_t3 := t\<rparr>) nr) (\<lambda>(n, k1). same_conn k k1)" for x t nr
    by (rule post_mono [OF sock_ack_conn]) (auto simp: same_conn_def)
  have b: "post (if n > (0 :: int)
       then let sock = k1\<lparr>s_timer_t1 := patty_timer_stop (s_timer_t1 k1)\<rparr> in
            do { m \<leftarrow> patty_ax25_sock_ack_pending sock;
                 Some (if m > 0 then sock\<lparr>s_retries := s_n_retry sock, s_timer_t1 := patty_timer_start (s_timer_t1 sock)\<rparr>
                       else sock) }
       else Some k1) (same_conn k1)" for n k1
    by (auto simp: Let_def same_conn_def intro!: post_bindI)
  show ?thesis unfolding frame_ack_def
    by (rule post_bind_mono [OF a], clarify, rule post_bind_mono [OF b]) (simp add: Let_def same_conn_def)
qed

lemma do_ack_states: "post (do_ack p frame s) (same_states s)"
  by (auto simp: do_ack_def same_states_def state_at_def same_conn_def intro!: post_bindI dest!: postD [OF frame_ack_conn])

lemma init_bufs_conn: "post (init_bufs k w) (\<lambda>(r, k', w'). same_conn k k')"
  by (auto simp: init_bufs_def Let_def same_conn_def intro!: post_bindI dest!: postD [OF clear_slots_conn] split: prod.split)

lemma dict_ops_socks:
  "sock_save_local p k s = (r, s') \<Longrightarrow> same_socks s s'" "sock_save_remote p k s = (r, s') \<Longrightarrow> same_socks s s'"
  "sock_delete_local k s = (r, s') \<Longrightarrow> same_socks s s'" "sock_delete_remote k s = (r, s') \<Longrightarrow> same_socks s s'"
  "client_save_by_sock c k s = (r, s') \<Longrightarrow> same_socks s s'" "client_delete_by_sock k s = (r, s') \<Longrightarrow> same_socks s s'"
  by (auto simp: sock_save_local_def sock_save_remote_def sock_delete_local_def sock_delete_remote_def
      client_save_by_sock_def client_delete_by_sock_def same_socks_def split: prod.splits)

lemma client_delete_snd [simp]:
  "h_socks (snd (client_delete_by_sock k s)) = h_socks s" "h_next (snd (client_delete_by_sock k s)) = h_next s"
  by (simp_all add: client_delete_by_sock_def split: prod.split)

lemma sock_save_socks: "post (sock_save c p s) (\<lambda>(r, s'). same_socks s s')"
  by (auto simp: sock_save_def Let_def same_socks_def intro!: post_bindI
      dest!: dict_ops_socks split: prod.split option.split sock_state.splits)

text \<open>The socket at \<open>p\<close> may be gone; nothing else changes.\<close>

definition frees :: "nat \<Rightarrow> 'p server \<Rightarrow> 'p server \<Rightarrow> bool" where
  "frees p s s' \<longleftrightarrow> h_next s' = h_next s \<and>
     (\<forall>q. state_at s' q = state_at s q \<or> q = p \<and> state_at s' q = None)"

lemma same_states_frees: "same_states s s' \<Longrightarrow> frees p s s'"
  by (simp add: same_states_def frees_def)

lemma sock_destroy_frees: "post (sock_destroy p s) (\<lambda>s'. h_socks s' = (h_socks s)(p := None) \<and> h_next s' = h_next s)"
  by (auto simp: sock_destroy_def intro!: post_bindI)

lemma sock_close_frees: "post (sock_close p s) (\<lambda>(r, s'). frees p s s')"
  by (auto simp: sock_close_def Let_def frees_def state_at_def same_socks_def intro!: post_bindI
      dest!: dict_ops_socks postD [OF sock_destroy_frees] postD [OF fd_watch_socks(2)]
      split: prod.split option.split sock_state.splits)

lemma bind_if_states: "post (bind_if p ip s) (\<lambda>(r, s'). same_states s s')"
  by (auto simp: bind_if_def patty_ax25_sock_bind_if_def Let_def same_states_def state_at_def same_socks_def
      intro!: post_bindI dest!: on_world_socks split: prod.split sum.split if_splits)

definition opens :: "'p server \<Rightarrow> nat option \<Rightarrow> 'p server \<Rightarrow> bool" where
  "opens s p s' \<longleftrightarrow> (case p of None \<Rightarrow> same_socks s s'
     | Some p \<Rightarrow> p = h_next s \<and> h_next s' = h_next s + 1 \<and> (\<exists>k. h_socks s' = (h_socks s)(p \<mapsto> k)))"

lemma new_sock_opens: "post (new_sock proto type s) (\<lambda>(p, s'). opens s p s')"
  by (auto simp: new_sock_def opens_def same_socks_def Let_def intro!: post_bindI split: option.split)

section \<open>The handlers of frames\<close>

text \<open>Frames of the transfer of data and of its supervision change no state.\<close>

lemma save_info_conn: "post (save_info k info n) (\<lambda>(r, k'). same_conn k k')"
  by (auto simp: save_info_def patty_ax25_sock_assembler_save_def same_conn_def intro!: post_bindI)

lemma assembler_init_conn: "patty_ax25_sock_assembler_init k n w = (r, k', w') \<Longrightarrow> same_conn k k'"
  by (auto simp: patty_ax25_sock_assembler_init_def same_conn_def split: if_splits option.splits prod.splits)

lemma put_sock_socks [simp]: "h_socks (put_sock p k s) = (h_socks s)(p \<mapsto> k)" "h_next (put_sock p k s) = h_next s"
  by (simp_all add: put_sock_def)

lemma assembler_stop_state [simp]: "s_state (patty_ax25_sock_assembler_stop k) = s_state k"
  by (simp add: patty_ax25_sock_assembler_stop_def)

lemma segment_done_states: "post (segment_done p s) (\<lambda>(r, s'). same_states s s')"
  by (auto simp: segment_done_def same_states_def state_at_def same_socks_def intro!: post_bindI dest!: on_world_socks
      split: option.split prod.split)

lemma on_link_put_states:
  assumes "link_keeps f" and "h_socks s p = Some k" and "s_state k' = s_state k"
  shows "post (on_link p f (put_sock p k' s)) (\<lambda>(r, s'). same_states s s')"
  by (rule post_mono [OF on_link_states [OF assms(1)]])
    (auto intro: same_states_trans [OF put_sock_states [OF assms(2,3)]])

lemma segment_save_states: "post (segment_save p frame info remaining s) (\<lambda>(r, s'). same_states s s')"
proof (unfold segment_save_def, rule post_bindI)
  fix k assume k: "h_socks s p = Some k"
  have "post (do { (r, k) \<leftarrow> save_info k info (f_infolen frame - 1);
                    let s = put_sock p k s;
                    case r of
                      Inl e \<Rightarrow> Some (-1, set_errno e s)
                    | Inr _ \<Rightarrow> if remaining = 0 then segment_done p s else Some (0, s) }) (\<lambda>(r, s'). same_states s s')"
  proof (rule post_bind_mono [OF save_info_conn], clarify)
    fix r k' assume "same_conn k k'"
    then have "same_states s (put_sock p k' s)" using k by (simp add: put_sock_states same_conn_def)
    moreover from this have "post (segment_done p (put_sock p k' s)) (\<lambda>(r, s'). same_states s s')"
      by (intro post_mono [OF segment_done_states]) (auto intro: same_states_trans)
    ultimately show "post (let s = put_sock p k' s in
        case r of Inl e \<Rightarrow> Some (-1, set_errno e s)
        | Inr _ \<Rightarrow> if remaining = 0 then segment_done p s else Some (0, s)) (\<lambda>(r, s'). same_states s s')"
      by (auto simp: Let_def same_states_def state_at_def split: sum.split)
  qed
  then show "post (if \<not> patty_ax25_sock_assembler_pending k (ucast remaining)
      then on_link p (patty_ax25_sock_send_srej PATTY_AX25_FRAME_RESPONSE) (put_sock p (patty_ax25_sock_assembler_stop k) s)
      else do { (r, k) \<leftarrow> save_info k info (f_infolen frame - 1);
                    let s = put_sock p k s;
                    case r of
                      Inl e \<Rightarrow> Some (-1, set_errno e s)
                    | Inr _ \<Rightarrow> if remaining = 0 then segment_done p s else Some (0, s) }) (\<lambda>(r, s'). same_states s s')"
    using on_link_put_states [OF links_keep(4) k] by simp
qed

lemma segment_save_from: "same_states s s1 \<Longrightarrow> post (segment_save p frame info remaining s1) (\<lambda>(r, s'). same_states s s')"
  by (rule post_mono [OF segment_save_states]) (auto intro: same_states_trans)

lemma handle_segment_states: "post (handle_segment p frame s) (\<lambda>(r, s'). same_states s s')"
proof -
  note srej = on_link_states [OF links_keep(4)]
  have first: "post (case patty_ax25_sock_assembler_init k n (sv_world s) of (r, k, w) \<Rightarrow>
        let s = put_sock p k (s\<lparr>sv_world := w\<rparr>) in
        case r of Inl e \<Rightarrow> Some (-1, set_errno e s) | Inr _ \<Rightarrow> segment_save p frame info remaining s)
      (\<lambda>(r, s'). same_states s s')" if k: "h_socks s p = Some k" for k n info remaining
  proof (cases "patty_ax25_sock_assembler_init k n (sv_world s)")
    case (fields r k' w)
    then have "same_states s (put_sock p k' (s\<lparr>sv_world := w\<rparr>))"
      using assembler_init_conn [OF fields] k by (simp add: same_states_def state_at_def same_conn_def)
    moreover from this have "post (segment_save p frame info remaining (put_sock p k' (s\<lparr>sv_world := w\<rparr>)))
        (\<lambda>(r, s'). same_states s s')" by (rule segment_save_from)
    ultimately show ?thesis using fields by (auto simp: Let_def split: sum.split)
  qed
  show ?thesis unfolding handle_segment_def Let_def
    by (auto intro!: post_bindI srej segment_save_states first [unfolded Let_def])
qed

lemma write_info_socks: "post (write_info p frame s) (\<lambda>(r, s'). same_socks s s')"
  by (auto simp: write_info_def intro!: post_bindI dest: on_world_socks)

lemma i_delivered_states: "post (i_delivered p frame s) (\<lambda>(r, s'). same_states s s')"
  by (auto simp: i_delivered_def Let_def intro!: post_bindI on_link_put_states [OF links_keep(1)] put_sock_states)

text \<open>Sequencing for operations that keep all states.\<close>

lemma states_bindI:
  assumes "post m (\<lambda>(r, s'). same_states s s')" and "\<And>r s'. post (f (r, s')) (\<lambda>(r, s''). same_states s' s'')"
  shows "post (m \<bind> f) (\<lambda>(r, s'). same_states s s')"
  using assms by (cases m) (auto simp: post_def intro: same_states_trans)

lemma states_bindI1:
  assumes "post m (same_states s)" and "\<And>s'. post (f s') (\<lambda>(r, s''). same_states s' s'')"
  shows "post (m \<bind> f) (\<lambda>(r, s'). same_states s s')"
  using assms by (cases m) (auto simp: post_def intro: same_states_trans)

lemma socks_states: "post m (\<lambda>(r, s'). same_socks s s') \<Longrightarrow> post m (\<lambda>(r, s'). same_states s s')"
  by (erule post_mono) (auto intro: same_socks_states)

lemmas replies_states = replies_socks [THEN socks_states]

lemma vr_incr_states: "h_socks s p = Some k \<Longrightarrow> same_states s (put_sock p (patty_ax25_sock_vr_incr k) s)"
  by (rule put_sock_states) (simp_all add: patty_ax25_sock_vr_incr_def)

lemma handle_i_states: "post (handle_i ip sock frame s) (\<lambda>(r, s'). same_states s s')"
proof -
  have deliver: "post (do { (r, s) \<leftarrow> m; if r < 0 then Some (-1, s) else i_delivered p frame s }) (\<lambda>(r, s'). same_states s s')"
    if "post m (\<lambda>(r, s'). same_states s1 s')" and "same_states s s1" for m p and s s1 :: "'a server"
    by (rule post_mono [OF states_bindI [of _ s1]])
      (use that in \<open>auto intro: i_delivered_states same_states_trans\<close>)
  note deliver = deliver [OF handle_segment_states] deliver [OF write_info_socks [THEN socks_states]]
  have acked: "post (do { k \<leftarrow> h_socks s1 p;
        let ns = uint (f_ns frame);
        if ns = s_vr k + 1 then on_link p (patty_ax25_sock_send_srej PATTY_AX25_FRAME_RESPONSE) s1
        else if ns > s_vr k + 1 then on_link p (patty_ax25_sock_send_rej PATTY_AX25_FRAME_RESPONSE 1) s1
        else let s = (if ns = s_vr k then put_sock p (patty_ax25_sock_vr_incr k) s1 else s1) in
             do { (r, s) \<leftarrow> (if f_proto frame = PATTY_AX25_PROTO_FRAGMENT then handle_segment p frame s else write_info p frame s);
                  if r < 0 then Some (-1, s) else i_delivered p frame s } }) (\<lambda>(r, s'). same_states s1 s')"
    for p and s1 :: "'a server"
    by (rule post_bindI)
      (auto simp: Let_def simp del: if_cancel intro!: on_link_states [OF links_keep(3)] on_link_states [OF links_keep(4)]
        deliver vr_incr_states)
  have replied: "post (if f_pf frame \<noteq> 0 then reply_dm ip frame 1 s else Some (0, s)) (\<lambda>(r, s'). same_states s s')"
    by (simp add: replies_states)
  show ?thesis
  proof (cases sock)
    case None
    then show ?thesis using replied by (simp add: handle_i_def)
  next
    case (Some p)
    have "post (do { s \<leftarrow> do_ack p frame s; handle s }) (\<lambda>(r, s'). same_states s s')"
      if "\<And>s. post (handle s) (\<lambda>(r, s'). same_states s s')" for handle :: "'a server \<Rightarrow> (int \<times> 'a server) option"
      by (rule states_bindI1 [OF do_ack_states that])
    then show ?thesis using Some acked replied unfolding handle_i_def
      by (auto intro!: post_bindI)
  qed
qed

lemma handle_ui_states: "post (handle_ui sock frame s) (\<lambda>(r, s'). same_states s s')"
  by (auto simp: handle_ui_def intro!: post_bindI handle_segment_states write_info_socks [THEN socks_states] split: option.split)

lemma sock_flow_states: "post (sock_flow_start p s) (same_states s)" "post (sock_flow_stop p s) (same_states s)"
proof -
  show "post (sock_flow_start p s) (same_states s)"
    by (auto simp: sock_flow_start_def intro!: post_bindI post_mono [OF fd_watch_socks(1)] same_socks_states)
  have "post (upd_sock p (\<lambda>k. k\<lparr>s_flow := PATTY_AX25_SOCK_WAIT\<rparr>) s1) (same_states s)" if "same_socks s s1" for s1
    by (rule post_mono [OF upd_sock_states]) (auto intro: same_states_trans [OF same_socks_states [OF that]])
  then show "post (sock_flow_stop p s) (same_states s)"
    by (auto simp: sock_flow_stop_def intro!: post_bindI dest!: postD [OF fd_watch_socks(2)])
qed

lemma supervisory_states:
  assumes "\<And>p s. post (flow p s) (same_states s)"
  shows "post (supervisory flow sock frame s) (\<lambda>(r, s'). same_states s s')"
  by (auto simp: supervisory_def intro!: states_bindI1 [OF do_ack_states] states_bindI1 [OF assms]
      on_link_states [OF links_keep(1)] split: option.split frame_cr.split)

lemma handle_srej_states: "post (handle_srej sock frame s) (\<lambda>(r, s'). same_states s s')"
  by (auto simp: handle_srej_def intro!: states_bindI1 [OF do_ack_states] states_bindI [OF on_link_states [OF links_keep(7)]]
      split: option.split)

lemma addr_match_test: "post (handle_test ip frame s) (\<lambda>(r, s'). same_states s s')"
  by (auto simp: handle_test_def intro!: post_bindI replies_states)

lemma upd_link_states:
  assumes "\<And>k. s_state (f k) = s_state k" and "link_keeps g"
  shows "post (do { s \<leftarrow> upd_sock p f s; on_link p g s }) (\<lambda>(r, s'). same_states s s')"
  by (rule states_bindI1 [OF upd_sock_states [OF assms(1)] on_link_states [OF assms(2)]])

text \<open>Looking up a socket, and clearing it.\<close>

lemma post_sockI: "(\<And>k. h_socks s p = Some k \<Longrightarrow> post (f k) Q) \<Longrightarrow> post (h_socks s p \<bind> f) Q"
  by (rule post_bindI)

lemma post_resetI:
  "(\<And>k'. patty_ax25_sock_reset k = Some k' \<Longrightarrow> same_conn k k' \<Longrightarrow> post (f k') Q) \<Longrightarrow> post (patty_ax25_sock_reset k \<bind> f) Q"
  by (rule post_bind_mono [OF postI]) (auto dest: postD [OF reset_conn])

lemma put_states:
  "h_socks s p = Some k \<Longrightarrow> same_conn k k' \<Longrightarrow> same_states s (s\<lparr>h_socks := (h_socks s)(p \<mapsto> k')\<rparr>)"
  by (simp add: same_states_def state_at_def same_conn_def)

lemma handle_frmr_states: "post (handle_frmr sock s) (\<lambda>(r, s'). same_states s s')"
  by (auto simp: handle_frmr_def intro!: post_sockI post_resetI upd_link_states links_keep(5)
      split: option.split sock_state.split) (erule (1) put_states)

section \<open>The abstract machine\<close>

text \<open>
  How a frame of type \<open>t\<close> may change the state of one connection; \<open>None\<close> is no connection. A
  DM refuses a connection only as far as the client is concerned.
\<close>

inductive conn_step :: "byte \<Rightarrow> sock_state option \<Rightarrow> sock_state option \<Rightarrow> bool" where
  stay: "conn_step t st st"
| xid_arrives: "conn_step PATTY_AX25_FRAME_XID None (Some PATTY_AX25_SOCK_PENDING_ACCEPT)"
| xid_refused: "conn_step PATTY_AX25_FRAME_XID (Some PATTY_AX25_SOCK_PENDING_CONNECT) (Some PATTY_AX25_SOCK_CLOSED)"
| sabm_arrives: "t \<in> {PATTY_AX25_FRAME_SABM, PATTY_AX25_FRAME_SABME} \<Longrightarrow> conn_step t None (Some PATTY_AX25_SOCK_ESTABLISHED)"
| sabm_accepts: "t \<in> {PATTY_AX25_FRAME_SABM, PATTY_AX25_FRAME_SABME} \<Longrightarrow>
    conn_step t (Some PATTY_AX25_SOCK_PENDING_ACCEPT) (Some PATTY_AX25_SOCK_ESTABLISHED)"
| sabm_fails: "t \<in> {PATTY_AX25_FRAME_SABM, PATTY_AX25_FRAME_SABME} \<Longrightarrow> conn_step t (Some PATTY_AX25_SOCK_PENDING_ACCEPT) None"
| ua_connects: "conn_step PATTY_AX25_FRAME_UA (Some PATTY_AX25_SOCK_PENDING_CONNECT) (Some PATTY_AX25_SOCK_ESTABLISHED)"
| ua_closes: "conn_step PATTY_AX25_FRAME_UA (Some PATTY_AX25_SOCK_PENDING_DISCONNECT) None"
| dm_closes: "conn_step PATTY_AX25_FRAME_DM (Some PATTY_AX25_SOCK_PENDING_DISCONNECT) None"
| disc_closes: "conn_step PATTY_AX25_FRAME_DISC (Some PATTY_AX25_SOCK_ESTABLISHED) None"

declare conn_step.stay [simp, intro]

text \<open>The addresses that allocation has not given out yet hold no socket.\<close>

definition bounded :: "'p server \<Rightarrow> bool" where
  "bounded s \<longleftrightarrow> (\<forall>q. h_next s \<le> q \<longrightarrow> state_at s q = None)"

lemma bounded_same: "same_states s s' \<Longrightarrow> bounded s \<Longrightarrow> bounded s'"
  by (simp add: same_states_def bounded_def)

lemma bounded_at: "bounded s \<Longrightarrow> state_at s p \<noteq> None \<Longrightarrow> p < h_next s"
  unfolding bounded_def by (meson not_le)

lemma bounded_put:
  "bounded s \<Longrightarrow> state_at s p \<noteq> None \<Longrightarrow> h_socks s' = (h_socks s)(p \<mapsto> k) \<Longrightarrow> h_next s' = h_next s \<Longrightarrow> bounded s'"
  using bounded_at [of s p] by (auto simp: bounded_def state_at_def)

lemma bounded_upd [simp, intro]:
  "bounded s \<Longrightarrow> h_socks s p = Some k \<Longrightarrow> bounded (s\<lparr>h_socks := (h_socks s)(p \<mapsto> k')\<rparr>)"
  "bounded s \<Longrightarrow> h_socks s p = Some k \<Longrightarrow> bounded (put_sock p k' s)"
  by (auto intro: bounded_put [of s p] simp: state_at_def)

lemma bounded_errno [simp]: "bounded (set_errno e s) \<longleftrightarrow> bounded s"
  by (simp add: bounded_def state_at_def)

lemma bounded_opens: "opens s (Some p) s1 \<Longrightarrow> bounded s \<Longrightarrow> bounded s1"
  by (auto simp: opens_def bounded_def state_at_def)

definition steps :: "byte \<Rightarrow> 'p server \<Rightarrow> 'p server \<Rightarrow> bool" where
  "steps t s s' \<longleftrightarrow> (\<forall>q. conn_step t (state_at s q) (state_at s' q)) \<and> (bounded s \<longrightarrow> bounded s')"

lemma same_states_steps: "same_states s s' \<Longrightarrow> steps t s s'"
  using bounded_same [of s s'] by (simp add: same_states_def steps_def)

lemma states_steps: "post m (\<lambda>(r, s'). same_states s s') \<Longrightarrow> post m (\<lambda>(r, s'). steps t s s')"
  by (erule post_mono) (auto intro: same_states_steps)

text \<open>All sockets but one keep their state, and that one lives where allocation put it.\<close>

definition only_at :: "nat \<Rightarrow> 'p server \<Rightarrow> 'p server \<Rightarrow> bool" where
  "only_at p s s' \<longleftrightarrow> (\<forall>q. q \<noteq> p \<longrightarrow> state_at s' q = state_at s q) \<and> (bounded s \<longrightarrow> bounded s')"

lemma only_at_trans: "only_at p s s' \<Longrightarrow> only_at p s' s'' \<Longrightarrow> only_at p s s''"
  by (simp add: only_at_def)

lemma only_at_steps: "only_at p s s' \<Longrightarrow> conn_step t (state_at s p) (state_at s' p) \<Longrightarrow> steps t s s'"
  unfolding steps_def only_at_def by (metis conn_step.stay)

lemma only_at_steps2:
  "only_at p s s1 \<Longrightarrow> only_at p s1 s' \<Longrightarrow> conn_step t (state_at s p) (state_at s' p) \<Longrightarrow> steps t s s'"
  by (rule only_at_steps [OF only_at_trans])

lemma same_states_only: "same_states s s' \<Longrightarrow> only_at p s s' \<and> state_at s' p = state_at s p"
  using bounded_same [of s s'] by (simp add: same_states_def only_at_def)

lemma frees_only: "frees p s s' \<Longrightarrow> only_at p s s' \<and> (state_at s' p = state_at s p \<or> state_at s' p = None)"
  by (auto simp: frees_def only_at_def bounded_def) metis


section \<open>Refinement\<close>

lemma handle_dm_steps: "post (handle_dm sock s) (\<lambda>(r, s'). steps PATTY_AX25_FRAME_DM s s')"
proof (cases sock)
  case None
  then show ?thesis by (simp add: handle_dm_def same_states_steps)
next
  case (Some p)
  have close: "post (do { s \<leftarrow> upd_sock p (\<lambda>k. k\<lparr>s_timer_t1 := patty_timer_stop (s_timer_t1 k)\<rparr>) s; sock_close p s })
      (\<lambda>(r, s'). steps PATTY_AX25_FRAME_DM s s')"
    if "state_at s p = Some PATTY_AX25_SOCK_PENDING_DISCONNECT"
  proof (rule post_bind_mono [OF upd_sock_states])
    fix s1 assume "same_states s s1"
    then have s1: "only_at p s s1" "state_at s1 p = Some PATTY_AX25_SOCK_PENDING_DISCONNECT"
      using same_states_only [of s s1 p] that by simp_all
    show "post (sock_close p s1) (\<lambda>(r, s'). steps PATTY_AX25_FRAME_DM s s')"
      by (rule post_mono [OF sock_close_frees])
        (use s1 that in \<open>auto dest!: frees_only intro!: only_at_steps2 [OF s1(1)] simp: conn_step.intros\<close>)
  qed simp
  have refuse: "post (respond_connect c (-1) e (s\<lparr>h_socks := (h_socks s)(p \<mapsto> k')\<rparr>)) (\<lambda>(r, s'). steps PATTY_AX25_FRAME_DM s s')"
    if "h_socks s p = Some k" "same_conn k k'" for c e k k'
    by (rule states_steps, rule post_mono [OF responds_socks(3) [THEN socks_states]])
      (auto intro: same_states_trans [OF put_states [OF that]])
  show ?thesis unfolding handle_dm_def Some
    by (auto simp: Let_def intro!: post_sockI post_resetI same_states_steps close split: sock_state.split)
      (auto simp: state_at_def intro: refuse)
qed

lemma handle_disc_steps: "post (handle_disc ip sock frame s) (\<lambda>(r, s'). steps PATTY_AX25_FRAME_DISC s s')"
proof (cases sock)
  case None
  then show ?thesis by (simp add: handle_disc_def replies_states states_steps)
next
  case (Some p)
  have close: "post (do { (r, s) \<leftarrow> sock_close p s; reply_ua ip frame 1 s }) (\<lambda>(r, s'). steps PATTY_AX25_FRAME_DISC s s')"
    if "state_at s p = Some PATTY_AX25_SOCK_ESTABLISHED"
  proof (rule post_bind_mono [OF sock_close_frees], clarify)
    fix s1 assume "frees p s s1"
    then have s1: "only_at p s s1" "state_at s1 p \<in> {None, Some PATTY_AX25_SOCK_ESTABLISHED}"
      using that by (auto dest: frees_only)
    show "post (reply_ua ip frame 1 s1) (\<lambda>(r, s'). steps PATTY_AX25_FRAME_DISC s s')"
      by (rule post_mono [OF replies_states(2)])
        (use s1 that in \<open>auto dest!: same_states_only [of s1 _ p] intro!: only_at_steps2 [OF s1(1)] simp: conn_step.intros\<close>)
  qed
  show ?thesis unfolding handle_disc_def Some
    by (auto intro!: post_sockI same_states_steps replies_states [THEN states_steps] close split: sock_state.split)
      (auto simp: state_at_def)
qed


text \<open>Sequences that touch one socket: a part that keeps all states may come before or after.\<close>

definition to_at :: "nat \<Rightarrow> sock_state option set \<Rightarrow> 'p server \<Rightarrow> 'p server \<Rightarrow> bool" where
  "to_at p S s s' \<longleftrightarrow> only_at p s s' \<and> state_at s' p \<in> S"

lemma to_at_same: "to_at p S s s1 \<Longrightarrow> same_states s1 s' \<Longrightarrow> to_at p S s s'"
  by (auto simp: to_at_def dest: same_states_only [of _ _ p] intro: only_at_trans)

lemma to_at_mono: "to_at p S s s' \<Longrightarrow> S \<subseteq> T \<Longrightarrow> to_at p T s s'"
  by (auto simp: to_at_def)

lemma to_at_steps: "to_at p S s s' \<Longrightarrow> \<forall>st \<in> S. conn_step t (state_at s p) st \<Longrightarrow> steps t s s'"
  by (auto simp: to_at_def intro: only_at_steps)

lemma to_at_then: "to_at p S s s1 \<Longrightarrow> post m (\<lambda>(r, s'). same_states s1 s') \<Longrightarrow> post m (\<lambda>(r, s'). to_at p S s s')"
  by (erule post_mono) (auto intro: to_at_same)

lemma to_at_then1: "to_at p S s s1 \<Longrightarrow> post m (same_states s1) \<Longrightarrow> post m (to_at p S s)"
  by (erule post_mono) (auto intro: to_at_same)

lemma to_at_destroy: "to_at p S s s1 \<Longrightarrow> post (do { s \<leftarrow> sock_destroy p s1; Some (r, s) }) (\<lambda>(r, s'). to_at p {None} s s')"
  by (auto simp: to_at_def only_at_def bounded_def state_at_def intro!: post_bindI dest!: postD [OF sock_destroy_frees])

lemma to_at_close: "to_at p S s s1 \<Longrightarrow> post (sock_close p s1) (\<lambda>(r, s'). to_at p (insert None S) s s')"
  by (rule post_mono [OF sock_close_frees])
    (auto simp: to_at_def dest!: frees_only intro: only_at_trans)

lemma to_at_put:
  "only_at p s s1 \<Longrightarrow> state_at s1 p \<noteq> None \<Longrightarrow> to_at p {Some (s_state k)} s (s1\<lparr>h_socks := (h_socks s1)(p \<mapsto> k), sv_world := w\<rparr>)"
  using bounded_put [of s1 p "s1\<lparr>h_socks := (h_socks s1)(p \<mapsto> k), sv_world := w\<rparr>" k]
  by (simp add: to_at_def only_at_def state_at_def)

lemma to_at_from_same: "same_states s s1 \<Longrightarrow> to_at p S s1 s' \<Longrightarrow> to_at p S s s'"
  by (auto simp: to_at_def dest: same_states_only [of _ _ p] intro: only_at_trans)

lemma upd_state_to: "post (upd_sock p f s) (\<lambda>s'. \<exists>k. h_socks s p = Some k \<and> to_at p {Some (s_state (f k))} s s')"
  by (auto simp: upd_sock_def to_at_def only_at_def state_at_def intro!: post_bindI)

lemma to_at_world: "to_at p S s s1 \<Longrightarrow> on_world f s1 = (r, s') \<Longrightarrow> to_at p S s s'"
  by (erule to_at_same) (rule same_socks_states [OF on_world_socks])

text \<open>The end of both ways into the established state.\<close>

lemma connected_tail:
  assumes "to_at p S s s1"
  shows "post (do { k \<leftarrow> h_socks s1 p;
                    let client = client_by_sock s1 k;
                    if client < 0 then Some (-1, s1)
                    else do { (r, s) \<leftarrow> sock_save client p s1;
                              if r < 0 then Some (-1, s)
                              else do { s \<leftarrow> fd_watch (s_fd k) s; respond_connect client 0 0 s } } }) (\<lambda>(r, s'). to_at p S s s')"
proof -
  have "post (do { s \<leftarrow> fd_watch fd s2; respond_connect client 0 0 s }) (\<lambda>(r, s'). to_at p S s s')"
    if "same_socks s1 s2" for fd client s2
    by (rule post_bind_mono [OF fd_watch_socks(1)], rule post_mono [OF responds_socks(3)])
      (auto intro: to_at_same [OF assms] same_socks_states same_socks_trans [OF that same_socks_trans])
  then show ?thesis
    by (auto simp: Let_def assms intro!: post_sockI post_bind_mono [OF sock_save_socks]
        to_at_same [OF assms same_socks_states])
qed

lemma ua_connected_to:
  "post (ua_connected p s) (\<lambda>(r, s'). to_at p {state_at s p, Some PATTY_AX25_SOCK_ESTABLISHED} s s')"
proof (unfold ua_connected_def, rule post_sockI, unfold patty_ax25_sock_realloc_bufs_def,
    rule post_bind_mono [OF init_bufs_conn], clarify)
  fix k r k1 w assume k: "h_socks s p = Some k" "same_conn k k1"
  define s1 where "s1 = s\<lparr>h_socks := (h_socks s)(p \<mapsto> k1), sv_world := w\<rparr>"
  have s1: "same_states s s1" using k by (simp add: s1_def same_states_def state_at_def same_conn_def)
  have "post (do { s \<leftarrow> upd_sock p (\<lambda>k. k\<lparr>s_timer_t1 := patty_timer_stop (s_timer_t1 k),
                           s_timer_t3 := patty_timer_start (s_timer_t3 k), s_state := PATTY_AX25_SOCK_ESTABLISHED\<rparr>) s1;
                    k \<leftarrow> h_socks s p;
                    let client = client_by_sock s k;
                    if client < 0 then Some (-1, s)
                    else do { (r, s) \<leftarrow> sock_save client p s;
                              if r < 0 then Some (-1, s)
                              else do { s \<leftarrow> fd_watch (s_fd k) s; respond_connect client 0 0 s } } })
      (\<lambda>(r, s'). to_at p {state_at s p, Some PATTY_AX25_SOCK_ESTABLISHED} s s')"
    by (rule post_bind_mono [OF upd_state_to], rule connected_tail)
      (auto intro: to_at_mono [OF to_at_from_same [OF s1]])
  moreover have "to_at p {state_at s p, Some PATTY_AX25_SOCK_ESTABLISHED} s s1"
    using same_states_only [OF s1, of p] by (simp add: to_at_def)
  ultimately show "post (let s = s\<lparr>h_socks := (h_socks s)(p \<mapsto> k1), sv_world := w\<rparr> in
        if r < 0 then Some (-1, s)
        else do { s \<leftarrow> upd_sock p (\<lambda>k. k\<lparr>s_timer_t1 := patty_timer_stop (s_timer_t1 k),
                           s_timer_t3 := patty_timer_start (s_timer_t3 k), s_state := PATTY_AX25_SOCK_ESTABLISHED\<rparr>) s;
                    k \<leftarrow> h_socks s p;
                    let client = client_by_sock s k;
                    if client < 0 then Some (-1, s)
                    else do { (r, s) \<leftarrow> sock_save client p s;
                              if r < 0 then Some (-1, s)
                              else do { s \<leftarrow> fd_watch (s_fd k) s; respond_connect client 0 0 s } } })
      (\<lambda>(r, s'). to_at p {state_at s p, Some PATTY_AX25_SOCK_ESTABLISHED} s s')"
    by (simp only: Let_def s1_def [symmetric]) (simp add: Let_def)
qed

lemma handle_ua_steps: "post (handle_ua ip sock frame s) (\<lambda>(r, s'). steps PATTY_AX25_FRAME_UA s s')"
proof -
  have up: "post (ua_connected p s) (\<lambda>(r, s'). steps PATTY_AX25_FRAME_UA s s')"
    if "state_at s p = Some PATTY_AX25_SOCK_PENDING_CONNECT" for p
    by (rule post_mono [OF ua_connected_to]) (auto intro!: to_at_steps simp: that conn_step.intros)
  have down: "post (sock_close p s) (\<lambda>(r, s'). steps PATTY_AX25_FRAME_UA s s')"
    if "state_at s p = Some PATTY_AX25_SOCK_PENDING_DISCONNECT" for p
    by (rule post_mono [OF sock_close_frees]) (use that in \<open>auto dest!: frees_only intro!: only_at_steps [of p] simp: conn_step.intros\<close>)
  show ?thesis unfolding handle_ua_def
    by (auto intro!: post_bindI [where m = "addr_match ip frame s"] post_sockI same_states_steps
        replies_states [THEN states_steps] up down split: option.split sock_state.split)
      (auto simp: state_at_def)
qed

text \<open>A call that may open a socket: at a fresh address.\<close>

definition fresh :: "'p server \<Rightarrow> bool" where
  "fresh s \<longleftrightarrow> h_socks s (h_next s) = None"

lemma opens_at:
  assumes "opens s (Some p) s1" and "fresh s"
  shows "p = h_next s" "only_at p s s1" "state_at s p = None" "\<exists>k. h_socks s1 p = Some k"
  using assms bounded_opens [OF assms(1)] by (auto simp: opens_def fresh_def only_at_def state_at_def)

text \<open>The part of \<open>sabm_accept\<close> behind the allocation of the buffers.\<close>

lemma sabm_accept_tail:
  assumes s1: "to_at remote {Some PATTY_AX25_SOCK_ESTABLISHED} s s1"
  defines "fail \<equiv> (\<lambda>s. do { s \<leftarrow> sock_destroy remote s; Some (-1, s) })"
  shows "post (do { (r, s) \<leftarrow> bind_if remote ip s1;
                     (r, s) \<leftarrow> (if created then sock_save client remote s else Some (0, s));
                     if r < 0 then fail s
                     else do { k \<leftarrow> h_socks s remote;
                               l \<leftarrow> h_socks s local;
                               s \<leftarrow> fd_watch (s_fd k) s;
                               (r, s) \<leftarrow> notify_accept (s_fd l) (s_fd k) (s_remote k) (s_pty k) s;
                               if r < 0 then fail s
                               else do { s \<leftarrow> upd_sock remote (\<lambda>k. k\<lparr>s_timer_t3 := patty_timer_start (s_timer_t3 k)\<rparr>) s;
                                         reply_ua ip frame 1 s } } })
    (\<lambda>(r, s'). to_at remote {None, Some PATTY_AX25_SOCK_ESTABLISHED} s s')" (is "post ?m ?Q")
proof -
  let ?T = "to_at remote {Some PATTY_AX25_SOCK_ESTABLISHED} s"
  have destroyed: "post (fail s2) ?Q" if "?T s2" for s2
    unfolding fail_def by (rule post_mono [OF to_at_destroy [OF that]]) (auto intro: to_at_mono)
  have timed: "post (do { s \<leftarrow> upd_sock remote (\<lambda>k. k\<lparr>s_timer_t3 := patty_timer_start (s_timer_t3 k)\<rparr>) s2;
      reply_ua ip frame 1 s }) ?Q" if "?T s2" for s2
    by (rule post_bind_mono [OF to_at_then1 [OF that upd_sock_states]], simp, rule post_mono [OF to_at_then [OF _ replies_states(2)]])
      (auto intro: to_at_mono)
  have told: "post (do { (r, s) \<leftarrow> notify_accept a b c d s2;
      if r < 0 then fail s
      else do { s \<leftarrow> upd_sock remote (\<lambda>k. k\<lparr>s_timer_t3 := patty_timer_start (s_timer_t3 k)\<rparr>) s; reply_ua ip frame 1 s } }) ?Q"
    if "?T s2" for s2 a b c d
    by (rule post_bind_mono [OF to_at_then [OF that responds_socks(4) [THEN socks_states]]])
      (auto intro: destroyed timed)
  have watched: "post (do { s \<leftarrow> fd_watch fd s2;
      (r, s) \<leftarrow> notify_accept a b c d s;
      if r < 0 then fail s
      else do { s \<leftarrow> upd_sock remote (\<lambda>k. k\<lparr>s_timer_t3 := patty_timer_start (s_timer_t3 k)\<rparr>) s; reply_ua ip frame 1 s } }) ?Q"
    if "?T s2" for s2 fd a b c d
    by (rule post_bind_mono [OF to_at_then1 [OF that post_mono [OF fd_watch_socks(1) same_socks_states]] told])
  have saved: "post (if created then sock_save client remote s2 else Some (0, s2)) (\<lambda>(r, s'). ?T s')" if "?T s2" for s2
    using to_at_then [OF that sock_save_socks [THEN socks_states]] that by simp
  show ?thesis
    by (rule post_bind_mono [OF to_at_then [OF s1 bind_if_states]], clarify, rule post_bind_mono [OF saved], assumption, clarify)
      (auto intro!: post_sockI destroyed watched)
qed

lemma sabm_accept_to:
  assumes k: "h_socks s remote = Some k"
  shows "post (sabm_accept ip frame client local created remote s)
    (\<lambda>(r, s'). to_at remote {None, Some PATTY_AX25_SOCK_ESTABLISHED} s s')"
proof -
  define k1 where "k1 = (if f_type frame = PATTY_AX25_FRAME_SABME
      then (patty_ax25_sock_params_upgrade (k\<lparr>s_state := PATTY_AX25_SOCK_ESTABLISHED\<rparr>))\<lparr>s_mode := PATTY_AX25_SOCK_SABME\<rparr>
      else k\<lparr>s_state := PATTY_AX25_SOCK_ESTABLISHED, s_mode := PATTY_AX25_SOCK_SABM\<rparr>)"
  have st: "s_state k1 = PATTY_AX25_SOCK_ESTABLISHED" by (simp add: k1_def patty_ax25_sock_params_upgrade_def)
  have put: "to_at remote {Some PATTY_AX25_SOCK_ESTABLISHED} s (s\<lparr>h_socks := (h_socks s)(remote \<mapsto> k2), sv_world := w\<rparr>)"
    if "same_conn k1 k2" for k2 w
    using to_at_put [of remote s s k2 w] that st k by (simp add: only_at_def same_conn_def state_at_def)
  show ?thesis
    unfolding sabm_accept_def patty_ax25_sock_realloc_bufs_def Let_def k Option.bind.bind_lunit k1_def [symmetric]
  proof (rule post_bind_mono [OF init_bufs_conn], clarify)
    fix r k2 w assume "same_conn k1 k2"
    note s1 = put [OF this, of w]
    show "post (if r < 0 then do { s \<leftarrow> sock_destroy remote (s\<lparr>h_socks := (h_socks s)(remote \<mapsto> k2), sv_world := w\<rparr>); Some (-1, s) }
        else do { (r, s) \<leftarrow> bind_if remote ip (s\<lparr>h_socks := (h_socks s)(remote \<mapsto> k2), sv_world := w\<rparr>);
                     (r, s) \<leftarrow> (if created then sock_save client remote s else Some (0, s));
                     if r < 0 then do { s \<leftarrow> sock_destroy remote s; Some (-1, s) }
                     else do { k \<leftarrow> h_socks s remote;
                               l \<leftarrow> h_socks s local;
                               s \<leftarrow> fd_watch (s_fd k) s;
                               (r, s) \<leftarrow> notify_accept (s_fd l) (s_fd k) (s_remote k) (s_pty k) s;
                               if r < 0 then do { s \<leftarrow> sock_destroy remote s; Some (-1, s) }
                               else do { s \<leftarrow> upd_sock remote (\<lambda>k. k\<lparr>s_timer_t3 := patty_timer_start (s_timer_t3 k)\<rparr>) s;
                                         reply_ua ip frame 1 s } } })
      (\<lambda>(r, s'). to_at remote {None, Some PATTY_AX25_SOCK_ESTABLISHED} s s')"
    proof (cases "r < 0")
      case True
      then show ?thesis by simp (rule post_mono [OF to_at_destroy [OF s1]], auto intro: to_at_mono)
    next
      case False
      then show ?thesis using sabm_accept_tail [OF s1] by simp
    qed
  qed
qed

lemma save_reply_state: "save_reply_addr k frame = Some k' \<Longrightarrow> s_state k' = s_state k"
  by (auto simp: save_reply_addr_def Let_def split: if_splits)

lemma sabm_accept_steps:
  assumes "t \<in> {PATTY_AX25_FRAME_SABM, PATTY_AX25_FRAME_SABME}" and "only_at p s s1"
    and "state_at s p \<in> {None, Some PATTY_AX25_SOCK_PENDING_ACCEPT}" and "h_socks s1 p = Some k"
  shows "post (sabm_accept ip frame client local created p s1) (\<lambda>(r, s'). steps t s s')"
  using assms(1,3)
  by (intro post_mono [OF sabm_accept_to [OF assms(4)]])
    (auto simp: to_at_def conn_step.intros intro!: only_at_steps2 [OF assms(2)])

lemma reset_reply_steps:
  assumes "h_socks s p = Some k" and "same_conn k k'"
  shows "post (let s = s\<lparr>h_socks := (h_socks s)(p \<mapsto> k')\<rparr> in
    if f_pf frame = 1 then reply_ua ip frame 1 s else Some (0, s)) (\<lambda>(r, s'). steps t s s')"
proof -
  have "same_states s (s\<lparr>h_socks := (h_socks s)(p \<mapsto> k')\<rparr>)" by (rule put_states [OF assms])
  then have "post (reply_ua ip frame 1 (s\<lparr>h_socks := (h_socks s)(p \<mapsto> k')\<rparr>)) (\<lambda>(r, s'). same_states s s')"
    by (intro post_mono [OF replies_states(2)]) (auto intro: same_states_trans)
  with \<open>same_states s _\<close> show ?thesis by (auto simp: Let_def same_states_steps intro: states_steps)
qed

lemma handle_sabm_steps:
  assumes t: "t \<in> {PATTY_AX25_FRAME_SABM, PATTY_AX25_FRAME_SABME}" and "fresh s"
  shows "post (handle_sabm ip frame s) (\<lambda>(r, s'). steps t s s')"
proof -
  have old: "post (do { k \<leftarrow> h_socks s p;
                  case s_state k of
                    PATTY_AX25_SOCK_PENDING_ACCEPT \<Rightarrow> sabm_accept ip frame client local False p s
                  | PATTY_AX25_SOCK_ESTABLISHED \<Rightarrow>
                      do { k \<leftarrow> patty_ax25_sock_reset k;
                           let s = s\<lparr>h_socks := (h_socks s)(p \<mapsto> k)\<rparr>;
                           if f_pf frame = 1 then reply_ua ip frame 1 s else Some (0, s) }
                  | _ \<Rightarrow> reply_dm ip frame 1 s }) (\<lambda>(r, s'). steps t s s')" for p client local
    by (auto intro!: post_sockI post_resetI reset_reply_steps replies_states [THEN states_steps] split: sock_state.split)
      (auto intro!: sabm_accept_steps [OF t] simp: only_at_def state_at_def)
  have new: "post (sabm_accept ip frame client local True p (s1\<lparr>h_socks := (h_socks s1)(p \<mapsto> k)\<rparr>)) (\<lambda>(r, s'). steps t s s')"
    if "opens s (Some p) s1" for p k s1 client local
    using opens_at [OF that assms(2)] by (intro sabm_accept_steps [OF t]) (auto simp: only_at_def state_at_def)
  have listening: "post (do { (r, created, s) \<leftarrow>
                           (case sock_by_addrpair (sv_socks_remote s) (f_dest frame) (f_src frame) of
                              Some remote \<Rightarrow> Some (Some remote, False, s)
                            | None \<Rightarrow>
                                do { (p, s) \<leftarrow> new_sock (s_proto l) (s_type l) s;
                                     case p of
                                       None \<Rightarrow> Some (None, True, s)
                                     | Some p \<Rightarrow>
                                         do { k \<leftarrow> h_socks s p;
                                              k \<leftarrow> save_reply_addr (k\<lparr>s_state := PATTY_AX25_SOCK_PENDING_ACCEPT\<rparr>) frame;
                                              Some (Some p, True, s\<lparr>h_socks := (h_socks s)(p \<mapsto> k)\<rparr>) } });
                         case r of
                           None \<Rightarrow> Some (-1, s)
                         | Some remote \<Rightarrow>
                             do { k \<leftarrow> h_socks s remote;
                                  case s_state k of
                                    PATTY_AX25_SOCK_PENDING_ACCEPT \<Rightarrow> sabm_accept ip frame client local created remote s
                                  | PATTY_AX25_SOCK_ESTABLISHED \<Rightarrow>
                                      do { k \<leftarrow> patty_ax25_sock_reset k;
                                           let s = s\<lparr>h_socks := (h_socks s)(remote \<mapsto> k)\<rparr>;
                                           if f_pf frame = 1 then reply_ua ip frame 1 s else Some (0, s) }
                                  | _ \<Rightarrow> reply_dm ip frame 1 s } }) (\<lambda>(r, s'). steps t s s')" for l client local
  proof (cases "sock_by_addrpair (sv_socks_remote s) (f_dest frame) (f_src frame)")
    case (Some p)
    then show ?thesis using old by simp
  next
    case None
    show ?thesis unfolding None option.case
      by (auto intro!: post_bindI new same_states_steps same_socks_states dest!: postD [OF new_sock_opens]
            save_reply_state simp: opens_def [of s None] bind_eq_Some_conv split: option.splits sock_state.splits)
  qed
  have if_case: "post (if c then a else b) Q" if "post a Q" "post b Q" for c and a b :: "(int \<times> 'a server) option" and Q
    using that by simp
  show ?thesis
  proof (cases "sock_by_addr (sv_socks_local s) (f_dest frame)")
    case None
    then show ?thesis by (simp add: handle_sabm_def replies_states states_steps)
  next
    case (Some local)
    show ?thesis unfolding handle_sabm_def Some option.case Let_def
      by (rule post_sockI, rule if_case, rule replies_states [THEN states_steps], rule if_case,
          simp add: same_states_steps, rule listening [unfolded Let_def])
  qed
qed

lemma negotiate_values_conn: "same_conn k (negotiate_values k params)"
  by (simp add: negotiate_values_def Let_def same_conn_def)

lemma negotiate_hdlc_conn: "negotiate_hdlc k params = (r, k', params') \<Longrightarrow> same_conn k k'"
  by (auto simp: negotiate_hdlc_def Let_def same_conn_def split: if_splits)

lemma negotiate_conn: "patty_ax25_sock_params_negotiate k params = (r, k', params') \<Longrightarrow> same_conn k k'"
  by (auto simp: patty_ax25_sock_params_negotiate_def dest: negotiate_hdlc_conn
      intro: same_conn_trans [OF _ negotiate_values_conn] split: sum.splits prod.splits)

lemma xid_connect_to:
  assumes "state_at s p = Some PATTY_AX25_SOCK_PENDING_CONNECT"
  shows "post (xid_connect p params s)
    (\<lambda>(r, s'). to_at p {Some PATTY_AX25_SOCK_PENDING_CONNECT, Some PATTY_AX25_SOCK_CLOSED} s s')"
proof (unfold xid_connect_def, rule post_sockI)
  fix k assume k: "h_socks s p = Some k"
  obtain r k1 params1 where n: "patty_ax25_sock_params_negotiate k params = (r, k1, params1)" by (rule prod_cases3)
  have k1: "s_state k1 = PATTY_AX25_SOCK_PENDING_CONNECT"
    using negotiate_conn [OF n] k assms by (simp add: same_conn_def state_at_def)
  have at: "to_at p {Some PATTY_AX25_SOCK_PENDING_CONNECT} s (put_sock p k' s)" if "s_state k' = s_state k1" for k'
    using that k1 k by (simp add: to_at_def only_at_def state_at_def)
  show "post (case patty_ax25_sock_params_negotiate k params of
            (Inl e, k, params) \<Rightarrow>
              (let client = client_by_sock s k; s = set_errno e (put_sock p k s) in
               if client < 0 then Some (-1, s)
               else do { k \<leftarrow> patty_ax25_sock_reset (patty_ax25_sock_init k);
                         respond_connect client (-1) (errno_num (err (sv_world s))) (put_sock p k s) })
          | (Inr _, k, params) \<Rightarrow>
              (let k = (if HAS (p_hdlc params) PATTY_AX25_PARAM_HDLC_MODULO_128
                        then k\<lparr>s_mode := PATTY_AX25_SOCK_SABME\<rparr> else k) in
               do { (ret, s) \<leftarrow> on_link p (patty_ax25_sock_send_sabm 1) (put_sock p k s);
                    s \<leftarrow> upd_sock p (\<lambda>k. k\<lparr>s_timer_t1 := patty_timer_start (s_timer_t1 k), s_retries := s_n_retry k\<rparr>) s;
                    Some (ret, s) }))
      (\<lambda>(r, s'). to_at p {Some PATTY_AX25_SOCK_PENDING_CONNECT, Some PATTY_AX25_SOCK_CLOSED} s s')"
  proof (cases r)
    case (Inl e)
    have refused: "post (respond_connect c (-1) x (put_sock p k2 (set_errno e (put_sock p k1 s))))
        (\<lambda>(r, s'). to_at p {Some PATTY_AX25_SOCK_PENDING_CONNECT, Some PATTY_AX25_SOCK_CLOSED} s s')"
      if "same_conn (patty_ax25_sock_init k1) k2" for c x k2
      using that k by (intro to_at_then [OF _ responds_socks(3) [THEN socks_states]])
        (auto simp: to_at_def only_at_def state_at_def same_conn_def patty_ax25_sock_init_def
          intro!: bounded_upd(2) [where s = "set_errno _ _" and k = k1])
    show ?thesis
      using k by (auto simp: n Inl Let_def intro!: post_resetI refused) (auto simp: to_at_def only_at_def state_at_def k1)
  next
    case (Inr u)
    define k2 where "k2 = (if HAS (p_hdlc params1) PATTY_AX25_PARAM_HDLC_MODULO_128
                        then k1\<lparr>s_mode := PATTY_AX25_SOCK_SABME\<rparr> else k1)"
    have "to_at p {Some PATTY_AX25_SOCK_PENDING_CONNECT} s (put_sock p k2 s)" by (rule at) (simp add: k2_def)
    note sent = to_at_then [OF this on_link_states [OF links_keep(5)]]
    have "post (do { (ret, s) \<leftarrow> on_link p (patty_ax25_sock_send_sabm 1) (put_sock p k2 s);
                    s \<leftarrow> upd_sock p (\<lambda>k. k\<lparr>s_timer_t1 := patty_timer_start (s_timer_t1 k), s_retries := s_n_retry k\<rparr>) s;
                    Some (ret, s) })
        (\<lambda>(r, s'). to_at p {Some PATTY_AX25_SOCK_PENDING_CONNECT, Some PATTY_AX25_SOCK_CLOSED} s s')"
      by (rule post_bind_mono [OF sent], clarify, rule post_bind_mono [OF to_at_then1 [OF _ upd_sock_states]])
        (auto intro: to_at_mono)
    then show ?thesis by (simp add: n Inr Let_def k2_def [symmetric])
  qed
qed

text \<open>A new socket that an XID opens; behind its creation.\<close>

lemma xid_accept_tail:
  assumes s1: "to_at p {Some PATTY_AX25_SOCK_PENDING_ACCEPT} s s1"
  defines "fail \<equiv> (\<lambda>s. do { s \<leftarrow> sock_destroy p s; Some (-1, s) })"
  shows "post (do { (r, s) \<leftarrow> bind_if p ip s1;
                         k \<leftarrow> h_socks s p;
                         case patty_ax25_sock_params_negotiate (patty_ax25_sock_params_max k) params of
                           (Inl e, k, params) \<Rightarrow> fail (set_errno e (put_sock p k s))
                         | (Inr _, k, params) \<Rightarrow>
                             do { k \<leftarrow> save_reply_addr k frame;
                                  (r, s) \<leftarrow> sock_save client p (put_sock p k s);
                                  if r < 0 then fail s
                                  else do { (ret, s) \<leftarrow> on_link p (patty_ax25_sock_send_xid PATTY_AX25_FRAME_RESPONSE) s;
                                            s \<leftarrow> upd_sock p (\<lambda>k. k\<lparr>s_timer_t1 := patty_timer_start (s_timer_t1 k),
                                                   s_retries := s_n_retry k\<rparr>) s;
                                            Some (ret, s) } } })
    (\<lambda>(r, s'). to_at p {None, Some PATTY_AX25_SOCK_PENDING_ACCEPT} s s')" (is "post _ ?Q")
proof -
  let ?T = "to_at p {Some PATTY_AX25_SOCK_PENDING_ACCEPT} s"
  have destroyed: "post (fail s2) ?Q" if "?T s2" for s2
    unfolding fail_def by (rule post_mono [OF to_at_destroy [OF that]]) (auto intro: to_at_mono)
  have put: "?T (put_sock p k' s2)" "?T (set_errno e (put_sock p k' s2))"
    if "?T s2" "s_state k' = PATTY_AX25_SOCK_PENDING_ACCEPT" for s2 k' e
    using that by (auto simp: to_at_def only_at_def state_at_def)
  have sent: "post (do { (ret, s) \<leftarrow> on_link p (patty_ax25_sock_send_xid PATTY_AX25_FRAME_RESPONSE) s2;
      s \<leftarrow> upd_sock p (\<lambda>k. k\<lparr>s_timer_t1 := patty_timer_start (s_timer_t1 k), s_retries := s_n_retry k\<rparr>) s;
      Some (ret, s) }) ?Q" if "?T s2" for s2
    by (rule post_bind_mono [OF to_at_then [OF that on_link_states [OF xid_keeps]]], clarify,
        rule post_bind_mono [OF to_at_then1 [OF _ upd_sock_states]]) (auto intro: to_at_mono)
  have saved: "post (do { (r, s) \<leftarrow> sock_save client p s2;
      if r < 0 then fail s
      else do { (ret, s) \<leftarrow> on_link p (patty_ax25_sock_send_xid PATTY_AX25_FRAME_RESPONSE) s;
                s \<leftarrow> upd_sock p (\<lambda>k. k\<lparr>s_timer_t1 := patty_timer_start (s_timer_t1 k), s_retries := s_n_retry k\<rparr>) s;
                Some (ret, s) } }) ?Q" if "?T s2" for s2
    by (rule post_bind_mono [OF to_at_then [OF that sock_save_socks [THEN socks_states]]])
      (auto intro: destroyed sent)
  have negotiated: "s_state k' = PATTY_AX25_SOCK_PENDING_ACCEPT"
    if "?T s2" "h_socks s2 p = Some k" "patty_ax25_sock_params_negotiate (patty_ax25_sock_params_max k) params = (r, k', params')"
    for s2 k r k' params'
    using that negotiate_conn [OF that(3)]
    by (simp add: to_at_def state_at_def same_conn_def patty_ax25_sock_params_max_def)
  show ?thesis
    by (rule post_bind_mono [OF to_at_then [OF s1 bind_if_states]])
      (auto intro!: post_sockI destroyed saved put post_bindI [where m = "save_reply_addr _ _"]
        dest!: save_reply_state split: prod.split sum.split; erule (2) negotiated)
qed

lemma xid_accept_steps:
  assumes "fresh s"
  shows "post (xid_accept ip frame l params s) (\<lambda>(r, s'). steps PATTY_AX25_FRAME_XID s s')"
proof -
  have made: "post (let fail = (\<lambda>s. do { s \<leftarrow> sock_destroy p s; Some (-1, s) }) in
                    do { s \<leftarrow> upd_sock p (\<lambda>k. k\<lparr>s_state := PATTY_AX25_SOCK_PENDING_ACCEPT,
                                s_mode := (if HAS (p_hdlc params) PATTY_AX25_PARAM_HDLC_MODULO_128
                                           then PATTY_AX25_SOCK_SABME else s_mode k)\<rparr>) s1;
                         (r, s) \<leftarrow> bind_if p ip s;
                         k \<leftarrow> h_socks s p;
                         case patty_ax25_sock_params_negotiate (patty_ax25_sock_params_max k) params of
                           (Inl e, k, params) \<Rightarrow> fail (set_errno e (put_sock p k s))
                         | (Inr _, k, params) \<Rightarrow>
                             do { k \<leftarrow> save_reply_addr k frame;
                                  (r, s) \<leftarrow> sock_save client p (put_sock p k s);
                                  if r < 0 then fail s
                                  else do { (ret, s) \<leftarrow> on_link p (patty_ax25_sock_send_xid PATTY_AX25_FRAME_RESPONSE) s;
                                            s \<leftarrow> upd_sock p (\<lambda>k. k\<lparr>s_timer_t1 := patty_timer_start (s_timer_t1 k),
                                                   s_retries := s_n_retry k\<rparr>) s;
                                            Some (ret, s) } } })
      (\<lambda>(r, s'). steps PATTY_AX25_FRAME_XID s s')"
    if p: "opens s (Some p) s1" for p s1 client
    unfolding Let_def
  proof (rule post_bind_mono [OF upd_state_to], elim exE conjE, rule post_mono [OF xid_accept_tail])
    note at = opens_at [OF p assms]
    fix s2 k assume "to_at p {Some (s_state (k\<lparr>s_state := PATTY_AX25_SOCK_PENDING_ACCEPT,
        s_mode := (if HAS (p_hdlc params) PATTY_AX25_PARAM_HDLC_MODULO_128 then PATTY_AX25_SOCK_SABME else s_mode k)\<rparr>))} s1 s2"
    then show "to_at p {Some PATTY_AX25_SOCK_PENDING_ACCEPT} s s2"
      using at(2) by (auto simp: to_at_def intro: only_at_trans)
  next
    fix x :: "int \<times> 'a server"
    assume "case x of (r, s') \<Rightarrow> to_at p {None, Some PATTY_AX25_SOCK_PENDING_ACCEPT} s s'"
    then show "case x of (r, s') \<Rightarrow> steps PATTY_AX25_FRAME_XID s s'"
      using opens_at(3) [OF p assms] by (auto intro!: to_at_steps simp: conn_step.intros)
  qed
  have none: "same_states s s1" if "opens s None s1" for s1
    using that by (simp add: opens_def same_socks_states)
  show ?thesis
    unfolding xid_accept_def
    by (auto simp: Let_def same_states_steps none intro!: post_bind_mono [OF new_sock_opens] made [unfolded Let_def]
        split: option.split)
qed

lemma handle_xid_steps:
  assumes "fresh s"
  shows "post (handle_xid ip frame buf off len s) (\<lambda>(r, s'). steps PATTY_AX25_FRAME_XID s s')"
proof -
  have "post (xid_connect p params s) (\<lambda>(r, s'). steps PATTY_AX25_FRAME_XID s s')"
    if "h_socks s p = Some k" "s_state k = PATTY_AX25_SOCK_PENDING_CONNECT" for p params k
    using that by (intro post_mono [OF xid_connect_to])
      (auto intro!: to_at_steps simp: state_at_def conn_step.intros)
  then show ?thesis unfolding handle_xid_def
    by (auto intro!: post_sockI post_bindI [where m = "addr_match _ _ _"] post_bindI [where m = "patty_ax25_frame_decode_xid _ _ _ _"]
        same_states_steps replies_states [THEN states_steps] xid_accept_steps [OF assms] split: sum.split option.split)
qed

section \<open>What frames can do\<close>

inductive_cases conn_step_idle [elim!]:
  "conn_step t (Some PATTY_AX25_SOCK_CLOSED) st" "conn_step t (Some PATTY_AX25_SOCK_LISTENING) st"

inductive_cases conn_step_asked [elim!]:
  "conn_step t st (Some PATTY_AX25_SOCK_LISTENING)" "conn_step t st (Some PATTY_AX25_SOCK_PENDING_CONNECT)"
  "conn_step t st (Some PATTY_AX25_SOCK_PENDING_DISCONNECT)"

inductive_simps conn_step_gone: "conn_step t (Some st) None"

lemma dispatch_steps:
  assumes "fresh s" shows "post (dispatch ip sock frame buf off len s) (\<lambda>(r, s'). steps (f_type frame) s s')"
proof -
  note data = handle_i_states handle_ui_states addr_match_test handle_frmr_states handle_srej_states
    supervisory_states [where flow = sock_flow_start, OF sock_flow_states(1)]
    supervisory_states [where flow = sock_flow_stop, OF sock_flow_states(2)]
  show ?thesis
    unfolding dispatch_def Let_def handle_rr_def handle_rnr_def handle_rej_def
    using handle_xid_steps [OF assms] handle_sabm_steps [OF _ assms] handle_ua_steps handle_dm_steps handle_disc_steps
    by (intro post_ifI) (auto intro: data [THEN states_steps] simp: same_states_steps)
qed

lemma bounded_fresh: "bounded s \<Longrightarrow> fresh s"
  by (simp add: bounded_def fresh_def state_at_def)

text \<open>An established connection ends with a DISC.\<close>

lemma established_ends:
  assumes "fresh s" and "dispatch ip sock frame buf off len s = Some (r, s')"
    and "state_at s q = Some PATTY_AX25_SOCK_ESTABLISHED" and "state_at s' q = None"
  shows "f_type frame = PATTY_AX25_FRAME_DISC"
proof -
  have "conn_step (f_type frame) (state_at s q) (state_at s' q)"
    using postD [OF dispatch_steps [OF assms(1)] assms(2)] by (simp add: steps_def)
  then show ?thesis unfolding assms(3,4) by (simp add: conn_step_gone)
qed

text \<open>A frame whose bytes cannot be decoded is dropped; any other is dispatched.\<close>

lemma drop_frame_states: "post (drop_frame ip s) (\<lambda>(r, s'). same_states s s')"
  by (auto simp: drop_frame_def same_states_def state_at_def intro!: post_bindI)

lemma handle_frame_steps:
  assumes "bounded s" shows "post (handle_frame ip buf len s) (\<lambda>(r, s'). \<exists>t. steps t s s')"
proof -
  have drop: "post (drop_frame ip s1) (\<lambda>(r, s'). \<exists>t. steps t s s')" if "same_states s s1" for s1
    by (rule post_mono [OF drop_frame_states]) (auto intro: same_states_steps same_states_trans [OF that])
  have go: "post (dispatch ip sock frame buf off len s) (\<lambda>(r, s'). \<exists>t. steps t s s')" for sock frame off
    by (rule post_mono [OF dispatch_steps [OF bounded_fresh [OF assms]]]) auto
  show ?thesis
    unfolding handle_frame_def Let_def
    by (auto intro!: post_bindI drop go split: sum.split)
qed

text \<open>Any number of frames, from any interfaces, and whatever else leaves the states alone in between.\<close>

inductive hears :: "'p server \<Rightarrow> 'p server \<Rightarrow> bool" where
  silence: "hears s s"
| frame: "hears s s1 \<Longrightarrow> handle_frame ip buf len s1 = Some (r, s2) \<Longrightarrow> hears s s2"
| other: "hears s s1 \<Longrightarrow> same_states s1 s2 \<Longrightarrow> hears s s2"

lemma hears_trans: "hears s1 s2 \<Longrightarrow> hears s s1 \<Longrightarrow> hears s s2"
  by (induction rule: hears.induct) (auto intro: hears.intros)

lemma hears_same: "same_states s s' \<Longrightarrow> hears s s'"
  by (rule hears.other [OF hears.silence])

lemma hears_frame: "handle_frame ip buf len s = Some (r, s') \<Longrightarrow> hears s s'"
  by (rule hears.frame [OF hears.silence])

lemma hears_bounded: "hears s s' \<Longrightarrow> bounded s \<Longrightarrow> bounded s'"
proof (induction rule: hears.induct)
  case (frame s s1 ip buf len r s2)
  then have "bounded s1" by blast
  with postD [OF handle_frame_steps frame.hyps(2)] show ?case by (auto simp: steps_def)
qed (auto dest: bounded_same)

lemma hears_idle:
  assumes "hears s s'" and "bounded s" and "state_at s p \<in> {Some PATTY_AX25_SOCK_CLOSED, Some PATTY_AX25_SOCK_LISTENING}"
  shows "state_at s' p = state_at s p"
  using assms
proof (induction rule: hears.induct)
  case (frame s s1 ip buf len r s2)
  from postD [OF handle_frame_steps [OF hears_bounded [OF frame.hyps(1) frame.prems(1)]] frame.hyps(2)]
  obtain t where "conn_step t (state_at s1 p) (state_at s2 p)" by (auto simp: steps_def)
  with frame.IH frame.prems show ?case by auto
qed (simp_all add: same_states_def)

lemma hears_asked:
  assumes "hears s s'" and "bounded s"
    and "state_at s' p \<in> {Some PATTY_AX25_SOCK_LISTENING, Some PATTY_AX25_SOCK_PENDING_CONNECT,
      Some PATTY_AX25_SOCK_PENDING_DISCONNECT}"
  shows "state_at s p = state_at s' p"
  using assms
proof (induction rule: hears.induct)
  case (frame s s1 ip buf len r s2)
  from postD [OF handle_frame_steps [OF hears_bounded [OF frame.hyps(1) frame.prems(1)]] frame.hyps(2)]
  obtain t where "conn_step t (state_at s1 p) (state_at s2 p)" by (auto simp: steps_def)
  with frame.IH frame.prems show ?case by auto
qed (simp_all add: same_states_def)

text \<open>Serving the interfaces is hearing frames.\<close>

lemma same_states_upd [simp]:
  "same_states s (s'\<lparr>h_ifaces := is\<rparr>) = same_states s s'" "same_states (s\<lparr>h_ifaces := is\<rparr>) s' = same_states s s'"
  "same_states s (s'\<lparr>sv_world := w\<rparr>) = same_states s s'" "same_states (s\<lparr>sv_world := w\<rparr>) s' = same_states s s'"
  "same_states s (s'\<lparr>h_entries := es\<rparr>) = same_states s s'" "same_states (s\<lparr>h_entries := es\<rparr>) s' = same_states s s'"
  "same_states (snd (on_world f s)) s' = same_states s s'"
  by (simp_all add: same_states_def state_at_def)

lemma hears_after:
  "hears (s\<lparr>h_ifaces := is, sv_world := w\<rparr>) s' \<Longrightarrow> hears s s'" "hears (s\<lparr>h_ifaces := is\<rparr>) s' \<Longrightarrow> hears s s'"
  by (erule hears_trans, simp add: hears_same)+

lemma iface_frames_hears:
  assumes "iface_frames ip s = Some y" shows "hears s (snd y)"
proof (rule iface_frames.raw_induct [of "\<lambda>_ s y. hears s (snd y)", OF _ assms], goal_cases)
  case (1 rec s y ip)
  show ?case
    using "1"(2)
    by (auto simp: Let_def hears_same split: sum.splits if_splits elim!: bind_SomeE dest!: hears_frame hears_after)
      (metis "1"(1) hears_trans snd_conv)
qed

lemma reset_same:
  "fd_watch fd s = Some s' \<Longrightarrow> same_states s s'" "fd_clear fd s = Some s' \<Longrightarrow> same_states s s'"
  using postD [OF fd_watch_socks(1)] postD [OF fd_watch_socks(2)] same_socks_states by blast+

lemma hears_first: "same_states s s1 \<Longrightarrow> hears s1 s' \<Longrightarrow> hears s s'"
  by (rule hears_trans [OF _ hears_same])

lemma handle_iface_hears: "handle_iface ep s = Some (r, s') \<Longrightarrow> hears s s'"
  unfolding handle_iface_def Let_def
  by (auto simp: hears_same split: if_splits prod.splits elim!: bind_SomeE dest!: reset_same iface_frames_hears hears_after)
    (blast intro: hears_first)

lemma handle_entries_hears: "handle_entries eps s = Some (r, s') \<Longrightarrow> hears s s'"
proof (induction eps arbitrary: s)
  case (Cons ep eps)
  then show ?case
    by (auto simp: hears_same split: if_splits elim!: bind_SomeE dest!: reset_same handle_iface_hears)
      (blast intro: hears_first hears_trans)+
qed (simp add: hears.silence)

lemma handle_ifaces_hears: "handle_ifaces s = Some (r, s') \<Longrightarrow> hears s s'"
  by (auto simp: handle_ifaces_def elim!: bind_SomeE dest: handle_entries_hears)

section \<open>Properties\<close>

text \<open>
  C1: The server refines the state machine of connections. Whatever frame an interface delivers to the
  server, and for every one of its sockets, the state changes at most as the abstract machine
  allows it for frames of that type: only a SABM, SABME or UA establishes a connection, only a
  UA, DM or DISC (or a failing SABM) ends one, and frames that carry or supervise data never change any state.
\<close>
theorem dispatch_refines:
  assumes "fresh s" and "dispatch ip sock frame buf off len s = Some (r, s')"
  shows "conn_step (f_type frame) (state_at s q) (state_at s' q)"
  using postD [OF dispatch_steps [OF assms(1)] assms(2)] by (simp add: steps_def)

text \<open>A server with one socket, and an environment that gives nothing away.\<close>

definition one_sock :: "env \<Rightarrow> sock \<Rightarrow> tnc server" where
  "one_sock ev k = (server_zero ev (world0 []))\<lparr>h_socks := [1 \<mapsto> k], h_next := 2\<rparr>"

lemma one_sock_simps [simp]: "h_socks (one_sock ev k) = [1 \<mapsto> k]" "h_next (one_sock ev k) = 2" "fresh (one_sock ev k)"
  by (simp_all add: one_sock_def fresh_def)

lemma dispatch_refines_witness:
  "\<forall>ev. \<exists>s'. dispatch 1 (Some 1) (frame_zero\<lparr>f_type := PATTY_AX25_FRAME_FRMR\<rparr>) [] 0 0
      (one_sock ev (sock_zero\<lparr>s_state := PATTY_AX25_SOCK_LISTENING\<rparr>)) = Some (0, s')
    \<and> conn_step PATTY_AX25_FRAME_FRMR (Some PATTY_AX25_SOCK_LISTENING) (state_at s' 1)"
proof
  fix ev
  let ?s = "one_sock ev (sock_zero\<lparr>s_state := PATTY_AX25_SOCK_LISTENING\<rparr>)"
  have d: "dispatch 1 (Some 1) (frame_zero\<lparr>f_type := PATTY_AX25_FRAME_FRMR\<rparr>) [] 0 0 ?s = Some (0, ?s)"
    by (simp add: dispatch_def handle_frmr_def PATTY_AX25_FRAME_I_def PATTY_AX25_FRAME_UI_def PATTY_AX25_FRAME_RR_def
        PATTY_AX25_FRAME_RNR_def PATTY_AX25_FRAME_REJ_def PATTY_AX25_FRAME_SREJ_def PATTY_AX25_FRAME_XID_def
        PATTY_AX25_FRAME_SABM_def PATTY_AX25_FRAME_SABME_def PATTY_AX25_FRAME_TEST_def PATTY_AX25_FRAME_UA_def
        PATTY_AX25_FRAME_DM_def PATTY_AX25_FRAME_DISC_def PATTY_AX25_FRAME_FRMR_def)
  from dispatch_refines [OF _ d, of 1] d show "\<exists>s'. dispatch 1 (Some 1) (frame_zero\<lparr>f_type := PATTY_AX25_FRAME_FRMR\<rparr>) [] 0 0 ?s
      = Some (0, s') \<and> conn_step PATTY_AX25_FRAME_FRMR (Some PATTY_AX25_SOCK_LISTENING) (state_at s' 1)"
    by (simp add: state_at_def)
qed

text \<open>
  C3: Frames cannot do what only clients may. When an event serves the interfaces, whatever and
  however many frames they hold, a closed socket stays in the closed and a listening one in the
  listening state (its timers, slots and place in the watch set may change), no socket gets into
  the state of listening, connecting or disconnecting that was not in it before, and the addresses
  not yet given out still hold no socket.
\<close>
theorem frames_cannot_act:
  assumes "handle_ifaces s = Some (r, s')" and "bounded s"
  shows "bounded s'
    \<and> (state_at s p \<in> {Some PATTY_AX25_SOCK_CLOSED, Some PATTY_AX25_SOCK_LISTENING} \<longrightarrow> state_at s' p = state_at s p)
    \<and> (state_at s' p \<in> {Some PATTY_AX25_SOCK_LISTENING, Some PATTY_AX25_SOCK_PENDING_CONNECT,
        Some PATTY_AX25_SOCK_PENDING_DISCONNECT} \<longrightarrow> state_at s p = state_at s' p)"
  using assms(2) handle_ifaces_hears [OF assms(1)] hears_bounded hears_idle hears_asked by blast

text \<open>One listening socket, and one interface whose device is ready and has nothing more to say.\<close>

definition one_iface :: "env \<Rightarrow> tnc server" where
  "one_iface ev = (one_sock ev (sock_zero\<lparr>s_state := PATTY_AX25_SOCK_LISTENING\<rparr>))
     \<lparr>h_ifaces := [1 \<mapsto> (kiss_iface 3)\<lparr>if_state := PATTY_AX25_IF_UP\<rparr>], h_entries := [2 \<mapsto> \<lparr>en_fd = 3, en_name = [], en_iface = 1\<rparr>],
      sv_ifaces := patty_list_new\<lparr>ll_items := [3 \<mapsto> \<lparr>it_prev = 0, it_next = 0, it_value = 2\<rparr>], ll_first := 3, ll_last := 3,
        ll_length := 1\<rparr>, sv_fds_r := (\<lambda>fd. fd = 3)\<rparr>"

lemma frames_cannot_act_witness:
  "\<forall>ev. \<exists>s'. handle_ifaces (one_iface ev) = Some (0, s') \<and> state_at s' 1 = Some PATTY_AX25_SOCK_LISTENING"
proof
  fix ev
  obtain s' where s': "handle_ifaces (one_iface ev) = Some (0, s')"
    by (simp add: handle_ifaces_def one_iface_def patty_list_values_def each_item.simps handle_iface_def
        patty_ax25_if_ready_def patty_kiss_tnc_driver_def patty_kiss_tnc_ready_def tnc_fields_def patty_ax25_if_fill_def
        patty_kiss_tnc_fill_def sys_read_def one_sock_def server_zero_def world0_def Let_def fd_clear_def fd_ok_def FD_SETSIZE_def)
  have "bounded (one_iface ev)" and st: "state_at (one_iface ev) 1 = Some PATTY_AX25_SOCK_LISTENING"
    by (simp_all add: bounded_def state_at_def one_iface_def)
  from frames_cannot_act [OF s' this(1), of 1] have "state_at s' 1 = Some PATTY_AX25_SOCK_LISTENING"
    unfolding st by blast
  with s' show "\<exists>s'. handle_ifaces (one_iface ev) = Some (0, s') \<and> state_at s' 1 = Some PATTY_AX25_SOCK_LISTENING"
    by blast
qed

end
