(* ===== verification/Patty_Registry.thy ===== *)
theory Patty_Registry
  imports Patty_Machine
begin

text \<open>
  The registers of the server: the dictionaries under which a socket is kept (by descriptor, by
  client, by address) and the watched descriptors. Saving a socket enters it into all of them and
  closing takes it out again, but only under its current address: what was entered under an
  earlier address stays behind and leads to a freed socket.
\<close>

section \<open>Saving\<close>

lemma dict_store_ok:
  assumes "dict_store d key (Some v) w = (ok, d', w')" and "dict_ok d"
  shows "dict_ok d' \<and> patty_dict_get d' = (if ok then (patty_dict_get d)(key \<mapsto> v) else patty_dict_get d)"
proof -
  obtain r w1 x e where c: "sys_call w = (r, w1)" and e: "patty_dict_set (r \<ge> 0) d key (Some v) = (x, e)"
    by (cases "sys_call w"; cases "patty_dict_set (fst (sys_call w) \<ge> 0) d key (Some v)") auto
  then have d': "ok = (x \<noteq> None)" "d' = snd (patty_dict_set (r \<ge> 0) d key (Some v))"
    "x = fst (patty_dict_set (r \<ge> 0) d key (Some v))"
    using assms(1) by (simp_all add: dict_store_def)
  then show ?thesis
    using dict.store_update [OF assms(2), of "r \<ge> 0" key v] dict.store_unchanged [OF assms(2), of "r \<ge> 0" key v] assms(2)
    by (cases x) auto
qed

lemma by_addr_eq:
  "sock_by_addr d a = patty_dict_get d (hash_addr a)" "sock_by_addrpair d a b = patty_dict_get d (hash_addrpair a b)"
  by (simp_all add: sock_by_addr_def sock_by_addrpair_def hash_addr_def hash_addrpair_def)

text \<open>The key under which a socket is found by address in its state.\<close>

definition addr_entry :: "'p server \<Rightarrow> sock \<Rightarrow> nat option" where
  "addr_entry s k =
     (case s_state k of
        PATTY_AX25_SOCK_LISTENING \<Rightarrow> sock_by_addr (sv_socks_local s) (s_local k)
      | PATTY_AX25_SOCK_CLOSED \<Rightarrow> None
      | PATTY_AX25_SOCK_PROMISC \<Rightarrow> None
      | _ \<Rightarrow> sock_by_addrpair (sv_socks_remote s) (s_local k) (s_remote k))"

lemma addr_entry_cong:
  "sv_socks_local s' = sv_socks_local s \<Longrightarrow> sv_socks_remote s' = sv_socks_remote s \<Longrightarrow> addr_entry s' k = addr_entry s k"
  by (simp add: addr_entry_def split: sock_state.split)

definition has_address :: "sock \<Rightarrow> bool" where
  "has_address k \<longleftrightarrow> s_state k \<notin> {PATTY_AX25_SOCK_CLOSED, PATTY_AX25_SOCK_PROMISC}"

text \<open>The socket at \<open>p\<close> belongs to the client \<open>c\<close> and stands in every register.\<close>

definition registered :: "int \<Rightarrow> nat \<Rightarrow> 'p server \<Rightarrow> bool" where
  "registered c p s \<longleftrightarrow> 0 \<le> c \<and> (\<exists>k q socks. h_socks s p = Some k \<and> fd_ok (s_fd k) \<and> client_by_sock s k = c
     \<and> patty_dict_get (sv_socks_by_client s) (word_of_int c) = Some q \<and> h_dicts s q = Some socks
     \<and> sock_by_fd socks (s_fd k) = Some p \<and> sock_by_fd (sv_socks_by_fd s) (s_fd k) = Some p
     \<and> (has_address k \<longrightarrow> addr_entry s k = Some p))"

definition dicts_ok :: "'p server \<Rightarrow> bool" where
  "dicts_ok s \<longleftrightarrow> dict_ok (sv_socks_by_fd s) \<and> dict_ok (sv_socks_local s) \<and> dict_ok (sv_socks_remote s)
     \<and> dict_ok (sv_clients_by_sock s) \<and> (\<forall>q d. h_dicts s q = Some d \<longrightarrow> dict_ok d)"

text \<open>What entering the address does.\<close>

definition save_addr :: "nat \<Rightarrow> sock \<Rightarrow> 'p server \<Rightarrow> int \<times> 'p server" where
  "save_addr p k s = (case s_state k of
      PATTY_AX25_SOCK_LISTENING \<Rightarrow> sock_save_local p k s
    | PATTY_AX25_SOCK_PENDING_ACCEPT \<Rightarrow> sock_save_remote p k s
    | PATTY_AX25_SOCK_PENDING_CONNECT \<Rightarrow> sock_save_remote p k s
    | PATTY_AX25_SOCK_ESTABLISHED \<Rightarrow> sock_save_remote p k s
    | _ \<Rightarrow> (0, s))"

lemma save_addr_ok:
  assumes "save_addr p k s = (r, s1)" and "dicts_ok s" and "0 \<le> r"
    and "s_state k \<noteq> PATTY_AX25_SOCK_PENDING_DISCONNECT"
  shows "dicts_ok s1" "has_address k \<Longrightarrow> addr_entry s1 k = Some p"
    "h_socks s1 = h_socks s" "h_dicts s1 = h_dicts s" "sv_socks_by_client s1 = sv_socks_by_client s"
  using assms
  by (auto simp: save_addr_def sock_save_local_def sock_save_remote_def dicts_ok_def addr_entry_def has_address_def
      sock_by_addr_def sock_by_addrpair_def hash_addr_def hash_addrpair_def
      dest!: dict_store_ok split: sock_state.splits prod.splits if_splits)

lemma save_by_fd_ok:
  assumes "sock_save_by_fd d p k w = (r, d', w')" and "dict_ok d" and "0 \<le> s_fd k"
  shows "dict_ok d'" "0 \<le> r \<longleftrightarrow> r = s_fd k" "0 \<le> r \<Longrightarrow> sock_by_fd d' (s_fd k) = Some p"
    "key \<noteq> word_of_int (s_fd k) \<Longrightarrow> patty_dict_get d' key = patty_dict_get d key"
  using assms by (auto simp: sock_save_by_fd_def sock_by_fd_def dest!: dict_store_ok split: prod.splits if_splits)

lemma client_save_ok:
  assumes "client_save_by_sock c k s = (r, s1)" and "dicts_ok s" and "0 \<le> r" and "0 < c"
  shows "dicts_ok s1" "client_by_sock s1 k = c"
    "h_socks s1 = h_socks s" "h_dicts s1 = h_dicts s" "sv_socks_by_client s1 = sv_socks_by_client s"
    "addr_entry s1 k = addr_entry s k"
  using assms by (auto simp: client_save_by_sock_def client_by_sock_def dicts_ok_def int_ptr_def
      intro!: addr_entry_cong
      dest!: dict_store_ok split: prod.splits if_splits)

lemma sock_save_steps:
  "sock_save c p s = do { k \<leftarrow> h_socks s p;
     case save_addr p k s of (r, s) \<Rightarrow>
     if r < 0 then Some (-1, s)
     else case client_save_by_sock c k s of (r, s) \<Rightarrow>
     if r < 0 then Some (-1, s)
     else case patty_dict_get (sv_socks_by_client s) (word_of_int c) of
       None \<Rightarrow> Some (-1, s)
     | Some q \<Rightarrow>
         do { socks \<leftarrow> h_dicts s q;
              case sock_save_by_fd socks p k (sv_world s) of (r, socks, w) \<Rightarrow>
              let s = s\<lparr>h_dicts := (h_dicts s)(q \<mapsto> socks), sv_world := w\<rparr> in
              if r < 0 then Some (-1, s)
              else case sock_save_by_fd (sv_socks_by_fd s) p k (sv_world s) of (r, d, w) \<Rightarrow>
              Some (r, s\<lparr>sv_socks_by_fd := d, sv_world := w\<rparr>) } }"
  by (simp add: sock_save_def save_addr_def Let_def cong: sock_state.case_cong)

text \<open>
  C20: Saving a socket registers it. When the server saves a socket for a client without failure,
  the socket is found by its descriptor, its client, and the address its state calls for.
\<close>
theorem sock_save_registers:
  assumes "sock_save c p s = Some (r, s')" and "0 \<le> r" and "dicts_ok s" and "0 < c"
    and "h_socks s p = Some k" and "fd_ok (s_fd k)" and "s_state k \<noteq> PATTY_AX25_SOCK_PENDING_DISCONNECT"
  shows "registered c p s' \<and> dicts_ok s' \<and> r = s_fd k"
proof -
  have fd: "0 \<le> s_fd k" using assms(6) by (simp add: fd_ok_def)
  obtain r1 s1 where 1: "save_addr p k s = (r1, s1)" by (cases "save_addr p k s")
  obtain r2 s2 where 2: "client_save_by_sock c k s1 = (r2, s2)" by (cases "client_save_by_sock c k s1")
  have r: "0 \<le> r1" "0 \<le> r2" using assms(1,2,5) 1 2 by (auto simp: sock_save_steps split: if_splits)
  note a = save_addr_ok [OF 1 assms(3) r(1) assms(7)]
  note b = client_save_ok [OF 2 a(1) r(2) assms(4)]
  obtain q socks where q: "patty_dict_get (sv_socks_by_client s2) (word_of_int c) = Some q" "h_dicts s2 q = Some socks"
    using assms(1,2,5) 1 2 r by (auto simp: sock_save_steps bind_eq_Some_conv split: option.splits)
  obtain r3 socks' w3 where 3: "sock_save_by_fd socks p k (sv_world s2) = (r3, socks', w3)"
    by (rule prod_cases3)
  obtain r4 d w4 where 4: "sock_save_by_fd (sv_socks_by_fd s2) p k w3 = (r4, d, w4)"
    by (rule prod_cases3)
  have "(if r3 < 0 then Some (-1, s2\<lparr>h_dicts := (h_dicts s2)(q \<mapsto> socks'), sv_world := w3\<rparr>)
      else Some (r4, s2\<lparr>h_dicts := (h_dicts s2)(q \<mapsto> socks'), sv_socks_by_fd := d, sv_world := w4\<rparr>)) = Some (r, s')"
    using assms(1) r by (cases "r3 < 0") (simp_all add: sock_save_steps assms(5) 1 2 q 3 4 Let_def)
  then have s': "r3 \<ge> 0" "r = r4" "s' = s2\<lparr>h_dicts := (h_dicts s2)(q \<mapsto> socks'), sv_socks_by_fd := d, sv_world := w4\<rparr>"
    using assms(2) by (simp_all split: if_splits)
  have ok: "dict_ok socks" "dict_ok (sv_socks_by_fd s2)" using b(1) q(2) by (auto simp: dicts_ok_def)
  note c = save_by_fd_ok [OF 3 ok(1) fd] and d = save_by_fd_ok [OF 4 ok(2) fd]
  have "client_by_sock s' k = c" using b(2) by (simp add: s'(3) client_by_sock_def)
  moreover have "addr_entry s' k = addr_entry s2 k" by (rule addr_entry_cong) (simp_all add: s'(3))
  moreover have "dicts_ok s'" using b(1) c(1) d(1) by (simp add: s'(3) dicts_ok_def)
  moreover have "0 \<le> r4" using s' assms(2) by simp
  ultimately show ?thesis
    using assms(4-6) a b c(3) d(2,3) s' q by (auto simp: registered_def)
qed

section \<open>One registered connection\<close>

text \<open>A client (descriptor 5) with an established connection (descriptor 7) from A to B.\<close>

definition demo_sock :: sock where
  "demo_sock = sock_zero\<lparr>s_state := PATTY_AX25_SOCK_ESTABLISHED, s_fd := 7,
     s_local := addr_of [0x41] 0, s_remote := addr_of [0x42] 0\<rparr>"

definition demo_client :: "env \<Rightarrow> tnc server" where
  "demo_client ev = (server_zero ev (world0 []))\<lparr>h_socks := [1 \<mapsto> demo_sock], h_next := 3,
     sv_socks_by_client := snd (patty_dict_set True patty_dict_new 5 (Some 2)), h_dicts := [2 \<mapsto> patty_dict_new]\<rparr>"

definition demo_saved :: "env \<Rightarrow> nat bucket \<Rightarrow> tnc server" where
  "demo_saved ev d = (demo_client ev)\<lparr>h_dicts := [2 \<mapsto> snd (patty_dict_set True patty_dict_new 7 (Some 1))],
     sv_socks_by_fd := snd (patty_dict_set True patty_dict_new 7 (Some 1)),
     sv_clients_by_sock := snd (patty_dict_set True patty_dict_new 7 (Some 5)), sv_socks_remote := d\<rparr>"

lemma demo_hash:
  "hash_addrpair (addr_of [0x41] 0) (addr_of [0x42] 0) = 2279824899"
  "hash_addrpair (addr_of [0x41] 0) (addr_of [0x42] 1) = 1516307199"
  by code_simp+

lemma get_singleton: "patty_dict_get (snd (patty_dict_set m patty_dict_new k (Some v))) k = Some v"
  using dict.store_update [OF dict_ok_new, of m k v] by (simp add: dict_set_new_eq)

definition demo_remote :: "nat bucket" where
  "demo_remote = snd (patty_dict_set True (snd (patty_dict_set True patty_dict_new 2279824899 (Some 1))) 1516307199 (Some 1))"

lemma demo_remote_eq:
  "demo_remote = patty_dict_new(3 := Slot 2279824899 (Some 1) True None, 15 := Slot 1516307199 (Some 1) True None)"
proof -
  let ?d = "patty_dict_new(3 := Slot 2279824899 (Some 1) True None) :: nat bucket"
  have "patty_dict_set True ?d 1516307199 (Some 1) = (Some 1, ?d(15 := Slot 1516307199 (Some 1) True None))"
    using dict_set_from_empty [of ?d 0 1516307199 6 True "Some 1"]
    by (simp add: patty_dict_set_def nibble_def del: dict_set_from.simps)
  then show ?thesis by (simp add: demo_remote_def dict_set_new_eq nibble_def)
qed

text \<open>The second pair has a slot of its own.\<close>

lemma demo_remote_get:
  "patty_dict_get demo_remote 2279824899 = Some 1" "patty_dict_get demo_remote 1516307199 = Some 1"
  "\<not> is_below demo_remote 2279824899 1516307199"
  unfolding demo_remote_eq by code_simp+

lemma demo_registered:
  assumes "patty_dict_get d 2279824899 = Some 1"
  shows "registered 5 1 (demo_saved ev d)"
  using assms
  by (simp add: registered_def demo_saved_def demo_client_def demo_sock_def server_zero_def fd_ok_def FD_SETSIZE_def
      client_by_sock_def get_singleton sock_by_fd_def has_address_def addr_entry_def by_addr_eq demo_hash)

lemma dict_store_new:
  "script w = [] \<Longrightarrow> dict_store patty_dict_new k (Some v) w = (True, snd (patty_dict_set True patty_dict_new k (Some v)), w)"
  by (simp add: dict_store_def sys_call_def dict_set_new_eq)

lemma demo_save:
  "sock_save 5 1 (demo_client ev) = Some (7, demo_saved ev (snd (patty_dict_set True patty_dict_new 2279824899 (Some 1))))"
  by (simp add: sock_save_steps demo_client_def demo_saved_def server_zero_def demo_sock_def save_addr_def
      sock_save_remote_def demo_hash dict_store_new client_save_by_sock_def int_ptr_def sock_save_by_fd_def Let_def
      get_singleton world0_def)

lemma sock_save_registers_witness:
  "\<forall>ev. \<exists>s'. sock_save 5 1 (demo_client ev) = Some (7, s') \<and> registered 5 1 s'"
proof
  fix ev
  have "dicts_ok (demo_client ev)" by (simp add: demo_client_def server_zero_def dicts_ok_def)
  moreover have "h_socks (demo_client ev) 1 = Some demo_sock" by (simp add: demo_client_def)
  moreover have "(0 :: int) \<le> 7" "(0 :: int) < 5" by simp_all
  moreover have "fd_ok (s_fd demo_sock)" "s_state demo_sock \<noteq> PATTY_AX25_SOCK_PENDING_DISCONNECT"
    by (simp_all add: demo_sock_def fd_ok_def FD_SETSIZE_def)
  ultimately have "registered 5 1 (demo_saved ev (snd (patty_dict_set True patty_dict_new 2279824899 (Some 1))))"
    using sock_save_registers [OF demo_save, of ev demo_sock] by blast
  then show "\<exists>s'. sock_save 5 1 (demo_client ev) = Some (7, s') \<and> registered 5 1 s'"
    using demo_save by blast
qed

section \<open>Closing\<close>

definition delete_addr :: "sock \<Rightarrow> 'p server \<Rightarrow> int \<times> 'p server" where
  "delete_addr k s = (case s_state k of
      PATTY_AX25_SOCK_LISTENING \<Rightarrow> sock_delete_local k s
    | PATTY_AX25_SOCK_CLOSED \<Rightarrow> (0, s)
    | PATTY_AX25_SOCK_PROMISC \<Rightarrow> (0, s)
    | _ \<Rightarrow> sock_delete_remote k s)"

lemma slot_find_got: "patty_dict_get d key = Some v \<Longrightarrow> patty_dict_slot_find d key \<noteq> None"
  by (auto simp: patty_dict_get_def split: option.splits)

lemma dict_delete_hit: "patty_dict_get d key = Some v \<Longrightarrow> fst (patty_dict_delete d key) = 0"
  by (simp add: dict_delete_found slot_find_got)

text \<open>The address is gone; entries that are not below it in the dictionary stay.\<close>

lemma delete_addr_ok:
  assumes "has_address k \<longrightarrow> addr_entry s k = Some p"
  shows "\<exists>s1. delete_addr k s = (0, s1) \<and> addr_entry s1 k = None
    \<and> h_socks s1 = h_socks s \<and> h_dicts s1 = h_dicts s \<and> h_ifaces s1 = h_ifaces s \<and> sv_world s1 = sv_world s
    \<and> sv_socks_by_client s1 = sv_socks_by_client s \<and> sv_socks_by_fd s1 = sv_socks_by_fd s
    \<and> sv_clients_by_sock s1 = sv_clients_by_sock s \<and> sv_fds_watch s1 = sv_fds_watch s \<and> sv_fd_max s1 = sv_fd_max s
    \<and> sv_env s1 = sv_env s
    \<and> (\<forall>key. \<not> is_below (sv_socks_remote s) (hash_addrpair (s_local k) (s_remote k)) key
         \<longrightarrow> patty_dict_get (sv_socks_remote s1) key = patty_dict_get (sv_socks_remote s) key)"
proof -
  let ?l = "hash_addr (s_local k)" and ?r = "hash_addrpair (s_local k) (s_remote k)"
  obtain a d where d: "patty_dict_delete (sv_socks_local s) ?l = (a, d)" by fastforce
  obtain b e where e: "patty_dict_delete (sv_socks_remote s) ?r = (b, e)" by fastforce
  have get: "patty_dict_get d ?l = None" "patty_dict_get e ?r = None"
    "\<not> is_below (sv_socks_remote s) ?r key \<Longrightarrow> patty_dict_get e key = patty_dict_get (sv_socks_remote s) key"
    "patty_dict_get (sv_socks_local s) ?l = Some p \<Longrightarrow> a = 0" "patty_dict_get (sv_socks_remote s) ?r = Some p \<Longrightarrow> b = 0" for key
    using patty_dict_get_delete_same [of "sv_socks_local s" ?l] patty_dict_get_delete_same [of "sv_socks_remote s" ?r]
      patty_dict_get_delete [of "sv_socks_remote s" ?r key] dict_delete_hit [of "sv_socks_local s" ?l p]
      dict_delete_hit [of "sv_socks_remote s" ?r p] by (simp_all add: d e)
  show ?thesis
    using assms get
    by (cases "s_state k")
      (auto simp: delete_addr_def sock_delete_local_def sock_delete_remote_def addr_entry_def has_address_def d e by_addr_eq)
qed

lemma sock_close_steps:
  "sock_close p s = do { k \<leftarrow> h_socks s p;
     case delete_addr k s of (r, s) \<Rightarrow>
     if r < 0 then Some (-1, s)
     else let client = client_by_sock s k in
     if client < 0 then Some (-1, s)
     else case patty_dict_get (sv_socks_by_client s) (word_of_int client) of
       None \<Rightarrow> Some (-1, s)
     | Some q \<Rightarrow>
         do { socks \<leftarrow> h_dicts s q;
              case patty_dict_delete socks (word_of_int (s_fd k)) of (r, socks) \<Rightarrow>
              let s = s\<lparr>h_dicts := (h_dicts s)(q \<mapsto> socks)\<rparr> in
              if r < 0 then Some (-1, s)
              else case patty_dict_delete (sv_socks_by_fd s) (word_of_int (s_fd k)) of (r, d) \<Rightarrow>
              let s = s\<lparr>sv_socks_by_fd := d\<rparr> in
              if r < 0 then Some (-1, s)
              else do { s \<leftarrow> fd_clear (s_fd k) (snd (client_delete_by_sock k s));
                        s \<leftarrow> sock_destroy p s;
                        Some (0, s) } } }"
proof -
  have "(case s_state k of
      PATTY_AX25_SOCK_LISTENING \<Rightarrow> sock_delete_local k s
    | PATTY_AX25_SOCK_PENDING_ACCEPT \<Rightarrow> sock_delete_remote k s
    | PATTY_AX25_SOCK_PENDING_CONNECT \<Rightarrow> sock_delete_remote k s
    | PATTY_AX25_SOCK_PENDING_DISCONNECT \<Rightarrow> sock_delete_remote k s
    | PATTY_AX25_SOCK_ESTABLISHED \<Rightarrow> sock_delete_remote k s
    | _ \<Rightarrow> (0, s)) = delete_addr k s" for k
    by (simp add: delete_addr_def split: sock_state.split)
  then show ?thesis by (simp add: sock_close_def Let_def)
qed

text \<open>The rest of \<open>sock_close\<close>, once the socket is out of its dictionaries.\<close>

lemma fd_clear_facts:
  assumes "fd_ok fd"
  obtains m where "fd_clear fd s = Some (s\<lparr>sv_fds_watch := (sv_fds_watch s)(fd := False), sv_fd_max := m\<rparr>)"
proof
  show "fd_clear fd s = Some (s\<lparr>sv_fds_watch := (sv_fds_watch s)(fd := False),
      sv_fd_max := (if sv_fd_max s = fd + 1
                    then fold (\<lambda>i m. if ((sv_fds_watch s)(fd := False)) (int i) then int i else m) [0..<64] (sv_fd_max s) + 1
                    else sv_fd_max s)\<rparr>)"
    using assms by (simp only: fd_clear_def Let_def if_True)
qed

lemma sys_call_keeps_closed: "closed (snd (sys_call w)) = closed w"
proof (cases "script w")
  case (Cons r rs)
  then show ?thesis by (cases r) (simp_all add: sys_call_def)
qed (simp add: sys_call_def)

lemma sys_close_closed: "closed (snd (sys_close fd w)) = closed w @ [fd]"
  using sys_call_keeps_closed [of w] by (cases "sys_call w") (simp add: sys_close_def)

lemma sock_destroy_facts:
  assumes "h_socks s p = Some k" and "s_type k \<noteq> PATTY_AX25_SOCK_RAW"
  obtains hi w where "sock_destroy p s = Some (s\<lparr>h_socks := (h_socks s)(p := None), h_ifaces := hi, sv_world := w\<rparr>)"
    "closed w = closed (sv_world s) @ (if s_fd k > 0 then [s_fd k] else [])"
proof
  let ?w = "if s_fd k > 0 then snd (sys_close (s_fd k) (sv_world s)) else sv_world s"
  show "sock_destroy p s = Some (s\<lparr>h_socks := (h_socks s)(p := None),
      h_ifaces := (case if s_iface k = 0 then None else h_ifaces s (s_iface k) of None \<Rightarrow> h_ifaces s
                   | Some i \<Rightarrow> (h_ifaces s)(s_iface k \<mapsto> i)), sv_world := ?w\<rparr>)"
    using assms by (cases "s_iface k = 0") (simp_all add: sock_destroy_def patty_ax25_sock_destroy_def)
  show "closed ?w = closed (sv_world s) @ (if s_fd k > 0 then [s_fd k] else [])"
    by (simp add: sys_close_closed)
qed

lemma close_tail:
  assumes "h_socks s p = Some k" and "s_type k \<noteq> PATTY_AX25_SOCK_RAW" and "fd_ok (s_fd k)"
  obtains s' where "do { s \<leftarrow> fd_clear (s_fd k) (snd (client_delete_by_sock k s)); s \<leftarrow> sock_destroy p s; Some (0 :: int, s) } = Some (0, s')"
    "h_socks s' = (h_socks s)(p := None)" "sv_socks_by_fd s' = sv_socks_by_fd s" "sv_socks_remote s' = sv_socks_remote s"
    "sv_socks_local s' = sv_socks_local s" "client_by_sock s' k = -1" "\<not> sv_fds_watch s' (s_fd k)" "sv_env s' = sv_env s"
    "closed (sv_world s') = closed (sv_world s) @ (if s_fd k > 0 then [s_fd k] else [])"
proof -
  obtain a d where d: "patty_dict_delete (sv_clients_by_sock s) (word_of_int (s_fd k)) = (a, d)" by fastforce
  then have none: "patty_dict_get d (word_of_int (s_fd k)) = None"
    using patty_dict_get_delete_same [of "sv_clients_by_sock s" "word_of_int (s_fd k)"] by simp
  obtain m where m: "fd_clear (s_fd k) (s\<lparr>sv_clients_by_sock := d\<rparr>) = Some (s\<lparr>sv_clients_by_sock := d,
      sv_fds_watch := (sv_fds_watch s)(s_fd k := False), sv_fd_max := m\<rparr>)"
    by (rule fd_clear_facts [OF assms(3), of "s\<lparr>sv_clients_by_sock := d\<rparr>"]) simp
  let ?s = "s\<lparr>sv_clients_by_sock := d, sv_fds_watch := (sv_fds_watch s)(s_fd k := False), sv_fd_max := m\<rparr>"
  obtain hi w where w: "sock_destroy p ?s = Some (?s\<lparr>h_socks := (h_socks s)(p := None), h_ifaces := hi, sv_world := w\<rparr>)"
    "closed w = closed (sv_world s) @ (if s_fd k > 0 then [s_fd k] else [])"
    by (rule sock_destroy_facts [of ?s p k]) (use assms(1,2) in simp_all)
  show ?thesis
    by (rule that [of "?s\<lparr>h_socks := (h_socks s)(p := None), h_ifaces := hi, sv_world := w\<rparr>"])
      (simp_all add: client_delete_by_sock_def d m w client_by_sock_def none)
qed

lemma sock_close_registered:
  assumes "registered c p s" and "h_socks s p = Some k" and "s_type k \<noteq> PATTY_AX25_SOCK_RAW"
  shows "\<exists>s'. sock_close p s = Some (0, s') \<and> h_socks s' = (h_socks s)(p := None)
    \<and> sock_by_fd (sv_socks_by_fd s') (s_fd k) = None \<and> client_by_sock s' k = -1 \<and> addr_entry s' k = None
    \<and> \<not> sv_fds_watch s' (s_fd k) \<and> closed (sv_world s') = closed (sv_world s) @ (if s_fd k > 0 then [s_fd k] else [])
    \<and> (\<forall>a b. \<not> is_below (sv_socks_remote s) (hash_addrpair (s_local k) (s_remote k)) (hash_addrpair a b)
         \<longrightarrow> sock_by_addrpair (sv_socks_remote s') a b = sock_by_addrpair (sv_socks_remote s) a b)"
proof -
  from assms(1,2) obtain q socks where reg: "0 \<le> c" "fd_ok (s_fd k)" "client_by_sock s k = c"
    "patty_dict_get (sv_socks_by_client s) (word_of_int c) = Some q" "h_dicts s q = Some socks"
    "patty_dict_get socks (word_of_int (s_fd k)) = Some p" "patty_dict_get (sv_socks_by_fd s) (word_of_int (s_fd k)) = Some p"
    "has_address k \<longrightarrow> addr_entry s k = Some p" by (auto simp: registered_def sock_by_fd_def)
  obtain s1 where s1: "delete_addr k s = (0, s1)" "addr_entry s1 k = None"
    "h_socks s1 = h_socks s" "h_dicts s1 = h_dicts s" "sv_world s1 = sv_world s"
    "sv_socks_by_client s1 = sv_socks_by_client s" "sv_socks_by_fd s1 = sv_socks_by_fd s"
    "sv_clients_by_sock s1 = sv_clients_by_sock s"
    "\<forall>key. \<not> is_below (sv_socks_remote s) (hash_addrpair (s_local k) (s_remote k)) key
         \<longrightarrow> patty_dict_get (sv_socks_remote s1) key = patty_dict_get (sv_socks_remote s) key"
    using delete_addr_ok [OF reg(8)] by blast
  have client: "client_by_sock s1 k = c" using reg(3) s1(8) by (simp add: client_by_sock_def)
  obtain a d where d: "patty_dict_delete socks (word_of_int (s_fd k)) = (a, d)" by fastforce
  obtain b e where e: "patty_dict_delete (sv_socks_by_fd s) (word_of_int (s_fd k)) = (b, e)" by fastforce
  have ab: "a = 0" "b = 0" "patty_dict_get e (word_of_int (s_fd k)) = None"
    using dict_delete_hit [OF reg(6)] dict_delete_hit [OF reg(7)]
      patty_dict_get_delete_same [of "sv_socks_by_fd s" "word_of_int (s_fd k)"] by (simp_all add: d e)
  define s2 where "s2 = s1\<lparr>h_dicts := (h_dicts s)(q \<mapsto> d), sv_socks_by_fd := e\<rparr>"
  have s2: "h_socks s2 p = Some k" using assms(2) s1(3) by (simp add: s2_def)
  obtain s' where s':
    "do { s \<leftarrow> fd_clear (s_fd k) (snd (client_delete_by_sock k s2)); s \<leftarrow> sock_destroy p s; Some (0 :: int, s) } = Some (0, s')"
    "h_socks s' = (h_socks s2)(p := None)" "sv_socks_by_fd s' = sv_socks_by_fd s2" "sv_socks_remote s' = sv_socks_remote s2"
    "sv_socks_local s' = sv_socks_local s2" "client_by_sock s' k = -1" "\<not> sv_fds_watch s' (s_fd k)"
    "closed (sv_world s') = closed (sv_world s2) @ (if s_fd k > 0 then [s_fd k] else [])"
    by (rule close_tail [OF s2 assms(3) reg(2)])
  have "sock_close p s = Some (0, s')"
    using s1 client reg(1,4,5) d e ab s'(1) by (simp add: sock_close_steps assms(2) Let_def s2_def)
  moreover have "addr_entry s' k = addr_entry s1 k" by (rule addr_entry_cong) (simp_all add: s'(4,5) s2_def)
  ultimately show ?thesis
    using s1 s' ab(3) by (simp add: s2_def by_addr_eq sock_by_fd_def)
qed

text \<open>
  C7: Closing takes a socket out of the registers. For every registered connection or listener,
  closing succeeds: the socket is freed, its descriptor is closed and no longer watched, and
  neither its descriptor nor its current address leads to it any more. Entries of other address
  pairs stay, unless they lie below the closed one in the dictionary.
\<close>
theorem sock_close_unregisters:
  assumes "registered c p s" and "h_socks s p = Some k" and "s_type k \<noteq> PATTY_AX25_SOCK_RAW"
  shows "\<exists>s'. sock_close p s = Some (0, s') \<and> h_socks s' = (h_socks s)(p := None)
    \<and> sock_by_fd (sv_socks_by_fd s') (s_fd k) = None \<and> client_by_sock s' k = -1 \<and> addr_entry s' k = None
    \<and> \<not> sv_fds_watch s' (s_fd k) \<and> closed (sv_world s') = closed (sv_world s) @ (if s_fd k > 0 then [s_fd k] else [])
    \<and> (\<forall>a b. \<not> is_below (sv_socks_remote s) (hash_addrpair (s_local k) (s_remote k)) (hash_addrpair a b)
         \<longrightarrow> sock_by_addrpair (sv_socks_remote s') a b = sock_by_addrpair (sv_socks_remote s) a b)"
  by (rule sock_close_registered [OF assms])

lemma sock_close_unregisters_witness:
  "\<forall>ev. \<exists>s'. sock_close 1 (demo_saved ev (snd (patty_dict_set True patty_dict_new 2279824899 (Some 1)))) = Some (0, s')
    \<and> h_socks s' = Map.empty \<and> closed (sv_world s') = [7]"
proof
  fix ev
  let ?s = "demo_saved ev (snd (patty_dict_set True patty_dict_new 2279824899 (Some 1)))"
  have "registered 5 1 ?s" by (rule demo_registered) (rule get_singleton)
  from sock_close_unregisters [OF this, of demo_sock]
  show "\<exists>s'. sock_close 1 ?s = Some (0, s') \<and> h_socks s' = Map.empty \<and> closed (sv_world s') = [7]"
    by (auto simp: demo_saved_def demo_client_def demo_sock_def sock_zero_def server_zero_def world0_def)
qed

section \<open>A stale entry\<close>

text \<open>Connecting to a second peer leaves the entry of the first one.\<close>

lemma on_link_dicts: "post (on_link p f s) (\<lambda>(r, s'). sv_socks_remote s' = sv_socks_remote s)"
  by (auto simp: on_link_def intro!: post_bindI)

lemma bind_if_dicts: "post (bind_if p ip s) (\<lambda>(r, s'). sv_socks_remote s' = sv_socks_remote s)"
  by (auto simp: bind_if_def on_world_def set_errno_def Let_def intro!: post_bindI split: prod.split sum.split if_splits)

text \<open>
  C21: A closed socket stays reachable. A socket that was entered under the address pair of an
  earlier peer (a second connect while the first is pending overwrites its addresses and leaves the
  entry) is freed when it is closed, but the entry still leads to it: every later frame of the earlier
  peer is then handled with the freed socket.
\<close>
theorem stale_entry_dangles:
  assumes "registered c p s" and "h_socks s p = Some k" and "s_type k \<noteq> PATTY_AX25_SOCK_RAW"
    and "sock_by_addrpair (sv_socks_remote s) a b = Some p"
    and "\<not> is_below (sv_socks_remote s) (hash_addrpair (s_local k) (s_remote k)) (hash_addrpair a b)"
  shows "\<exists>s'. sock_close p s = Some (0, s')
    \<and> (\<forall>ip buf len off fr. patty_ax25_frame_decode_address (ev_frame (sv_env s')) buf len = Some (Inr off, fr)
         \<longrightarrow> f_dest fr = a \<longrightarrow> f_src fr = b \<longrightarrow> handle_frame ip buf len s' = None)"
proof -
  have "registered c p s \<Longrightarrow> \<exists>s'. sock_close p s = Some (0, s') \<and> h_socks s' p = None
      \<and> sock_by_addrpair (sv_socks_remote s') a b = Some p"
    using sock_close_registered [OF assms(1-3)] assms(4,5) by auto
  then show ?thesis using assms(1) by (auto simp: handle_frame_def Let_def)
qed

lemma stale_entry_dangles_witness:
  "\<forall>ev. \<exists>s'. sock_close 1 (demo_saved ev demo_remote) = Some (0, s')
    \<and> (\<forall>ip buf len off fr. patty_ax25_frame_decode_address (ev_frame (sv_env s')) buf len = Some (Inr off, fr)
         \<longrightarrow> f_dest fr = addr_of [0x41] 0 \<longrightarrow> f_src fr = addr_of [0x42] 1 \<longrightarrow> handle_frame ip buf len s' = None)"
proof
  fix ev
  have "registered 5 1 (demo_saved ev demo_remote)" by (rule demo_registered) (rule demo_remote_get)
  moreover have "h_socks (demo_saved ev demo_remote) 1 = Some demo_sock" "s_type demo_sock \<noteq> PATTY_AX25_SOCK_RAW"
    by (simp_all add: demo_saved_def demo_client_def demo_sock_def sock_zero_def)
  moreover have "sock_by_addrpair (sv_socks_remote (demo_saved ev demo_remote)) (addr_of [0x41] 0) (addr_of [0x42] 1) = Some 1"
    by (simp add: demo_saved_def by_addr_eq demo_hash demo_remote_get del: One_nat_def)
  moreover have "\<not> is_below (sv_socks_remote (demo_saved ev demo_remote)) (hash_addrpair (s_local demo_sock) (s_remote demo_sock))
      (hash_addrpair (addr_of [0x41] 0) (addr_of [0x42] 1))"
    by (simp add: demo_saved_def demo_sock_def demo_hash demo_remote_get del: One_nat_def)
  ultimately show "\<exists>s'. sock_close 1 (demo_saved ev demo_remote) = Some (0, s')
    \<and> (\<forall>ip buf len off fr. patty_ax25_frame_decode_address (ev_frame (sv_env s')) buf len = Some (Inr off, fr)
         \<longrightarrow> f_dest fr = addr_of [0x41] 0 \<longrightarrow> f_src fr = addr_of [0x42] 1 \<longrightarrow> handle_frame ip buf len s' = None)"
    by (rule stale_entry_dangles)
qed

end
