(* ===== verification/Patty_Client.thy ===== *)
theory Patty_Client
  imports Patty_Registry
begin

text \<open>
  The client library: \<open>src/src/client.c\<close>. A client is a connection to the server and a dictionary
  from the terminals it has opened to its sockets, which live on a heap.

  \<open>errno\<close> is part of the client's state, since the library passes on the numbers that the server
  answers; a failing call of the system sets it. The log of a connected socket starts with the
  address it was connected to. Reading a field of a struct that the bytes received do not reach is
  undefined. The lemmas show that the dictionary never leads to freed sockets, and, together with
  the server of \<open>Patty_Calls\<close>, what a call of the library does at the other end.
\<close>

section \<open>State\<close>

record client_sock =
  cs_fd :: int
  cs_path :: cstring

record client =
  cl_fd :: int
  cl_socks :: "nat bucket"
  h_csocks :: "nat \<Rightarrow> client_sock option"
  h_cnext :: nat
  cl_errno :: int
  cl_world :: world

definition sys :: "(world \<Rightarrow> 'a \<times> world) \<Rightarrow> client \<Rightarrow> 'a \<times> client" where
  "sys f c = (case f ((cl_world c)\<lparr>err := None\<rparr>) of (r, w) \<Rightarrow>
     (r, c\<lparr>cl_world := w, cl_errno := (case err w of None \<Rightarrow> cl_errno c | Some e \<Rightarrow> errno_num (Some e))\<rparr>))"

definition PATTY_CLIENT_DEFAULT_SOCK_NAME :: cstring where
  "PATTY_CLIENT_DEFAULT_SOCK_NAME = cstr ''patty.sock''"

definition PATTY_DAEMON_DEFAULT_SOCK :: cstring where
  "PATTY_DAEMON_DEFAULT_SOCK = cstr ''/var/run/patty/patty.sock''"

section \<open>Connecting\<close>

definition find_sock :: "cstring option \<Rightarrow> world \<Rightarrow> cstring \<times> world" where
  "find_sock path w =
     (case path of
        Some path \<Rightarrow> (path, w)
      | None \<Rightarrow> (case sys_call w of (r, w) \<Rightarrow>
                   (if r = 0 then PATTY_CLIENT_DEFAULT_SOCK_NAME else PATTY_DAEMON_DEFAULT_SOCK, w)))"

definition sys_connect :: "int \<Rightarrow> cstring \<Rightarrow> world \<Rightarrow> int \<times> world" where
  "sys_connect fd addr w = (case sys_write fd addr w of (r, w) \<Rightarrow> (if r < 0 then -1 else 0, w))"

definition patty_client_new :: "int \<Rightarrow> cstring option \<Rightarrow> world \<Rightarrow> client option \<times> world" where
  "patty_client_new errno path w =
     (case sys_call w of (m, w) \<Rightarrow>
      if m < 0 then (None, w)
      else case sys_call w of (d, w) \<Rightarrow>
      if d < 0 then (None, w)
      else case sys_fd w of (fd, w) \<Rightarrow>
      if fd < 0 then (None, w)
      else case find_sock path w of (name, w) \<Rightarrow>
      case sys_connect fd (fst (patty_strlcpy name (of_nat SUN_PATH_SIZE))) w of (r, w) \<Rightarrow>
      if r < 0 then (None, snd (sys_close fd w))
      else (Some \<lparr>cl_fd = fd, cl_socks = patty_dict_new, h_csocks = Map.empty, h_cnext = 1, cl_errno = errno, cl_world = w\<rparr>, w))"

definition patty_client_read :: "nat \<Rightarrow> client \<Rightarrow> (errno + byte list) \<times> client" where
  "patty_client_read len = sys (sys_read len)"

definition patty_client_write :: "byte list \<Rightarrow> client \<Rightarrow> int \<times> client" where
  "patty_client_write buf c = sys (sys_write (cl_fd c) buf) c"

section \<open>Calls\<close>

text \<open>The writes of a call; the first that fails ends them.\<close>

fun write_all :: "byte list list \<Rightarrow> client \<Rightarrow> bool \<times> client" where
  "write_all [] c = (True, c)"
| "write_all (m # ms) c =
     (case sys (sys_write (cl_fd c) m) c of (r, c) \<Rightarrow> if r < 0 then (False, c) else write_all ms c)"

text \<open>\<open>errno = response.eno; return response.ret\<close>\<close>

definition take_response :: "byte list \<Rightarrow> client \<Rightarrow> (int \<times> client) option" where
  "take_response bs c = do { ret \<leftarrow> get_int bs 0; eno \<leftarrow> get_int bs 4; Some (ret, c\<lparr>cl_errno := eno\<rparr>) }"

text \<open>A call: its number and its messages are written, then a response of \<open>n\<close> bytes is read.\<close>

definition transact :: "client_call \<Rightarrow> byte list list \<Rightarrow> nat \<Rightarrow>
    (byte list \<Rightarrow> client \<Rightarrow> (int \<times> client) option) \<Rightarrow> client \<Rightarrow> (int \<times> client) option" where
  "transact call msgs n k c =
     (case write_all (put_int (call_num call) # msgs) c of (ok, c) \<Rightarrow>
      if \<not> ok then Some (-1, c)
      else case sys (sys_read n) c of
             (Inl e, c) \<Rightarrow> Some (-1, c)
           | (Inr bs, c) \<Rightarrow> k bs c)"

text \<open>The result of \<open>read\<close> is kept in a \<open>size_t\<close>: an error looks like a length that is wrong.\<close>

definition request_close :: "int \<Rightarrow> client \<Rightarrow> (int \<times> client) option" where
  "request_close fd c =
     (case write_all [put_int (call_num PATTY_CLIENT_CLOSE), put_int fd] c of (ok, c) \<Rightarrow>
      if \<not> ok then Some (-1, c)
      else case sys (sys_read 8) c of
             (Inl e, c) \<Rightarrow> Some (-1, c\<lparr>cl_errno := errno_num (Some EIO)\<rparr>)
           | (Inr bs, c) \<Rightarrow> if length bs \<noteq> 8 then Some (-1, c\<lparr>cl_errno := errno_num (Some EIO)\<rparr>)
                           else take_response bs c)"

definition sock_of :: "int \<Rightarrow> client \<Rightarrow> nat option" where
  "sock_of fd c = patty_dict_get (cl_socks c) (word_of_int fd)"

text \<open>\<open>patty_dict_get(client->socks, fd)\<close>, or \<open>EBADF\<close>.\<close>

definition with_sock :: "int \<Rightarrow> (client_sock \<Rightarrow> client \<Rightarrow> (int \<times> client) option) \<Rightarrow> client \<Rightarrow> (int \<times> client) option" where
  "with_sock fd k c =
     (case sock_of fd c of
        None \<Rightarrow> Some (-1, c\<lparr>cl_errno := errno_num (Some EBADF)\<rparr>)
      | Some p \<Rightarrow> do { sock \<leftarrow> h_csocks c p; k sock c })"

definition destroy_sock :: "u32 \<Rightarrow> nat option \<Rightarrow> client \<Rightarrow> (int \<times> client) option" where
  "destroy_sock key value c =
     do { p \<leftarrow> value;
          sock \<leftarrow> h_csocks c p;
          (r, c) \<leftarrow> request_close (cs_fd sock) c;
          Some (0, c\<lparr>h_csocks := (h_csocks c)(p := None)\<rparr>) }"

definition patty_client_destroy :: "client \<Rightarrow> client option" where
  "patty_client_destroy c =
     do { let c = snd (sys (sys_close (cl_fd c)) c);
          (r, c) \<leftarrow> patty_dict_each cl_socks destroy_sock c;
          Some c }"

definition patty_client_ping :: "client \<Rightarrow> (int \<times> client) option" where
  "patty_client_ping c =
     (let give_up = (\<lambda>c. Some (if cl_errno c = errno_num (Some EIO) then (0, c\<lparr>cl_errno := 0\<rparr>) else (-1, c))) in
      case sys (sys_write (cl_fd c) (put_int (call_num PATTY_CLIENT_PING))) c of (r, c) \<Rightarrow>
      if r < 0 \<or> r = 0 then give_up c
      else case sys (sys_read 4) c of
             (Inl e, c) \<Rightarrow> give_up c
           | (Inr bs, c) \<Rightarrow> if bs = [] then give_up c else do { pong \<leftarrow> get_int bs 0; Some (pong, c) })"

text \<open>A path in a message, as \<open>patty_strlcpy\<close> copies it into an array of the same size.\<close>

definition get_path :: "byte list \<Rightarrow> nat \<Rightarrow> cstring option" where
  "get_path bs off =
     (let path = drop off bs in
      if 0 \<in> set path \<or> PATTY_AX25_SOCK_PATH_SIZE - 1 \<le> length path
      then Some (fst (patty_strlcpy path (of_nat PATTY_AX25_SOCK_PATH_SIZE))) else None)"

text \<open>Opening the terminal of a new socket \<open>sock\<close>, making it raw and entering the socket.\<close>

definition open_sock :: "client_sock \<Rightarrow> client \<Rightarrow> (int \<times> client) option" where
  "open_sock sock c =
     (let close_it = (\<lambda>c. do { (r, c) \<leftarrow> request_close (cs_fd sock) c; Some (-1, c) }) in
      case sys sys_fd c of (fd, c) \<Rightarrow>
      if fd < 0 then close_it c
      else case sys sys_call c of (r, c) \<Rightarrow>
      if r < 0 then close_it (snd (sys (sys_close fd) c))
      else case sys sys_call c of (r, c) \<Rightarrow>
      if r < 0 then close_it (snd (sys (sys_close fd) c))
      else case sys (\<lambda>w. case dict_store (cl_socks c) (word_of_int fd) (Some (h_cnext c)) w of (ok, d, w) \<Rightarrow> ((ok, d), w)) c
             of ((ok, d), c) \<Rightarrow>
      if \<not> ok then close_it (snd (sys (sys_close fd) (c\<lparr>cl_socks := d\<rparr>)))
      else Some (fd, c\<lparr>cl_socks := d, h_csocks := (h_csocks c)(h_cnext c \<mapsto> sock), h_cnext := h_cnext c + 1\<rparr>))"

definition patty_client_socket :: "int \<Rightarrow> int \<Rightarrow> client \<Rightarrow> (int \<times> client) option" where
  "patty_client_socket proto type c =
     (case sys sys_call c of (m, c) \<Rightarrow>
      if m < 0 then Some (-1, c)
      else transact PATTY_CLIENT_SOCKET [put_socket_request \<lparr>rq_proto = proto, rq_type = type\<rparr>] 264
             (\<lambda>bs c. do { fd \<leftarrow> get_int bs 0;
                          path \<leftarrow> get_path bs 8;
                          (pty, c) \<leftarrow> open_sock \<lparr>cs_fd = fd, cs_path = path\<rparr> c;
                          if pty < 0 then Some (-1, c)
                          else do { eno \<leftarrow> get_int bs 4; Some (pty, c\<lparr>cl_errno := eno\<rparr>) } }) c)"

definition patty_client_setsockopt :: "int \<Rightarrow> int \<Rightarrow> byte list \<Rightarrow> nat \<Rightarrow> client \<Rightarrow> (int \<times> client) option" where
  "patty_client_setsockopt fd opt data len = with_sock fd (\<lambda>sock c.
     do { data \<leftarrow> slice data 0 len;
          transact PATTY_CLIENT_SETSOCKOPT
            [put_setsockopt_request \<lparr>rq_fd = cs_fd sock, rq_opt = opt, rq_len = of_nat len\<rparr>, data] 8 take_response c })"

definition patty_client_bind :: "int \<Rightarrow> addr \<Rightarrow> client \<Rightarrow> (int \<times> client) option" where
  "patty_client_bind fd addr = with_sock fd (\<lambda>sock.
     transact PATTY_CLIENT_BIND [put_addr_request 0 \<lparr>rq_afd = cs_fd sock, rq_addr = addr\<rparr>] 8 take_response)"

definition patty_client_listen :: "int \<Rightarrow> client \<Rightarrow> (int \<times> client) option" where
  "patty_client_listen fd = with_sock fd (\<lambda>sock. transact PATTY_CLIENT_LISTEN [put_int (cs_fd sock)] 8 take_response)"

text \<open>
  The answer is read over zeroes. \<open>message\<close> is read from the terminal; the second result is what
  \<open>peer\<close> points to, if it was set.
\<close>

definition patty_client_accept :: "int \<Rightarrow> client \<Rightarrow> (int \<times> addr option \<times> client) option" where
  "patty_client_accept fd c =
     (case sock_of fd c of
        None \<Rightarrow> Some (-1, None, c\<lparr>cl_errno := errno_num (Some EBADF)\<rparr>)
      | Some p \<Rightarrow>
          (case sys sys_call c of (m, c) \<Rightarrow>
           if m < 0 then Some (-1, None, c)
           else do { sock \<leftarrow> h_csocks c p;
                     case write_all [put_int (call_num PATTY_CLIENT_ACCEPT), put_int (cs_fd sock)] c of (ok, c) \<Rightarrow>
                     if \<not> ok then Some (-1, None, c)
                     else case sys (sys_read 8) c of
                       (Inl e, c) \<Rightarrow> Some (-1, None, c)
                     | (Inr bs, c) \<Rightarrow>
                         do { (ret, c') \<leftarrow> take_response (bs @ replicate (8 - length bs) 0) c;
                              if ret < 0 then Some (ret, None, c')
                              else case sys (sys_read 268) c of
                                (Inl e, c) \<Rightarrow> Some (-1, None, c)
                              | (Inr bs, c) \<Rightarrow>
                                  do { rfd \<leftarrow> get_int bs 0; peer \<leftarrow> get_addr bs 4; path \<leftarrow> get_path bs 11;
                                       (pty, c) \<leftarrow> open_sock \<lparr>cs_fd = rfd, cs_path = path\<rparr> c;
                                       Some (pty, Some peer, if pty < 0 then c else c\<lparr>cl_errno := cl_errno c'\<rparr>) } } }))"

definition patty_client_connect :: "int \<Rightarrow> addr \<Rightarrow> client \<Rightarrow> (int \<times> client) option" where
  "patty_client_connect fd peer = with_sock fd (\<lambda>sock.
     transact PATTY_CLIENT_CONNECT [put_addr_request 0 \<lparr>rq_afd = cs_fd sock, rq_addr = peer\<rparr>] 8 take_response)"

definition patty_client_close :: "int \<Rightarrow> client \<Rightarrow> (int \<times> client) option" where
  "patty_client_close fd c =
     (case sock_of fd c of
        None \<Rightarrow> Some (-1, c\<lparr>cl_errno := errno_num (Some EBADF)\<rparr>)
      | Some p \<Rightarrow>
          do { sock \<leftarrow> h_csocks c p;
               (r, c) \<leftarrow> request_close (cs_fd sock) c;
               if r < 0 then Some (-1, c)
               else case sys (sys_close fd) c of (r, c) \<Rightarrow>
               if r < 0 then Some (-1, c)
               else Some (0, c\<lparr>cl_socks := snd (patty_dict_delete (cl_socks c) (word_of_int fd)),
                               h_csocks := (h_csocks c)(p := None)\<rparr>) })"

section \<open>What calls leave alone\<close>

definition same_table :: "client \<Rightarrow> client \<Rightarrow> bool" where
  "same_table c c' \<longleftrightarrow> cl_socks c' = cl_socks c \<and> h_csocks c' = h_csocks c \<and> h_cnext c' = h_cnext c \<and> cl_fd c' = cl_fd c"

lemma same_table_refl [simp]: "same_table c c"
  by (simp add: same_table_def)

lemma same_table_trans [trans]: "same_table a b \<Longrightarrow> same_table b c \<Longrightarrow> same_table a c"
  by (simp add: same_table_def)

lemma same_table_errno [simp]: "same_table a (b\<lparr>cl_errno := e\<rparr>) = same_table a b"
  by (simp add: same_table_def)

lemma sys_socks: "sys f c = (r, c') \<Longrightarrow> same_table c c'"
  by (auto simp: sys_def same_table_def split: prod.splits)

lemma snd_sys_socks [simp]: "same_table c (snd (sys f c))"
  using sys_socks [of f c] by (cases "sys f c") simp

lemma write_all_socks: "write_all ms c = (ok, c') \<Longrightarrow> same_table c c'"
  by (induction ms arbitrary: c) (auto split: prod.splits if_splits dest: sys_socks intro: same_table_trans)

lemma take_response_socks: "take_response bs c = Some (r, c') \<Longrightarrow> same_table c c'"
  by (auto simp: take_response_def elim!: bind_SomeE)

lemma transact_socks:
  assumes "transact call ms n k c = Some (r, c')"
    and "\<And>bs c1. same_table c c1 \<Longrightarrow> k bs c1 = Some (r, c') \<Longrightarrow> same_table c c'"
  shows "same_table c c'"
  using assms(1) by (auto simp: transact_def split: prod.splits if_splits sum.splits
      dest!: write_all_socks sys_socks intro: same_table_trans assms(2))

lemma request_close_socks: "request_close fd c = Some (r, c') \<Longrightarrow> same_table c c'"
  by (auto simp: request_close_def simp del: write_all.simps split: prod.splits if_splits sum.splits
      dest!: write_all_socks sys_socks take_response_socks intro: same_table_trans)

lemma take_response_simple: "same_table c c1 \<Longrightarrow> take_response bs c1 = Some (r, c') \<Longrightarrow> same_table c c'"
  by (auto dest!: take_response_socks intro: same_table_trans)

lemma with_sock_socks:
  assumes "with_sock fd k c = Some (r, c')" and "\<And>sock. k sock c = Some (r, c') \<Longrightarrow> same_table c c'"
  shows "same_table c c'"
  using assms by (auto simp: with_sock_def split: option.splits elim!: bind_SomeE)

lemma simple_calls_socks:
  "patty_client_bind fd addr c = Some (r, c') \<Longrightarrow> same_table c c'"
  "patty_client_listen fd c = Some (r, c') \<Longrightarrow> same_table c c'"
  "patty_client_connect fd addr c = Some (r, c') \<Longrightarrow> same_table c c'"
  "patty_client_setsockopt fd opt data len c = Some (r, c') \<Longrightarrow> same_table c c'"
  unfolding patty_client_bind_def patty_client_listen_def patty_client_connect_def patty_client_setsockopt_def
  by (erule with_sock_socks, auto elim!: bind_SomeE intro: transact_socks take_response_simple)+

section \<open>The sockets of a client\<close>

text \<open>Every entry leads to a socket of its own that has not been freed.\<close>

definition client_ok :: "client \<Rightarrow> bool" where
  "client_ok c \<longleftrightarrow> dict_ok (cl_socks c) \<and> no_null (cl_socks c)
     \<and> (\<forall>k p. patty_dict_get (cl_socks c) k = Some p \<longrightarrow> p < h_cnext c \<and> h_csocks c p \<noteq> None)
     \<and> (\<forall>k k' p. patty_dict_get (cl_socks c) k = Some p \<longrightarrow> patty_dict_get (cl_socks c) k' = Some p \<longrightarrow> k' = k)"

lemma client_ok_same: "same_table c c' \<Longrightarrow> client_ok c \<Longrightarrow> client_ok c'"
  by (simp add: same_table_def client_ok_def)

lemma client_ok_errno [simp]: "client_ok (c\<lparr>cl_errno := e\<rparr>) = client_ok c"
  by (simp add: client_ok_def)

lemma client_ok_stored:
  assumes "client_ok c" and "dict_store (cl_socks c) key (Some (h_cnext c)) w = (ok, d, w')"
  shows "client_ok (c\<lparr>cl_socks := d, h_csocks := (h_csocks c)(h_cnext c \<mapsto> sock), h_cnext := h_cnext c + 1\<rparr>)"
    and "\<not> ok \<Longrightarrow> client_ok (c\<lparr>cl_socks := d\<rparr>)"
    and "ok \<Longrightarrow> patty_dict_get d key = Some (h_cnext c)"
proof -
  define m where "m = (fst (sys_call w) \<ge> 0)"
  have d: "d = snd (patty_dict_set m (cl_socks c) key (Some (h_cnext c)))"
    and ok: "ok \<longleftrightarrow> fst (patty_dict_set m (cl_socks c) key (Some (h_cnext c))) \<noteq> None"
    using assms(2) by (auto simp: dict_store_def m_def split: prod.splits)
  have c: "dict_ok (cl_socks c)" "no_null (cl_socks c)" using assms(1) by (simp_all add: client_ok_def)
  have d': "dict_ok d" "no_null d" using c by (simp_all add: d no_null_set)
  note range = dict.store_range [OF c(1), of m key "h_cnext c", folded d]
  show "client_ok (c\<lparr>cl_socks := d, h_csocks := (h_csocks c)(h_cnext c \<mapsto> sock), h_cnext := h_cnext c + 1\<rparr>)"
    (is "client_ok ?c")
  proof -
    let ?p = "h_cnext c"
    have live: "k = key \<and> p = ?p \<or> patty_dict_get (cl_socks c) k = Some p \<and> p < ?p \<and> h_csocks c p \<noteq> None"
      if "patty_dict_get d k = Some p" for k p
      using range [OF that] assms(1) by (auto simp: client_ok_def)
    have inj: "k' = k" if "patty_dict_get (cl_socks c) k = Some p" "patty_dict_get (cl_socks c) k' = Some p" for k k' p
      using that assms(1) unfolding client_ok_def by blast
    have "p < Suc ?p \<and> ((h_csocks c)(?p \<mapsto> sock)) p \<noteq> None" if "patty_dict_get d k = Some p" for k p
      using live [OF that] by auto
    moreover have "k' = k" if "patty_dict_get d k = Some p" "patty_dict_get d k' = Some p" for k k' p
      using live [OF that(1)] live [OF that(2)] inj by auto
    ultimately show ?thesis using d' by (simp add: client_ok_def)
  qed
  show "client_ok (c\<lparr>cl_socks := d\<rparr>)" if "\<not> ok"
  proof -
    have "fst (patty_dict_set m (cl_socks c) key (Some (h_cnext c))) = None" using that ok by simp
    from dict.store_unchanged [OF c(1) this] have "patty_dict_get d = patty_dict_get (cl_socks c)" by (simp add: d)
    then show ?thesis using d' assms(1) by (simp add: client_ok_def)
  qed
  show "patty_dict_get d key = Some (h_cnext c)" if "ok"
    using that ok dict_set_same [of m "cl_socks c" key "h_cnext c"] by (auto simp: d)
qed

lemma same_table_stored:
  "same_table c c' \<Longrightarrow> cl_socks c' = cl_socks c \<and> h_csocks c' = h_csocks c \<and> h_cnext c' = h_cnext c"
  by (simp add: same_table_def)

lemma open_sock_ok:
  assumes "client_ok c" and "open_sock sock c = Some (r, c')"
  shows "client_ok c'"
proof -
  have close: "client_ok c'" if "do { (r, c) \<leftarrow> request_close (cs_fd sock) c1; Some (-1, c) } = Some (r, c')"
    "client_ok c1" for c1
    using that by (auto elim!: bind_SomeE dest: request_close_socks client_ok_same)
  obtain fd c1 where 1: "sys sys_fd c = (fd, c1)" by (cases "sys sys_fd c")
  obtain r2 c2 where 2: "sys sys_call c1 = (r2, c2)" by (cases "sys sys_call c1")
  obtain r3 c3 where 3: "sys sys_call c2 = (r3, c3)" by (cases "sys sys_call c2")
  let ?st = "\<lambda>w. case dict_store (cl_socks c3) (word_of_int fd) (Some (h_cnext c3)) w of (ok, d, w) \<Rightarrow> ((ok, d), w)"
  obtain ok d c4 where 4: "sys ?st c3 = ((ok, d), c4)" by (cases "sys ?st c3") auto
  have ok: "client_ok c1" "client_ok c2" "client_ok c3" "client_ok c4"
    using 1 2 3 4 assms(1) by (blast dest: sys_socks client_ok_same)+
  have s: "cl_socks c4 = cl_socks c3" "h_cnext c4 = h_cnext c3" using sys_socks [OF 4] by (simp_all add: same_table_def)
  obtain w w' where st: "dict_store (cl_socks c4) (word_of_int fd) (Some (h_cnext c4)) w = (ok, d, w')"
    using 4 unfolding s by (auto simp: sys_def split: prod.splits)
  have closed: "client_ok (snd (sys (sys_close fd) cx))" if "client_ok cx" for cx
    using that by (rule client_ok_same [OF snd_sys_socks])
  show ?thesis
    using assms(2) close ok closed client_ok_stored(1,2) [OF ok(4) st]
    by (auto simp: open_sock_def Let_def 1 2 3 4 s split: if_splits)
qed

lemma patty_client_socket_ok:
  assumes "client_ok c" and "patty_client_socket proto type c = Some (r, c')"
  shows "client_ok c'"
  using assms
  by (auto simp: patty_client_socket_def transact_def split: prod.splits if_splits sum.splits simp del: write_all.simps
      elim!: bind_SomeE dest!: sys_socks write_all_socks) (blast dest: client_ok_same open_sock_ok)+

lemma patty_client_accept_ok:
  assumes "client_ok c" and "patty_client_accept fd c = Some (r, peer, c')"
  shows "client_ok c'"
proof (cases "sock_of fd c")
  case None
  then show ?thesis using assms by (auto simp: patty_client_accept_def)
next
  case (Some p)
  obtain m c1 where 1: "sys sys_call c = (m, c1)" by (cases "sys sys_call c")
  show ?thesis
    using assms Some sys_socks [OF 1]
    by (auto simp: patty_client_accept_def 1 split: prod.splits if_splits sum.splits simp del: write_all.simps
        elim!: bind_SomeE dest!: sys_socks write_all_socks take_response_socks) (blast dest: client_ok_same open_sock_ok)+
qed

lemma patty_client_close_ok:
  assumes "client_ok c" and "patty_client_close fd c = Some (r, c')"
  shows "client_ok c'"
proof (cases "sock_of fd c")
  case None
  then show ?thesis using assms by (auto simp: patty_client_close_def)
next
  case (Some p)
  have freed: "client_ok (c2\<lparr>cl_socks := snd (patty_dict_delete (cl_socks c2) (word_of_int fd)), h_csocks := (h_csocks c2)(p := None)\<rparr>)"
    if s: "same_table c c2" for c2
  proof -
    have c2: "client_ok c2" "patty_dict_get (cl_socks c2) (word_of_int fd) = Some p"
      using client_ok_same [OF s assms(1)] Some s by (simp_all add: sock_of_def same_table_def)
    show ?thesis
      using c2 no_null_delete [of "cl_socks c2"] dict.delete_range [of "cl_socks c2" "word_of_int fd"]
      unfolding client_ok_def by (simp, blast)
  qed
  show ?thesis
    using assms Some
    by (auto simp: patty_client_close_def split: prod.splits if_splits elim!: bind_SomeE
        dest!: sys_socks request_close_socks) (blast dest: client_ok_same intro: freed same_table_trans)+
qed

lemma patty_client_ping_ok:
  assumes "client_ok c" and "patty_client_ping c = Some (r, c')"
  shows "client_ok c'"
  using assms by (auto simp: patty_client_ping_def Let_def split: prod.splits if_splits sum.splits
      elim!: bind_SomeE dest!: sys_socks) (blast dest: client_ok_same)+

lemma patty_client_new_ok:
  "patty_client_new e path w = (Some c, w') \<Longrightarrow> client_ok c"
  by (auto simp: patty_client_new_def client_ok_def dict.lookup_empty dict.invar_empty split: prod.splits if_splits)

text \<open>The calls a program may make, in any order.\<close>

inductive client_step :: "client \<Rightarrow> client \<Rightarrow> bool" where
  ping: "patty_client_ping c = Some (r, c') \<Longrightarrow> client_step c c'"
| socket: "patty_client_socket proto type c = Some (r, c') \<Longrightarrow> client_step c c'"
| setsockopt: "patty_client_setsockopt fd opt data len c = Some (r, c') \<Longrightarrow> client_step c c'"
| bind: "patty_client_bind fd addr c = Some (r, c') \<Longrightarrow> client_step c c'"
| listen: "patty_client_listen fd c = Some (r, c') \<Longrightarrow> client_step c c'"
| accept: "patty_client_accept fd c = Some (r, peer, c') \<Longrightarrow> client_step c c'"
| connect: "patty_client_connect fd addr c = Some (r, c') \<Longrightarrow> client_step c c'"
| close: "patty_client_close fd c = Some (r, c') \<Longrightarrow> client_step c c'"
| sends: "patty_client_write buf c = (n, c') \<Longrightarrow> client_step c c'"
| reads: "patty_client_read len c = (bs, c') \<Longrightarrow> client_step c c'"

lemma client_step_ok: "client_step c c' \<Longrightarrow> client_ok c \<Longrightarrow> client_ok c'"
  by (induction rule: client_step.induct)
     (auto simp: patty_client_write_def patty_client_read_def
        intro: patty_client_ping_ok patty_client_socket_ok patty_client_accept_ok patty_client_close_ok
        client_ok_same [OF simple_calls_socks(1)] client_ok_same [OF simple_calls_socks(2)]
        client_ok_same [OF simple_calls_socks(3)] client_ok_same [OF simple_calls_socks(4)] client_ok_same [OF sys_socks])

lemma client_steps_ok: "client_step\<^sup>*\<^sup>* c c' \<Longrightarrow> client_ok c \<Longrightarrow> client_ok c'"
  by (induction rule: rtranclp_induct) (auto intro: client_step_ok)

section \<open>Destroying a client\<close>

lemma request_close_total: "\<exists>r c'. request_close fd c = Some (r, c') \<and> same_table c c'"
proof -
  have "\<exists>r c'. request_close fd c = Some (r, c')"
    by (auto simp: request_close_def take_response_def get_int_def get_u32_def slice_def simp del: write_all.simps
        split: prod.splits sum.splits)
  then show ?thesis by (blast dest: request_close_socks)
qed

lemma distinct_map_snd:
  assumes "distinct (map fst es)" and "\<And>k k' v. (k, v) \<in> set es \<Longrightarrow> (k', v) \<in> set es \<Longrightarrow> k = k'"
  shows "distinct (map snd es)"
  using assms
proof (induction es)
  case (Cons e es)
  have "snd e \<notin> snd ` set es"
  proof
    assume "snd e \<in> snd ` set es"
    then obtain k where k: "(k, snd e) \<in> set es" by auto
    then have "fst e = k" using Cons.prems(2) [of "fst e" "snd e" k] by simp
    with k Cons.prems(1) show False by force
  qed
  with Cons show ?case by auto
qed simp

lemma destroy_entries:
  assumes "distinct (map snd es)" and "\<forall>k v. (k, v) \<in> set es \<longrightarrow> (\<exists>p. v = Some p \<and> h_csocks c p \<noteq> None)"
  shows "\<exists>c'. entries_until destroy_sock es c = Some (0, c')
    \<and> h_csocks c' = (\<lambda>p. if Some p \<in> set (map snd es) then None else h_csocks c p)"
  using assms
proof (induction es arbitrary: c)
  case (Cons e es)
  obtain k p where e: "e = (k, Some p)" and p: "h_csocks c p \<noteq> None"
    using Cons.prems(2) [rule_format, of "fst e" "snd e"] by (cases e) auto
  then obtain sock where sock: "h_csocks c p = Some sock" by blast
  obtain r c1 where c1: "request_close (cs_fd sock) c = Some (r, c1)" "h_csocks c1 = h_csocks c"
    using request_close_total [of "cs_fd sock" c] by (auto simp: same_table_def)
  let ?c = "c1\<lparr>h_csocks := (h_csocks c1)(p := None)\<rparr>"
  have "\<exists>p. v = Some p \<and> h_csocks ?c p \<noteq> None" if "(k, v) \<in> set es" for k v
  proof -
    have "(k, v) \<in> set (e # es)" using that by simp
    then obtain p' where v: "v = Some p'" "h_csocks c p' \<noteq> None"
      using Cons.prems(2) by blast
    have "Some p' \<in> set (map snd es)" using that v(1) by force
    then have "p' \<noteq> p" using Cons.prems(1) e by auto
    with v c1(2) show ?thesis by simp
  qed
  with Cons.IH [of ?c] Cons.prems(1) obtain c' where
    c': "entries_until destroy_sock es ?c = Some (0, c')"
    "h_csocks c' = (\<lambda>p. if Some p \<in> set (map snd es) then None else h_csocks ?c p)" by auto
  have "destroy_sock k (Some p) c = Some (0, ?c)" using sock c1(1) by (simp add: destroy_sock_def)
  then have "entries_until destroy_sock (e # es) c = Some (0, c')" using c'(1) by (simp add: e)
  moreover have "h_csocks c' = (\<lambda>x. if Some x \<in> set (map snd (e # es)) then None else h_csocks c x)"
    using c'(2) c1(2) by (auto simp: e fun_eq_iff)
  ultimately show ?case by blast
qed (simp add: fun_eq_iff)

lemma destroy_frees:
  assumes "client_ok c"
  shows "\<exists>c'. patty_client_destroy c = Some c' \<and> (\<forall>k p. patty_dict_get (cl_socks c) k = Some p \<longrightarrow> h_csocks c' p = None)"
proof -
  let ?c = "snd (sys (sys_close (cl_fd c)) c)"
  have s: "cl_socks ?c = cl_socks c" "h_csocks ?c = h_csocks c"
    using snd_sys_socks [of c "sys_close (cl_fd c)"] by (simp_all add: same_table_def)
  have ok: "dict_ok (cl_socks c)" "no_null (cl_socks c)" using assms by (simp_all add: client_ok_def)
  have keep: "cl_socks c2 = cl_socks c1" if "destroy_sock k v c1 = Some (r, c2)" for k v c1 r c2
    using that by (auto simp: destroy_sock_def elim!: bind_SomeE dest!: request_close_socks simp: same_table_def)
  let ?es = "entries (cl_socks c)"
  have es: "\<exists>p. v = Some p \<and> patty_dict_get (cl_socks c) k = Some p \<and> h_csocks c p \<noteq> None" if "(k, v) \<in> set ?es" for k v
    using no_null_entries [OF ok that] assms by (auto simp: client_ok_def)
  have "distinct (map snd ?es)"
  proof (rule distinct_map_snd)
    show "distinct (map fst ?es)" using entries_spec(2) [OF ok(1)] .
    show "k = k'" if "(k, v) \<in> set ?es" "(k', v) \<in> set ?es" for k k' v
      using es [OF that(1)] es [OF that(2)] assms by (auto simp: client_ok_def)
  qed
  then obtain c' where c': "entries_until destroy_sock ?es ?c = Some (0, c')"
    "h_csocks c' = (\<lambda>p. if Some p \<in> set (map snd ?es) then None else h_csocks ?c p)"
    using destroy_entries [of ?es ?c] es unfolding s(2) by blast
  have "patty_client_destroy c = Some c'"
    using c'(1) patty_dict_each_keeps [of destroy_sock cl_socks ?c, OF keep] s(1) by (simp add: patty_client_destroy_def)
  moreover have "h_csocks c' p = None" if "patty_dict_get (cl_socks c) k = Some p" for k p
    using entries_get [OF ok(1), of k p] that c'(2) by force
  ultimately show ?thesis by blast
qed

section \<open>A call and the server\<close>

definition with_script :: "reply list \<Rightarrow> client \<Rightarrow> client" where
  "with_script rs c = c\<lparr>cl_world := (cl_world c)\<lparr>script := rs\<rparr>\<rparr>"

text \<open>What the server answers to messages of a client, when nothing else disturbs it.\<close>

definition serve :: "int \<Rightarrow> byte list list \<Rightarrow> 'p server \<Rightarrow> (byte list \<times> 'p server) option" where
  "serve client msgs s =
     do { (r, s') \<leftarrow> handle_client (word_of_int client) None (s\<lparr>sv_world := (sv_world s)\<lparr>script := map RBytes msgs\<rparr>\<rparr>);
          Some (stream_of client (drop (length (out (sv_world s))) (out (sv_world s'))), s') }"

text \<open>A client that makes a call of two messages and gets \<open>answer\<close>.\<close>

definition told :: "(client \<Rightarrow> (int \<times> client) option) \<Rightarrow> client \<Rightarrow> byte list list \<Rightarrow> byte list \<Rightarrow> int \<Rightarrow> client \<Rightarrow> bool" where
  "told call c msgs answer ret c' \<longleftrightarrow> call (with_script (map (\<lambda>_. ROk) msgs @ [RBytes answer]) c) = Some (ret, c')
     \<and> out (cl_world c') = out (cl_world c) @ map (Pair (cl_fd c)) msgs"

lemma write_all_quiet:
  assumes "script (cl_world c) = map (\<lambda>_. ROk) ms @ rs"
  shows "write_all ms c = (True, c\<lparr>cl_world := (cl_world c)\<lparr>script := rs, out := out (cl_world c) @ map (Pair (cl_fd c)) ms,
    err := (if ms = [] then err (cl_world c) else None)\<rparr>\<rparr>)"
  using assms
proof (induction ms arbitrary: c)
  case (Cons m ms)
  let ?c = "c\<lparr>cl_world := (cl_world c)\<lparr>script := map (\<lambda>_. ROk) ms @ rs, out := out (cl_world c) @ [(cl_fd c, m)], err := None\<rparr>\<rparr>"
  have "sys (sys_write (cl_fd c) m) c = (int (length m), ?c)"
    using Cons.prems by (simp add: sys_def sys_write_def sys_call_def)
  with Cons.IH [of ?c] show ?case by simp
qed simp

lemma told_simple:
  assumes "sock_of fd c = Some p" and "h_csocks c p = Some sock"
    and "call = with_sock fd (\<lambda>sock. transact n [req sock] 8 take_response)"
  shows "\<exists>c'. told call c [put_int (call_num n), req sock] (put_response ret en) (sint (word_of_int ret :: u32)) c'
    \<and> cl_errno c' = sint (word_of_int en :: u32) \<and> same_table c c'"
proof -
  define c0 where "c0 = with_script (map (\<lambda>_. ROk) [put_int (call_num n), req sock] @ [RBytes (put_response ret en)]) c"
  have c0: "same_table c c0" "script (cl_world c0) = [ROk, ROk, RBytes (put_response ret en)]" "out (cl_world c0) = out (cl_world c)"
    by (simp_all add: same_table_def with_script_def c0_def)
  have s: "sock_of fd c0 = Some p" "h_csocks c0 p = Some sock" "cl_fd c0 = cl_fd c"
    using assms(1,2) c0(1) by (simp_all add: same_table_def sock_of_def)
  have get: "get_int (put_response ret en) 0 = Some (sint (word_of_int ret :: u32))"
    "get_int (put_response ret en) 4 = Some (sint (word_of_int en :: u32))" "length (put_response ret en) = 8"
    using get_int_put [of "[]" 0 ret "put_int en"] get_int_put [of "put_int ret" 4 en "[]"] by (simp_all add: put_response_def)
  have w: "write_all [put_int (call_num n), req sock] c0 = (True, c0\<lparr>cl_world := (cl_world c0)\<lparr>script := [RBytes (put_response ret en)],
      out := out (cl_world c0) @ [(cl_fd c0, put_int (call_num n)), (cl_fd c0, req sock)], err := None\<rparr>\<rparr>)"
    using write_all_quiet [of c0 "[put_int (call_num n), req sock]" "[RBytes (put_response ret en)]"] c0(2) by simp
  have "\<exists>c'. call c0 = Some (sint (word_of_int ret :: u32), c') \<and> cl_errno c' = sint (word_of_int en :: u32) \<and> same_table c0 c'
    \<and> out (cl_world c') = out (cl_world c0) @ [(cl_fd c0, put_int (call_num n)), (cl_fd c0, req sock)]"
    using s get by (simp add: assms(3) with_sock_def transact_def w sys_def sys_read_def take_response_def same_table_def del: write_all.simps)
  then obtain c' where c': "call c0 = Some (sint (word_of_int ret :: u32), c')" "cl_errno c' = sint (word_of_int en :: u32)"
    "same_table c0 c'" "out (cl_world c') = out (cl_world c) @ map (Pair (cl_fd c)) [put_int (call_num n), req sock]"
    using c0(3) s(3) by auto
  then have "told call c [put_int (call_num n), req sock] (put_response ret en) (sint (word_of_int ret :: u32)) c'"
    unfolding told_def c0_def by blast
  with c' c0(1) same_table_trans show ?thesis by blast
qed

lemma serve_call:
  assumes "fd_ok client" and "sv_fds_r s client" and "server_calls ! nat (call_num n) = Some f" and "n \<noteq> PATTY_CLIENT_NONE"
    and "n \<noteq> PATTY_CLIENT_CALL_COUNT" and "f client (s\<lparr>sv_world := (sv_world s)\<lparr>script := [RBytes m]\<rparr>\<rparr>) = Some (r, s')"
    and "out (sv_world s') = out (sv_world s) @ [(client, answer)]"
  shows "serve client [put_int (call_num n), m] s = Some (answer, s')"
proof -
  have c: "sint (word_of_int client :: u32) = client"
    using assms(1) by (simp add: fd_ok_def FD_SETSIZE_def sint_word_of_int_u32)
  have n: "0 < call_num n" "call_num n < call_num PATTY_CLIENT_CALL_COUNT" using assms(4,5) by (cases n; simp)+
  have g: "get_int (put_int (call_num n)) 0 = Some (call_num n)" "put_int (call_num n) \<noteq> []"
    using get_int_put [of "[]" 0 "call_num n" "[]"] n by (simp_all add: sint_word_of_int_u32 put_int_def put_u32_def)
  show ?thesis
    using assms n g by (simp add: serve_def handle_client_def c Let_def fd_isset_def with_request_def on_world_def sys_read_def)
qed

lemma serve_bind:
  assumes "fd_ok client" and "sv_fds_r s client" and "sock_by_fd (sv_socks_by_fd s) fd = Some q" and "h_socks s q = Some k"
    and "callsign (s_local k) ! 0 = 0" and "sock_by_addr (sv_socks_local s) addr = None" and "length (callsign addr) = 6"
    and "0 \<le> fd" and "fd < 2 ^ 31"
  shows "\<exists>s'. serve client [put_int (call_num PATTY_CLIENT_BIND), put_addr_request 0 \<lparr>rq_afd = fd, rq_addr = addr\<rparr>] s
      = Some (put_response 0 0, s') \<and> h_socks s' = (h_socks s)(q \<mapsto> k\<lparr>s_local := addr\<rparr>)
    \<and> sv_socks_local s' = sv_socks_local s \<and> sv_socks_by_fd s' = sv_socks_by_fd s \<and> sv_fds_r s' = sv_fds_r s"
proof -
  let ?m = "put_addr_request 0 \<lparr>rq_afd = fd, rq_addr = addr\<rparr>"
  let ?s = "s\<lparr>sv_world := (sv_world s)\<lparr>script := []\<rparr>, h_socks := (h_socks s)(q \<mapsto> k\<lparr>s_local := addr\<rparr>)\<rparr>"
  let ?s' = "?s\<lparr>sv_world := (sv_world ?s)\<lparr>out := out (sv_world s) @ [(client, put_response 0 0)]\<rparr>\<rparr>"
  have req: "get_addr_request ?m = Some \<lparr>rq_afd = fd, rq_addr = addr\<rparr>" "length ?m = 12"
    using get_addr_request_put [of "\<lparr>rq_afd = fd, rq_addr = addr\<rparr>" 0] assms(7-9)
    by (simp_all add: sint_word_of_int_u32 put_addr_request_def put_addr_def)
  have "server_bind client (s\<lparr>sv_world := (sv_world s)\<lparr>script := [RBytes ?m]\<rparr>\<rparr>) = Some (8, ?s')"
    using assms(3-6) req
    by (simp add: server_bind_def with_request_def on_world_def sys_read_def upd_sock_def respond_def put_response_def)
  from serve_call [where f = server_bind and s = s, OF assms(1,2) _ _ _ this, of PATTY_CLIENT_BIND "put_response 0 0"] show ?thesis
    by (simp add: server_calls_def)
qed

lemma serve_listen:
  assumes "fd_ok client" and "sv_fds_r s client" and "sock_by_fd (sv_socks_by_fd s) fd = Some q" and "h_socks s q = Some k"
    and "callsign (s_local k) ! 0 \<noteq> 0" and "0 \<le> fd" and "fd < 2 ^ 31"
    and "fst (patty_dict_set True (sv_socks_local s) (hash_addr (s_local k)) (Some q)) \<noteq> None"
  shows "\<exists>s'. serve client [put_int (call_num PATTY_CLIENT_LISTEN), put_int fd] s = Some (put_response 0 0, s')
    \<and> h_socks s' = (h_socks s)(q \<mapsto> k\<lparr>s_state := PATTY_AX25_SOCK_LISTENING\<rparr>)
    \<and> sock_by_addr (sv_socks_local s') (s_local k) = Some q"
proof -
  let ?d = "snd (patty_dict_set True (sv_socks_local s) (hash_addr (s_local k)) (Some q))"
  let ?s = "s\<lparr>sv_world := (sv_world s)\<lparr>script := []\<rparr>, h_socks := (h_socks s)(q \<mapsto> k\<lparr>s_state := PATTY_AX25_SOCK_LISTENING\<rparr>), sv_socks_local := ?d\<rparr>"
  let ?s' = "?s\<lparr>sv_world := (sv_world ?s)\<lparr>out := out (sv_world s) @ [(client, put_response 0 0)]\<rparr>\<rparr>"
  have req: "get_int (put_int fd) 0 = Some fd"
    using get_int_put [of "[]" 0 fd "[]"] assms(6,7) by (simp add: sint_word_of_int_u32)
  obtain r d where rd: "patty_dict_set True (sv_socks_local s) (hash_addr (s_local k)) (Some q) = (Some r, d)"
    using assms(8) by (cases "patty_dict_set True (sv_socks_local s) (hash_addr (s_local k)) (Some q)") auto
  have "server_listen client (s\<lparr>sv_world := (sv_world s)\<lparr>script := [RBytes (put_int fd)]\<rparr>\<rparr>) = Some (8, ?s')"
    using assms(3-5) req rd
    by (simp add: server_listen_def with_request_def on_world_def sys_read_def upd_sock_def respond_def put_response_def
        sock_save_local_def dict_store_def sys_call_def)
  from serve_call [where f = server_listen and s = s, OF assms(1,2) _ _ _ this, of PATTY_CLIENT_LISTEN "put_response 0 0"]
  have "serve client [put_int (call_num PATTY_CLIENT_LISTEN), put_int fd] s = Some (put_response 0 0, ?s')"
    by (simp add: server_calls_def)
  moreover have "sock_by_addr ?d (s_local k) = Some q"
    using dict_set_same [of True "sv_socks_local s" "hash_addr (s_local k)" q r] rd by (simp add: sock_by_addr_def hash_addr_def)
  ultimately show ?thesis by simp
qed

section \<open>Properties\<close>

text \<open>
  C15: The sockets of a client are alive. Whatever calls a program makes, and whatever the system and
  the server answer, the dictionary of the client leads from every terminal to a socket of its own
  that has not been freed; so destroying the client never touches freed memory, returns, and frees
  every socket that the dictionary still knows.
\<close>
theorem client_socks_live:
  assumes "patty_client_new e path w = (Some c0, w0)" and "client_step\<^sup>*\<^sup>* c0 c"
  shows "client_ok c \<and> (\<exists>c'. patty_client_destroy c = Some c'
    \<and> (\<forall>fd p. sock_of fd c = Some p \<longrightarrow> h_csocks c p \<noteq> None \<and> h_csocks c' p = None))"
proof -
  have ok: "client_ok c" using client_steps_ok [OF assms(2)] patty_client_new_ok [OF assms(1)] .
  moreover have "h_csocks c p \<noteq> None" if "sock_of fd c = Some p" for fd p
    using ok that unfolding client_ok_def sock_of_def by blast
  ultimately show ?thesis using destroy_frees [OF ok] unfolding sock_of_def by blast
qed

text \<open>
  C14: A client makes the server listen. If a client that holds a socket of the server binds it to an
  address and then listens, and the two sides read what the other wrote, both calls succeed without
  an error number, and the server's socket is listening under exactly that address, where frames that
  arrive look it up. (The address must be free, the socket unbound, and the server must have memory
  for the entry.)
\<close>
theorem client_listen_served:
  assumes "sock_of fd c = Some p" and "h_csocks c p = Some \<lparr>cs_fd = sfd, cs_path = path\<rparr>" and "0 \<le> sfd" and "sfd < 2 ^ 31"
    and "fd_ok client" and "sv_fds_r s client" and "sock_by_fd (sv_socks_by_fd s) sfd = Some q" and "h_socks s q = Some k"
    and "callsign (s_local k) ! 0 = 0" and "sock_by_addr (sv_socks_local s) addr = None"
    and "length (callsign addr) = 6" and "callsign addr ! 0 \<noteq> 0"
    and "fst (patty_dict_set True (sv_socks_local s) (hash_addr addr) (Some q)) \<noteq> None"
  shows "\<exists>m1 r1 c1 s1 m2 r2 c2 s2.
      told (patty_client_bind fd addr) c m1 r1 0 c1 \<and> serve client m1 s = Some (r1, s1) \<and> cl_errno c1 = 0
    \<and> told (patty_client_listen fd) c1 m2 r2 0 c2 \<and> serve client m2 s1 = Some (r2, s2) \<and> cl_errno c2 = 0
    \<and> h_socks s2 q = Some (k\<lparr>s_local := addr, s_state := PATTY_AX25_SOCK_LISTENING\<rparr>)
    \<and> sock_by_addr (sv_socks_local s2) addr = Some q"
proof -
  let ?m1 = "[put_int (call_num PATTY_CLIENT_BIND), put_addr_request 0 \<lparr>rq_afd = sfd, rq_addr = addr\<rparr>]"
  let ?m2 = "[put_int (call_num PATTY_CLIENT_LISTEN), put_int sfd]"
  obtain c1 where c1: "told (patty_client_bind fd addr) c ?m1 (put_response 0 0) 0 c1" "cl_errno c1 = 0" "same_table c c1"
    using told_simple [OF assms(1,2), of "patty_client_bind fd addr" PATTY_CLIENT_BIND
        "\<lambda>sock. put_addr_request 0 \<lparr>rq_afd = cs_fd sock, rq_addr = addr\<rparr>" 0 0]
    by (auto simp: patty_client_bind_def)
  obtain s1 where s1: "serve client ?m1 s = Some (put_response 0 0, s1)" "h_socks s1 = (h_socks s)(q \<mapsto> k\<lparr>s_local := addr\<rparr>)"
    "sv_socks_local s1 = sv_socks_local s" "sv_socks_by_fd s1 = sv_socks_by_fd s" "sv_fds_r s1 = sv_fds_r s"
    using serve_bind [OF assms(5-11,3,4)] by blast
  have "sock_of fd c1 = Some p" "h_csocks c1 p = Some \<lparr>cs_fd = sfd, cs_path = path\<rparr>"
    using c1(3) assms(1,2) by (simp_all add: same_table_def sock_of_def)
  from told_simple [OF this, of "patty_client_listen fd" PATTY_CLIENT_LISTEN "\<lambda>sock. put_int (cs_fd sock)" 0 0]
  obtain c2 where c2: "told (patty_client_listen fd) c1 ?m2 (put_response 0 0) 0 c2" "cl_errno c2 = 0"
    by (auto simp: patty_client_listen_def)
  obtain s2 where "serve client ?m2 s1 = Some (put_response 0 0, s2)"
    "h_socks s2 q = Some (k\<lparr>s_local := addr, s_state := PATTY_AX25_SOCK_LISTENING\<rparr>)" "sock_by_addr (sv_socks_local s2) addr = Some q"
    using serve_listen [of client s1 sfd q "k\<lparr>s_local := addr\<rparr>"] s1 assms(3-7,12,13) by auto
  with c1 c2 s1(1) show ?thesis by blast
qed

definition demo_conn :: client where
  "demo_conn = \<lparr>cl_fd = 3, cl_socks = snd (patty_dict_set True patty_dict_new 4 (Some 1)), h_csocks = [1 \<mapsto> \<lparr>cs_fd = 7, cs_path = []\<rparr>],
     h_cnext = 2, cl_errno = 0, cl_world = world0 []\<rparr>"

lemma client_listen_served_witness:
  "\<forall>ev. \<exists>m1 r1 c1 s1 m2 r2 c2 s2.
      told (patty_client_bind 4 (addr_of [0x41] 0)) demo_conn m1 r1 0 c1
    \<and> serve 5 m1 ((demo_client ev)\<lparr>h_socks := [1 \<mapsto> sock_zero], sv_fds_r := (\<lambda>_. True), sv_socks_by_fd := snd (patty_dict_set True patty_dict_new 7 (Some 1))\<rparr>)
        = Some (r1, s1)
    \<and> told (patty_client_listen 4) c1 m2 r2 0 c2 \<and> serve 5 m2 s1 = Some (r2, s2)
    \<and> sock_by_addr (sv_socks_local s2) (addr_of [0x41] 0) = Some 1"
proof
  fix ev
  let ?s = "(demo_client ev)\<lparr>h_socks := [1 \<mapsto> sock_zero], sv_fds_r := (\<lambda>_. True), sv_socks_by_fd := snd (patty_dict_set True patty_dict_new 7 (Some 1))\<rparr>"
  have c: "sock_of 4 demo_conn = Some 1" "h_csocks demo_conn 1 = Some \<lparr>cs_fd = 7, cs_path = []\<rparr>"
    by (simp_all add: demo_conn_def sock_of_def get_singleton)
  have f: "sock_by_fd (sv_socks_by_fd ?s) 7 = Some 1" by (simp add: sock_by_fd_def get_singleton)
  have s: "fd_ok 5" "sv_fds_r ?s 5" "h_socks ?s 1 = Some sock_zero"
    "callsign (s_local sock_zero) ! 0 = 0" "sock_by_addr (sv_socks_local ?s) (addr_of [0x41] 0) = None"
    "length (callsign (addr_of [0x41] 0)) = 6" "callsign (addr_of [0x41] 0) ! 0 \<noteq> 0"
    "fst (patty_dict_set True (sv_socks_local ?s) (hash_addr (addr_of [0x41] 0)) (Some 1)) \<noteq> None"
    by (simp_all add: fd_ok_def FD_SETSIZE_def sock_zero_def addr_zero_def addr_of_def demo_client_def
        server_zero_def sock_by_addr_def dict.lookup_empty dict_set_new_eq)
  from client_listen_served [OF c _ _ s(1,2) f s(3-)]
  show "\<exists>m1 r1 c1 s1 m2 r2 c2 s2. told (patty_client_bind 4 (addr_of [0x41] 0)) demo_conn m1 r1 0 c1 \<and> serve 5 m1 ?s = Some (r1, s1)
    \<and> told (patty_client_listen 4) c1 m2 r2 0 c2 \<and> serve 5 m2 s1 = Some (r2, s2)
    \<and> sock_by_addr (sv_socks_local s2) (addr_of [0x41] 0) = Some 1"
    by simp blast
qed

lemma get_path_put:
  assumes "is_cstring path" and "length path < 255"
  shows "get_path (a @ put_path path) (length a) = Some path"
proof -
  have "strlcpy_loop n (path @ replicate m 0) = path" if "length path \<le> n" "is_cstring path" for n m
    using that
  proof (induction path arbitrary: n)
    case Nil
    then show ?case by (cases n; cases m) simp_all
  next
    case (Cons c cs)
    then show ?case by (cases n) (auto simp: is_cstring_def)
  qed
  from this [of 255 "256 - length path"] assms show ?thesis
    by (simp add: get_path_def put_path_def PATTY_AX25_SOCK_PATH_SIZE_def patty_strlcpy_def Let_def)
qed

definition demo_script :: "reply list" where
  "demo_script = [ROk, ROk, RVal 3, ROk, ROk, ROk, ROk, RBytes (put_socket_response 9 0 [0x2f]), RVal 4]"

lemma client_socks_live_witness:
  "\<exists>c0 w0 c c'. patty_client_new 0 (Some [0x2f]) (world0 demo_script) = (Some c0, w0) \<and> patty_client_socket 0 0 c0 = Some (4, c)
    \<and> sock_of 4 c = Some 1 \<and> h_csocks c 1 = Some \<lparr>cs_fd = 9, cs_path = [0x2f]\<rparr> \<and> patty_client_destroy c = Some c' \<and> h_csocks c' 1 = None"
proof -
  let ?r = "put_socket_response 9 0 [0x2f]"
  have path: "get_path ?r 8 = Some [0x2f]"
    using get_path_put [of "[0x2f]" "put_int 9 @ put_int 0"] by (simp add: put_socket_response_def is_cstring_def)
  have ints: "get_int ?r 0 = Some 9" "get_int ?r 4 = Some 0" "length ?r = 264"
    using get_int_put [of "[]" 0 9 "put_int 0 @ put_path [0x2f]"] get_int_put [of "put_int 9" 4 0 "put_path [0x2f]"]
    by (simp_all add: put_socket_response_def put_path_def PATTY_AX25_SOCK_PATH_SIZE_def)
  obtain c0 w0 where new: "patty_client_new 0 (Some [0x2f]) (world0 demo_script) = (Some c0, w0)"
    and c0: "script (cl_world c0) = [ROk, ROk, ROk, RBytes ?r, RVal 4]" "cl_socks c0 = patty_dict_new" "h_cnext c0 = 1" "cl_fd c0 = 3"
    by (simp add: patty_client_new_def demo_script_def world0_def sys_call_def sys_fd_def find_sock_def sys_connect_def sys_write_def)
  obtain c where c: "patty_client_socket 0 0 c0 = Some (4, c)" "cl_socks c = snd (patty_dict_set True patty_dict_new 4 (Some 1))"
    "h_csocks c 1 = Some \<lparr>cs_fd = 9, cs_path = [0x2f]\<rparr>"
    using path ints c0
    by (simp add: patty_client_socket_def transact_def sys_def sys_call_def sys_write_def sys_read_def sys_fd_def open_sock_def
        dict_store_def dict_set_new_eq Let_def)
  have "sock_of 4 c = Some 1" using c(2) by (simp add: sock_of_def get_singleton)
  moreover have "client_step\<^sup>*\<^sup>* c0 c" using client_step.socket [OF c(1)] by blast
  ultimately show ?thesis using client_socks_live [OF new, of c] new c(1,3) by blast
qed

end
