(* ===== verification/Patty_Aprs.thy ===== *)
theory Patty_Aprs
  imports Patty_If
begin

text \<open>
  The second device driver: \<open>src/src/aprs_is.c\<close>, which exchanges UI frames with an APRS-IS
  server as lines of text, \<open>SOURCE>DEST,REPEATER:payload\<close>.

  Modelled: the connection with its login line, filling, draining (the state machine over header,
  comment and payload), flushing and sending, and the table of driver functions. \<open>snprintf\<close> stores
  at most its size, the NUL included; the result of \<open>getaddrinfo\<close> is a reply of the system whose
  bytes are the socket types of the addresses found. As in the KISS driver \<open>readlen\<close> is compared as
  a \<open>size_t\<close>. The lemmas show that the driver keeps the contract of interfaces, and that what is
  sent as a line is drained as the same frame.
\<close>

section \<open>State\<close>

definition PATTY_AX25_APRS_IS_PAYLOAD_MAX :: nat where "PATTY_AX25_APRS_IS_PAYLOAD_MAX = 256"
definition PATTY_AX25_APRS_IS_PACKET_MAX :: nat where "PATTY_AX25_APRS_IS_PACKET_MAX = 512"
definition PATTY_AX25_APRS_IS_FRAME_MAX :: nat where "PATTY_AX25_APRS_IS_FRAME_MAX = PATTY_AX25_APRS_IS_PACKET_MAX"
definition PATTY_AX25_APRS_IS_ATTEMPTS_MAX :: nat where "PATTY_AX25_APRS_IS_ATTEMPTS_MAX = 3"

lemmas aprs_sizes [simp] = PATTY_AX25_APRS_IS_PAYLOAD_MAX_def PATTY_AX25_APRS_IS_PACKET_MAX_def
  PATTY_AX25_APRS_IS_FRAME_MAX_def PATTY_AX25_APRS_IS_ATTEMPTS_MAX_def

record aprs_is_info =
  ai_host :: "cstring option"
  ai_port :: "cstring option"
  ai_user :: cstring
  ai_pass :: cstring
  ai_appname :: cstring
  ai_version :: cstring
  ai_filter :: cstring

datatype aprs_state = APRS_IS_HEADER | APRS_IS_COMMENT | APRS_IS_BODY | APRS_IS_COMPLETE

record aprs_is =
  ap_stats :: if_stats
  ap_info :: aprs_is_info
  ap_fd :: int
  ap_rx_buf :: "byte list"
  ap_tx_buf :: "byte list"
  ap_call :: "byte list"
  ap_body :: "byte list"
  ap_frame :: frame
  ap_rx_bufsz :: nat
  ap_tx_bufsz :: nat
  ap_bodysz :: nat
  ap_state :: aprs_state
  ap_offset_i :: nat
  ap_offset_call :: nat
  ap_offset_body :: nat
  ap_readlen :: size_t
  ap_encoded :: int

section \<open>Connecting\<close>

text \<open>\<open>snprintf(buf + off, n, "%s", text)\<close>\<close>

definition snprintf :: "byte list \<Rightarrow> nat \<Rightarrow> nat \<Rightarrow> cstring \<Rightarrow> (int \<times> byte list) option" where
  "snprintf buf off n text =
     (if n = 0 then Some (int (length text), buf)
      else do { buf \<leftarrow> blit buf off (take (n - 1) text @ [0]); Some (int (length text), buf) })"

text \<open>
  \<open>aprs_is_vprintf\<close> and \<open>aprs_is_printf\<close>: the length of the whole text is written, although
  \<open>tx_buf\<close> holds at most 511 bytes of it.
\<close>

definition aprs_is_printf :: "cstring \<Rightarrow> aprs_is \<Rightarrow> world \<Rightarrow> (int \<times> aprs_is \<times> world) option" where
  "aprs_is_printf text aprs w =
     do { (len, buf) \<leftarrow> snprintf (ap_tx_buf aprs) 0 PATTY_AX25_APRS_IS_PACKET_MAX text;
          bs \<leftarrow> slice buf 0 (nat len);
          case sys_write (ap_fd aprs) bs w of (r, w) \<Rightarrow> Some (r, aprs\<lparr>ap_tx_buf := buf\<rparr>, w) }"

definition login_text :: "aprs_is_info \<Rightarrow> cstring" where
  "login_text info = cstr ''user '' @ ai_user info @ cstr '' pass '' @ ai_pass info @ cstr '' vers ''
     @ ai_appname info @ cstr '' '' @ ai_version info @ cstr '' filter '' @ ai_filter info @ [0x0d, 0x0a]"

definition SOCK_STREAM :: byte where "SOCK_STREAM = 1"

definition sys_getaddrinfo :: "world \<Rightarrow> byte list option \<times> world" where
  "sys_getaddrinfo w = (case script w of
       [] \<Rightarrow> (Some [], w)
     | r # rs \<Rightarrow> (case r of RErr e \<Rightarrow> (None, w\<lparr>script := rs, err := Some e\<rparr>)
                          | RBytes bs \<Rightarrow> (Some bs, w\<lparr>script := rs\<rparr>)
                          | _ \<Rightarrow> (Some [], w\<lparr>script := rs\<rparr>)))"

text \<open>The loop over the addresses; when it runs out, the last descriptor is closed (again).\<close>

fun aprs_connect_loop :: "byte list \<Rightarrow> aprs_is_info \<Rightarrow> aprs_is \<Rightarrow> world \<Rightarrow> (int \<times> aprs_is \<times> world) option" where
  "aprs_connect_loop [] info aprs w = Some (-1, aprs, snd (sys_close (ap_fd aprs) w))"
| "aprs_connect_loop (ai # ais) info aprs w =
     (if ai \<noteq> SOCK_STREAM then aprs_connect_loop ais info aprs w
      else case sys_fd w of (fd, w) \<Rightarrow>
      let aprs = aprs\<lparr>ap_fd := fd\<rparr> in
      if fd < 0 then aprs_connect_loop ais info aprs w
      else case sys_call w of (r, w) \<Rightarrow>
      if r < 0 then aprs_connect_loop ais info aprs (snd (sys_close fd w))
      else do { (r, aprs, w) \<leftarrow> aprs_is_printf (login_text info) aprs w;
                if r < 0 then Some (-1, aprs, snd (sys_close (ap_fd aprs) w)) else Some (0, aprs, w) })"

definition aprs_is_connect :: "aprs_is_info \<Rightarrow> aprs_is \<Rightarrow> world \<Rightarrow> (int \<times> aprs_is \<times> world) option" where
  "aprs_is_connect info aprs w =
     (case sys_getaddrinfo w of
        (None, w) \<Rightarrow> Some (-1, aprs, w)
      | (Some ais, w) \<Rightarrow> aprs_connect_loop ais info aprs w)"

definition info_zero :: aprs_is_info where
  "info_zero = \<lparr>ai_host = None, ai_port = None, ai_user = [], ai_pass = [], ai_appname = [], ai_version = [], ai_filter = []\<rparr>"

text \<open>The structure after \<open>memset\<close> and the four assignments of \<open>patty_ax25_aprs_is_new\<close>.\<close>

definition aprs_init :: aprs_is where
  "aprs_init = \<lparr>ap_stats = stats_zero, ap_info = info_zero, ap_fd = 0,
     ap_rx_buf = replicate PATTY_AX25_APRS_IS_PACKET_MAX 0, ap_tx_buf = replicate PATTY_AX25_APRS_IS_FRAME_MAX 0,
     ap_call = replicate (PATTY_AX25_ADDRSTRLEN + 1) 0, ap_body = replicate PATTY_AX25_APRS_IS_PAYLOAD_MAX 0,
     ap_frame = frame_zero, ap_rx_bufsz = PATTY_AX25_APRS_IS_PACKET_MAX, ap_tx_bufsz = PATTY_AX25_APRS_IS_FRAME_MAX,
     ap_bodysz = PATTY_AX25_APRS_IS_PAYLOAD_MAX, ap_state = APRS_IS_HEADER,
     ap_offset_i = 0, ap_offset_call = 0, ap_offset_body = 0, ap_readlen = 0, ap_encoded = 0\<rparr>"

definition patty_ax25_aprs_is_new :: "aprs_is_info \<Rightarrow> world \<Rightarrow> (aprs_is option \<times> world) option" where
  "patty_ax25_aprs_is_new info w =
     (case sys_call w of (m, w) \<Rightarrow>
      if m < 0 then Some (None, w)
      else do { (r, aprs, w) \<leftarrow> aprs_is_connect info aprs_init w;
                if r < 0 then Some (None, snd (sys_close (ap_fd aprs) w))
                else Some (Some (aprs\<lparr>ap_info := info\<rparr>), w) })"

definition patty_ax25_aprs_is_destroy :: "aprs_is \<Rightarrow> world \<Rightarrow> world" where
  "patty_ax25_aprs_is_destroy aprs w = snd (sys_close (ap_fd aprs) w)"

definition patty_ax25_aprs_is_stats :: "aprs_is \<Rightarrow> if_stats" where
  "patty_ax25_aprs_is_stats aprs = ap_stats aprs"

definition patty_ax25_aprs_is_fd :: "aprs_is \<Rightarrow> int" where
  "patty_ax25_aprs_is_fd aprs = ap_fd aprs"

definition patty_ax25_aprs_is_ready :: "aprs_is \<Rightarrow> (int \<Rightarrow> bool) \<Rightarrow> bool" where
  "patty_ax25_aprs_is_ready aprs fds = fds (ap_fd aprs)"

text \<open>The attempts of \<open>patty_ax25_aprs_is_reset\<close>.\<close>

fun reset_attempts :: "nat \<Rightarrow> aprs_is \<Rightarrow> world \<Rightarrow> (int \<times> aprs_is \<times> world) option" where
  "reset_attempts 0 aprs w = Some (-1, aprs, w)"
| "reset_attempts (Suc n) aprs w =
     do { (r, aprs, w) \<leftarrow> aprs_is_connect (ap_info aprs) aprs w;
          if r = 0 then Some (ap_fd aprs, aprs, w) else reset_attempts n aprs w }"

definition patty_ax25_aprs_is_reset :: "aprs_is \<Rightarrow> world \<Rightarrow> (int \<times> aprs_is \<times> world) option" where
  "patty_ax25_aprs_is_reset aprs w =
     reset_attempts PATTY_AX25_APRS_IS_ATTEMPTS_MAX aprs (snd (sys_close (ap_fd aprs) w))"

section \<open>Receiving\<close>

definition patty_ax25_aprs_is_fill :: "aprs_is \<Rightarrow> world \<Rightarrow> int \<times> aprs_is \<times> world" where
  "patty_ax25_aprs_is_fill aprs w =
     (case sys_read (ap_rx_bufsz aprs) w of
        (Inl e, w) \<Rightarrow> (-1, aprs\<lparr>ap_readlen := -1\<rparr>, w)
      | (Inr bs, w) \<Rightarrow>
          (int (length bs),
           aprs\<lparr>ap_rx_buf := bs @ drop (length bs) (ap_rx_buf aprs), ap_readlen := of_nat (length bs), ap_offset_i := 0\<rparr>,
           w))"

definition patty_ax25_aprs_is_pending :: "aprs_is \<Rightarrow> bool" where
  "patty_ax25_aprs_is_pending aprs \<longleftrightarrow> ap_state aprs = APRS_IS_COMPLETE"

definition patty_ax25_aprs_is_flush :: "aprs_is \<Rightarrow> int \<times> aprs_is" where
  "patty_ax25_aprs_is_flush aprs =
     (ap_encoded aprs,
      aprs\<lparr>ap_state := APRS_IS_HEADER, ap_offset_i := unat (ap_readlen aprs), ap_offset_call := 0,
           ap_offset_body := 0, ap_encoded := 0, ap_frame := frame_zero\<rparr>)"

datatype aprs_jump = APRS_NEXT | APRS_DONE | APRS_DROP | APRS_ERROR errno

text \<open>\<open>if (addr)\<close>: the text collected in \<open>call\<close> becomes the address that \<open>put\<close> stores.\<close>

definition aprs_addr ::
  "(frame \<Rightarrow> addr) \<Rightarrow> (addr \<Rightarrow> frame \<Rightarrow> frame) \<Rightarrow> aprs_is \<Rightarrow> (aprs_jump \<times> aprs_is) option" where
  "aprs_addr get put aprs =
     do { call \<leftarrow> wr (ap_call aprs) (ap_offset_call aprs) 0;
          case patty_ax25_pton (takeWhile (\<lambda>b. b \<noteq> 0) call) (get (ap_frame aprs)) of (r, addr) \<Rightarrow>
          let aprs = aprs\<lparr>ap_call := call, ap_frame := put addr (ap_frame aprs)\<rparr> in
          Some (case r of Inl _ \<Rightarrow> (APRS_DROP, aprs) | Inr _ \<Rightarrow> (APRS_NEXT, aprs\<lparr>ap_offset_call := 0\<rparr>)) }"

text \<open>\<open>case APRS_IS_HEADER\<close>; the state is set before the address is taken, as in the source.\<close>

definition aprs_header :: "byte \<Rightarrow> aprs_is \<Rightarrow> (aprs_jump \<times> aprs_is) option" where
  "aprs_header c aprs =
     (if c = 0x23 then Some (APRS_NEXT, aprs\<lparr>ap_state := APRS_IS_COMMENT\<rparr>)
      else if c = 0x3e then aprs_addr f_src (\<lambda>a f. f\<lparr>f_src := a\<rparr>) aprs
      else if c = 0x2c \<or> c = 0x3a
      then (let body = (\<lambda>aprs. if c = 0x3a then aprs\<lparr>ap_state := APRS_IS_BODY\<rparr> else aprs);
                hops = f_hops (ap_frame aprs) in
            if callsign (f_dest (ap_frame aprs)) ! 0 \<noteq> 0
            then if hops = PATTY_AX25_MAX_HOPS then Some (APRS_DROP, aprs)
                 else aprs_addr (\<lambda>f. f_repeaters f ! hops) (\<lambda>a f. f\<lparr>f_repeaters := (f_repeaters f)[hops := a]\<rparr>)
                        (body (aprs\<lparr>ap_frame := (ap_frame aprs)\<lparr>f_hops := hops + 1\<rparr>\<rparr>))
            else aprs_addr f_dest (\<lambda>a f. f\<lparr>f_dest := a\<rparr>) (body aprs))
      else if PATTY_AX25_ADDR_CHAR_VALID c
      then if ap_offset_call aprs = PATTY_AX25_ADDRSTRLEN then Some (APRS_DROP, aprs)
           else do { call \<leftarrow> wr (ap_call aprs) (ap_offset_call aprs) c;
                     Some (APRS_NEXT, aprs\<lparr>ap_call := call, ap_offset_call := ap_offset_call aprs + 1\<rparr>) }
      else Some (APRS_DROP, aprs))"

text \<open>\<open>case APRS_IS_BODY\<close>\<close>

definition aprs_body :: "byte \<Rightarrow> aprs_is \<Rightarrow> byte list \<Rightarrow> nat \<Rightarrow> (aprs_jump \<times> aprs_is \<times> byte list) option" where
  "aprs_body c aprs buf len =
     (if c = 0x0d then Some (APRS_NEXT, aprs, buf)
      else if c = 0x0a
      then let frame = (ap_frame aprs)\<lparr>f_control := ucast PATTY_AX25_FRAME_UI, f_cr := PATTY_AX25_FRAME_COMMAND,
                         f_proto := PATTY_AX25_PROTO_NONE, f_info := Some (ap_body aprs),
                         f_infolen := of_nat (ap_offset_body aprs)\<rparr>;
               aprs = aprs\<lparr>ap_state := APRS_IS_COMPLETE, ap_frame := frame\<rparr> in
           do { (r, buf) \<leftarrow> patty_ax25_frame_encode frame buf len;
                Some (case r of
                        Inl e \<Rightarrow> (APRS_ERROR e, aprs\<lparr>ap_encoded := -1\<rparr>, buf)
                      | Inr n \<Rightarrow> (APRS_DONE, aprs\<lparr>ap_encoded := int n\<rparr>, buf)) }
      else if ap_offset_body aprs = ap_bodysz aprs then Some (APRS_DROP, aprs, buf)
      else do { body \<leftarrow> wr (ap_body aprs) (ap_offset_body aprs) c;
                Some (APRS_NEXT, aprs\<lparr>ap_body := body, ap_offset_body := ap_offset_body aprs + 1\<rparr>, buf) })"

definition aprs_byte :: "byte \<Rightarrow> aprs_is \<Rightarrow> byte list \<Rightarrow> nat \<Rightarrow> (aprs_jump \<times> aprs_is \<times> byte list) option" where
  "aprs_byte c aprs buf len = (case ap_state aprs of
       APRS_IS_HEADER \<Rightarrow> do { (j, aprs) \<leftarrow> aprs_header c aprs; Some (j, aprs, buf) }
     | APRS_IS_COMMENT \<Rightarrow>
         Some (if c = 0x0d then (APRS_NEXT, aprs, buf)
               else if c = 0x0a then (APRS_DONE, aprs\<lparr>ap_state := APRS_IS_HEADER\<rparr>, buf)
               else (APRS_NEXT, aprs, buf))
     | APRS_IS_BODY \<Rightarrow> aprs_body c aprs buf len
     | APRS_IS_COMPLETE \<Rightarrow> Some (APRS_DONE, aprs, buf))"

lemma aprs_addr_input:
  "aprs_addr get put aprs = Some (j, aprs') \<Longrightarrow>
   ap_offset_i aprs' = ap_offset_i aprs \<and> ap_readlen aprs' = ap_readlen aprs \<and> ap_rx_buf aprs' = ap_rx_buf aprs
   \<and> ap_rx_bufsz aprs' = ap_rx_bufsz aprs"
  by (auto simp: aprs_addr_def Let_def elim!: bind_SomeE split: prod.splits sum.splits)

lemma aprs_header_input:
  "aprs_header c aprs = Some (j, aprs') \<Longrightarrow>
   ap_offset_i aprs' = ap_offset_i aprs \<and> ap_readlen aprs' = ap_readlen aprs \<and> ap_rx_buf aprs' = ap_rx_buf aprs
   \<and> ap_rx_bufsz aprs' = ap_rx_bufsz aprs"
  by (auto simp: aprs_header_def Let_def elim!: bind_SomeE dest!: aprs_addr_input split: if_splits)

lemma aprs_byte_input:
  "aprs_byte c aprs buf len = Some (j, aprs', buf') \<Longrightarrow>
   ap_offset_i aprs' = ap_offset_i aprs \<and> ap_readlen aprs' = ap_readlen aprs \<and> ap_rx_buf aprs' = ap_rx_buf aprs
   \<and> ap_rx_bufsz aprs' = ap_rx_bufsz aprs"
  by (auto simp: aprs_byte_def aprs_body_def Let_def elim!: bind_SomeE dest!: aprs_header_input
      split: aprs_state.splits if_splits sum.splits)

function aprs_drain_loop :: "aprs_is \<Rightarrow> byte list \<Rightarrow> nat \<Rightarrow> (aprs_jump \<times> aprs_is \<times> byte list) option" where
  "aprs_drain_loop aprs buf len =
     (if ap_offset_i aprs < unat (ap_readlen aprs)
      then (case rd (ap_rx_buf aprs) (ap_offset_i aprs) of
              None \<Rightarrow> None
            | Some c \<Rightarrow>
                (case aprs_byte c (aprs\<lparr>ap_offset_i := ap_offset_i aprs + 1\<rparr>) buf len of
                   None \<Rightarrow> None
                 | Some (j, aprs', buf') \<Rightarrow>
                     if j = APRS_NEXT then aprs_drain_loop aprs' buf' len else Some (j, aprs', buf')))
      else Some (APRS_DONE, aprs, buf))"
  by auto
termination
  by (relation "measure (\<lambda>(aprs, buf, len). unat (ap_readlen aprs) - ap_offset_i aprs)")
     (auto dest!: aprs_byte_input)

declare aprs_drain_loop.simps [simp del]

text \<open>The difference of two \<open>size_t\<close>, returned as a \<open>ssize_t\<close>.\<close>

definition consumed :: "nat \<Rightarrow> aprs_is \<Rightarrow> int" where
  "consumed start aprs = sint (of_nat (ap_offset_i aprs) - of_nat start :: size_t)"

definition patty_ax25_aprs_is_drain :: "aprs_is \<Rightarrow> byte list \<Rightarrow> nat \<Rightarrow> (int cres \<times> aprs_is \<times> byte list) option" where
  "patty_ax25_aprs_is_drain aprs buf len =
     do { (j, aprs', buf) \<leftarrow> aprs_drain_loop aprs buf len;
          Some (case j of
                  APRS_ERROR e \<Rightarrow> (Inl e, aprs', buf)
                | APRS_DROP \<Rightarrow>
                    let aprs' = snd (patty_ax25_aprs_is_flush
                                  (aprs'\<lparr>ap_stats := (ap_stats aprs')\<lparr>dropped := dropped (ap_stats aprs') + 1\<rparr>\<rparr>))
                    in (Inr (consumed (ap_offset_i aprs) aprs'), aprs', buf)
                | _ \<Rightarrow> (Inr (consumed (ap_offset_i aprs) aprs'), aprs', buf)) }"

section \<open>Sending\<close>

text \<open>
  \<open>patty_ax25_ntop(addr, call, sizeof(call))\<close> and \<open>snprintf\<close> of the result between two texts;
  \<open>None\<close> inside is \<open>goto error\<close>.
\<close>

definition print_call ::
  "cstring \<Rightarrow> addr \<Rightarrow> cstring \<Rightarrow> aprs_is \<times> nat \<Rightarrow> (errno + aprs_is \<times> nat) option" where
  "print_call before addr after = (\<lambda>(aprs, n).
     case patty_ax25_ntop addr (PATTY_AX25_ADDRSTRLEN + 1) of (r, written) \<Rightarrow>
     if length written > PATTY_AX25_ADDRSTRLEN + 1 then None
     else case r of
       Inl e \<Rightarrow> Some (Inl e)
     | Inr _ \<Rightarrow>
         do { (formatted, buf) \<leftarrow> snprintf (ap_tx_buf aprs) n (ap_tx_bufsz aprs - n)
                                   (before @ takeWhile (\<lambda>b. b \<noteq> 0) written @ after);
              Some (Inr (aprs\<lparr>ap_tx_buf := buf\<rparr>, n + nat formatted)) })"

fun print_hops :: "addr list \<Rightarrow> aprs_is \<times> nat \<Rightarrow> (errno + aprs_is \<times> nat) option" where
  "print_hops [] p = Some (Inr p)"
| "print_hops (a # as) p =
     do { r \<leftarrow> print_call [0x2c] a [] p;
          case r of Inl e \<Rightarrow> Some (Inl e) | Inr p \<Rightarrow> print_hops as p }"

text \<open>
  \<open>while (write(...) < 0)\<close> with \<open>n\<close> attempts left. Each attempt sends \<open>len\<close> bytes of \<open>tx_buf\<close>,
  in which connecting again has put its login line.
\<close>

fun send_attempts :: "nat \<Rightarrow> nat \<Rightarrow> aprs_is \<Rightarrow> world \<Rightarrow> (bool \<times> aprs_is \<times> world) option" where
  "send_attempts 0 len aprs w = Some (False, aprs, w)"
| "send_attempts (Suc n) len aprs w =
     do { bs \<leftarrow> slice (ap_tx_buf aprs) 0 len;
          case sys_write (ap_fd aprs) bs w of (r, w) \<Rightarrow>
          if r \<ge> 0 then Some (True, aprs, w)
          else if n = 0 then Some (False, aprs, w)
          else if err w = Some EIO
          then do { (r, aprs, w) \<leftarrow> aprs_is_connect (ap_info aprs) aprs w; send_attempts n len aprs w }
          else Some (False, aprs, w) }"

text \<open>The address part, up to the check of the room; \<open>n\<close> is \<open>o\<close>.\<close>

definition aprs_line :: "frame \<Rightarrow> aprs_is \<Rightarrow> (errno + aprs_is \<times> nat) option" where
  "aprs_line frame aprs =
     do { r \<leftarrow> print_call [] (f_src frame) [0x3e] (aprs, 0);
          case r of
            Inl e \<Rightarrow> Some (Inl e)
          | Inr p \<Rightarrow>
              do { r \<leftarrow> print_call [] (f_dest frame) [] p;
                   case r of
                     Inl e \<Rightarrow> Some (Inl e)
                   | Inr p \<Rightarrow> print_hops (take (f_hops frame) (f_repeaters frame)) p } }"

text \<open>\<open>junk\<close> is the uninitialised local \<open>frame\<close>.\<close>

definition patty_ax25_aprs_is_send :: "frame \<Rightarrow> aprs_is \<Rightarrow> byte list \<Rightarrow> world \<Rightarrow> (int \<times> aprs_is \<times> world) option" where
  "patty_ax25_aprs_is_send junk aprs buf w =
     do { (r, frame) \<leftarrow> patty_ax25_frame_decode_address junk buf (length buf);
          case r of
            Inl e \<Rightarrow> Some (-1, aprs, w\<lparr>err := Some e\<rparr>)
          | Inr i \<Rightarrow>
              do { (r, frame) \<leftarrow> patty_ax25_frame_decode_control frame PATTY_AX25_FRAME_NORMAL buf i (length buf);
                   case r of
                     Inl e \<Rightarrow> Some (-1, aprs, w\<lparr>err := Some e\<rparr>)
                   | Inr decoded \<Rightarrow>
                       if decoded < 0 then Some (-1, aprs, w)
                       else if \<not> PATTY_AX25_FRAME_CONTROL_UI (f_control frame) then Some (0, aprs, w)
                       else do { r \<leftarrow> aprs_line frame aprs;
                                 case r of
                                   Inl e \<Rightarrow> Some (-1, aprs, w\<lparr>err := Some e\<rparr>)
                                 | Inr (aprs, n) \<Rightarrow>
                                     if of_nat (ap_tx_bufsz aprs) < of_nat n + f_infolen frame + 3
                                     then Some (-1, aprs, w\<lparr>err := Some EOVERFLOW\<rparr>)
                                     else do { info \<leftarrow> f_info frame;
                                               info \<leftarrow> slice info 0 (unat (f_infolen frame));
                                               buf \<leftarrow> blit (ap_tx_buf aprs) n ([0x3a] @ info @ [0x0d, 0x0a]);
                                               (ok, aprs, w) \<leftarrow> send_attempts PATTY_AX25_APRS_IS_ATTEMPTS_MAX
                                                 (n + 3 + length info) (aprs\<lparr>ap_tx_buf := buf\<rparr>) w;
                                               Some (if ok then int i + decoded else -1, aprs, w) } } } }"

definition patty_ax25_aprs_is_driver :: "frame \<Rightarrow> aprs_is if_driver" where
  "patty_ax25_aprs_is_driver junk =
     \<lparr>d_destroy = patty_ax25_aprs_is_destroy, d_stats = patty_ax25_aprs_is_stats, d_stats_upd = ap_stats_update,
      d_fd = patty_ax25_aprs_is_fd, d_ready = patty_ax25_aprs_is_ready, d_reset = patty_ax25_aprs_is_reset,
      d_fill = patty_ax25_aprs_is_fill, d_drain = patty_ax25_aprs_is_drain, d_pending = patty_ax25_aprs_is_pending,
      d_flush = patty_ax25_aprs_is_flush, d_send = patty_ax25_aprs_is_send junk\<rparr>"

section \<open>The contract of interfaces\<close>

definition frame_room :: "frame \<Rightarrow> bool" where
  "frame_room f \<longleftrightarrow> length (callsign (f_dest f)) = 6 \<and> length (callsign (f_src f)) = 6
     \<and> length (f_repeaters f) = 8 \<and> (\<forall>a \<in> set (f_repeaters f). length (callsign a) = 6)
     \<and> f_hops f \<le> 8 \<and> f_format f = PATTY_AX25_FRAME_NORMAL"

definition aprs_ok :: "nat \<Rightarrow> aprs_is \<Rightarrow> bool" where
  "aprs_ok len a \<longleftrightarrow> length (ap_rx_buf a) = 512 \<and> ap_rx_bufsz a = 512 \<and> unat (ap_readlen a) \<le> 512
     \<and> ap_offset_i a \<le> unat (ap_readlen a) \<and> length (ap_call a) = 10 \<and> ap_offset_call a \<le> 9
     \<and> length (ap_body a) = 256 \<and> ap_bodysz a = 256 \<and> ap_offset_body a \<le> 256 \<and> frame_room (ap_frame a)
     \<and> -1 \<le> ap_encoded a \<and> ap_encoded a \<le> int len \<and> 75 \<le> len \<and> len < 2 ^ 63"

definition aprs_todo :: "aprs_is \<Rightarrow> nat" where
  "aprs_todo a = unat (ap_readlen a) - ap_offset_i a"

lemma frame_room_zero [simp]: "frame_room frame_zero"
  by (simp add: frame_room_def frame_zero_def addr_zero_def)

lemma pton_length:
  assumes "length (callsign a) = 6"
  shows "length (callsign (snd (patty_ax25_pton text a))) = 6"
proof -
  let ?init = "\<lparr>pt_o = 0, pt_digits = 0, pt_ssid = 0, pt_state = ADDR_CALLSIGN, pt_c = 0, pt_addr = a\<rparr>"
  obtain ok s where loop: "pton_loop (take (min (length text) 9) text) ?init = (ok, s)" by fastforce
  have "pton_inv ?init" using assms by (simp add: pton_inv_def)
  from pton_loop_inv [OF this] loop have s: "length (callsign (pt_addr s)) = 6" "pt_o s \<le> 7"
    by (metis snd_conv pton_inv_def)+
  have "length (callsign (pad_callsign (pt_o s) (pt_addr s))) = 6"
  proof (cases "pt_o s \<le> 6")
    case True
    then show ?thesis using pad_callsign_spec [OF s(1)] s(1) by simp
  next
    case False
    then have "pt_o s = 7" using s(2) by simp
    then show ?thesis using s(1) by (simp add: pad_callsign_7)
  qed
  then show ?thesis using assms loop s by (simp add: patty_ax25_pton_def Let_def)
qed

lemma concat_length_7: "(\<And>x. x \<in> set xs \<Longrightarrow> length (f x) = 7) \<Longrightarrow> length (concat (map f xs)) = 7 * length xs"
  by (induction xs) auto

lemma address_octets_length:
  assumes "frame_room f"
  shows "length (address_octets f False) = 7 * (2 + f_hops f)"
proof -
  have "length (concat (map (\<lambda>i. patty_ax25_addr_copy (f_repeaters f ! i) 0) [0..<f_hops f])) = 7 * length [0..<f_hops f]"
    by (rule concat_length_7) (use assms in \<open>auto simp: patty_ax25_addr_copy_def frame_room_def\<close>)
  with assms show ?thesis by (simp add: address_octets_def Let_def patty_ax25_addr_copy_def frame_room_def)
qed

text \<open>Encoding what was drained stays inside of every buffer of at least 75 bytes.\<close>

lemma encode_drained:
  assumes "frame_room f" and "75 \<le> len" and "len \<le> length buf" and "len < 2 ^ 63"
    and "f_info f = Some body" and "unat (f_infolen f) \<le> length body" and "unat (f_infolen f) \<le> 256"
    and "PATTY_AX25_FRAME_CONTROL_UI (f_control f)"
  shows "\<exists>r buf'. patty_ax25_frame_encode f buf len = Some (r, buf') \<and> length buf' = length buf
    \<and> (\<forall>n. r = Inr n \<longrightarrow> n \<le> len)"
proof -
  define m where "m = 7 * (2 + f_hops f)"
  have m: "length (address_octets f False) = m" "0 < m" "m \<le> 70" "f_hops f \<le> length (f_repeaters f)"
    using address_octets_length [OF assms(1)] assms(1) by (simp_all add: m_def frame_room_def)
  obtain b1 where b1: "encode_address f buf False len = Some (Inr m, b1)" "length b1 = length buf"
    using m assms(2,3) by (auto simp: encode_address_def Let_def m_def blit_def rd_def wr_def)
  define b2 where "b2 = b1[m := ucast (f_control f)]"
  have ctl: "encode_control (f_format f) (f_control f) b1 m = Some (m + 1, b2)"
    using m(3) b1(2) assms(1-3) by (simp add: encode_control_def frame_room_def wr_def b2_def)
  have b2: "length b2 = length buf" by (simp add: b2_def b1(2))
  show ?thesis
  proof (cases "f_infolen f = 0 \<or> of_nat len < 1 + of_nat (m + 1) + f_infolen f")
    case True
    then show ?thesis using b1(1) ctl b2 m(3) assms(2,5) by (auto simp: patty_ax25_frame_encode_def)
  next
    case False
    let ?n = "unat (f_infolen f)"
    have fits: "m + 2 + ?n \<le> len"
    proof (rule ccontr)
      assume "\<not> m + 2 + ?n \<le> len"
      then have "len < (m + 2) + ?n" by simp
      then have "of_nat len < of_nat (m + 2) + f_infolen f"
        using m(3) assms(4,7) by (subst size_sum_less) auto
      with False show False by simp
    qed
    define b3 where "b3 = b2[m + 1 := f_proto f]"
    have b3: "wr b2 (m + 1) (f_proto f) = Some b3" "length b3 = length buf"
      using fits b2 assms(3) by (simp_all add: wr_def b3_def)
    have s: "slice body 0 ?n = Some (take ?n body)" using assms(6) by (simp add: slice_def)
    obtain b4 where b4: "blit b3 (m + 2) (take ?n body) = Some b4" "length b4 = length buf"
      using fits b3(2) assms(3,6) by (auto simp: blit_def)
    have "patty_ax25_frame_encode f buf len = Some (Inr (m + 2 + ?n), b4)"
      using False assms(5,8) b1(1) ctl b3(1) s b4(1) by (simp add: patty_ax25_frame_encode_def)
    with b4(2) fits show ?thesis by auto
  qed
qed

lemma aprs_addr_ok:
  assumes "aprs_ok len a" and "length (callsign (get (ap_frame a))) = 6"
    and "\<And>x f. frame_room f \<Longrightarrow> length (callsign x) = 6 \<Longrightarrow> frame_room (put x f)"
  shows "\<exists>j a'. aprs_addr get put a = Some (j, a') \<and> aprs_ok len a' \<and> j \<noteq> APRS_DONE \<and> (\<forall>e. j \<noteq> APRS_ERROR e)"
proof -
  let ?call = "(ap_call a)[ap_offset_call a := 0]"
  obtain r x where x: "patty_ax25_pton (takeWhile (\<lambda>b. b \<noteq> 0) ?call) (get (ap_frame a)) = (r, x)" by fastforce
  then have "length (callsign x) = 6" using pton_length [OF assms(2)] by (metis snd_conv)
  with assms(1,3) have room: "frame_room (put x (ap_frame a))" by (simp add: aprs_ok_def)
  have "wr (ap_call a) (ap_offset_call a) 0 = Some ?call" using assms(1) by (simp add: aprs_ok_def wr_def)
  with x room assms(1) show ?thesis
    by (cases r) (auto simp: aprs_addr_def aprs_ok_def Let_def)
qed

lemma aprs_header_ok:
  assumes "aprs_ok len a"
  shows "\<exists>j a'. aprs_header c a = Some (j, a') \<and> aprs_ok len a' \<and> j \<noteq> APRS_DONE \<and> (\<forall>e. j \<noteq> APRS_ERROR e)"
proof -
  have f: "frame_room (ap_frame a)" using assms by (simp add: aprs_ok_def)
  have src: "\<exists>j a'. aprs_addr f_src (\<lambda>x f. f\<lparr>f_src := x\<rparr>) a = Some (j, a') \<and> aprs_ok len a' \<and> j \<noteq> APRS_DONE \<and> (\<forall>e. j \<noteq> APRS_ERROR e)"
    by (rule aprs_addr_ok [OF assms]) (use f in \<open>simp_all add: frame_room_def\<close>)
  have dest: "\<exists>j a'. aprs_addr f_dest (\<lambda>x f. f\<lparr>f_dest := x\<rparr>) b = Some (j, a') \<and> aprs_ok len a' \<and> j \<noteq> APRS_DONE \<and> (\<forall>e. j \<noteq> APRS_ERROR e)"
    if "aprs_ok len b" for b
    by (rule aprs_addr_ok [OF that]) (use that in \<open>simp_all add: frame_room_def aprs_ok_def\<close>)
  have rep: "\<exists>j a'. aprs_addr (\<lambda>f. f_repeaters f ! n) (\<lambda>x f. f\<lparr>f_repeaters := (f_repeaters f)[n := x]\<rparr>) b = Some (j, a') \<and> aprs_ok len a' \<and> j \<noteq> APRS_DONE \<and> (\<forall>e. j \<noteq> APRS_ERROR e)"
    if "aprs_ok len b" "n < 8" for b n
    by (rule aprs_addr_ok [OF that(1)])
      (use that in \<open>auto simp: frame_room_def aprs_ok_def dest!: set_mp [OF set_update_subset_insert]\<close>)
  let ?h = "f_hops (ap_frame a)" and ?b = "\<lambda>b. if c = 0x3a then b\<lparr>ap_state := APRS_IS_BODY\<rparr> else b"
  have hops: "?h \<noteq> 8 \<Longrightarrow> aprs_ok len (?b (a\<lparr>ap_frame := (ap_frame a)\<lparr>f_hops := ?h + 1\<rparr>\<rparr>))"
    and body: "aprs_ok len (?b a)" and "?h \<noteq> 8 \<Longrightarrow> ?h < 8"
    using assms by (auto simp: aprs_ok_def frame_room_def)
  consider "c = 0x23" | "c = 0x3e" | "c = 0x2c \<or> c = 0x3a" | "c \<notin> {0x23, 0x3e, 0x2c, 0x3a}" by auto
  then show ?thesis
  proof cases
    case 3
    then show ?thesis
      using dest [OF body] rep [OF hops \<open>?h \<noteq> 8 \<Longrightarrow> ?h < 8\<close>] assms
      by (cases "?h = 8"; cases "callsign (f_dest (ap_frame a)) ! 0 \<noteq> 0") (auto simp: aprs_header_def Let_def)
  next
    case 4
    then show ?thesis using assms by (auto simp: aprs_header_def wr_def aprs_ok_def)
  qed (use assms src in \<open>auto simp: aprs_header_def aprs_ok_def\<close>)
qed

lemma aprs_byte_ok:
  assumes "aprs_ok len a" and "len \<le> length buf"
  shows "\<exists>j a' buf'. aprs_byte c a buf len = Some (j, a', buf') \<and> aprs_ok len a' \<and> length buf' = length buf"
proof (cases "ap_state a")
  case APRS_IS_HEADER
  then show ?thesis using aprs_header_ok [OF assms(1), of c] by (auto simp: aprs_byte_def)
next
  case APRS_IS_BODY
  let ?f = "(ap_frame a)\<lparr>f_control := ucast PATTY_AX25_FRAME_UI, f_cr := PATTY_AX25_FRAME_COMMAND,
      f_proto := PATTY_AX25_PROTO_NONE, f_info := Some (ap_body a), f_infolen := of_nat (ap_offset_body a)\<rparr>"
  have ok: "75 \<le> len" "len < 2 ^ 63" "frame_room ?f" "ap_offset_body a \<le> 256" "length (ap_body a) = 256"
    using assms(1) by (auto simp: aprs_ok_def frame_room_def)
  then have n: "unat (of_nat (ap_offset_body a) :: size_t) = ap_offset_body a"
    by (subst unat_of_nat) simp
  have ui: "PATTY_AX25_FRAME_CONTROL_UI (ucast PATTY_AX25_FRAME_UI)"
    by (simp add: PATTY_AX25_FRAME_CONTROL_UI_def PATTY_AX25_FRAME_UI_def)
  obtain r buf' where e: "patty_ax25_frame_encode ?f buf len = Some (r, buf')" "length buf' = length buf"
    "\<forall>n. r = Inr n \<longrightarrow> n \<le> len"
    using encode_drained [OF ok(3,1) assms(2) ok(2), of "ap_body a"] ok(4,5) n ui by auto
  have room: "frame_room ?f" by (rule ok(3))
  consider "c = 0x0d" | "c = 0x0a" | "c \<noteq> 0x0d" "c \<noteq> 0x0a" by blast
  then show ?thesis
  proof cases
    case 2
    have "aprs_body c a buf len = Some (case r of
        Inl e \<Rightarrow> (APRS_ERROR e, a\<lparr>ap_state := APRS_IS_COMPLETE, ap_frame := ?f, ap_encoded := -1\<rparr>, buf')
      | Inr n \<Rightarrow> (APRS_DONE, a\<lparr>ap_state := APRS_IS_COMPLETE, ap_frame := ?f, ap_encoded := int n\<rparr>, buf'))"
      using 2 e(1) by (simp add: aprs_body_def Let_def)
    with e(2,3) room assms(1) APRS_IS_BODY show ?thesis
      by (cases r) (auto simp: aprs_byte_def aprs_ok_def)
  next
    case 3
    then show ?thesis using assms(1) APRS_IS_BODY by (auto simp: aprs_byte_def aprs_body_def aprs_ok_def wr_def)
  qed (use assms(1) APRS_IS_BODY in \<open>simp add: aprs_byte_def aprs_body_def\<close>)
qed (use assms(1) in \<open>auto simp: aprs_byte_def aprs_ok_def\<close>)

lemma aprs_drain_loop_ok:
  assumes "aprs_ok len a" and "len \<le> length buf"
  shows "\<exists>j a' buf'. aprs_drain_loop a buf len = Some (j, a', buf') \<and> aprs_ok len a' \<and> length buf' = length buf
    \<and> ap_readlen a' = ap_readlen a \<and> ap_offset_i a \<le> ap_offset_i a'
    \<and> (ap_offset_i a < unat (ap_readlen a) \<longrightarrow> ap_offset_i a < ap_offset_i a')"
  using assms
proof (induction a buf len rule: aprs_drain_loop.induct)
  case (1 a buf len)
  show ?case
  proof (cases "ap_offset_i a < unat (ap_readlen a)")
    case False
    then show ?thesis using "1.prems" by (auto simp: aprs_drain_loop.simps [of a])
  next
    case True
    let ?a = "a\<lparr>ap_offset_i := ap_offset_i a + 1\<rparr>" and ?c = "ap_rx_buf a ! ap_offset_i a"
    have rd: "rd (ap_rx_buf a) (ap_offset_i a) = Some ?c" using True "1.prems"(1) by (simp add: rd_def aprs_ok_def)
    have "aprs_ok len ?a" using True "1.prems"(1) by (simp add: aprs_ok_def)
    from aprs_byte_ok [OF this "1.prems"(2), of ?c] obtain j a1 b1 where
      b: "aprs_byte ?c ?a buf len = Some (j, a1, b1)" "aprs_ok len a1" "length b1 = length buf" by blast
    note inp = aprs_byte_input [OF b(1)]
    show ?thesis
    proof (cases "j = APRS_NEXT")
      case False
      with True rd b inp show ?thesis by (auto simp: aprs_drain_loop.simps [of a])
    next
      case more: True
      have "len \<le> length b1" using "1.prems"(2) b(3) by simp
      from "1.IH" [OF True rd b(1) _ _ more b(2) this] obtain j' a' b' where
        "aprs_drain_loop a1 b1 len = Some (j', a', b')" "aprs_ok len a'" "length b' = length b1"
        "ap_readlen a' = ap_readlen a1" "ap_offset_i a1 \<le> ap_offset_i a'" by auto
      with True rd b more inp show ?thesis by (auto simp: aprs_drain_loop.simps [of a])
    qed
  qed
qed

lemma consumed_small:
  assumes "start \<le> ap_offset_i a" and "ap_offset_i a \<le> 512"
  shows "consumed start a = int (ap_offset_i a - start)"
proof -
  have "(of_nat (ap_offset_i a) - of_nat start :: size_t) = of_nat (ap_offset_i a - start)" using assms(1) by simp
  then have "consumed start a = sint (of_nat (ap_offset_i a - start) :: size_t)" by (simp add: consumed_def)
  also have "\<dots> = int (ap_offset_i a - start)"
    using assms(2) by (simp add: signed_of_nat signed_take_bit_int_eq_self)
  finally show ?thesis .
qed

lemma aprs_flush_ok: "aprs_ok len a \<Longrightarrow> aprs_ok len (snd (patty_ax25_aprs_is_flush a))"
  by (simp add: patty_ax25_aprs_is_flush_def aprs_ok_def)

lemma aprs_drain_ok:
  assumes "aprs_ok len a" and "len \<le> length buf"
  shows "\<exists>r a' buf'. patty_ax25_aprs_is_drain a buf len = Some (r, a', buf') \<and> aprs_ok len a' \<and> length buf' = length buf
    \<and> aprs_todo a' \<le> aprs_todo a \<and> (\<forall>n. r = Inr n \<longrightarrow> 0 < n \<longrightarrow> aprs_todo a' < aprs_todo a)"
proof -
  obtain j a1 buf' where l: "aprs_drain_loop a buf len = Some (j, a1, buf')" "aprs_ok len a1" "length buf' = length buf"
    "ap_readlen a1 = ap_readlen a" "ap_offset_i a \<le> ap_offset_i a1"
    "ap_offset_i a < unat (ap_readlen a) \<longrightarrow> ap_offset_i a < ap_offset_i a1"
    using aprs_drain_loop_ok [OF assms] by blast
  have small: "ap_offset_i a1 \<le> 512" "ap_offset_i a1 \<le> unat (ap_readlen a)" "unat (ap_readlen a) \<le> 512"
    using l(2,4) by (auto simp: aprs_ok_def)
  show ?thesis
  proof (cases j)
    case APRS_DROP
    define a2 where "a2 = snd (patty_ax25_aprs_is_flush (a1\<lparr>ap_stats := (ap_stats a1)\<lparr>dropped := dropped (ap_stats a1) + 1\<rparr>\<rparr>))"
    have a2: "ap_offset_i a2 = unat (ap_readlen a)" "ap_readlen a2 = ap_readlen a"
      using l(4) by (simp_all add: a2_def patty_ax25_aprs_is_flush_def)
    have "aprs_ok len a2" unfolding a2_def by (rule aprs_flush_ok) (use l(2) in \<open>simp add: aprs_ok_def\<close>)
    moreover have "consumed (ap_offset_i a) a2 = int (unat (ap_readlen a) - ap_offset_i a)"
      using consumed_small [of "ap_offset_i a" a2] a2 small l(5) by simp
    moreover have "patty_ax25_aprs_is_drain a buf len = Some (Inr (consumed (ap_offset_i a) a2), a2, buf')"
      by (simp add: patty_ax25_aprs_is_drain_def l(1) APRS_DROP a2_def Let_def)
    ultimately show ?thesis using l(3) a2 by (auto simp: aprs_todo_def)
  next
    case (APRS_ERROR e)
    with l small show ?thesis by (auto simp: patty_ax25_aprs_is_drain_def aprs_todo_def)
  qed (use l small consumed_small [OF l(5)] in \<open>auto simp: patty_ax25_aprs_is_drain_def aprs_todo_def\<close>)
qed

lemma aprs_fill_ok:
  assumes "aprs_ok len a" and "patty_ax25_aprs_is_fill a w = (r, a', w')" and "0 \<le> r"
  shows "aprs_ok len a' \<and> (0 < r \<longrightarrow> length (script w') < length (script w))"
proof -
  obtain bs where s: "sys_read (ap_rx_bufsz a) w = (Inr bs, w')" and r: "r = int (length bs)"
    and a': "a' = a\<lparr>ap_rx_buf := bs @ drop (length bs) (ap_rx_buf a), ap_readlen := of_nat (length bs), ap_offset_i := 0\<rparr>"
    using assms(2,3) by (auto simp: patty_ax25_aprs_is_fill_def split: prod.splits sum.splits)
  from sys_read_bound [OF s] assms(1) have len: "length bs \<le> 512" by (simp add: aprs_ok_def)
  then have "unat (of_nat (length bs) :: size_t) = length bs" by (subst unat_of_nat) simp
  with len assms(1) have "aprs_ok len a'" by (simp add: aprs_ok_def a')
  moreover from s r have "0 < r \<longrightarrow> length (script w') < length (script w)"
    by (auto simp: sys_read_def split: list.splits reply.splits)
  ultimately show ?thesis ..
qed

interpretation aprs_driver: link_driver "patty_ax25_aprs_is_driver junk" aprs_ok aprs_todo
  for junk
proof unfold_locales
  show "\<exists>r p' buf'. d_drain (patty_ax25_aprs_is_driver junk) p buf len = Some (r, p', buf') \<and> aprs_ok len p'
      \<and> length buf' = length buf \<and> aprs_todo p' \<le> aprs_todo p
      \<and> (\<forall>n. r = Inr n \<longrightarrow> 0 < n \<longrightarrow> aprs_todo p' < aprs_todo p)"
    if "aprs_ok len p" and "len \<le> length buf" for len p buf
    using aprs_drain_ok [OF that] by (simp add: patty_ax25_aprs_is_driver_def)
  show "aprs_ok len p' \<and> (0 < r \<longrightarrow> length (script w') < length (script w))"
    if "aprs_ok len p" and "d_fill (patty_ax25_aprs_is_driver junk) p w = (r, p', w')" and "0 \<le> r" for len p w r p' w'
    using aprs_fill_ok [OF that(1) _ that(3)] that(2) by (simp add: patty_ax25_aprs_is_driver_def)
qed (auto simp: patty_ax25_aprs_is_driver_def patty_ax25_aprs_is_flush_def patty_ax25_aprs_is_pending_def
      aprs_ok_def aprs_todo_def)

section \<open>Lines\<close>

text \<open>
  A station is its callsign and number; in a line its callsign must do without the characters
  that structure the line.
\<close>

type_synonym station = "cstring \<times> nat"

definition station_text :: "station \<Rightarrow> cstring" where
  "station_text s = fst s @ ssid_text (snd s)"

definition station_addr :: "station \<Rightarrow> addr" where
  "station_addr s = addr_of (fst s) (snd s)"

definition station_wf :: "station \<Rightarrow> bool" where
  "station_wf s \<longleftrightarrow> canonical_text (fst s) (snd s) \<and> set (fst s) \<inter> {0x23, 0x3e, 0x2c, 0x3a} = {}"

definition aprs_text :: "station \<Rightarrow> station \<Rightarrow> station list \<Rightarrow> cstring \<Rightarrow> byte list" where
  "aprs_text src dest reps info =
     station_text src @ [0x3e] @ station_text dest @ concat (map (\<lambda>r. 0x2c # station_text r) reps)
     @ [0x3a] @ info @ [0x0d, 0x0a]"

text \<open>The UI frame with these stations, as a command.\<close>

definition ui_frame :: "station \<Rightarrow> station \<Rightarrow> station list \<Rightarrow> byte \<Rightarrow> cstring \<Rightarrow> frame" where
  "ui_frame src dest reps proto info = frame_zero\<lparr>f_src := station_addr src, f_dest := station_addr dest,
     f_repeaters := map station_addr reps @ replicate (8 - length reps) addr_zero, f_hops := length reps,
     f_control := ucast PATTY_AX25_FRAME_UI, f_cr := PATTY_AX25_FRAME_COMMAND, f_proto := proto,
     f_info := Some info, f_infolen := of_nat (length info)\<rparr>"

lemma ntop_same_station: "same_station a b \<Longrightarrow> patty_ax25_ntop a len = patty_ax25_ntop b len"
  by (simp add: same_station_def patty_ax25_ntop_def PATTY_AX25_ADDR_SSID_NUMBER_def)

lemma station_text_facts:
  assumes "station_wf s"
  shows "station_text s \<noteq> []" "length (station_text s) \<le> 9" "\<forall>c \<in> set (station_text s). callsign_char c \<or> c = 0x2d"
    "0 \<notin> set (station_text s)" "set (station_text s) \<inter> {0x23, 0x3e, 0x2c, 0x3a} = {}"
proof -
  have s: "fst s \<noteq> []" "length (fst s) \<le> 6" "\<forall>c \<in> set (fst s). callsign_char c" "snd s \<le> 15"
    "set (fst s) \<inter> {0x23, 0x3e, 0x2c, 0x3a} = {}"
    using assms by (auto simp: station_wf_def canonical_text_def)
  have n: "set (ssid_text (snd s)) \<subseteq> {0x2d, 0x30, 0x31, 0x32, 0x33, 0x34, 0x35, 0x36, 0x37, 0x38, 0x39}"
    using le_15_cases [OF s(4)] by (elim insertE emptyE) (simp_all add: ssid_text_def)
  show "station_text s \<noteq> []" using s(1) by (simp add: station_text_def)
  show "length (station_text s) \<le> 9" using s(2) ssid_text_length [of "snd s"] by (simp add: station_text_def)
  have digits: "\<forall>c \<in> {0x2d, 0x30, 0x31, 0x32, 0x33, 0x34, 0x35, 0x36, 0x37, 0x38, 0x39}. callsign_char c \<or> c = 0x2d"
    by (simp add: callsign_char_def)
  then show "\<forall>c \<in> set (station_text s). callsign_char c \<or> c = 0x2d"
    using s(3) n unfolding station_text_def set_append by blast
  have "\<not> callsign_char 0" by (simp add: callsign_char_def)
  then show "0 \<notin> set (station_text s)"
    using s(3) n by (auto simp: station_text_def)
  show "set (station_text s) \<inter> {0x23, 0x3e, 0x2c, 0x3a} = {}"
    using s(5) n by (auto simp: station_text_def)
qed

lemma station_pton:
  "station_wf s \<Longrightarrow> length (callsign a) = 6 \<Longrightarrow> patty_ax25_pton (station_text s) a = (Inr (), station_addr s)"
  using pton_canonical [of "fst s" "snd s" a] by (simp add: station_wf_def station_text_def station_addr_def)

lemma station_ntop:
  "station_wf s \<Longrightarrow> same_station a (station_addr s) \<Longrightarrow> patty_ax25_ntop a 10 = (Inr (), station_text s @ [0])"
  using ntop_canonical [of "fst s" "snd s" 10] station_text_facts(2) [of s] ntop_same_station [of a _ 10]
  by (simp add: station_wf_def station_text_def station_addr_def)

lemma station_addr_ok:
  assumes "station_wf s"
  shows "station_ok (callsign (station_addr s))" "callsign (station_addr s) ! 0 \<noteq> 0"
proof -
  have s: "fst s \<noteq> []" "length (fst s) \<le> 6" "\<forall>c \<in> set (fst s). callsign_char c"
    using assms by (auto simp: station_wf_def canonical_text_def)
  have un: "drop_bit 1 (push_bit 1 c) = c" if "callsign_char c" for c
    using callsign_char_7 [OF that] by (intro word8_eqI) (auto simp: bits)
  have c: "station_octet (push_bit 1 c) \<and> push_bit 1 c \<noteq> 0x40 \<and> push_bit 1 c \<noteq> 0" if "callsign_char c" for c
  proof -
    have "push_bit 1 c \<noteq> 0x40" using un [OF that] that by (auto simp: callsign_char_def)
    moreover have "push_bit 1 c \<noteq> 0" using un [OF that] that by (auto simp: callsign_char_def)
    ultimately show ?thesis using un [OF that] callsign_char_valid [OF that] by (simp add: station_octet_def bit_simps)
  qed
  have "station_octet 0x40" by (simp add: station_octet_def PATTY_AX25_ADDR_CHAR_VALID_def)
  then show "station_ok (callsign (station_addr s))"
    using s c by (auto simp: station_ok_def station_addr_def addr_of_def intro!: exI [of _ "map (push_bit 1) (fst s)"])
  show "callsign (station_addr s) ! 0 \<noteq> 0"
    using s c by (cases "fst s") (auto simp: station_addr_def addr_of_def)
qed

lemma ui_frame_simps [simp]:
  "f_src (ui_frame s d rs p info) = station_addr s" "f_dest (ui_frame s d rs p info) = station_addr d"
  "f_hops (ui_frame s d rs p info) = length rs" "take (length rs) (f_repeaters (ui_frame s d rs p info)) = map station_addr rs"
  "f_control (ui_frame s d rs p info) = ucast PATTY_AX25_FRAME_UI" "f_format (ui_frame s d rs p info) = PATTY_AX25_FRAME_NORMAL"
  "f_info (ui_frame s d rs p info) = Some info" "f_infolen (ui_frame s d rs p info) = of_nat (length info)"
  "f_cr (ui_frame s d rs p info) = PATTY_AX25_FRAME_COMMAND" "f_proto (ui_frame s d rs p info) = p"
  by (simp_all add: ui_frame_def frame_zero_def)

lemma ui_frame_ok:
  assumes "station_wf s" and "station_wf d" and "\<forall>r \<in> set rs. station_wf r" and "length rs \<le> 8"
  shows "frame_addr_ok (ui_frame s d rs p info)"
  using assms station_addr_ok(1) by (auto simp: frame_addr_ok_def ui_frame_def)

lemma ui_control: "PATTY_AX25_FRAME_CONTROL_UI (ucast PATTY_AX25_FRAME_UI)"
  by (simp add: PATTY_AX25_FRAME_CONTROL_UI_def PATTY_AX25_FRAME_UI_def)

section \<open>What is sent\<close>

text \<open>\<open>t\<close> stands at the start of \<open>tx_buf\<close>, \<open>n\<close> is its length.\<close>

definition line_at :: "aprs_is \<Rightarrow> aprs_is \<times> nat \<Rightarrow> byte list \<Rightarrow> bool" where
  "line_at a p t \<longleftrightarrow> (\<exists>buf. fst p = a\<lparr>ap_tx_buf := buf\<rparr> \<and> length buf = 512 \<and> take (length t) buf = t)
     \<and> snd p = length t \<and> length t \<le> 511 \<and> ap_tx_bufsz a = 512"

lemma print_call_line:
  assumes "line_at a p t" and "station_wf s" and "same_station x (station_addr s)"
    and "length t + length before + length (station_text s) + length after \<le> 511"
  shows "\<exists>p'. print_call before x after p = Some (Inr p') \<and> line_at a p' (t @ before @ station_text s @ after)"
proof -
  let ?u = "before @ station_text s @ after"
  obtain buf where p: "p = (a\<lparr>ap_tx_buf := buf\<rparr>, length t)" and buf: "length buf = 512" "take (length t) buf = t"
    and sz: "ap_tx_bufsz a = 512" using assms(1) by (cases p) (auto simp: line_at_def)
  have plain: "takeWhile (\<lambda>b. b \<noteq> 0) (station_text s @ [0]) = station_text s"
    using station_text_facts(4) [OF assms(2)] by (induction "station_text s") (auto simp: takeWhile_append)
  have all: "take (512 - length t - 1) ?u = ?u" using assms(4) by simp
  define buf' where "buf' = take (length t) buf @ (?u @ [0]) @ drop (length t + length ?u + 1) buf"
  have blit: "blit buf (length t) (?u @ [0]) = Some buf'"
    using assms(4) buf(1) by (simp add: blit_def buf'_def)
  have "print_call before x after p = Some (Inr (a\<lparr>ap_tx_buf := buf'\<rparr>, length t + length ?u))"
    using station_ntop [OF assms(2,3)] station_text_facts(2) [OF assms(2)] blit assms(4) sz
    by (simp add: print_call_def p snprintf_def plain)
  moreover have "length buf' = 512" using blit_length [OF blit] buf(1) by simp
  moreover have "take (length t + length ?u) buf' = t @ ?u" using buf by (simp add: buf'_def)
  ultimately show ?thesis using assms(4) sz by (auto simp: line_at_def)
qed

lemma print_hops_line:
  assumes "line_at a p t" and "\<forall>r \<in> set rs. station_wf r" and "list_all2 same_station xs (map station_addr rs)"
    and "length t + 10 * length rs \<le> 511"
  shows "\<exists>p'. print_hops xs p = Some (Inr p') \<and> line_at a p' (t @ concat (map (\<lambda>r. 0x2c # station_text r) rs))"
  using assms
proof (induction rs arbitrary: xs p t)
  case (Cons r rs)
  then obtain x ys where xs: "xs = x # ys" "same_station x (station_addr r)" "list_all2 same_station ys (map station_addr rs)"
    by (auto simp: list_all2_Cons2)
  have r: "station_wf r" using Cons.prems(2) by simp
  have len: "length (station_text r) \<le> 9" using station_text_facts(2) [OF r] .
  have "length t + length [0x2c :: byte] + length (station_text r) + length ([] :: byte list) \<le> 511"
    using Cons.prems(4) len by simp
  from print_call_line [OF Cons.prems(1) r xs(2) this] obtain p1 where
    p1: "print_call [0x2c] x [] p = Some (Inr p1)" "line_at a p1 (t @ [0x2c] @ station_text r @ [])" by blast
  from Cons.IH [OF p1(2) _ xs(3)] Cons.prems(2,4) len obtain p' where
    "print_hops ys p1 = Some (Inr p')" "line_at a p' (t @ 0x2c # station_text r @ concat (map (\<lambda>r. 0x2c # station_text r) rs))"
    by auto
  with p1(1) xs(1) show ?case by auto
qed simp

lemma send_attempts_quiet:
  assumes "script w = []" and "len \<le> length (ap_tx_buf a)"
  shows "send_attempts (Suc n) len a w = Some (True, a, w\<lparr>out := out w @ [(ap_fd a, take len (ap_tx_buf a))]\<rparr>)"
  using assms by (simp add: slice_def)

lemma ui_decode:
  assumes st: "station_wf s" "station_wf d" "\<forall>r \<in> set rs. station_wf r" "length rs \<le> 8"
    and info: "info \<noteq> []" "length info < 2 ^ 63" and junk: "length (f_repeaters junk) = 8"
    and bs: "bs = frame_octets (ui_frame s d rs p info)"
  shows "\<exists>off fr k r whole. patty_ax25_frame_decode_address junk bs (length bs) = Some (Inr off, fr)
    \<and> patty_ax25_frame_decode_control fr PATTY_AX25_FRAME_NORMAL bs off (length bs) = Some (Inr k, r) \<and> 0 \<le> k
    \<and> int off + k = int (length bs) \<and> same_station (f_dest r) (station_addr d) \<and> same_station (f_src r) (station_addr s)
    \<and> list_all2 same_station (take (f_hops r) (f_repeaters r)) (map station_addr rs) \<and> f_cr r = PATTY_AX25_FRAME_COMMAND
    \<and> PATTY_AX25_FRAME_CONTROL_UI (f_control r) \<and> f_proto r = p
    \<and> unat (f_infolen r) = length info \<and> f_info r = Some whole \<and> take (length info) whole = info"
proof -
  have c: "info_control (f_control (ui_frame s d rs p info))" using ui_control by (simp add: info_control_def)
  note dec = frame_octets_decode [OF ui_frame_ok [OF st, of p info] c, of info junk "[]"]
  obtain off fr k r where d1: "patty_ax25_frame_decode_address junk bs (length bs) = Some (Inr off, fr)"
    and d2: "patty_ax25_frame_decode_control fr PATTY_AX25_FRAME_NORMAL bs off (length bs) = Some (Inr k, r)"
    and k: "int off + k = int (length bs)"
    and st: "same_station (f_dest r) (station_addr d)" "same_station (f_src r) (station_addr s)"
    and hops: "f_hops r = length rs" "list_all2 same_station (take (length rs) (f_repeaters r)) (map station_addr rs)"
    and ctl: "f_cr r = PATTY_AX25_FRAME_COMMAND" "f_control r = ctl_received PATTY_AX25_FRAME_NORMAL (ucast PATTY_AX25_FRAME_UI)" "f_proto r = p"
    and inf: "unat (f_infolen r) = length info" "map_option (take (length info)) (f_info r) = Some info"
    using dec info junk unfolding bs ui_frame_simps append_Nil2 by blast
  have "0 \<le> k" using decode_address_safe [of "length bs" bs junk] d1 k by auto
  moreover have "PATTY_AX25_FRAME_CONTROL_UI (f_control r)"
    by (simp add: ctl ctl_received_def PATTY_AX25_FRAME_CONTROL_UI_def PATTY_AX25_FRAME_UI_def)
  moreover obtain whole where "f_info r = Some whole" "take (length info) whole = info" using inf(2) by auto
  ultimately show ?thesis using d1 d2 k st hops ctl inf(1) by (intro exI [of _ off] exI [of _ fr] exI [of _ k] exI [of _ r] exI [of _ whole]) simp
qed

lemma send_prepares:
  assumes st: "station_wf s" "station_wf d" "\<forall>r \<in> set rs. station_wf r" "length rs \<le> 8"
    and info: "info \<noteq> []" "length (aprs_text s d rs info) \<le> 512"
    and a: "length (ap_tx_buf a) = 512" "ap_tx_bufsz a = 512" and junk: "length (f_repeaters junk) = 8"
    and bs: "bs = frame_octets (ui_frame s d rs p info)"
  shows "\<exists>rest. length (aprs_text s d rs info @ rest) = 512
    \<and> patty_ax25_aprs_is_send junk a bs w
      = do { (ok, a, w) \<leftarrow> send_attempts 3 (length (aprs_text s d rs info)) (a\<lparr>ap_tx_buf := aprs_text s d rs info @ rest\<rparr>) w;
             Some (if ok then int (length bs) else -1, a, w) }"
proof -
  let ?f = "ui_frame s d rs p info" and ?l = "length info"
  have small: "?l < 2 ^ 63" using info(2) by (simp add: aprs_text_def)
  obtain off fr k r whole where dec: "patty_ax25_frame_decode_address junk bs (length bs) = Some (Inr off, fr)"
    "patty_ax25_frame_decode_control fr PATTY_AX25_FRAME_NORMAL bs off (length bs) = Some (Inr k, r)" "0 \<le> k" "int off + k = int (length bs)"
    and st': "same_station (f_dest r) (station_addr d)" "same_station (f_src r) (station_addr s)"
    and hops: "list_all2 same_station (take (f_hops r) (f_repeaters r)) (map station_addr rs)"
    and ctl: "PATTY_AX25_FRAME_CONTROL_UI (f_control r)"
    and inf: "unat (f_infolen r) = ?l" "f_info r = Some whole" "take ?l whole = info"
    using ui_decode [OF st info(1) small junk bs] by blast
  have len9: "length (station_text x) \<le> 9" if "station_wf x" for x using station_text_facts(2) [OF that] .
  have line0: "line_at a (a, 0) []" using a by (auto simp: line_at_def intro!: exI [of _ "ap_tx_buf a"])
  have "length ([] :: byte list) + length ([] :: byte list) + length (station_text s) + length [0x3e :: byte] \<le> 511"
    using len9 [OF st(1)] by simp
  from print_call_line [OF line0 st(1) _ this, of "f_src r"] st'(2) obtain p1 where
    p1: "print_call [] (f_src r) [0x3e] (a, 0) = Some (Inr p1)" "line_at a p1 (station_text s @ [0x3e])" by auto
  have "length (station_text s @ [0x3e]) + length ([] :: byte list) + length (station_text d) + length ([] :: byte list) \<le> 511"
    using len9 [OF st(1)] len9 [OF st(2)] by simp
  from print_call_line [OF p1(2) st(2) _ this, of "f_dest r"] st'(1) obtain p2 where
    p2: "print_call [] (f_dest r) [] p1 = Some (Inr p2)" "line_at a p2 (station_text s @ 0x3e # station_text d)" by auto
  have "length (station_text s @ 0x3e # station_text d) + 10 * length rs \<le> 511"
    using len9 [OF st(1)] len9 [OF st(2)] st(4) by simp
  from print_hops_line [OF p2(2) st(3) hops this] obtain p3 where
    p3: "print_hops (take (f_hops r) (f_repeaters r)) p2 = Some (Inr p3)"
    and line: "line_at a p3 (station_text s @ 0x3e # station_text d @ concat (map (\<lambda>r. 0x2c # station_text r) rs))" by auto
  define h where "h = station_text s @ 0x3e # station_text d @ concat (map (\<lambda>r. 0x2c # station_text r) rs)"
  have plain: "aprs_text s d rs info = h @ [0x3a] @ info @ [0x0d, 0x0a]" by (simp add: h_def aprs_text_def)
  obtain buf where q: "p3 = (a\<lparr>ap_tx_buf := buf\<rparr>, length h)" and buf: "length buf = 512" "take (length h) buf = h"
    using line unfolding h_def [symmetric] by (cases p3) (auto simp: line_at_def)
  have room: "length h + ?l + 3 \<le> 512" using info(2) by (simp add: plain)
  have fits: "\<not> of_nat 512 < of_nat (length h) + f_infolen r + 3"
  proof -
    have "of_nat (length h) + f_infolen r + 3 = of_nat (length h + 3) + f_infolen r" by simp
    then show ?thesis using room inf(1) by (simp only:, subst size_sum_less) auto
  qed
  have "?l \<le> length whole" using arg_cong [OF inf(3), of length] by (simp add: min_def split: if_splits)
  then have s: "slice whole 0 (unat (f_infolen r)) = Some info"
    using inf by (auto simp: slice_def)
  define buf' where "buf' = take (length h) buf @ ([0x3a] @ info @ [0x0d, 0x0a]) @ drop (Suc (Suc (Suc (length h + ?l)))) buf"
  have blit: "blit buf (length h) ([0x3a] @ info @ [0x0d, 0x0a]) = Some buf'"
    using room buf(1) by (simp add: blit_def buf'_def)
  have sent: "buf' = aprs_text s d rs info @ drop (Suc (Suc (Suc (length h + ?l)))) buf" using buf(2) by (simp add: buf'_def plain)
  have len: "length buf' = 512" using blit_length [OF blit] buf by simp
  have n: "length (aprs_text s d rs info) = length h + 3 + ?l" by (simp add: plain)
  have "patty_ax25_aprs_is_send junk a bs w
      = do { (ok, a, w) \<leftarrow> send_attempts 3 (length h + 3 + ?l) (a\<lparr>ap_tx_buf := buf'\<rparr>) w;
             Some (if ok then int (length bs) else -1, a, w) }"
    using dec(1-3) ctl p1(1) p2(1) p3 q fits inf(2) s blit a(2)
    by (simp add: patty_ax25_aprs_is_send_def aprs_line_def) (simp only: dec(4))
  then show ?thesis using len unfolding sent n by blast
qed

section \<open>What is drained\<close>

text \<open>What \<open>fill\<close> has read and \<open>drain\<close> has not yet looked at.\<close>

definition unread :: "aprs_is \<Rightarrow> byte list" where
  "unread a = drop (ap_offset_i a) (take (unat (ap_readlen a)) (ap_rx_buf a))"

lemma drop_take_Cons:
  "drop i (take n xs) = c # cs \<longleftrightarrow> i < n \<and> i < length xs \<and> xs ! i = c \<and> drop (Suc i) (take n xs) = cs"
proof (cases "i < n \<and> i < length xs")
  case True
  then have "drop i (take n xs) = xs ! i # drop (Suc i) (take n xs)" by (subst Cons_nth_drop_Suc [symmetric]) simp_all
  with True show ?thesis by auto
next
  case False
  then have "drop i (take n xs) = []" by auto
  with False show ?thesis by auto
qed

lemma drain_unread:
  assumes "unread a = c # cs" and "aprs_byte c (a\<lparr>ap_offset_i := ap_offset_i a + 1\<rparr>) buf len = Some (j, a', buf')"
  shows "aprs_drain_loop a buf len = (if j = APRS_NEXT then aprs_drain_loop a' buf' len else Some (j, a', buf'))"
    and "unread a' = cs" and "unread (a\<lparr>ap_offset_i := ap_offset_i a + 1\<rparr>) = cs"
proof -
  have i: "ap_offset_i a < unat (ap_readlen a)" "ap_offset_i a < length (ap_rx_buf a)" "ap_rx_buf a ! ap_offset_i a = c"
    "drop (Suc (ap_offset_i a)) (take (unat (ap_readlen a)) (ap_rx_buf a)) = cs"
    using assms(1) by (auto simp: unread_def drop_take_Cons)
  show "aprs_drain_loop a buf len = (if j = APRS_NEXT then aprs_drain_loop a' buf' len else Some (j, a', buf'))"
    using i assms(2) by (subst aprs_drain_loop.simps) (simp add: rd_def)
  show "unread a' = cs" using i(4) aprs_byte_input [OF assms(2)] by (simp add: unread_def)
  show "unread (a\<lparr>ap_offset_i := ap_offset_i a + 1\<rparr>) = cs" using i(4) by (simp add: unread_def)
qed

text \<open>In the header, with the text \<open>t\<close> collected since the last separator; in the payload, with \<open>t\<close> collected.\<close>

definition header_at :: "cstring \<Rightarrow> frame \<Rightarrow> aprs_is \<Rightarrow> bool" where
  "header_at t f a \<longleftrightarrow> ap_state a = APRS_IS_HEADER \<and> ap_frame a = f \<and> length (ap_call a) = 10
     \<and> ap_offset_call a = length t \<and> take (length t) (ap_call a) = t
     \<and> length (ap_body a) = 256 \<and> ap_bodysz a = 256 \<and> ap_offset_body a = 0"

definition body_at :: "cstring \<Rightarrow> frame \<Rightarrow> aprs_is \<Rightarrow> bool" where
  "body_at t f a \<longleftrightarrow> ap_state a = APRS_IS_BODY \<and> ap_frame a = f
     \<and> length (ap_body a) = 256 \<and> ap_bodysz a = 256 \<and> ap_offset_body a = length t \<and> take (length t) (ap_body a) = t"

text \<open>Draining comes from \<open>a\<close> to \<open>a'\<close>, where \<open>cs\<close> is left.\<close>

definition comes_to :: "byte list \<Rightarrow> nat \<Rightarrow> aprs_is \<Rightarrow> aprs_is \<Rightarrow> byte list \<Rightarrow> bool" where
  "comes_to buf len a a' cs \<longleftrightarrow> aprs_drain_loop a buf len = aprs_drain_loop a' buf len \<and> unread a' = cs
     \<and> ap_readlen a' = ap_readlen a"

lemma comes_to_refl: "unread a = cs \<Longrightarrow> comes_to buf len a a cs"
  by (simp add: comes_to_def)

lemma comes_to_trans: "comes_to buf len a a' cs \<Longrightarrow> comes_to buf len a' a'' cs' \<Longrightarrow> comes_to buf len a a'' cs'"
  by (simp add: comes_to_def)

lemma comes_to_unread: "comes_to buf len a a' cs \<Longrightarrow> unread a' = cs"
  by (simp add: comes_to_def)

lemma comes_to_byte:
  assumes "unread a = c # cs" and "aprs_byte c (a\<lparr>ap_offset_i := ap_offset_i a + 1\<rparr>) buf len = Some (APRS_NEXT, a', buf)"
  shows "comes_to buf len a a' cs"
  using drain_unread [OF assms] aprs_byte_input [OF assms(2)] by (simp add: comes_to_def)

lemma header_text:
  assumes "header_at t f a" and "unread a = u @ cs" and "\<forall>c \<in> set u. callsign_char c \<or> c = 0x2d"
    and "set u \<inter> {0x23, 0x3e, 0x2c, 0x3a} = {}" and "length t + length u \<le> 9"
  shows "\<exists>a'. comes_to buf len a a' cs \<and> header_at (t @ u) f a'"
  using assms
proof (induction u arbitrary: t a)
  case Nil
  then show ?case by (auto intro: comes_to_refl)
next
  case (Cons c u)
  have c: "PATTY_AX25_ADDR_CHAR_VALID c" "c \<noteq> 0x23" "c \<noteq> 0x3e" "c \<noteq> 0x2c" "c \<noteq> 0x3a"
    using Cons.prems(3,4) by (auto simp: PATTY_AX25_ADDR_CHAR_VALID_def callsign_char_def)
  have t: "length t < 9" "length t < length (ap_call a)" using Cons.prems(1,5) by (auto simp: header_at_def)
  let ?a = "a\<lparr>ap_offset_i := ap_offset_i a + 1, ap_call := (ap_call a)[length t := c], ap_offset_call := length t + 1\<rparr>"
  have "aprs_byte c (a\<lparr>ap_offset_i := ap_offset_i a + 1\<rparr>) buf len = Some (APRS_NEXT, ?a, buf)"
    using Cons.prems(1) c t by (simp add: aprs_byte_def aprs_header_def header_at_def wr_def PATTY_AX25_ADDRSTRLEN_def)
  from comes_to_byte [OF _ this] Cons.prems(2) have one: "comes_to buf len a ?a (u @ cs)" by simp
  have "header_at (t @ [c]) f ?a"
    using Cons.prems(1) t by (simp add: header_at_def take_Suc_conv_app_nth)
  from Cons.IH [OF this comes_to_unread [OF one]] Cons.prems(3-5) obtain a' where
    "comes_to buf len ?a a' cs" "header_at ((t @ [c]) @ u) f a'" by auto
  with one show ?case by (auto intro: comes_to_trans)
qed

definition call_at :: "cstring \<Rightarrow> frame \<Rightarrow> aprs_is \<Rightarrow> bool" where
  "call_at t f a \<longleftrightarrow> ap_frame a = f \<and> length (ap_call a) = 10 \<and> ap_offset_call a = length t \<and> take (length t) (ap_call a) = t"

lemma addr_text:
  assumes "call_at (station_text s) f a" and "station_wf s" and "length (callsign (get f)) = 6"
  shows "\<exists>call. aprs_addr get put a = Some (APRS_NEXT, a\<lparr>ap_call := call, ap_offset_call := 0, ap_frame := put (station_addr s) f\<rparr>)
    \<and> length call = 10"
proof -
  let ?n = "length (station_text s)"
  let ?call = "(ap_call a)[?n := 0]"
  have h: "take ?n (ap_call a) = station_text s" "?n < length (ap_call a)" "ap_offset_call a = ?n" "ap_frame a = f" "length (ap_call a) = 10"
    using assms(1) station_text_facts(2) [OF assms(2)] by (auto simp: call_at_def)
  have "?call = station_text s @ 0 # drop (Suc ?n) (ap_call a)"
    using h(1,2) by (simp add: upd_conv_take_nth_drop)
  moreover have "takeWhile (\<lambda>b. b \<noteq> 0) (station_text s @ 0 # xs) = station_text s" for xs
    using station_text_facts(4) [OF assms(2)] by (subst takeWhile_append2) auto
  ultimately have "takeWhile (\<lambda>b. b \<noteq> 0) ?call = station_text s" by simp
  then show ?thesis
    using h station_pton [OF assms(2,3)] by (intro exI [of _ ?call]) (simp add: aprs_addr_def wr_def Let_def)
qed

text \<open>The separators: \<open>next_field f rs s\<close> is the frame with one more field.\<close>

lemma header_src:
  assumes "header_at (station_text s) f a" and "unread a = 0x3e # cs" and "station_wf s" and "length (callsign (f_src f)) = 6"
  shows "\<exists>a'. comes_to buf len a a' cs \<and> header_at [] (f\<lparr>f_src := station_addr s\<rparr>) a'"
proof -
  let ?a = "a\<lparr>ap_offset_i := ap_offset_i a + 1\<rparr>"
  have h: "header_at (station_text s) f ?a" "call_at (station_text s) f ?a"
    using assms(1) by (simp_all add: header_at_def call_at_def)
  from addr_text [OF h(2) assms(3), of f_src "\<lambda>a f. f\<lparr>f_src := a\<rparr>"] assms(4) obtain call where
    call: "aprs_addr f_src (\<lambda>a f. f\<lparr>f_src := a\<rparr>) ?a
      = Some (APRS_NEXT, ?a\<lparr>ap_call := call, ap_offset_call := 0, ap_frame := f\<lparr>f_src := station_addr s\<rparr>\<rparr>)" "length call = 10" by auto
  let ?b = "?a\<lparr>ap_call := call, ap_offset_call := 0, ap_frame := f\<lparr>f_src := station_addr s\<rparr>\<rparr>"
  have "aprs_byte 0x3e ?a buf len = Some (APRS_NEXT, ?b, buf)"
    using h call(1) by (simp add: aprs_byte_def aprs_header_def header_at_def)
  from comes_to_byte [OF assms(2) this] show ?thesis
    using h call(2) by (intro exI [of _ ?b]) (simp add: header_at_def)
qed

text \<open>The next address of a frame whose source is known: the destination, then the repeaters.\<close>

definition next_addr :: "station \<Rightarrow> frame \<Rightarrow> frame" where
  "next_addr s f = (if callsign (f_dest f) ! 0 = 0 then f\<lparr>f_dest := station_addr s\<rparr>
     else f\<lparr>f_hops := f_hops f + 1, f_repeaters := (f_repeaters f)[f_hops f := station_addr s]\<rparr>)"

definition next_ok :: "frame \<Rightarrow> bool" where
  "next_ok f \<longleftrightarrow> length (callsign (f_dest f)) = 6 \<and> f_hops f < 8 \<and> length (f_repeaters f) = 8
     \<and> (\<forall>a \<in> set (f_repeaters f). length (callsign a) = 6)"

definition field_at :: "byte \<Rightarrow> frame \<Rightarrow> aprs_is \<Rightarrow> bool" where
  "field_at c f a = (if c = 0x3a then body_at [] f a else header_at [] f a)"

lemma header_next:
  assumes "header_at (station_text s) f a" and "unread a = c # cs" and "c = 0x2c \<or> c = 0x3a" and "station_wf s" and "next_ok f"
  shows "\<exists>a'. comes_to buf len a a' cs \<and> field_at c (next_addr s f) a'"
proof -
  let ?a = "a\<lparr>ap_offset_i := ap_offset_i a + 1\<rparr>"
  let ?body = "\<lambda>a. if c = 0x3a then a\<lparr>ap_state := APRS_IS_BODY\<rparr> else a"
  have h: "header_at (station_text s) f ?a" using assms(1) by (simp add: header_at_def)
  have st: "aprs_byte c ?a buf len = do { (j, a) \<leftarrow> aprs_header c ?a; Some (j, a, buf) }" "ap_frame ?a = f"
    using h by (simp_all add: aprs_byte_def header_at_def)
  have "\<exists>a'. aprs_header c ?a = Some (APRS_NEXT, a') \<and> field_at c (next_addr s f) a'"
  proof (cases "callsign (f_dest f) ! 0 = 0")
    case True
    have "length (callsign (f_dest f)) = 6" using assms(5) by (simp add: next_ok_def)
    moreover have "call_at (station_text s) f (?body ?a)" using h by (simp add: header_at_def call_at_def)
    ultimately obtain call where
      "aprs_addr f_dest (\<lambda>a f. f\<lparr>f_dest := a\<rparr>) (?body ?a)
        = Some (APRS_NEXT, (?body ?a)\<lparr>ap_call := call, ap_offset_call := 0, ap_frame := f\<lparr>f_dest := station_addr s\<rparr>\<rparr>)"
      "length call = 10" using addr_text [where get = f_dest and put = "\<lambda>a f. f\<lparr>f_dest := a\<rparr>", OF _ assms(4)] by blast
    then show ?thesis using True st(2) h assms(3)
      by (auto simp: aprs_header_def next_addr_def field_at_def header_at_def body_at_def)
  next
    case False
    let ?f = "f\<lparr>f_hops := f_hops f + 1\<rparr>" and ?n = "f_hops f"
    let ?put = "\<lambda>a f. f\<lparr>f_repeaters := (f_repeaters f)[?n := a]\<rparr>"
    have n: "?n < 8" "length (callsign (f_repeaters ?f ! ?n)) = 6" using assms(5) by (auto simp: next_ok_def)
    have "call_at (station_text s) ?f (?body (?a\<lparr>ap_frame := ?f\<rparr>))" using h by (simp add: header_at_def call_at_def)
    with n(2) obtain call where
      "aprs_addr (\<lambda>f. f_repeaters f ! ?n) ?put (?body (?a\<lparr>ap_frame := ?f\<rparr>))
        = Some (APRS_NEXT, (?body (?a\<lparr>ap_frame := ?f\<rparr>))\<lparr>ap_call := call, ap_offset_call := 0, ap_frame := ?put (station_addr s) ?f\<rparr>)"
      "length call = 10" using addr_text [where get = "\<lambda>f. f_repeaters f ! ?n" and put = ?put, OF _ assms(4)] by blast
    then show ?thesis using False st(2) h assms(3) n(1)
      by (auto simp: aprs_header_def next_addr_def field_at_def header_at_def body_at_def PATTY_AX25_MAX_HOPS_def Let_def)
  qed
  then obtain a' where "aprs_byte c ?a buf len = Some (APRS_NEXT, a', buf)" "field_at c (next_addr s f) a'"
    using st(1) by auto
  with comes_to_byte [OF assms(2)] show ?thesis by blast
qed

text \<open>One field: its text and the separator behind it.\<close>

lemma header_field:
  assumes "header_at [] f a" and "unread a = station_text s @ c # cs" and "c = 0x2c \<or> c = 0x3a" and "station_wf s" and "next_ok f"
  shows "\<exists>a'. comes_to buf len a a' cs \<and> field_at c (next_addr s f) a'"
proof -
  note s = station_text_facts [OF assms(4)]
  obtain b where b: "comes_to buf len a b (c # cs)" "header_at (station_text s) f b"
    using header_text [OF assms(1,2) s(3,5)] s(2) by auto
  with header_next [OF b(2) comes_to_unread [OF b(1)] assms(3-5)] show ?thesis by (meson comes_to_trans)
qed

lemma body_text:
  assumes "body_at t f a" and "unread a = u @ cs" and "set u \<inter> {0x0a, 0x0d} = {}" and "length t + length u \<le> 256"
  shows "\<exists>a'. comes_to buf len a a' cs \<and> body_at (t @ u) f a'"
  using assms
proof (induction u arbitrary: t a)
  case Nil
  then show ?case by (auto intro: comes_to_refl)
next
  case (Cons c u)
  have t: "length t < 256" "length t < length (ap_body a)" using Cons.prems(1,4) by (auto simp: body_at_def)
  let ?a = "a\<lparr>ap_offset_i := ap_offset_i a + 1, ap_body := (ap_body a)[length t := c], ap_offset_body := length t + 1\<rparr>"
  have "aprs_byte c (a\<lparr>ap_offset_i := ap_offset_i a + 1\<rparr>) buf len = Some (APRS_NEXT, ?a, buf)"
    using Cons.prems(1,3) t by (simp add: aprs_byte_def aprs_body_def body_at_def wr_def)
  from comes_to_byte [OF _ this] Cons.prems(2) have one: "comes_to buf len a ?a (u @ cs)" by simp
  have "body_at (t @ [c]) f ?a"
    using Cons.prems(1) t by (simp add: body_at_def take_Suc_conv_app_nth)
  from Cons.IH [OF this comes_to_unread [OF one]] Cons.prems(3,4) obtain a' where
    "comes_to buf len ?a a' cs" "body_at ((t @ [c]) @ u) f a'" by auto
  with one show ?case by (auto intro: comes_to_trans)
qed

lemma body_cr:
  assumes "body_at t f a" and "unread a = 0x0d # cs"
  shows "\<exists>a'. comes_to buf len a a' cs \<and> body_at t f a'"
proof -
  have "aprs_byte 0x0d (a\<lparr>ap_offset_i := ap_offset_i a + 1\<rparr>) buf len = Some (APRS_NEXT, a\<lparr>ap_offset_i := ap_offset_i a + 1\<rparr>, buf)"
    using assms(1) by (simp add: aprs_byte_def aprs_body_def body_at_def)
  from comes_to_byte [OF assms(2) this] show ?thesis using assms(1) by (auto simp: body_at_def)
qed

lemma station_addr_length [simp]: "station_wf s \<Longrightarrow> length (callsign (station_addr s)) = 6"
  using station_addr_ok(1) [of s] by (auto simp: station_ok_def)

lemma next_addr_ok:
  assumes "next_ok f" and "station_wf s" and "callsign (f_dest f) ! 0 = 0 \<or> f_hops f < 7"
  shows "next_ok (next_addr s f)"
  using assms by (auto simp: next_ok_def next_addr_def dest: set_update_subset_insert [THEN subsetD])

lemma next_addr_hops: "f_hops (next_addr s f) = (if callsign (f_dest f) ! 0 = 0 then f_hops f else f_hops f + 1)"
  "station_wf s \<Longrightarrow> callsign (f_dest (next_addr s f)) ! 0 \<noteq> 0"
  using station_addr_ok(2) [of s] by (simp_all add: next_addr_def)

lemma header_fields:
  assumes "header_at [] f a" and "unread a = station_text s @ concat (map (\<lambda>r. 0x2c # station_text r) rs) @ 0x3a # cs"
    and "station_wf s" and "\<forall>r \<in> set rs. station_wf r" and "next_ok f"
    and "f_hops f + length rs + (if callsign (f_dest f) ! 0 = 0 then 0 else 1) \<le> 8"
  shows "\<exists>a'. comes_to buf len a a' cs \<and> body_at [] (fold next_addr (s # rs) f) a'"
  using assms
proof (induction rs arbitrary: s f a)
  case Nil
  have "unread a = station_text s @ 0x3a # cs" using Nil.prems(2) by simp
  from header_field [OF Nil.prems(1) this _ Nil.prems(3,5)] show ?case by (simp add: field_at_def)
next
  case (Cons r rs)
  have "unread a = station_text s @ 0x2c # station_text r @ concat (map (\<lambda>r. 0x2c # station_text r) rs) @ 0x3a # cs"
    using Cons.prems(2) by simp
  from header_field [OF Cons.prems(1) this _ Cons.prems(3,5)] obtain b where
    b: "comes_to buf len a b (station_text r @ concat (map (\<lambda>r. 0x2c # station_text r) rs) @ 0x3a # cs)"
    "header_at [] (next_addr s f) b" by (auto simp: field_at_def)
  have "next_ok (next_addr s f)"
    using Cons.prems(3,5,6) by (intro next_addr_ok) (auto simp: next_ok_def split: if_splits)
  from Cons.IH [OF b(2) comes_to_unread [OF b(1)] _ _ this] Cons.prems(3,4,6) obtain a' where
    "comes_to buf len b a' cs" "body_at [] (fold next_addr (r # rs) (next_addr s f)) a'"
    by (auto simp: next_addr_hops split: if_splits)
  with b(1) show ?case by (auto intro: comes_to_trans)
qed

lemma fold_next_addr:
  assumes "callsign (f_dest f) ! 0 \<noteq> 0" and "f_hops f + length rs \<le> length (f_repeaters f)"
  shows "fold next_addr rs f = f\<lparr>f_hops := f_hops f + length rs,
    f_repeaters := take (f_hops f) (f_repeaters f) @ map station_addr rs @ drop (f_hops f + length rs) (f_repeaters f)\<rparr>"
  using assms
proof (induction rs arbitrary: f)
  case (Cons r rs)
  let ?f = "next_addr r f"
  have f: "?f = f\<lparr>f_hops := f_hops f + 1, f_repeaters := (f_repeaters f)[f_hops f := station_addr r]\<rparr>"
    using Cons.prems(1) by (simp add: next_addr_def)
  from Cons.IH [of ?f] Cons.prems show ?case
    by (simp add: f take_Suc_conv_app_nth)
qed simp

text \<open>The frame of a whole header, and the frame that the end of the line makes of it.\<close>

lemma fields_ui_frame:
  assumes "station_wf d" and "length rs \<le> 8"
  shows "fold next_addr (d # rs) (frame_zero\<lparr>f_src := station_addr s\<rparr>) = frame_zero\<lparr>f_src := station_addr s,
    f_dest := station_addr d, f_hops := length rs, f_repeaters := map station_addr rs @ replicate (8 - length rs) addr_zero\<rparr>"
proof -
  let ?f = "frame_zero\<lparr>f_src := station_addr s\<rparr>"
  have f: "next_addr d ?f = ?f\<lparr>f_dest := station_addr d\<rparr>"
    by (simp add: next_addr_def frame_zero_def addr_zero_def)
  have "callsign (f_dest (next_addr d ?f)) ! 0 \<noteq> 0" using station_addr_ok(2) [OF assms(1)] by (simp add: f)
  note fold = fold_next_addr [OF this, of rs, unfolded f]
  have "f_hops frame_zero = 0" "f_repeaters frame_zero = replicate 8 addr_zero" by (simp_all add: frame_zero_def)
  with fold assms(2) f show ?thesis by simp
qed

lemma line_drained:
  assumes st: "station_wf s" "station_wf d" "\<forall>r \<in> set rs. station_wf r" "length rs \<le> 8"
    and info: "info \<noteq> []" "set info \<inter> {0x0a, 0x0d} = {}" "length info \<le> 256"
    and a: "header_at [] frame_zero a" "unread a = aprs_text s d rs info @ tail"
    and len: "331 \<le> len" "len \<le> length buf" "len < 2 ^ 63"
    and bs: "bs = frame_octets (ui_frame s d rs PATTY_AX25_PROTO_NONE info)"
  shows "\<exists>a'. aprs_drain_loop a buf len = Some (APRS_DONE, a', bs @ drop (length bs) buf)
    \<and> unread a' = tail \<and> ap_readlen a' = ap_readlen a \<and> ap_state a' = APRS_IS_COMPLETE \<and> ap_encoded a' = int (length bs)"
proof -
  let ?f0 = "frame_zero\<lparr>f_src := station_addr s\<rparr>"
  define f where "f = fold next_addr (d # rs) ?f0"
  let ?rest = "station_text d @ concat (map (\<lambda>r. 0x2c # station_text r) rs) @ 0x3a # info @ 0x0d # 0x0a # tail"
  note s = station_text_facts [OF st(1)]
  have un: "unread a = station_text s @ 0x3e # ?rest" using a(2) by (simp add: aprs_text_def)
  from header_text [OF a(1) un s(3,5)] s(2) obtain a1 where
    a1: "comes_to buf len a a1 (0x3e # ?rest)" "header_at (station_text s) frame_zero a1" by auto
  have "length (callsign (f_src frame_zero)) = 6" by (simp add: frame_zero_def addr_zero_def)
  from header_src [OF a1(2) comes_to_unread [OF a1(1)] st(1) this] obtain a2 where
    a2: "comes_to buf len a1 a2 ?rest" "header_at [] ?f0 a2" by auto
  have "next_ok ?f0" "f_hops ?f0 + length rs + (if callsign (f_dest ?f0) ! 0 = 0 then 0 else 1) \<le> 8"
    using st(4) by (simp_all add: next_ok_def frame_zero_def addr_zero_def)
  from header_fields [OF a2(2) comes_to_unread [OF a2(1)] st(2,3) this] obtain a3 where
    a3: "comes_to buf len a2 a3 (info @ 0x0d # 0x0a # tail)" "body_at [] f a3" by (auto simp: f_def)
  from body_text [OF a3(2) comes_to_unread [OF a3(1)]] info obtain a4 where
    a4: "comes_to buf len a3 a4 (0x0d # 0x0a # tail)" "body_at info f a4" by auto
  from body_cr [OF a4(2) comes_to_unread [OF a4(1)]] obtain a5 where
    a5: "comes_to buf len a4 a5 (0x0a # tail)" "body_at info f a5" by blast
  have to: "comes_to buf len a a5 (0x0a # tail)"
    using a1(1) a2(1) a3(1) a4(1) a5(1) by (meson comes_to_trans)
  let ?g = "f\<lparr>f_control := ucast PATTY_AX25_FRAME_UI, f_cr := PATTY_AX25_FRAME_COMMAND,
    f_proto := PATTY_AX25_PROTO_NONE, f_info := Some (ap_body a5), f_infolen := of_nat (length info)\<rparr>"
  let ?u = "ui_frame s d rs PATTY_AX25_PROTO_NONE info"
  have body: "take (length info) (ap_body a5) = info" "length (ap_body a5) = 256" "ap_offset_body a5 = length info"
    "ap_state a5 = APRS_IS_BODY" "ap_frame a5 = f" using a5(2) by (simp_all add: body_at_def)
  have g: "?g = ?u\<lparr>f_info := Some (ap_body a5)\<rparr>"
    unfolding f_def fields_ui_frame [OF st(2,4)] by (simp add: ui_frame_def frame_zero_def)
  have small: "unat (of_nat (length info) :: size_t) = length info" using info(3) by (subst unat_of_nat) simp
  have ok: "frame_addr_ok ?g" using ui_frame_ok [OF st] unfolding g by (simp add: frame_addr_ok_def)
  have oct: "frame_octets ?g = bs"
    unfolding g bs using body(1) small by (simp add: frame_octets_def frame_stations_def)
  have "patty_ax25_frame_encode ?g buf len = Some (Inr (length bs), bs @ drop (length bs) buf)"
    using frame_encode_octets [OF ok, of len buf] small body(2) info(3) len st(4) oct
    unfolding g by simp
  then have byte: "aprs_byte 0x0a (a5\<lparr>ap_offset_i := ap_offset_i a5 + 1\<rparr>) buf len
      = Some (APRS_DONE, a5\<lparr>ap_offset_i := ap_offset_i a5 + 1, ap_state := APRS_IS_COMPLETE, ap_frame := ?g,
          ap_encoded := int (length bs)\<rparr>, bs @ drop (length bs) buf)"
    using body by (simp add: aprs_byte_def aprs_body_def Let_def)
  note dr = drain_unread [OF comes_to_unread [OF to] byte]
  with to show ?thesis by (auto simp: comes_to_def)
qed

section \<open>The properties of the driver\<close>

text \<open>A connection that waits for a line, and has read nothing that it has not looked at.\<close>

definition aprs_waiting :: "aprs_is \<Rightarrow> bool" where
  "aprs_waiting a \<longleftrightarrow> header_at [] frame_zero a \<and> length (ap_rx_buf a) = 512 \<and> ap_rx_bufsz a = 512"

definition aprs_sending :: "aprs_is \<Rightarrow> bool" where
  "aprs_sending a \<longleftrightarrow> length (ap_tx_buf a) = 512 \<and> ap_tx_bufsz a = 512"

definition path_wf :: "station \<Rightarrow> station \<Rightarrow> station list \<Rightarrow> bool" where
  "path_wf s d rs \<longleftrightarrow> station_wf s \<and> station_wf d \<and> (\<forall>r \<in> set rs. station_wf r) \<and> length rs \<le> 8"

text \<open>
  C13: What one station sends through APRS-IS arrives at another. The driver writes a UI frame as
  one line \<open>SRC>DEST,REPEATERS:payload\<close>; when another driver reads that line, draining gives the same
  frame with the same stations, path and payload (but protocol \<open>none\<close>), pending for the interface.
  Whatever the server sent behind that line in the same read is lost when the frame is flushed:
  \<open>flush\<close> puts the read position at the end of the buffer.
\<close>
theorem aprs_line_roundtrip:
  assumes "path_wf s d rs" and "aprs_sending a" and "script w = []" and "length (f_repeaters junk) = 8"
    and "info \<noteq> []" and "set info \<inter> {0x0a, 0x0d} = {}" and "length info \<le> 256"
    and "aprs_waiting b" and "length (aprs_text s d rs info @ tail) \<le> 512" and "script v = [RBytes (aprs_text s d rs info @ tail)]"
    and "331 \<le> len" and "len \<le> length buf" and "len < 2 ^ 63"
    and "bs = frame_octets (ui_frame s d rs PATTY_AX25_PROTO_NONE info)"
  shows "(\<exists>a'. patty_ax25_aprs_is_send junk a (frame_octets (ui_frame s d rs p info)) w
      = Some (int (length (frame_octets (ui_frame s d rs p info))), a', w\<lparr>out := out w @ [(ap_fd a, aprs_text s d rs info)]\<rparr>))
    \<and> (\<exists>n b1 v1 r b2 buf'. patty_ax25_aprs_is_fill b v = (n, b1, v1) \<and> 0 < n
      \<and> patty_ax25_aprs_is_drain b1 buf len = Some (Inr r, b2, buf') \<and> patty_ax25_aprs_is_pending b2
      \<and> buf' = bs @ drop (length bs) buf \<and> fst (patty_ax25_aprs_is_flush b2) = int (length bs)
      \<and> unread b2 = tail \<and> unread (snd (patty_ax25_aprs_is_flush b2)) = [])"
proof
  note st = assms(1) [unfolded path_wf_def]
  have "length (aprs_text s d rs info) \<le> 512" using assms(9) by simp
  then obtain rest where
    "patty_ax25_aprs_is_send junk a (frame_octets (ui_frame s d rs p info)) w
      = do { (ok, a, w) \<leftarrow> send_attempts 3 (length (aprs_text s d rs info)) (a\<lparr>ap_tx_buf := aprs_text s d rs info @ rest\<rparr>) w;
             Some (if ok then int (length (frame_octets (ui_frame s d rs p info))) else -1, a, w) }"
    using send_prepares [of s d rs info a junk _ p w, OF _ _ _ _ assms(5) _ _ _ assms(4) refl] st assms(2)
    by (auto simp: aprs_sending_def)
  then show "\<exists>a'. patty_ax25_aprs_is_send junk a (frame_octets (ui_frame s d rs p info)) w
      = Some (int (length (frame_octets (ui_frame s d rs p info))), a', w\<lparr>out := out w @ [(ap_fd a, aprs_text s d rs info)]\<rparr>)"
    using send_attempts_quiet [OF assms(3), of "length (aprs_text s d rs info)" "a\<lparr>ap_tx_buf := aprs_text s d rs info @ rest\<rparr>" 2]
    by (simp add: numeral_3_eq_3 del: send_attempts.simps)
next
  note st = assms(1) [unfolded path_wf_def]
  let ?l = "aprs_text s d rs info @ tail"
  let ?b = "b\<lparr>ap_rx_buf := ?l @ drop (length ?l) (ap_rx_buf b), ap_readlen := of_nat (length ?l), ap_offset_i := 0\<rparr>"
  have b: "header_at [] frame_zero b" "length (ap_rx_buf b) = 512" "ap_rx_bufsz b = 512"
    using assms(8) by (simp_all add: aprs_waiting_def)
  have fill: "patty_ax25_aprs_is_fill b v = (int (length ?l), ?b, v\<lparr>script := []\<rparr>)"
    using assms(9,10) b(3) by (simp add: patty_ax25_aprs_is_fill_def sys_read_def)
  have n: "unat (of_nat (length ?l) :: size_t) = length ?l" using assms(9) by (subst unat_of_nat) simp
  have "unread ?b = ?l" using n by (simp add: unread_def)
  moreover have "header_at [] frame_zero ?b" using b(1) by (simp add: header_at_def)
  ultimately obtain b2 where b2: "aprs_drain_loop ?b buf len = Some (APRS_DONE, b2, bs @ drop (length bs) buf)"
    "unread b2 = tail" "ap_state b2 = APRS_IS_COMPLETE" "ap_encoded b2 = int (length bs)"
    using line_drained [of s d rs info ?b tail len buf bs] st assms(5-7,11-14) by blast
  have "0 < int (length ?l)" by (simp add: aprs_text_def)
  with fill b2 show "\<exists>n b1 v1 r b2 buf'. patty_ax25_aprs_is_fill b v = (n, b1, v1) \<and> 0 < n
      \<and> patty_ax25_aprs_is_drain b1 buf len = Some (Inr r, b2, buf') \<and> patty_ax25_aprs_is_pending b2
      \<and> buf' = bs @ drop (length bs) buf \<and> fst (patty_ax25_aprs_is_flush b2) = int (length bs)
      \<and> unread b2 = tail \<and> unread (snd (patty_ax25_aprs_is_flush b2)) = []"
    by (simp add: patty_ax25_aprs_is_drain_def patty_ax25_aprs_is_pending_def patty_ax25_aprs_is_flush_def unread_def)
qed

lemma demo_path_wf: "path_wf ([0x4b, 0x5a, 0x33], 1) ([0x41, 0x50], 0) [([0x57, 0x31], 15)]"
  by (simp add: path_wf_def station_wf_def canonical_text_def callsign_char_def)

lemma aprs_waiting_init: "aprs_waiting aprs_init" "aprs_sending aprs_init"
  by (simp_all add: aprs_waiting_def aprs_sending_def header_at_def aprs_init_def PATTY_AX25_ADDRSTRLEN_def)

lemma aprs_line_roundtrip_witness:
  "\<exists>n b1 v1 r b2 buf'. patty_ax25_aprs_is_fill aprs_init
      (world0 [RBytes [0x4b, 0x5a, 0x33, 0x2d, 0x31, 0x3e, 0x41, 0x50, 0x2c, 0x57, 0x31, 0x2d, 0x31, 0x35, 0x3a, 0x68, 0x0d, 0x0a, 0x41]]) = (n, b1, v1)
    \<and> patty_ax25_aprs_is_drain b1 (replicate 400 0) 400 = Some (Inr r, b2, buf') \<and> patty_ax25_aprs_is_pending b2
    \<and> unread b2 = [0x41] \<and> unread (snd (patty_ax25_aprs_is_flush b2)) = []"
proof -
  let ?t = "[0x4b, 0x5a, 0x33, 0x2d, 0x31, 0x3e, 0x41, 0x50, 0x2c, 0x57, 0x31, 0x2d, 0x31, 0x35, 0x3a, 0x68, 0x0d, 0x0a] :: byte list"
  have line: "aprs_text ([0x4b, 0x5a, 0x33], 1) ([0x41, 0x50], 0) [([0x57, 0x31], 15)] [0x68] = ?t"
    by (simp add: aprs_text_def station_text_def ssid_text_def)
  have w: "script (world0 []) = []" "length (f_repeaters frame_zero) = 8" "script (world0 [RBytes (?t @ [0x41])]) = [RBytes (?t @ [0x41])]"
    by (simp_all add: world0_def frame_zero_def)
  have i: "[0x68 :: byte] \<noteq> []" "set [0x68 :: byte] \<inter> {0x0a, 0x0d} = {}" "length [0x68 :: byte] \<le> 256" "length (?t @ [0x41]) \<le> 512"
    "331 \<le> (400 :: nat)" "400 \<le> length (replicate 400 (0 :: byte))" "(400 :: nat) < 2 ^ 63" by simp_all
  from aprs_line_roundtrip [OF demo_path_wf aprs_waiting_init(2) w(1,2) i(1-3) aprs_waiting_init(1), unfolded line, OF i(4) w(3) i(5-7) refl]
  show ?thesis unfolding append.simps by blast
qed

text \<open>No line looks like a login: the login has a blank behind its fourth character.\<close>

lemma login_not_line:
  assumes "station_wf s"
  shows "\<exists>k < 5. aprs_text s d rs info ! k \<noteq> login_text i ! k \<and> k < length (aprs_text s d rs info)"
proof -
  let ?t = "aprs_text s d rs info" and ?n = "length (fst s)"
  have s: "fst s \<noteq> []" "\<forall>c \<in> set (fst s). callsign_char c"
    using assms by (simp_all add: station_wf_def canonical_text_def)
  have login: "login_text i ! 1 = 0x73" "login_text i ! 2 = 0x65" "login_text i ! 3 = 0x72" "login_text i ! 4 = 0x20"
    by (simp_all add: login_text_def cstr_def numeral_eq_Suc)
  obtain c u where t: "?t = fst s @ c # u" and c: "c = 0x2d \<or> c = 0x3e"
    by (cases "ssid_text (snd s)") (auto simp: aprs_text_def station_text_def ssid_text_def split: if_splits)
  show ?thesis
  proof (cases "4 < ?n")
    case True
    then have "?t ! 4 = fst s ! 4" "fst s ! 4 \<in> set (fst s)" by (simp_all add: t nth_append)
    then have "?t ! 4 \<noteq> 0x20" using s(2) by (auto simp: callsign_char_def)
    with True login(4) show ?thesis by (intro exI [of _ 4]) (simp add: t)
  next
    case False
    moreover have "0 < ?n" using s(1) by simp
    ultimately have n: "?n = 1 \<or> ?n = 2 \<or> ?n = 3 \<or> ?n = 4" by linarith
    have "?t ! ?n = c" by (simp add: t)
    with n login c have "?t ! ?n \<noteq> login_text i ! ?n" by (elim disjE) simp_all
    with False show ?thesis by (intro exI [of _ ?n]) (simp add: t)
  qed
qed

text \<open>
  C40: A line that meets a broken connection is never sent. If the write fails with \<open>EIO\<close>, the driver
  connects again and repeats the write; but connecting has put the login line into the very buffer
  that is written. What is sent on the new descriptor, and reported as success, is the login once
  more, with its NUL, cut to the length of the line, followed by what a longer line has left behind
  it; line and login fit the buffer here. It never is the line.
\<close>
theorem aprs_retry_sends_login:
  assumes "path_wf s d rs" and "aprs_sending a" and "length (f_repeaters junk) = 8" and "info \<noteq> []"
    and "length (aprs_text s d rs info) \<le> 512" and "length (login_text (ap_info a)) \<le> 511"
    and "script w = [RErr EIO, RBytes [SOCK_STREAM], RVal fd]" and "0 \<le> fd"
    and "bs = frame_octets (ui_frame s d rs p info)"
  shows "\<exists>a' w' sent. patty_ax25_aprs_is_send junk a bs w = Some (int (length bs), a', w')
    \<and> ap_fd a' = fd \<and> closed w' = closed w
    \<and> out w' = out w @ [(fd, login_text (ap_info a)), (fd, sent)]
    \<and> sent = take (length (aprs_text s d rs info)) (login_text (ap_info a) @ [0]
        @ drop (length (login_text (ap_info a)) + 1) (aprs_text s d rs info))
    \<and> sent \<noteq> aprs_text s d rs info"
proof -
  let ?t = "aprs_text s d rs info" and ?l = "login_text (ap_info a)"
  obtain rest where rest: "length (?t @ rest) = 512" and send:
    "patty_ax25_aprs_is_send junk a bs w
      = do { (ok, a, w) \<leftarrow> send_attempts 3 (length ?t) (a\<lparr>ap_tx_buf := ?t @ rest\<rparr>) w;
             Some (if ok then int (length bs) else -1, a, w) }"
    using send_prepares [of s d rs info a junk bs p w, OF _ _ _ _ assms(4) _ _ _ assms(3,9)] assms(1,2,5)
    by (auto simp: aprs_sending_def path_wf_def)
  have blit: "blit (?t @ rest) 0 (?l @ [0]) = Some (?l @ [0] @ drop (length ?l + 1) (?t @ rest))"
    using rest assms(6) by (simp add: blit_def)
  let ?sent = "take (length ?t) (?l @ [0] @ drop (length ?l + 1) ?t)"
  have sent: "take (length ?t) (?l @ [0] @ drop (length ?l + 1) (?t @ rest)) = ?sent"
    by (cases "length ?t \<le> length ?l + 1") (simp_all add: take_Cons')
  obtain k where k: "k < 5" "?t ! k \<noteq> ?l ! k" "k < length ?t"
    using login_not_line [of s d rs info "ap_info a"] assms(1) by (auto simp: path_wf_def)
  moreover have "5 \<le> length ?l" by (simp add: login_text_def cstr_def)
  ultimately have "?sent ! k = ?l ! k" by (simp add: nth_append)
  with k(2) have differ: "?sent \<noteq> ?t" by metis
  let ?a = "a\<lparr>ap_tx_buf := ?l @ [0] @ drop (length ?l + 1) (?t @ rest), ap_fd := fd\<rparr>"
  let ?w = "w\<lparr>err := Some EIO, script := [], out := out w @ [(fd, ?l)]\<rparr>"
  have printf: "aprs_is_printf ?l (a\<lparr>ap_tx_buf := ?t @ rest, ap_fd := fd\<rparr>) (w\<lparr>err := Some EIO, script := []\<rparr>)
      = Some (int (length ?l), ?a, ?w)"
    using blit assms(6) by (simp add: aprs_is_printf_def snprintf_def slice_def)
  have conn: "aprs_is_connect (ap_info a) (a\<lparr>ap_tx_buf := ?t @ rest\<rparr>) (w\<lparr>script := [RBytes [SOCK_STREAM], RVal fd], err := Some EIO\<rparr>)
      = Some (0, ?a, ?w)"
    using printf assms(8) by (simp add: aprs_is_connect_def sys_getaddrinfo_def sys_fd_def sys_call_def)
  have long: "length ?t \<le> length (ap_tx_buf ?a)" using rest assms(5,6) by simp
  have fst: "sys_write (ap_fd a) bs' w = (-1, w\<lparr>script := [RBytes [SOCK_STREAM], RVal fd], err := Some EIO\<rparr>)" for bs'
    using assms(7) by (simp add: sys_write_def sys_call_def)
  have snd: "send_attempts (Suc (Suc 0)) (length ?t) ?a ?w
      = Some (True, ?a, ?w\<lparr>out := out ?w @ [(fd, ?sent)]\<rparr>)"
    using send_attempts_quiet [of ?w "length ?t" ?a "Suc 0"] long by (simp add: sent [simplified] del: send_attempts.simps)
  have "send_attempts (Suc (Suc (Suc 0))) (length ?t) (a\<lparr>ap_tx_buf := ?t @ rest\<rparr>) w
      = send_attempts (Suc (Suc 0)) (length ?t) ?a ?w"
    using fst conn by (subst send_attempts.simps(2)) (simp add: slice_def del: send_attempts.simps)
  with send snd differ show ?thesis by (simp add: numeral_3_eq_3 del: send_attempts.simps)
qed

lemma aprs_retry_sends_login_witness:
  "\<exists>a' w'. patty_ax25_aprs_is_send frame_zero aprs_init
      (frame_octets (ui_frame ([0x4b, 0x5a, 0x33], 1) ([0x41, 0x50], 0) [([0x57, 0x31], 15)] 0 [0x68]))
      (world0 [RErr EIO, RBytes [SOCK_STREAM], RVal 7]) = Some (24, a', w')
    \<and> out w' = [(7, login_text info_zero), (7, cstr ''user  pass  vers  '')]"
proof -
  let ?bs = "frame_octets (ui_frame ([0x4b, 0x5a, 0x33], 1) ([0x41, 0x50], 0) [([0x57, 0x31], 15)] 0 [0x68])"
  have line: "length (aprs_text ([0x4b, 0x5a, 0x33], 1) ([0x41, 0x50], 0) [([0x57, 0x31], 15)] [0x68]) = 18"
    by (simp add: aprs_text_def station_text_def ssid_text_def)
  have info: "ap_info aprs_init = info_zero" "ap_fd aprs_init = 0" by (simp_all add: aprs_init_def)
  have login: "length (login_text info_zero) = 28" by (simp add: login_text_def info_zero_def cstr_def)
  have oct: "length ?bs = 24"
    by (simp add: frame_octets_def ui_frame_def frame_stations_def wire_length proto_octets_def ui_control [simplified] ctl_octets_def Let_def frame_zero_def
      station_addr_def addr_of_def)
  have sent: "take 18 (login_text info_zero @ u) = cstr ''user  pass  vers  ''" for u
    by (simp add: login_text_def info_zero_def cstr_def)
  have p: "(18 :: nat) \<le> 512" "length (login_text (ap_info aprs_init)) \<le> 511"
    "script (world0 [RErr EIO, RBytes [SOCK_STREAM], RVal 7]) = [RErr EIO, RBytes [SOCK_STREAM], RVal 7]" "(0 :: int) \<le> 7"
    "length (f_repeaters frame_zero) = 8" "[0x68 :: byte] \<noteq> []"
    by (simp_all add: login info world0_def frame_zero_def)
  from aprs_retry_sends_login [OF demo_path_wf aprs_waiting_init(2) p(5,6), unfolded line, OF p(1-4) refl, of 0]
  show ?thesis unfolding info oct sent by (simp add: world0_def) blast
qed

end
