(* ===== verification/Patty_Daemon.thy ===== *)
theory Patty_Daemon
  imports Patty_Format Patty_Conf Patty_Client Patty_Aprs
begin

text \<open>
  The daemon: \<open>src/src/daemon.c\<close>, the configuration and the start of \<open>src/bin/pattyd.c\<close>, and the
  makers of interfaces it calls, \<open>src/bin/if.c\<close> and \<open>src/bin/kiss.c\<close>.

  The daemon owns a server whose interfaces are KISS devices or APRS-IS connections, so its physical
  devices are of the sum type \<open>net\<close> and \<open>net_driver\<close> calls the table of the driver a device belongs
  to. The arguments of a configuration line are the list of its words; the code ends them with a
  NULL, and comparing that, or reading behind it, is undefined (\<open>None\<close>). What the library decides is
  a parameter (\<open>host\<close>): the texts of \<open>strerror\<close> and the contents of fresh memory. The results of
  \<open>getopt_long\<close> are an argument of \<open>pattyd_main\<close>, and so are the clock and the ready descriptors of
  each turn of the endless loop. While a configuration is read, the reader takes the system's
  replies from a script of its own.

  The lemmas show which interfaces a configuration makes and that they keep the contract of
  drivers, what the lines of a configuration do to the daemon, and where the handlers go wrong.
\<close>

section \<open>Devices of both kinds\<close>

type_synonym net = "tnc + aprs_is"

definition net_driver :: "frame \<Rightarrow> net if_driver" where
  "net_driver junk =
     (let k = patty_kiss_tnc_driver; a = patty_ax25_aprs_is_driver junk in
      \<lparr>d_destroy = case_sum (d_destroy k) (d_destroy a),
       d_stats = case_sum (d_stats k) (d_stats a),
       d_stats_upd = (\<lambda>f. map_sum (d_stats_upd k f) (d_stats_upd a f)),
       d_fd = case_sum (d_fd k) (d_fd a),
       d_ready = case_sum (d_ready k) (d_ready a),
       d_reset = (\<lambda>p w. case p of
           Inl t \<Rightarrow> map_option (\<lambda>(r, t, w). (r, Inl t, w)) (d_reset k t w)
         | Inr t \<Rightarrow> map_option (\<lambda>(r, t, w). (r, Inr t, w)) (d_reset a t w)),
       d_fill = (\<lambda>p w. case p of
           Inl t \<Rightarrow> (case d_fill k t w of (r, t, w) \<Rightarrow> (r, Inl t, w))
         | Inr t \<Rightarrow> (case d_fill a t w of (r, t, w) \<Rightarrow> (r, Inr t, w))),
       d_drain = (\<lambda>p buf len. case p of
           Inl t \<Rightarrow> map_option (\<lambda>(r, t, buf). (r, Inl t, buf)) (d_drain k t buf len)
         | Inr t \<Rightarrow> map_option (\<lambda>(r, t, buf). (r, Inr t, buf)) (d_drain a t buf len)),
       d_pending = case_sum (d_pending k) (d_pending a),
       d_flush = (\<lambda>p. case p of
           Inl t \<Rightarrow> (case d_flush k t of (r, t) \<Rightarrow> (r, Inl t))
         | Inr t \<Rightarrow> (case d_flush a t of (r, t) \<Rightarrow> (r, Inr t))),
       d_send = (\<lambda>p buf w. case p of
           Inl t \<Rightarrow> map_option (\<lambda>(r, t, w). (r, Inl t, w)) (d_send k t buf w)
         | Inr t \<Rightarrow> map_option (\<lambda>(r, t, w). (r, Inr t, w)) (d_send a t buf w))\<rparr>)"

section \<open>daemon.c\<close>

text \<open>
  The server is allocated last; until then its field stands for the system around the daemon.
\<close>

record 'p daemon =
  dm_sock_path :: "cstring option"
  dm_pidfile :: "cstring option"
  dm_server :: "'p server"

definition PATTY_DAEMON_DEFAULT_PIDFILE :: cstring where
  "PATTY_DAEMON_DEFAULT_PIDFILE = cstr ''/var/run/patty/patty.pid''"

definition strdup :: "cstring \<Rightarrow> world \<Rightarrow> cstring option \<times> world" where
  "strdup s w = (case sys_call w of (m, w) \<Rightarrow> (if m < 0 then None else Some s, w))"

text \<open>The old path is freed first, and the field is NULL when there is no memory for the new one.\<close>

definition patty_daemon_set_sock_path :: "cstring \<Rightarrow> 'p daemon \<Rightarrow> int \<times> 'p daemon" where
  "patty_daemon_set_sock_path path d =
     (case on_world (strdup path) (dm_server d) of (p, s) \<Rightarrow>
      (if p = None then -1 else 0, d\<lparr>dm_sock_path := p, dm_server := s\<rparr>))"

definition patty_daemon_set_pidfile :: "cstring \<Rightarrow> 'p daemon \<Rightarrow> int \<times> 'p daemon" where
  "patty_daemon_set_pidfile path d =
     (case on_world (strdup path) (dm_server d) of (p, s) \<Rightarrow>
      (if p = None then -1 else 0, d\<lparr>dm_pidfile := p, dm_server := s\<rparr>))"

definition daemon_zero :: "env \<Rightarrow> world \<Rightarrow> 'p daemon" where
  "daemon_zero ev w = \<lparr>dm_sock_path = None, dm_pidfile = None, dm_server = server_zero ev w\<rparr>"

definition patty_daemon_new :: "env \<Rightarrow> world \<Rightarrow> 'p daemon option \<times> world" where
  "patty_daemon_new ev w =
     (case sys_call w of (m, w) \<Rightarrow>
      if m < 0 then (None, w)
      else case patty_daemon_set_sock_path PATTY_DAEMON_DEFAULT_SOCK (daemon_zero ev w) of (r, d) \<Rightarrow>
      if r < 0 then (None, sv_world (dm_server d))
      else case patty_daemon_set_pidfile PATTY_DAEMON_DEFAULT_PIDFILE d of (r, d) \<Rightarrow>
      if r < 0 then (None, sv_world (dm_server d))
      else case patty_ax25_server_new ev (sv_world (dm_server d)) of
        (None, w) \<Rightarrow> (None, w)
      | (Some s, w) \<Rightarrow> (Some (d\<lparr>dm_server := s\<rparr>), w))"

definition patty_daemon_destroy :: "'p daemon \<Rightarrow> world option" where
  "patty_daemon_destroy d = patty_ax25_server_destroy (dm_server d)"

text \<open>
  The turns of the endless loop, each with the clock before and after it and the ready descriptors.
  \<open>True\<close> is a loop that still runs after them.
\<close>

type_synonym turn = "timespec \<times> timespec \<times> (int \<Rightarrow> bool)"

fun run_turns :: "turn list \<Rightarrow> 'p server \<Rightarrow> (bool \<times> 'p server) option" where
  "run_turns [] s = Some (True, s)"
| "run_turns ((before, after, ready) # ts) s =
     do { (r, s) \<leftarrow> patty_ax25_server_event_handle before after ready s;
          if r < 0 then Some (False, snd (patty_ax25_server_stop s)) else run_turns ts s }"

definition patty_daemon_run :: "turn list \<Rightarrow> 'p daemon \<Rightarrow> (bool \<times> 'p daemon) option" where
  "patty_daemon_run ts d =
     do { (r, s) \<leftarrow> patty_ax25_server_start (dm_server d);
          if r < 0 then Some (False, d\<lparr>dm_server := s\<rparr>)
          else do { (go, s) \<leftarrow> run_turns ts s; Some (go, d\<lparr>dm_server := s\<rparr>) } }"

definition patty_daemon_if_add :: "nat \<Rightarrow> cstring \<Rightarrow> 'p daemon \<Rightarrow> (int \<times> 'p daemon) option" where
  "patty_daemon_if_add p ifname d =
     do { (r, s) \<leftarrow> patty_ax25_server_if_add p ifname (dm_server d); Some (r, d\<lparr>dm_server := s\<rparr>) }"

text \<open>The loop over the repeaters: there are eight places, and \<open>route->hops\<close> is never stored.\<close>

fun path_pton :: "cstring list \<Rightarrow> nat \<Rightarrow> addr list \<Rightarrow> (unit cres \<times> addr list) option" where
  "path_pton [] i rs = Some (Inr (), rs)"
| "path_pton (h # hs) i rs =
     (if i \<ge> length rs then None
      else case patty_ax25_pton h (rs ! i) of
        (Inl e, a) \<Rightarrow> Some (Inl e, rs[i := a])
      | (Inr _, a) \<Rightarrow> path_pton hs (i + 1) (rs[i := a]))"

definition patty_daemon_route_add ::
  "cstring \<Rightarrow> cstring option \<Rightarrow> cstring list \<Rightarrow> 'p daemon \<Rightarrow> (int \<times> 'p daemon) option" where
  "patty_daemon_route_add ifname dest repeaters d =
     do { iface \<leftarrow> patty_ax25_server_if_get (dm_server d) ifname;
          case iface of
            None \<Rightarrow> Some (-1, d)
          | Some p \<Rightarrow>
              (case on_world sys_call (dm_server d) of (m, s) \<Rightarrow>
               if m < 0 then Some (-1, d\<lparr>dm_server := s\<rparr>)
               else let r = h_next s; route = route_zero\<lparr>rt_iface := p\<rparr> in
               case (case dest of None \<Rightarrow> (Inr (), rt_dest route) | Some t \<Rightarrow> patty_ax25_pton t (rt_dest route)) of
                 (Inl e, _) \<Rightarrow> Some (-1, d\<lparr>dm_server := set_errno e s\<rparr>)
               | (Inr _, a) \<Rightarrow>
                   do { (ok, rs) \<leftarrow> path_pton repeaters 0 (rt_repeaters route);
                        case ok of
                          Inl e \<Rightarrow> Some (-1, d\<lparr>dm_server := set_errno e s\<rparr>)
                        | Inr _ \<Rightarrow>
                            do { (x, s) \<leftarrow> patty_ax25_server_route_add r
                                   (s\<lparr>h_routes := (h_routes s)(r \<mapsto> route\<lparr>rt_dest := a, rt_repeaters := rs\<rparr>), h_next := r + 1\<rparr>);
                                 Some (x, d\<lparr>dm_server := s\<rparr>) } }) }"

definition patty_daemon_route_add_default :: "cstring \<Rightarrow> 'p daemon \<Rightarrow> (int \<times> 'p daemon) option" where
  "patty_daemon_route_add_default ifname d = patty_daemon_route_add ifname None [] d"

section \<open>Making interfaces\<close>

text \<open>The texts of the library and the contents of fresh buffers.\<close>

record host =
  ho_strerror :: "errno option \<Rightarrow> cstring"
  ho_rx :: "byte list"
  ho_tx :: "byte list"
  ho_frame :: frame

definition strerror_now :: "host \<Rightarrow> 'p server \<Rightarrow> cstring" where
  "strerror_now ho s = ho_strerror ho (err (sv_world s))"

definition set_error :: "cstring \<Rightarrow> patty_error \<Rightarrow> patty_error" where
  "set_error message e = snd (patty_error_fmt e (Some message))"

text \<open>\<open>'%s'\<close>\<close>

definition quoted :: "cstring \<Rightarrow> cstring" where
  "quoted s = [0x27] @ s @ [0x27]"

definition tnc_info_zero :: tnc_info where
  "tnc_info_zero = \<lparr>ti_flags = 0, ti_device = [], ti_fd = 0, ti_baud = 0, ti_flow = PATTY_KISS_TNC_FLOW_NONE\<rparr>"

definition starts_with_digit :: "cstring \<Rightarrow> bool" where
  "starts_with_digit a \<longleftrightarrow> a \<noteq> [] \<and> is_digit (hd a)"

definition info_flow :: "tnc_flow \<Rightarrow> tnc_info \<Rightarrow> tnc_info" where
  "info_flow flow info = info\<lparr>ti_flags := ti_flags info OR PATTY_KISS_TNC_FLOW, ti_flow := flow\<rparr>"

definition info_baud :: "int \<Rightarrow> tnc_info \<Rightarrow> tnc_info" where
  "info_baud baud info = info\<lparr>ti_flags := ti_flags info OR PATTY_KISS_TNC_BAUD, ti_baud := word_of_int baud\<rparr>"

text \<open>\<open>patty_bin_kiss_config\<close>: the loop over the arguments behind the device, and the whole.\<close>

fun tioargs :: "cstring list \<Rightarrow> tnc_info \<Rightarrow> patty_error \<Rightarrow> (int \<times> tnc_info \<times> patty_error) option" where
  "tioargs [] info e = Some (0, info, e)"
| "tioargs (a # as) info e =
     (if a = cstr ''crtscts'' then tioargs as (info_flow PATTY_KISS_TNC_FLOW_CRTSCTS info) e
      else if a = cstr ''xonxoff'' then tioargs as (info_flow PATTY_KISS_TNC_FLOW_XONXOFF info) e
      else if starts_with_digit a then do { n \<leftarrow> atoi a; tioargs as (info_baud n info) e }
      else Some (-1, info, set_error (cstr ''Invalid KISS TNC device parameter '' @ quoted a) e))"

definition patty_bin_kiss_config :: "cstring list \<Rightarrow> patty_error \<Rightarrow> (int \<times> tnc_info \<times> patty_error) option" where
  "patty_bin_kiss_config argv e =
     (case argv of [] \<Rightarrow> None
      | device # as \<Rightarrow>
          tioargs as (tnc_info_zero\<lparr>ti_flags := PATTY_KISS_TNC_DEVICE, ti_device := device\<rparr>) e)"

text \<open>The arguments of \<open>kiss\<close>; the result says whether the loop ran to its end.\<close>

datatype mode_kiss = MODE_KISS_DEVICE | MODE_KISS_IFOPTS | MODE_KISS_BAUD | MODE_KISS_FLOW

fun kiss_args ::
  "host \<Rightarrow> cstring list \<Rightarrow> mode_kiss \<Rightarrow> tnc_info \<Rightarrow> patty_error \<Rightarrow> 'p server
   \<Rightarrow> (bool \<times> tnc_info \<times> patty_error \<times> 'p server) option" where
  "kiss_args ho [] mode info e s = Some (True, info, e, s)"
| "kiss_args ho (a # as) MODE_KISS_DEVICE info e s =
     (case on_world sys_call s of (r, s) \<Rightarrow>
      kiss_args ho as MODE_KISS_IFOPTS
        (info\<lparr>ti_flags := ti_flags info OR PATTY_KISS_TNC_DEVICE, ti_device := a\<rparr>)
        (if r < 0 then set_error (cstr ''Unable to access device '' @ a @ cstr '': '' @ strerror_now ho s) e else e) s)"
| "kiss_args ho (a # as) MODE_KISS_IFOPTS info e s =
     (if a = cstr ''baud'' then kiss_args ho as MODE_KISS_BAUD info e s
      else if a = cstr ''flow'' then kiss_args ho as MODE_KISS_FLOW info e s
      else kiss_args ho as MODE_KISS_IFOPTS info (set_error (cstr ''Invalid parameter '' @ quoted a) e) s)"
| "kiss_args ho (a # as) MODE_KISS_BAUD info e s =
     (if \<not> starts_with_digit a
      then Some (False, info, set_error (cstr ''Invalid baud rate '' @ quoted a) e, s)
      else do { n \<leftarrow> atoi a; kiss_args ho as MODE_KISS_IFOPTS (info_baud n info) e s })"
| "kiss_args ho (a # as) MODE_KISS_FLOW info e s =
     (if a = cstr ''crtscts'' then kiss_args ho as MODE_KISS_IFOPTS (info_flow PATTY_KISS_TNC_FLOW_CRTSCTS info) e s
      else if a = cstr ''xonxoff'' then kiss_args ho as MODE_KISS_IFOPTS (info_flow PATTY_KISS_TNC_FLOW_XONXOFF info) e s
      else Some (False, info, set_error (cstr ''Invalid flow control '' @ quoted a) e, s))"

text \<open>An interface over a KISS device that \<open>info\<close> describes.\<close>

definition kiss_if_new :: "host \<Rightarrow> tnc_info \<Rightarrow> net server \<Rightarrow> net iface option \<times> net server" where
  "kiss_if_new ho info s =
     (let ev = sv_env s in
      on_world (patty_ax25_if_new (net_driver (ho_frame ho))
        (\<lambda>w. case patty_kiss_tnc_new (ev_line ev) (ev_blank ev) (ev_garbage ev) info w of (p, w) \<Rightarrow> (map_option Inl p, w))
        (ho_rx ho) (ho_tx ho)) s)"

type_synonym 'p made = "'p iface option \<times> patty_error \<times> 'p server"

definition create_kiss :: "host \<Rightarrow> addr \<Rightarrow> cstring list \<Rightarrow> patty_error \<Rightarrow> net server \<Rightarrow> net made option" where
  "create_kiss ho addr args e s =
     (if args = [] then Some (None, set_error (cstr ''Too few parameters for 'kiss' interface'') e, s)
      else do { (ok, info, e, s) \<leftarrow> kiss_args ho args MODE_KISS_DEVICE tnc_info_zero e s;
                if \<not> ok then Some (None, e, s)
                else case kiss_if_new ho info s of
                  (None, s) \<Rightarrow> Some (None, e, s)
                | (Some iface, s) \<Rightarrow>
                    (case patty_ax25_if_addr_set iface addr of (r, iface) \<Rightarrow>
                     if r < 0 then Some (None, e, s\<lparr>sv_world := patty_ax25_if_destroy iface (sv_world s)\<rparr>)
                     else Some (Some (patty_ax25_if_up iface), e, s)) })"

datatype mode_aprs_is = MODE_APRS_IS_IFOPTS | MODE_APRS_IS_HOST | MODE_APRS_IS_PORT | MODE_APRS_IS_USER
  | MODE_APRS_IS_PASS | MODE_APRS_IS_APPNAME | MODE_APRS_IS_VERSION | MODE_APRS_IS_FILTER

definition aprs_info_default :: aprs_is_info where
  "aprs_info_default = \<lparr>ai_host = None, ai_port = None, ai_user = cstr ''N0CALL'', ai_pass = cstr ''-1'',
     ai_appname = cstr ''patty-aprs-is'', ai_version = cstr ''0.0.0'', ai_filter = cstr ''m/25''\<rparr>"

definition aprs_modes :: "(cstring \<times> mode_aprs_is) list" where
  "aprs_modes = [(cstr ''host'', MODE_APRS_IS_HOST), (cstr ''port'', MODE_APRS_IS_PORT), (cstr ''user'', MODE_APRS_IS_USER),
     (cstr ''pass'', MODE_APRS_IS_PASS), (cstr ''appname'', MODE_APRS_IS_APPNAME),
     (cstr ''version'', MODE_APRS_IS_VERSION), (cstr ''filter'', MODE_APRS_IS_FILTER)]"

fun aprs_store :: "mode_aprs_is \<Rightarrow> cstring \<Rightarrow> aprs_is_info \<Rightarrow> aprs_is_info" where
  "aprs_store MODE_APRS_IS_IFOPTS a info = info"
| "aprs_store MODE_APRS_IS_HOST a info = info\<lparr>ai_host := Some a\<rparr>"
| "aprs_store MODE_APRS_IS_PORT a info = info\<lparr>ai_port := Some a\<rparr>"
| "aprs_store MODE_APRS_IS_USER a info = info\<lparr>ai_user := a\<rparr>"
| "aprs_store MODE_APRS_IS_PASS a info = info\<lparr>ai_pass := a\<rparr>"
| "aprs_store MODE_APRS_IS_APPNAME a info = info\<lparr>ai_appname := a\<rparr>"
| "aprs_store MODE_APRS_IS_VERSION a info = info\<lparr>ai_version := a\<rparr>"
| "aprs_store MODE_APRS_IS_FILTER a info = info\<lparr>ai_filter := a\<rparr>"

fun aprs_args :: "cstring list \<Rightarrow> mode_aprs_is \<Rightarrow> aprs_is_info \<Rightarrow> patty_error \<Rightarrow> aprs_is_info \<times> patty_error" where
  "aprs_args [] mode info e = (info, e)"
| "aprs_args (a # as) mode info e =
     (if mode = MODE_APRS_IS_IFOPTS
      then case map_of aprs_modes a of
             Some m \<Rightarrow> aprs_args as m info e
           | None \<Rightarrow> aprs_args as mode info (set_error (cstr ''Invalid parameter '' @ quoted a) e)
      else aprs_args as MODE_APRS_IS_IFOPTS (aprs_store mode a info) e)"

text \<open>
  An interface over a connection to APRS-IS. Connecting may be undefined, so it is computed on the
  world in which \<open>patty_ax25_if_new\<close> calls it, which is the one after the first allocation.
\<close>

definition aprs_if_new :: "host \<Rightarrow> aprs_is_info \<Rightarrow> net server \<Rightarrow> (net iface option \<times> net server) option" where
  "aprs_if_new ho info s =
     (case sys_call (sv_world s) of (m, w) \<Rightarrow>
      do { made \<leftarrow> (if m < 0 then Some (None, w) else patty_ax25_aprs_is_new info w);
           Some (on_world (patty_ax25_if_new (net_driver (ho_frame ho))
             (\<lambda>_. case made of (p, w) \<Rightarrow> (map_option Inr p, w)) (ho_rx ho) (ho_tx ho)) s) })"

text \<open>Printing a host or port that was not given is undefined.\<close>

definition create_aprs_is :: "host \<Rightarrow> addr \<Rightarrow> cstring list \<Rightarrow> patty_error \<Rightarrow> net server \<Rightarrow> net made option" where
  "create_aprs_is ho addr args e s =
     (if args = [] then Some (None, set_error (cstr ''Too few parameters for 'kiss' interface'') e, s)
      else case aprs_args args MODE_APRS_IS_IFOPTS aprs_info_default e of (info, e) \<Rightarrow>
      do { (iface, s) \<leftarrow> aprs_if_new ho info s;
           case iface of
             None \<Rightarrow>
               do { hostname \<leftarrow> ai_host info; port \<leftarrow> ai_port info;
                    Some (None, set_error (cstr ''Unable to connect to APRS-IS service '' @ hostname @ [0x3a] @ port
                                           @ cstr '': '' @ strerror_now ho s) e, s) }
           | Some iface \<Rightarrow>
               (case patty_ax25_if_addr_set iface addr of (r, iface) \<Rightarrow>
                if r < 0 then Some (None, e, s\<lparr>sv_world := patty_ax25_if_destroy iface (sv_world s)\<rparr>)
                else Some (Some iface, e, s)) })"

definition if_types :: "(cstring \<times> (host \<Rightarrow> addr \<Rightarrow> cstring list \<Rightarrow> patty_error \<Rightarrow> net server \<Rightarrow> net made option)) list" where
  "if_types = [(cstr ''kiss'', create_kiss), (cstr ''aprs-is'', create_aprs_is)]"

datatype if_mode = MODE_NONE | MODE_IFNAME | MODE_IFOPTS | MODE_IFADDR

text \<open>The loop of \<open>patty_bin_if_create\<close>. The first component of the result is what \<open>*ifname\<close> is set to.\<close>

fun if_args ::
  "host \<Rightarrow> cstring list \<Rightarrow> if_mode \<Rightarrow> cstring option \<Rightarrow> addr \<Rightarrow> patty_error \<Rightarrow> net server
   \<Rightarrow> (cstring option \<times> net made) option" where
  "if_args ho [] mode name addr e s = Some (None, None, set_error (cstr ''Media type not provided'') e, s)"
| "if_args ho (a # as) MODE_NONE name addr e s =
     (if a \<noteq> cstr ''if''
      then Some (None, None, set_error (cstr ''Unexpected start of expression '' @ quoted a) e, s)
      else if_args ho as MODE_IFNAME name addr e s)"
| "if_args ho (a # as) MODE_IFNAME name addr e s = if_args ho as MODE_IFOPTS (Some a) addr e s"
| "if_args ho (a # as) MODE_IFOPTS name addr e s =
     (if a = cstr ''ax25'' then if_args ho as MODE_IFADDR name addr e s
      else case map_of if_types a of
        Some create \<Rightarrow> do { made \<leftarrow> create ho addr as e s; Some (name, made) }
      | None \<Rightarrow> Some (None, None, set_error (cstr ''Invalid parameter '' @ quoted a) e, s))"
| "if_args ho (a # as) MODE_IFADDR name addr e s =
     (case patty_ax25_pton a addr of
        (Inl x, addr) \<Rightarrow>
          Some (None, None, set_error (cstr ''Invalid AX.25 address '' @ quoted a @ cstr '': ''
                                       @ strerror_now ho (set_errno x s)) e, set_errno x s)
      | (Inr _, addr) \<Rightarrow> if_args ho as MODE_IFOPTS name addr e s)"

definition patty_bin_if_create ::
  "host \<Rightarrow> cstring list \<Rightarrow> patty_error \<Rightarrow> net server \<Rightarrow> (cstring option \<times> net made) option" where
  "patty_bin_if_create ho argv e s = if_args ho argv MODE_NONE None addr_zero (patty_error_clear e) s"

section \<open>The configuration\<close>

text \<open>\<open>struct context\<close>; the error of \<open>handle_if\<close> starts as \<open>error_blank\<close> and is cleared at once.\<close>

record conf_ctx =
  cx_daemon :: "net daemon"
  cx_e :: patty_error
  cx_host :: host

definition error_blank :: patty_error where
  "error_blank = \<lparr>e_state = PATTY_ERROR_OK, e_err = []\<rparr>"

definition at_line :: "nat \<Rightarrow> cstring" where
  "at_line lineno = cstr ''line '' @ fmt_d (int lineno) @ cstr '': ''"

text \<open>An error of a handler: the message is formatted and -1 returned.\<close>

definition conf_fail :: "nat \<Rightarrow> cstring \<Rightarrow> conf_ctx \<Rightarrow> int \<times> conf_ctx" where
  "conf_fail lineno message ctx = (-1, ctx\<lparr>cx_e := set_error (at_line lineno @ message) (cx_e ctx)\<rparr>)"

definition ctx_strerror :: "conf_ctx \<Rightarrow> cstring" where
  "ctx_strerror ctx = strerror_now (cx_host ctx) (dm_server (cx_daemon ctx))"

text \<open>\<open>argv[i]\<close> as a string: \<open>argv[argc]\<close> is NULL.\<close>

definition arg :: "cstring list \<Rightarrow> nat \<Rightarrow> cstring option" where
  "arg argv i = (if i < length argv then Some (argv ! i) else None)"

type_synonym config_func = "nat \<Rightarrow> cstring list \<Rightarrow> conf_ctx \<Rightarrow> (int \<times> conf_ctx) option"

definition config_sock :: config_func where
  "config_sock lineno argv ctx =
     (if length argv \<noteq> 2 then Some (conf_fail lineno (cstr ''Invalid arguments for '' @ quoted (cstr ''sock'')) ctx)
      else case patty_daemon_set_sock_path (argv ! 1) (cx_daemon ctx) of (r, d) \<Rightarrow>
      let ctx = ctx\<lparr>cx_daemon := d\<rparr> in
      Some (if r < 0
            then conf_fail lineno (cstr ''Unable to set socket path to '' @ argv ! 1 @ cstr '': '' @ ctx_strerror ctx) ctx
            else (0, ctx)))"

text \<open>The message names \<open>sock\<close> here too.\<close>

definition config_pid :: config_func where
  "config_pid lineno argv ctx =
     (if length argv \<noteq> 2 then Some (conf_fail lineno (cstr ''Invalid arguments for '' @ quoted (cstr ''sock'')) ctx)
      else case patty_daemon_set_pidfile (argv ! 1) (cx_daemon ctx) of (r, d) \<Rightarrow>
      let ctx = ctx\<lparr>cx_daemon := d\<rparr> in
      Some (if r < 0
            then conf_fail lineno (cstr ''Unable to set pidfile to '' @ argv ! 1 @ cstr '': '' @ ctx_strerror ctx) ctx
            else (0, ctx)))"

text \<open>
  \<open>printf("if %s pty %s\n", ...)\<close> when the interface is a terminal with a name. A reply with bytes
  is what \<open>ptsname\<close> returns.
\<close>

definition sys_ptsname :: "world \<Rightarrow> cstring option \<times> world" where
  "sys_ptsname w = (case script w of
       [] \<Rightarrow> (Some [], w)
     | r # rs \<Rightarrow> (case r of RErr e \<Rightarrow> (None, w\<lparr>script := rs, err := Some e\<rparr>)
                          | RBytes bs \<Rightarrow> (Some bs, w\<lparr>script := rs\<rparr>)
                          | _ \<Rightarrow> (Some [], w\<lparr>script := rs\<rparr>)))"

definition announce_pty :: "cstring \<Rightarrow> int \<Rightarrow> world \<Rightarrow> world" where
  "announce_pty ifname fd w =
     (case sys_query w of (tty, w) \<Rightarrow>
      if \<not> tty then w
      else case sys_ptsname w of
        (None, w) \<Rightarrow> w
      | (Some pty, w) \<Rightarrow> snd (sys_write 1 (cstr ''if '' @ ifname @ cstr '' pty '' @ pty @ [0x0a]) w))"

text \<open>The new interface gets its address in memory when it is added.\<close>

definition daemon_own :: "'p iface \<Rightarrow> 'p daemon \<Rightarrow> nat \<times> 'p daemon" where
  "daemon_own iface d =
     (let s = dm_server d; p = h_next s in
      (p, d\<lparr>dm_server := s\<lparr>h_ifaces := (h_ifaces s)(p \<mapsto> iface), h_next := p + 1\<rparr>\<rparr>))"

text \<open>\<open>patty_ax25_if_destroy\<close> of the interface at \<open>p\<close>.\<close>

definition daemon_if_destroy :: "nat \<Rightarrow> 'p daemon \<Rightarrow> 'p daemon option" where
  "daemon_if_destroy p d =
     do { iface \<leftarrow> h_ifaces (dm_server d) p;
          Some (d\<lparr>dm_server := (dm_server d)\<lparr>h_ifaces := (h_ifaces (dm_server d))(p := None),
                     sv_world := patty_ax25_if_destroy iface (sv_world (dm_server d))\<rparr>\<rparr>) }"

definition config_if :: config_func where
  "config_if lineno argv ctx =
     (if length argv < 2 then Some (conf_fail lineno (cstr ''No interface name provided'') ctx)
      else if length argv < 3 then Some (conf_fail lineno (cstr ''No interface options provided'') ctx)
      else do { (name, iface, e, s) \<leftarrow> patty_bin_if_create (cx_host ctx) argv error_blank (dm_server (cx_daemon ctx));
                let ctx = ctx\<lparr>cx_daemon := (cx_daemon ctx)\<lparr>dm_server := s\<rparr>\<rparr>;
                case iface of
                  None \<Rightarrow>
                    Some (conf_fail lineno (if patty_error_set e then patty_error_string e else ctx_strerror ctx) ctx)
                | Some iface \<Rightarrow>
                    do { ifname \<leftarrow> name;
                         let s = s\<lparr>sv_world := announce_pty ifname (patty_ax25_if_fd iface) (sv_world s)\<rparr>;
                         let (p, d) = daemon_own (patty_ax25_if_up iface) ((cx_daemon ctx)\<lparr>dm_server := s\<rparr>);
                         (r, d) \<leftarrow> patty_daemon_if_add p ifname d;
                         let ctx = ctx\<lparr>cx_daemon := d\<rparr>;
                         if r < 0
                         then do { d \<leftarrow> daemon_if_destroy p d;
                                   Some (-1, (snd (conf_fail lineno (cstr ''Unable to create interface '' @ ifname
                                                     @ cstr '': '' @ ctx_strerror ctx) ctx))\<lparr>cx_daemon := d\<rparr>) }
                         else Some (0, ctx) } })"

text \<open>What the two kinds of routes end with.\<close>

definition config_route_add ::
  "nat \<Rightarrow> cstring \<Rightarrow> cstring \<Rightarrow> cstring option \<Rightarrow> cstring list \<Rightarrow> conf_ctx \<Rightarrow> (int \<times> conf_ctx) option" where
  "config_route_add lineno what ifname dest hops ctx =
     do { (r, d) \<leftarrow> patty_daemon_route_add ifname dest hops (cx_daemon ctx);
          let ctx = ctx\<lparr>cx_daemon := d\<rparr>;
          Some (if r < 0
                then conf_fail lineno (cstr ''Unable to add '' @ what @ cstr '' for interface '' @ ifname @ cstr '': '' @ ctx_strerror ctx) ctx
                else (0, ctx)) }"

text \<open>The checks on a station's route; \<open>Inl\<close> is the message of a failure, \<open>Inr\<close> the path.\<close>

definition station_path :: "cstring list \<Rightarrow> (cstring + cstring list) option" where
  "station_path argv =
     (if length argv < 5
      then do { a \<leftarrow> arg argv 3;
                Some (if a \<noteq> cstr ''if''
                      then Inl (cstr ''Invalid station route declaration: Unexpected keyword '' @ quoted a)
                      else Inr []) }
      else if length argv > 6
      then (if argv ! 5 \<noteq> cstr ''path''
            then Some (Inl (cstr ''Invalid station route declaration: Unexpected keyword '' @ quoted (argv ! 5)))
            else if length argv < 7 then Some (Inl (cstr ''Invalid station route declaration: No route path provided''))
            else Some (Inr (drop 6 argv)))
      else Some (Inr []))"

definition config_route :: config_func where
  "config_route lineno argv ctx =
     (if length argv < 2 then Some (conf_fail lineno (cstr ''Invalid route declaration'') ctx)
      else if argv ! 1 = cstr ''default''
      then (if length argv \<noteq> 4 \<or> argv ! 2 \<noteq> cstr ''if''
            then Some (conf_fail lineno (cstr ''Invalid default route declaration'') ctx)
            else config_route_add lineno (cstr ''default route'') (argv ! 3) None [] ctx)
      else if argv ! 1 = cstr ''station''
      then do { checked \<leftarrow> station_path argv;
                case checked of
                  Inl message \<Rightarrow> Some (conf_fail lineno message ctx)
                | Inr hops \<Rightarrow>
                    do { ifname \<leftarrow> arg argv 4; dest \<leftarrow> arg argv 2;
                         config_route_add lineno (cstr ''route'') ifname (Some dest) hops ctx } }
      else Some (conf_fail lineno (cstr ''Invalid route type '' @ quoted (argv ! 1)) ctx))"

definition config_handlers :: "(cstring \<times> config_func) list" where
  "config_handlers = [(cstr ''sock'', config_sock), (cstr ''pid'', config_pid), (cstr ''if'', config_if),
     (cstr ''route'', config_route)]"

text \<open>
  \<open>handle_config_line\<close> on the words of a line and the numbers of the lines they are on; \<open>ret\<close> is
  still 0 when no handler is found.
\<close>

definition config_words :: "(cstring \<times> nat) list \<Rightarrow> conf_ctx \<Rightarrow> (int \<times> conf_ctx) option" where
  "config_words line ctx =
     (if line = [] then Some (0, ctx)
      else case on_world sys_call (dm_server (cx_daemon ctx)) of (m, s) \<Rightarrow>
      let ctx = ctx\<lparr>cx_daemon := (cx_daemon ctx)\<lparr>dm_server := s\<rparr>\<rparr> in
      if m < 0 then Some (-1, ctx)
      else let argv = map fst line;
               lineno = (case filter (\<lambda>n. n \<noteq> 0) (map snd line) of [] \<Rightarrow> 0 | n # _ \<Rightarrow> n) in
      case map_of config_handlers (argv ! 0) of
        Some func \<Rightarrow> func lineno argv ctx
      | None \<Rightarrow> Some (0, snd (conf_fail lineno (cstr ''Unknown configuration value '' @ quoted (argv ! 0)) ctx)))"

definition handle_config_line :: "conf_ctx conf_handler" where
  "handle_config_line = on_tokens (\<lambda>line. config_words (map no_column line))"

section \<open>Starting\<close>

definition DEFAULT_IFNAME :: cstring where "DEFAULT_IFNAME = cstr ''kiss0''"
definition DEFAULT_CONFIG_FILE :: cstring where "DEFAULT_CONFIG_FILE = cstr ''/etc/patty/pattyd.conf''"

text \<open>A line on the standard error stream.\<close>

definition complain :: "cstring \<Rightarrow> 'p daemon \<Rightarrow> 'p daemon" where
  "complain message d = d\<lparr>dm_server := snd (on_world (sys_write 2 (message @ [0x0a])) (dm_server d))\<rparr>"

definition daemon_strerror :: "host \<Rightarrow> 'p daemon \<Rightarrow> cstring" where
  "daemon_strerror ho d = strerror_now ho (dm_server d)"

text \<open>
  The second half of \<open>handle_standalone\<close>: the new interface gets its address, is announced, added
  and made the default route. The last failure destroys it although the server still lists it.
\<close>

definition standalone_if :: "host \<Rightarrow> addr \<Rightarrow> cstring \<Rightarrow> cstring list \<Rightarrow> net iface \<Rightarrow> net daemon \<Rightarrow> (int \<times> net daemon) option" where
  "standalone_if ho addr argv0 argv iface d =
     (case patty_ax25_if_addr_set iface addr of (r, iface) \<Rightarrow>
      if r < 0
      then do { let (p, d) = daemon_own iface (complain (argv ! 0 @ cstr '': Unable to set address for interface ''
                                 @ DEFAULT_IFNAME @ cstr '': '' @ daemon_strerror ho d) d);
                d \<leftarrow> daemon_if_destroy p d;
                Some (-1, d) }
      else do { let s = dm_server d;
                let s = s\<lparr>sv_world := announce_pty DEFAULT_IFNAME (patty_ax25_if_fd iface) (sv_world s)\<rparr>;
                let (p, d) = daemon_own (patty_ax25_if_up iface) (d\<lparr>dm_server := s\<rparr>);
                (r, d) \<leftarrow> patty_daemon_if_add p DEFAULT_IFNAME d;
                if r < 0
                then do { d \<leftarrow> daemon_if_destroy p (complain (argv0 @ cstr '': Unable to add interface ''
                                 @ DEFAULT_IFNAME @ cstr '': '' @ daemon_strerror ho d) d);
                          Some (-1, d) }
                else do { (r, d) \<leftarrow> patty_daemon_route_add_default DEFAULT_IFNAME d;
                          if r < 0
                          then do { d \<leftarrow> daemon_if_destroy p (complain (argv0 @ cstr '': Unable to add default route to ''
                                           @ DEFAULT_IFNAME @ cstr '': '' @ daemon_strerror ho d) d);
                                    Some (-1, d) }
                          else Some (0, d) } })"

text \<open>
  \<open>handle_standalone\<close> on at least three arguments: the socket's path, the callsign, and the device
  with its settings. \<open>junk\<close> and \<open>e\<close> are the uninitialised address and error.
\<close>

definition handle_standalone ::
  "host \<Rightarrow> addr \<Rightarrow> patty_error \<Rightarrow> cstring \<Rightarrow> cstring list \<Rightarrow> net daemon \<Rightarrow> (int \<times> net daemon) option" where
  "handle_standalone ho junk e argv0 argv d =
     (case patty_daemon_set_sock_path (argv ! 0) d of (r, d) \<Rightarrow>
      if r < 0
      then Some (-1, complain (argv0 @ cstr '': Unable to set socket path to '' @ argv ! 0 @ cstr '': '' @ daemon_strerror ho d) d)
      else case patty_ax25_pton (argv ! 1) junk of
        (Inl x, _) \<Rightarrow>
          Some (-1, complain (argv0 @ cstr '': Invalid callsign '' @ quoted (argv ! 1))
                      (d\<lparr>dm_server := set_errno x (dm_server d)\<rparr>))
      | (Inr _, addr) \<Rightarrow>
          do { (r, info, e) \<leftarrow> patty_bin_kiss_config (drop 2 argv) e;
               if r < 0 then Some (-1, complain (argv0 @ cstr '': '' @ argv ! 2 @ cstr '': '' @ patty_error_string e) d)
               else case kiss_if_new ho info (dm_server d) of
                 (None, s) \<Rightarrow>
                   let d = d\<lparr>dm_server := s\<rparr> in
                   Some (-1, complain (argv0 @ cstr '': Unable to create network interface '' @ DEFAULT_IFNAME @ cstr '': ''
                                       @ daemon_strerror ho d) d)
               | (Some iface, s) \<Rightarrow> standalone_if ho addr argv0 argv iface (d\<lparr>dm_server := s\<rparr>) })"

text \<open>
  The options as \<open>getopt_long\<close> delivers them: a character with its argument, or 0 for a long option
  that has set a flag, which the \<open>switch\<close> does not know. The result is the flags and the name of the
  configuration, or \<open>None\<close> for the usage message.
\<close>

record options =
  op_fg :: bool
  op_standalone :: bool
  op_config :: cstring

datatype option_read = OptChar byte cstring | OptFlag_fg | OptFlag_standalone

fun main_options :: "option_read list \<Rightarrow> options \<Rightarrow> options option" where
  "main_options [] op = Some op"
| "main_options (OptChar c optarg # os) op =
     (if c = 0x63 then main_options os (op\<lparr>op_config := optarg\<rparr>)
      else if c = 0x66 then main_options os (op\<lparr>op_fg := True\<rparr>)
      else if c = 0x73 then main_options os (op\<lparr>op_standalone := True\<rparr>)
      else None)"
| "main_options (OptFlag_fg # os) op = None"
| "main_options (OptFlag_standalone # os) op = None"

definition EX_USAGE :: int where "EX_USAGE = 64"

definition usage :: "cstring \<Rightarrow> cstring option \<Rightarrow> 'p daemon \<Rightarrow> 'p daemon" where
  "usage argv0 message d =
     complain (cstr ''usage: '' @ argv0 @ cstr '' [-f] [-c pattyd.conf]'' @ [0x0a] @ cstr ''       '' @ argv0
               @ cstr '' [-f] -s patty.sock MYCALL /dev/ttyXYZ [tioarg ...]'')
       (case message of None \<Rightarrow> d | Some m \<Rightarrow> complain m d)"

text \<open>A process that still serves, or has ended with a status.\<close>

datatype outcome = Serving "net daemon" | Exited int world

definition main_exit :: "int \<Rightarrow> net daemon \<Rightarrow> outcome option" where
  "main_exit ret d = do { w \<leftarrow> patty_daemon_destroy d; Some (Exited ret w) }"

text \<open>From the configuration on: \<open>daemon(1, 0)\<close>, the loop, and the end.\<close>

definition main_serve :: "host \<Rightarrow> cstring \<Rightarrow> options \<Rightarrow> turn list \<Rightarrow> net daemon \<Rightarrow> outcome option" where
  "main_serve ho argv0 op ts d =
     (case (if op_fg op then (0, dm_server d) else on_world sys_call (dm_server d)) of (r, s) \<Rightarrow>
      let d = d\<lparr>dm_server := s\<rparr> in
      if r < 0 then main_exit 0 (complain (argv0 @ cstr '': daemon(): '' @ daemon_strerror ho d) d)
      else do { (go, d) \<leftarrow> patty_daemon_run ts d;
                if go then Some (Serving d)
                else main_exit 0 (complain (argv0 @ cstr '': patty_daemon_run(): '' @ daemon_strerror ho d) d) })"

text \<open>The configuration read from a file; \<open>blk\<close>, \<open>heap\<close> and \<open>wc\<close> are those of the reader.\<close>

definition main_configure ::
  "host \<Rightarrow> (nat \<Rightarrow> byte) \<Rightarrow> nat \<Rightarrow> world \<Rightarrow> cstring \<Rightarrow> options \<Rightarrow> net daemon \<Rightarrow> (int \<times> net daemon) option" where
  "main_configure ho heap blk wc argv0 op d =
     do { (r, ctx, wc) \<leftarrow> patty_conf_read heap blk handle_config_line \<lparr>cx_daemon = d, cx_e = error_blank, cx_host = ho\<rparr> wc;
          let d = cx_daemon ctx;
          let errno = (case err wc of None \<Rightarrow> err (sv_world (dm_server d)) | Some e \<Rightarrow> Some e);
          Some (r, if r < 0
                   then complain (argv0 @ cstr '': patty_conf_read(): '' @ op_config op @ cstr '': ''
                          @ (if patty_error_set (cx_e ctx) then patty_error_string (cx_e ctx) else ho_strerror ho errno)) d
                   else d) }"

definition pattyd_main ::
  "host \<Rightarrow> env \<Rightarrow> addr \<Rightarrow> patty_error \<Rightarrow> (nat \<Rightarrow> byte) \<Rightarrow> nat \<Rightarrow> world \<Rightarrow> cstring \<Rightarrow> option_read list \<Rightarrow> cstring list
   \<Rightarrow> turn list \<Rightarrow> world \<Rightarrow> outcome option" where
  "pattyd_main ho ev junk e heap blk wc argv0 opts rest ts w =
     (case patty_daemon_new ev w of
        (None, w) \<Rightarrow> Some (Exited 0 (snd (sys_write 2 (argv0 @ cstr '': patty_daemon_new(): '' @ ho_strerror ho (err w) @ [0x0a]) w)))
      | (Some d, w) \<Rightarrow>
          (case main_options opts \<lparr>op_fg = False, op_standalone = False, op_config = DEFAULT_CONFIG_FILE\<rparr> of
             None \<Rightarrow> main_exit EX_USAGE (usage argv0 None d)
           | Some op \<Rightarrow>
               if rest = [] then main_exit EX_USAGE (usage argv0 (Some (cstr ''Too many arguments provided'')) d)
               else if op_standalone op
               then (if length rest < 1 then main_exit EX_USAGE (usage argv0 (Some (cstr ''No socket path provided'')) d)
                     else if length rest < 2 then main_exit EX_USAGE (usage argv0 (Some (cstr ''No callsign provided'')) d)
                     else if length rest < 3 then main_exit EX_USAGE (usage argv0 (Some (cstr ''No device path provided'')) d)
                     else do { (r, d) \<leftarrow> handle_standalone ho junk e argv0 rest d;
                               if r < 0 then main_exit 0 d else main_serve ho argv0 op ts d })
               else do { (r, d) \<leftarrow> main_configure ho heap blk wc argv0 op d;
                         if r < 0 then main_exit 0 d else main_serve ho argv0 op ts d }))"

section \<open>The contract of the two kinds of devices\<close>

definition net_ok :: "nat \<Rightarrow> net \<Rightarrow> bool" where
  "net_ok len = case_sum (tnc_drv_ok len) (aprs_ok len)"

definition net_todo :: "net \<Rightarrow> nat" where
  "net_todo = case_sum tnc_todo aprs_todo"

text \<open>A sum of drivers that keep the contract keeps it.\<close>

interpretation net_driver: link_driver "net_driver junk" net_ok net_todo
  for junk
proof unfold_locales
  fix len p and buf :: "byte list"
  assume p: "net_ok len p" and len: "len \<le> length buf"
  show "\<exists>r p' buf'. d_drain (net_driver junk) p buf len = Some (r, p', buf') \<and> net_ok len p'
      \<and> length buf' = length buf \<and> net_todo p' \<le> net_todo p \<and> (\<forall>n. r = Inr n \<longrightarrow> 0 < n \<longrightarrow> net_todo p' < net_todo p)"
  proof (cases p)
    case (Inl t)
    with kiss_driver.drain_ok [of len t buf] p len show ?thesis
      by (auto simp: net_driver_def Let_def net_ok_def net_todo_def)
  next
    case (Inr a)
    with aprs_driver.drain_ok [of len a buf junk] p len show ?thesis
      by (auto simp: net_driver_def Let_def net_ok_def net_todo_def)
  qed
next
  fix len p n p'
  assume p: "net_ok len p" and f: "d_flush (net_driver junk) p = (n, p')"
  show "net_ok len p' \<and> \<not> d_pending (net_driver junk) p' \<and> net_todo p' \<le> net_todo p \<and> -1 \<le> n \<and> n \<le> int len"
  proof (cases p)
    case (Inl t)
    with kiss_driver.flush_ok [of len t n] p f show ?thesis
      by (auto simp: net_driver_def Let_def net_ok_def net_todo_def split: prod.splits)
  next
    case (Inr a)
    with aprs_driver.flush_ok [of len a junk n] p f show ?thesis
      by (auto simp: net_driver_def Let_def net_ok_def net_todo_def split: prod.splits)
  qed
next
  fix len p w r p' w'
  assume p: "net_ok len p" and f: "d_fill (net_driver junk) p w = (r, p', w')" and r: "0 \<le> r"
  show "net_ok len p' \<and> (0 < r \<longrightarrow> length (script w') < length (script w))"
  proof (cases p)
    case (Inl t)
    with kiss_driver.fill_ok [of len t w r] p f r show ?thesis
      by (auto simp: net_driver_def Let_def net_ok_def split: prod.splits)
  next
    case (Inr a)
    with aprs_driver.fill_ok [of len a junk w r] p f r show ?thesis
      by (auto simp: net_driver_def Let_def net_ok_def split: prod.splits)
  qed
next
  show "net_ok len (d_stats_upd (net_driver junk) f p) = net_ok len p" for len f p
    by (cases p) (simp_all add: net_driver_def Let_def net_ok_def kiss_driver.stats_ok aprs_driver.stats_ok)
  show "d_pending (net_driver junk) (d_stats_upd (net_driver junk) f p) = d_pending (net_driver junk) p" for f p
    by (cases p) (simp_all add: net_driver_def Let_def kiss_driver.stats_pending aprs_driver.stats_pending)
qed

section \<open>Every interface of a configuration is well formed\<close>

text \<open>
  The interfaces in memory keep the contract, with frames as long as the receive buffer of an
  interface; \<open>host_ok\<close> is what the allocations promise.
\<close>

definition net_iface_ok :: "frame \<Rightarrow> net iface \<Rightarrow> bool" where
  "net_iface_ok junk iface \<longleftrightarrow> if_drv iface = net_driver junk \<and> net_ok PATTY_AX25_IF_DEFAULT_MRU (if_phy iface)
     \<and> PATTY_AX25_IF_DEFAULT_MRU \<le> length (if_rx_buf iface) \<and> dict_ok (if_promisc_fds iface)"

lemma net_iface_ok_iff: "net_iface_ok junk iface \<longleftrightarrow> net_driver.iface_ok junk PATTY_AX25_IF_DEFAULT_MRU iface"
  by (simp add: net_iface_ok_def net_driver.iface_ok_def)

definition host_ok :: "host \<Rightarrow> env \<Rightarrow> bool" where
  "host_ok ho ev \<longleftrightarrow> length (ho_rx ho) = PATTY_AX25_IF_DEFAULT_MRU \<and> length (ev_garbage ev) = PATTY_KISS_TNC_BUFSZ"

definition ifaces_ok :: "host \<Rightarrow> net server \<Rightarrow> bool" where
  "ifaces_ok ho s \<longleftrightarrow> host_ok ho (sv_env s) \<and> (\<forall>p iface. h_ifaces s p = Some iface \<longrightarrow> net_iface_ok (ho_frame ho) iface)"

lemma net_iface_ok_upd [simp]:
  "net_iface_ok junk (patty_ax25_if_up iface) = net_iface_ok junk iface"
  "net_iface_ok junk (snd (patty_ax25_if_addr_set iface a)) = net_iface_ok junk iface"
  by (simp_all add: net_iface_ok_def patty_ax25_if_up_def patty_ax25_if_addr_set_def Let_def)

lemma tnc_new_ok:
  assumes "patty_kiss_tnc_new line blank garbage info w = (Some t, w')" and "length garbage = PATTY_KISS_TNC_BUFSZ"
  shows "tnc_drv_ok len t"
  using assms by (auto simp: patty_kiss_tnc_new_def tnc_drv_ok_def PATTY_KISS_TNC_BUFSZ_def split: prod.splits if_splits)

lemma if_new_ok:
  assumes "patty_ax25_if_new (net_driver junk) create rx tx w = (Some iface, w')"
    and "\<And>w p w'. create w = (Some p, w') \<Longrightarrow> net_ok PATTY_AX25_IF_DEFAULT_MRU p"
    and "length rx = PATTY_AX25_IF_DEFAULT_MRU"
  shows "net_iface_ok junk iface"
  using assms(1,3) by (auto simp: patty_ax25_if_new_def net_iface_ok_def assms(2) split: prod.splits if_splits option.splits)

lemma kiss_if_new_ok:
  assumes "kiss_if_new ho info s = (Some iface, s')" and "host_ok ho (sv_env s)"
  shows "net_iface_ok (ho_frame ho) iface"
proof -
  let ?create = "\<lambda>w. case patty_kiss_tnc_new (ev_line (sv_env s)) (ev_blank (sv_env s)) (ev_garbage (sv_env s)) info w of
      (p, w) \<Rightarrow> (map_option Inl p, w)"
  from assms(1) obtain w' where "patty_ax25_if_new (net_driver (ho_frame ho)) ?create (ho_rx ho) (ho_tx ho) (sv_world s) = (Some iface, w')"
    by (auto simp: kiss_if_new_def on_world_def Let_def split: prod.splits)
  moreover have "net_ok PATTY_AX25_IF_DEFAULT_MRU p" if c: "?create w = (Some p, w')" for w p w'
  proof -
    from c obtain t where "patty_kiss_tnc_new (ev_line (sv_env s)) (ev_blank (sv_env s)) (ev_garbage (sv_env s)) info w = (Some t, w')"
      and "p = Inl t" by (auto split: prod.splits)
    with tnc_new_ok [of _ _ _ info w t w'] assms(2) show ?thesis by (simp add: host_ok_def net_ok_def)
  qed
  moreover have "length (ho_rx ho) = PATTY_AX25_IF_DEFAULT_MRU" using assms(2) by (simp add: host_ok_def)
  ultimately show ?thesis by (rule if_new_ok)
qed

lemma aprs_printf_ok:
  "aprs_is_printf text a w = Some (r, a', w') \<Longrightarrow> aprs_ok len a' = aprs_ok len a"
  by (auto simp: aprs_is_printf_def aprs_ok_def split: prod.splits elim!: bind_SomeE)

lemma aprs_connect_loop_ok:
  "aprs_connect_loop ais info a w = Some (r, a', w') \<Longrightarrow> aprs_ok len a' = aprs_ok len a"
proof (induction ais info a w rule: aprs_connect_loop.induct)
  case (2 ai ais info a w)
  have fd: "aprs_ok len (a\<lparr>ap_fd := fd\<rparr>) = aprs_ok len a" for fd by (simp add: aprs_ok_def)
  from 2 show ?case
    by (auto simp: Let_def fd split: if_splits prod.splits elim!: bind_SomeE dest: aprs_printf_ok [where len = len])
qed simp

lemma aprs_new_ok:
  assumes "patty_ax25_aprs_is_new info w = Some (Some a, w')" and "75 \<le> len" and "len < 2 ^ 63"
  shows "aprs_ok len a"
proof -
  from assms(1) obtain ais x w1 r where c: "aprs_connect_loop ais info aprs_init w1 = Some (r, x, w')"
    and a: "a = x\<lparr>ap_info := info\<rparr>"
    by (auto simp: patty_ax25_aprs_is_new_def aprs_is_connect_def split: prod.splits if_splits option.splits elim!: bind_SomeE)
  have "aprs_ok len aprs_init" using assms(2,3) by (simp add: aprs_ok_def aprs_init_def PATTY_AX25_ADDRSTRLEN_def)
  with aprs_connect_loop_ok [OF c, of len] have "aprs_ok len x" by simp
  then show ?thesis by (simp add: a aprs_ok_def)
qed

lemma aprs_if_new_ok:
  assumes "aprs_if_new ho info s = Some (Some iface, s')" and "host_ok ho (sv_env s)"
  shows "net_iface_ok (ho_frame ho) iface"
proof -
  obtain r w where c: "sys_call (sv_world s) = (r, w)" by fastforce
  from assms(1) obtain m w1 w2 where new: "(if r < 0 then Some (None, w) else patty_ax25_aprs_is_new info w) = Some (m, w1)"
    and i: "patty_ax25_if_new (net_driver (ho_frame ho)) (\<lambda>_. (map_option Inr m, w1)) (ho_rx ho) (ho_tx ho) (sv_world s) = (Some iface, w2)"
    unfolding aprs_if_new_def c by (auto simp: on_world_def split: prod.splits elim!: bind_SomeE simp del: split_paired_Ex)
  have "net_ok PATTY_AX25_IF_DEFAULT_MRU p" if "(map_option Inr m, w1) = (Some p, w')" for p w'
    using that new aprs_new_ok [of info w _ w1 PATTY_AX25_IF_DEFAULT_MRU]
    by (auto simp: net_ok_def PATTY_AX25_IF_DEFAULT_MRU_def split: if_splits)
  from if_new_ok [OF i this] assms(2) show ?thesis by (simp add: host_ok_def)
qed

text \<open>What neither allocates nor frees an interface.\<close>

definition same_ifaces :: "'p server \<Rightarrow> 'p server \<Rightarrow> bool" where
  "same_ifaces s s' \<longleftrightarrow> h_ifaces s' = h_ifaces s \<and> sv_env s' = sv_env s"

lemma same_ifaces_refl [simp]: "same_ifaces s s"
  by (simp add: same_ifaces_def)

lemma same_ifaces_trans: "same_ifaces s t \<Longrightarrow> same_ifaces t u \<Longrightarrow> same_ifaces s u"
  by (simp add: same_ifaces_def)

lemma same_ifaces_upd [simp]:
  "same_ifaces s (s'\<lparr>sv_world := w\<rparr>) = same_ifaces s s'" "same_ifaces s (s'\<lparr>h_routes := hr\<rparr>) = same_ifaces s s'"
  "same_ifaces s (s'\<lparr>h_entries := he\<rparr>) = same_ifaces s s'" "same_ifaces s (s'\<lparr>h_next := n\<rparr>) = same_ifaces s s'"
  "same_ifaces s (s'\<lparr>sv_ifaces := l\<rparr>) = same_ifaces s s'" "same_ifaces s (s'\<lparr>sv_routes := t\<rparr>) = same_ifaces s s'"
  "same_ifaces s (s'\<lparr>sv_fds_watch := f\<rparr>) = same_ifaces s s'" "same_ifaces s (s'\<lparr>sv_fd_max := m\<rparr>) = same_ifaces s s'"
  "same_ifaces s (set_errno x s') = same_ifaces s s'"
  by (simp_all add: same_ifaces_def set_errno_def)

lemma same_ifaces_world: "on_world f s = (r, s') \<Longrightarrow> same_ifaces s s'"
  by (auto simp: on_world_def split: prod.splits)

lemma same_ifaces_ok: "same_ifaces s s' \<Longrightarrow> ifaces_ok ho s' = ifaces_ok ho s"
  by (simp add: same_ifaces_def ifaces_ok_def)

lemma kiss_args_same: "kiss_args ho as mode info e s = Some (ok, info', e', s') \<Longrightarrow> same_ifaces s s'"
proof (induction ho as mode info e s rule: kiss_args.induct)
  case (2 ho a as info e s)
  obtain r t where c: "on_world sys_call s = (r, t)" by fastforce
  from 2 c have "same_ifaces t s'" by simp
  with same_ifaces_world [OF c] show ?case by (rule same_ifaces_trans)
qed (auto split: if_splits elim!: bind_SomeE)

definition makes :: "host \<Rightarrow> net server \<Rightarrow> net iface option \<Rightarrow> net server \<Rightarrow> bool" where
  "makes ho s i s' \<longleftrightarrow> same_ifaces s s'
     \<and> (host_ok ho (sv_env s) \<longrightarrow> (\<forall>iface. i = Some iface \<longrightarrow> net_iface_ok (ho_frame ho) iface))"

lemma kiss_if_new_makes: "kiss_if_new ho info s = (i, s') \<Longrightarrow> makes ho s i s'"
  unfolding makes_def
  by (metis kiss_if_new_ok kiss_if_new_def same_ifaces_world)

lemma aprs_if_new_makes: "aprs_if_new ho info s = Some (i, s') \<Longrightarrow> makes ho s i s'"
  unfolding makes_def
  by (auto simp: aprs_if_new_ok) (auto simp: aprs_if_new_def split: prod.splits elim!: bind_SomeE dest: same_ifaces_world)

lemma makes_after: "same_ifaces s t \<Longrightarrow> makes ho t i s' \<Longrightarrow> makes ho s i s'"
  by (simp add: makes_def same_ifaces_def)

lemma makes_None [simp]: "makes ho s None s' = same_ifaces s s'"
  by (simp add: makes_def)

lemma makes_addr_set:
  assumes "makes ho s (Some iface) t" and "patty_ax25_if_addr_set iface a = (r, iface')"
  shows "makes ho s (Some iface') t" and "makes ho s (Some (patty_ax25_if_up iface')) t"
  using assms net_iface_ok_upd(2) [of _ iface a] by (auto simp: makes_def)

lemma makes_same: "makes ho s i t \<Longrightarrow> same_ifaces s t"
  by (simp add: makes_def)

lemma create_kiss_makes: "create_kiss ho addr args e s = Some (i, e', s') \<Longrightarrow> makes ho s i s'"
  unfolding create_kiss_def
  by (auto split: if_splits prod.splits option.splits elim!: bind_SomeE
      dest!: kiss_args_same kiss_if_new_makes)
    (blast intro: makes_after makes_addr_set same_ifaces_trans dest: makes_same)+

lemma create_aprs_makes: "create_aprs_is ho addr args e s = Some (i, e', s') \<Longrightarrow> makes ho s i s'"
  unfolding create_aprs_is_def
  by (auto split: if_splits prod.splits option.splits elim!: bind_SomeE
      dest!: aprs_if_new_makes)
    (blast intro: makes_addr_set dest: makes_same)+

lemma if_args_makes:
  "if_args ho as mode name addr e s = Some (name', i, e', s') \<Longrightarrow> makes ho s i s'"
proof (induction ho as mode name addr e s rule: if_args.induct)
  case (4 ho a as name addr e s)
  then show ?case
    by (auto simp: if_types_def split: if_splits elim!: bind_SomeE dest: create_kiss_makes create_aprs_makes)
qed (auto split: if_splits prod.splits sum.splits)

lemma if_add_same: "patty_ax25_server_if_add p name s = Some (r, s') \<Longrightarrow> same_ifaces s s'"
  by (auto simp: patty_ax25_server_if_add_def fd_watch_def Let_def split: prod.splits if_splits elim!: bind_SomeE
      dest!: same_ifaces_world) (auto simp: same_ifaces_def)

lemma route_add_same: "patty_ax25_server_route_add p s = Some (r, s') \<Longrightarrow> same_ifaces s s'"
  by (auto simp: patty_ax25_server_route_add_def split: prod.splits sum.splits elim!: bind_SomeE dest!: same_ifaces_world)

lemma daemon_route_add_same:
  assumes "patty_daemon_route_add ifname dest hops d = Some (r, d')"
  shows "same_ifaces (dm_server d) (dm_server d')"
proof -
  obtain m t where c: "on_world sys_call (dm_server d) = (m, t)" by fastforce
  have t: "same_ifaces (dm_server d) t" by (rule same_ifaces_world [OF c])
  have r: "patty_ax25_server_route_add q (t\<lparr>h_routes := hr, h_next := n\<rparr>) = Some (x, u) \<Longrightarrow> same_ifaces (dm_server d) u"
    for q hr n x u
    using t by (auto dest!: route_add_same simp: same_ifaces_def)
  from assms c t show ?thesis
    by (auto simp: patty_daemon_route_add_def Let_def split: prod.splits option.splits sum.splits if_splits
        elim!: bind_SomeE dest!: r)
qed

text \<open>The context keeps its host, and its interfaces stay well formed.\<close>

definition ctx_ok :: "conf_ctx \<Rightarrow> bool" where
  "ctx_ok ctx \<longleftrightarrow> ifaces_ok (cx_host ctx) (dm_server (cx_daemon ctx))"

lemma same_ifaces_keep: "same_ifaces s s' \<Longrightarrow> ifaces_ok ho s \<Longrightarrow> ifaces_ok ho s'"
  by (simp add: same_ifaces_ok)

lemma set_path_same:
  "patty_daemon_set_sock_path path d = (r, d') \<Longrightarrow> same_ifaces (dm_server d) (dm_server d')"
  "patty_daemon_set_pidfile path d = (r, d') \<Longrightarrow> same_ifaces (dm_server d) (dm_server d')"
  by (auto simp: patty_daemon_set_sock_path_def patty_daemon_set_pidfile_def split: prod.splits dest!: same_ifaces_world)

lemma config_sock_ok: "config_sock n argv ctx = Some (r, ctx') \<Longrightarrow> ctx_ok ctx \<Longrightarrow> ctx_ok ctx'"
  by (auto simp: config_sock_def conf_fail_def ctx_ok_def Let_def split: if_splits prod.splits)
    (blast dest: set_path_same same_ifaces_keep)+

lemma config_pid_ok: "config_pid n argv ctx = Some (r, ctx') \<Longrightarrow> ctx_ok ctx \<Longrightarrow> ctx_ok ctx'"
  by (auto simp: config_pid_def conf_fail_def ctx_ok_def Let_def split: if_splits prod.splits)
    (blast dest: set_path_same same_ifaces_keep)+

lemma config_route_add_ok: "config_route_add n what ifname dest hops ctx = Some (r, ctx') \<Longrightarrow> ctx_ok ctx \<Longrightarrow> ctx_ok ctx'"
  by (auto simp: config_route_add_def conf_fail_def ctx_ok_def Let_def split: if_splits elim!: bind_SomeE)
    (blast dest: daemon_route_add_same same_ifaces_keep)+

lemma conf_fail_ok: "conf_fail n m ctx = (r, ctx') \<Longrightarrow> ctx_ok ctx \<Longrightarrow> ctx_ok ctx'"
  by (auto simp: conf_fail_def ctx_ok_def)

lemma conf_fail_snd [simp]: "ctx_ok (snd (conf_fail n m ctx)) = ctx_ok ctx"
  by (simp add: conf_fail_def ctx_ok_def)

lemma config_route_ok: "config_route n argv ctx = Some (r, ctx') \<Longrightarrow> ctx_ok ctx \<Longrightarrow> ctx_ok ctx'"
  by (auto simp: config_route_def split: if_splits sum.splits elim!: bind_SomeE)
    (blast dest: config_route_add_ok conf_fail_ok)+

lemma daemon_own_ok:
  assumes "ifaces_ok ho (dm_server d)" and "net_iface_ok (ho_frame ho) iface" and "daemon_own iface d = (p, d')"
  shows "ifaces_ok ho (dm_server d')"
  using assms by (auto simp: daemon_own_def ifaces_ok_def Let_def split: if_splits)

lemma if_destroy_ok:
  "daemon_if_destroy p d = Some d' \<Longrightarrow> ifaces_ok ho (dm_server d) \<Longrightarrow> ifaces_ok ho (dm_server d')"
  by (auto simp: daemon_if_destroy_def ifaces_ok_def split: if_splits elim!: bind_SomeE)

lemma daemon_if_add_ok:
  "patty_daemon_if_add p name d = Some (r, d') \<Longrightarrow> ifaces_ok ho (dm_server d) \<Longrightarrow> ifaces_ok ho (dm_server d')"
  by (auto simp: patty_daemon_if_add_def elim!: bind_SomeE) (blast dest: if_add_same same_ifaces_keep)

lemma config_if_ok:
  assumes "config_if n argv ctx = Some (r, ctx')" and ok: "ctx_ok ctx"
  shows "ctx_ok ctx'"
proof (cases "length argv < 3")
  case True
  with assms show ?thesis by (auto simp: config_if_def split: if_splits dest: conf_fail_ok)
next
  case False
  let ?ho = "cx_host ctx"
  from assms(1) False obtain name i e s where
    c: "patty_bin_if_create ?ho argv error_blank (dm_server (cx_daemon ctx)) = Some (name, i, e, s)"
    and rest: "config_if n argv ctx = Some (r, ctx')" by (auto simp: config_if_def elim!: bind_SomeE)
  have m: "makes ?ho (dm_server (cx_daemon ctx)) i s"
    using c unfolding patty_bin_if_create_def by (rule if_args_makes)
  then have s: "ifaces_ok ?ho s" using ok by (auto simp: ctx_ok_def makes_def same_ifaces_ok)
  show ?thesis
  proof (cases i)
    case None
    with rest False c s show ?thesis by (auto simp: config_if_def conf_fail_def Let_def ctx_ok_def)
  next
    case (Some iface)
    then have "net_iface_ok (ho_frame ?ho) (patty_ax25_if_up iface)" using m ok
      by (auto simp: makes_def ctx_ok_def ifaces_ok_def)
    note up = this
    obtain ifname where name: "name = Some ifname" using rest False c Some
      by (cases name) (simp_all add: config_if_def Let_def)
    define s1 where "s1 = s\<lparr>sv_world := announce_pty ifname (patty_ax25_if_fd iface) (sv_world s)\<rparr>"
    obtain p d where own: "daemon_own (patty_ax25_if_up iface) ((cx_daemon ctx)\<lparr>dm_server := s1\<rparr>) = (p, d)" by fastforce
    obtain x d1 where add: "patty_daemon_if_add p ifname d = Some (x, d1)"
      using rest False c Some name own
      by (cases "patty_daemon_if_add p ifname d") (auto simp: config_if_def Let_def s1_def)
    have "ifaces_ok ?ho s1" using s by (simp add: ifaces_ok_def s1_def)
    then have "ifaces_ok ?ho (dm_server d)" by (intro daemon_own_ok [OF _ up own]) simp
    then have d1: "ifaces_ok ?ho (dm_server d1)" by (rule daemon_if_add_ok [OF add])
    show ?thesis
    proof (cases "x < 0")
      case True
      then obtain d2 where "daemon_if_destroy p d1 = Some d2" and "cx_daemon ctx' = d2" and "cx_host ctx' = ?ho"
        using rest False c Some name own add
        by (cases "daemon_if_destroy p d1") (auto simp: config_if_def conf_fail_def Let_def s1_def)
      with if_destroy_ok [OF _ d1] show ?thesis by (simp add: ctx_ok_def)
    next
      case x: False
      then have "cx_daemon ctx' = d1" and "cx_host ctx' = ?ho"
        using rest False c Some name own add by (auto simp: config_if_def Let_def s1_def)
      with d1 show ?thesis by (simp add: ctx_ok_def)
    qed
  qed
qed

lemma config_host:
  "config_sock n argv ctx = Some (r, ctx') \<Longrightarrow> cx_host ctx' = cx_host ctx"
  "config_pid n argv ctx = Some (r, ctx') \<Longrightarrow> cx_host ctx' = cx_host ctx"
  "config_route_add n what ifname dest hops ctx = Some (r, ctx') \<Longrightarrow> cx_host ctx' = cx_host ctx"
  "config_if n argv ctx = Some (r, ctx') \<Longrightarrow> cx_host ctx' = cx_host ctx"
  by (auto simp: config_sock_def config_pid_def config_route_add_def config_if_def conf_fail_def Let_def
      split: if_splits prod.splits option.splits elim!: bind_SomeE)

lemma config_route_host: "config_route n argv ctx = Some (r, ctx') \<Longrightarrow> cx_host ctx' = cx_host ctx"
  by (auto simp: config_route_def conf_fail_def split: if_splits sum.splits elim!: bind_SomeE dest: config_host)

lemma handle_config_line_host: "handle_config_line buf line ctx = Some (r, ctx') \<Longrightarrow> cx_host ctx' = cx_host ctx"
  by (auto simp: handle_config_line_def on_tokens_def config_words_def config_handlers_def conf_fail_def Let_def
      split: if_splits prod.splits elim!: bind_SomeE dest!: config_host config_route_host)

lemma config_words_ok: "config_words line ctx = Some (r, ctx') \<Longrightarrow> ctx_ok ctx \<Longrightarrow> ctx_ok ctx'"
proof -
  assume c: "config_words line ctx = Some (r, ctx')" and ok: "ctx_ok ctx"
  obtain m t where w: "on_world sys_call (dm_server (cx_daemon ctx)) = (m, t)" by fastforce
  have t: "ctx_ok (ctx\<lparr>cx_daemon := (cx_daemon ctx)\<lparr>dm_server := t\<rparr>\<rparr>)"
    using same_ifaces_keep [OF same_ifaces_world [OF w]] ok by (simp add: ctx_ok_def)
  with c w ok show ?thesis
    by (auto simp: config_words_def config_handlers_def Let_def split: if_splits
        dest: config_sock_ok config_pid_ok config_if_ok config_route_ok conf_fail_ok)
qed

lemma handle_config_line_ok: "handle_config_line buf line ctx = Some (r, ctx') \<Longrightarrow> ctx_ok ctx \<Longrightarrow> ctx_ok ctx'"
  by (auto simp: handle_config_line_def on_tokens_def elim!: bind_SomeE dest: config_words_ok)

text \<open>What the handler keeps, reading a whole file keeps.\<close>

lemma conf_char_ctx: "conf_char c x = Some (ok, x') \<Longrightarrow> x_ctx x' = x_ctx x"
  by (auto simp: conf_char_def conf_put_def conf_end_token_def Let_def split: prod.splits if_splits elim!: bind_SomeE)

lemma conf_step_keeps:
  assumes "\<And>buf line ctx r ctx'. handler buf line ctx = Some (r, ctx') \<Longrightarrow> I ctx \<Longrightarrow> I ctx'"
    and "conf_step handler i x = Some (ok, x')" and "I (x_ctx x)"
  shows "I (x_ctx x')"
  using assms(2,3)
  by (auto simp: conf_step_def conf_newline_def conf_end_line_def Let_def split: prod.splits if_splits elim!: bind_SomeE
      dest!: conf_char_ctx assms(1))

lemma conf_loop_keeps:
  assumes "\<And>buf line ctx r ctx'. handler buf line ctx = Some (r, ctx') \<Longrightarrow> I ctx \<Longrightarrow> I ctx'"
  shows "conf_loop handler i n x = Some (ok, x') \<Longrightarrow> I (x_ctx x) \<Longrightarrow> I (x_ctx x')"
proof (induction n arbitrary: i x)
  case (Suc n)
  obtain go y where s: "conf_step handler i x = Some (go, y)"
    and rest: "(if go then conf_loop handler (Suc i) n y else Some (False, y)) = Some (ok, x')"
    using Suc.prems(1) by (auto elim!: bind_SomeE)
  have "I (x_ctx y)" using conf_step_keeps [where I = I, OF assms s Suc.prems(2)] .
  with rest Suc.IH [of "Suc i" y] show ?case by (auto split: if_splits)
qed simp

lemma conf_read_keeps:
  assumes handler: "\<And>buf line ctx r ctx'. handler buf line ctx = Some (r, ctx') \<Longrightarrow> I ctx \<Longrightarrow> I ctx'"
    and "patty_conf_read junk blk handler ctx w = Some (r, ctx', w')" and "I ctx"
  shows "I ctx'"
proof -
  have fin: "conf_finish handler x = Some (r, ctx', w') \<Longrightarrow> I (x_ctx x) \<Longrightarrow> I ctx'" for x
    by (auto simp: conf_finish_def conf_end_token_def conf_put_def split: if_splits prod.splits elim!: bind_SomeE dest: handler)
  show ?thesis
  proof (cases "ctx' = ctx")
    case False
    then obtain buf go x u where l: "conf_loop handler 0 (length buf) (conf_init buf ctx u) = Some (go, x)"
      and rest: "(if \<not> go then Some (-1, x_ctx x, x_world x) else conf_finish handler x) = Some (r, ctx', w')"
      using assms(2) by (auto simp: patty_conf_read_def split: option.splits prod.splits if_split_asm elim!: bind_SomeE)
    have "I (x_ctx x)"
      using conf_loop_keeps [where I = I, OF handler l] assms(3) by (simp add: conf_init_def)
    with rest fin [of x] show ?thesis by (auto split: if_splits)
  qed (use assms(3) in simp)
qed

section \<open>A daemon brought up by its configuration\<close>

lemma daemon_new_server: "patty_daemon_new ev w = (Some d, w1) \<Longrightarrow> dm_server d = server_zero ev w1"
  by (auto simp: patty_daemon_new_def patty_ax25_server_new_def split: prod.splits if_splits option.splits)

text \<open>The words of the language are different from each other.\<close>

lemma conf_keywords [simp]:
  "cstr ''pid'' \<noteq> cstr ''sock''" "cstr ''if'' \<noteq> cstr ''sock''" "cstr ''route'' \<noteq> cstr ''sock''"
  "cstr ''if'' \<noteq> cstr ''pid''" "cstr ''route'' \<noteq> cstr ''pid''" "cstr ''route'' \<noteq> cstr ''if''"
  "cstr ''kiss'' \<noteq> cstr ''ax25''" "cstr ''station'' \<noteq> cstr ''default''"
  by (simp_all add: cstr_def)

lemma sys_call_ok: "script w = ROk # rs \<Longrightarrow> sys_call w = (0, w\<lparr>script := rs\<rparr>)"
  by (simp add: sys_call_def)

lemma line_sock:
  assumes "script (sv_world (dm_server (cx_daemon ctx))) = ROk # ROk # rs"
  shows "config_words [(cstr ''sock'', n), (path, m)] ctx = Some (0, ctx\<lparr>cx_daemon := (cx_daemon ctx)
    \<lparr>dm_sock_path := Some path, dm_server := (dm_server (cx_daemon ctx))\<lparr>sv_world :=
       (sv_world (dm_server (cx_daemon ctx)))\<lparr>script := rs\<rparr>\<rparr>\<rparr>\<rparr>)"
  using assms
  by (simp add: config_words_def config_handlers_def config_sock_def patty_daemon_set_sock_path_def strdup_def
      on_world_def sys_call_ok)

text \<open>The interface that a device with no further settings becomes.\<close>

definition line_iface :: "host \<Rightarrow> env \<Rightarrow> addr \<Rightarrow> int \<Rightarrow> net iface" where
  "line_iface ho ev a fd =
     \<lparr>if_flags_classes = PATTY_AX25_IF_DEFAULT_CLASSES, if_rx_buf = ho_rx ho, if_tx_buf = ho_tx ho,
      if_mru = PATTY_AX25_IF_DEFAULT_MRU, if_mtu = PATTY_AX25_IF_DEFAULT_MTU, if_state = PATTY_AX25_IF_UP,
      if_addr = copied_addr a, if_aliases = patty_list_new, if_promisc_fds = patty_dict_new,
      if_drv = net_driver (ho_frame ho),
      if_phy = Inl ((ev_blank ev)\<lparr>t_fd := fd, t_stats := stats_zero, t_opts := TNC_NONE, t_state := KISS_NONE,
                      t_command := PATTY_KISS_RETURN, t_port := 0, t_bufsz := PATTY_KISS_TNC_BUFSZ,
                      t_offset_i := 0, t_offset_o := 0, t_readlen := 0, t_buf := ev_garbage ev\<rparr>)\<rparr>"

text \<open>Settings behind the device that are valid, and leave no trace on what is not a terminal.\<close>

definition tnc_device :: "cstring \<Rightarrow> tnc_info" where
  "tnc_device dev = tnc_info_zero\<lparr>ti_flags := PATTY_KISS_TNC_DEVICE, ti_device := dev\<rparr>"

definition settings :: "cstring list \<Rightarrow> bool" where
  "settings opts \<longleftrightarrow> (\<forall>ho dev e (s :: net server). \<exists>info. kiss_args ho opts MODE_KISS_IFOPTS (tnc_device dev) e s = Some (True, info, e, s)
     \<and> ti_device info = dev \<and> ti_flags info AND PATTY_KISS_TNC_DEVICE \<noteq> 0)"

lemma settings_none: "settings []"
  by (simp add: settings_def tnc_device_def PATTY_KISS_TNC_DEVICE_def)

lemma settings_baud:
  assumes "starts_with_digit b" and "atoi b = Some n" shows "settings [cstr ''baud'', b]"
  using assms
  by (simp add: settings_def info_baud_def tnc_device_def tnc_info_zero_def PATTY_KISS_TNC_DEVICE_def PATTY_KISS_TNC_BAUD_def)

lemma make_kiss:
  assumes "script (sv_world s) = [ROk, ROk, ROk, ROk, RVal mode, RVal fd]"
    and "0 \<le> fd" and "0 \<le> mode" and "(word_of_int mode AND S_IFMT) \<noteq> S_IFSOCK" and "dev \<noteq> dev_ptmx" and "settings opts"
  shows "create_kiss ho a (dev # opts) e s = Some (Some (line_iface ho (sv_env s) a fd), e, s\<lparr>sv_world := (sv_world s)\<lparr>script := []\<rparr>\<rparr>)"
proof -
  let ?s = "s\<lparr>sv_world := (sv_world s)\<lparr>script := [ROk, ROk, ROk, RVal mode, RVal fd]\<rparr>\<rparr>"
  obtain info where i: "kiss_args ho opts MODE_KISS_IFOPTS (tnc_device dev) e ?s = Some (True, info, e, ?s)"
    and info: "ti_device info = dev" "ti_flags info AND PATTY_KISS_TNC_DEVICE \<noteq> 0"
    using assms(6) unfolding settings_def by blast
  have "kiss_args ho (dev # opts) MODE_KISS_DEVICE tnc_info_zero e s = Some (True, info, e, ?s)"
    using i assms(1) by (simp add: on_world_def sys_call_ok tnc_device_def tnc_info_zero_def)
  then show ?thesis
    using assms(1-5) info
    by (simp add: create_kiss_def on_world_def sys_call_ok kiss_if_new_def patty_ax25_if_new_def patty_kiss_tnc_new_def
        init_device_def sys_fd_def sys_query_def sys_call_def
        patty_ax25_if_addr_set_def patty_ax25_if_up_def patty_ax25_addr_copy_def copied_addr_def line_iface_def Let_def)
qed

definition boot_route :: "nat \<Rightarrow> route" where
  "boot_route p = route_zero\<lparr>rt_iface := p\<rparr>"

lemma values_one:
  "patty_list_append (Some (Suc q, j)) patty_list_new x = Some (Some x, l) \<Longrightarrow> patty_list_values l = Some [x]"
  by (auto simp: patty_list_append_def patty_list_new_def patty_list_values_def each_item.simps)

text \<open>An \<open>if\<close> line on a daemon without interfaces.\<close>

lemma line_if:
  assumes s: "s = dm_server (cx_daemon ctx)"
    and script: "script (sv_world s) = [ROk, ROk, ROk, ROk, ROk, RVal mode, RVal fd]"
    and fd: "0 \<le> fd" "fd < FD_SETSIZE" and mode: "0 \<le> mode" "(word_of_int mode AND S_IFMT) \<noteq> S_IFSOCK"
    and dev: "dev \<noteq> dev_ptmx" and call: "patty_ax25_pton call addr_zero = (Inr (), a)"
    and empty: "sv_ifaces s = patty_list_new" and opts: "settings opts"
  obtains d' where
    "config_words ([(cstr ''if'', n), (name, n), (cstr ''ax25'', n), (call, n), (cstr ''kiss'', n), (dev, n)] @ map (\<lambda>w. (w, n)) opts) ctx
       = Some (0, ctx\<lparr>cx_daemon := d'\<rparr>)"
    and "dm_sock_path d' = dm_sock_path (cx_daemon ctx)" and "script (sv_world (dm_server d')) = []"
    and "patty_list_values (sv_ifaces (dm_server d')) = Some [h_next s + 1]"
    and "h_entries (dm_server d') (h_next s + 1) = Some \<lparr>en_fd = fd, en_name = fst (patty_strlcpy name 10), en_iface = h_next s\<rparr>"
    and "h_ifaces (dm_server d') (h_next s) = Some (line_iface (cx_host ctx) (sv_env s) a fd)"
    and "sv_fds_watch (dm_server d') fd" and "sv_routes (dm_server d') = sv_routes s"
    and "h_next (dm_server d') = h_next s + 3"
proof -
  let ?i = "line_iface (cx_host ctx) (sv_env s) a fd"
  define s0 where "s0 = s\<lparr>sv_world := (sv_world s)\<lparr>script := []\<rparr>\<rparr>"
  define s1 where "s1 = s0\<lparr>h_ifaces := (h_ifaces s0)(h_next s \<mapsto> ?i), h_next := h_next s + 1\<rparr>"
  have up: "patty_ax25_if_up ?i = ?i" by (simp add: patty_ax25_if_up_def line_iface_def)
  have fdi: "patty_ax25_if_fd ?i = fd"
    by (simp add: patty_ax25_if_fd_def line_iface_def net_driver_def patty_kiss_tnc_driver_def patty_kiss_tnc_fd_def Let_def)
  let ?argv = "[cstr ''if'', name, cstr ''ax25'', call, cstr ''kiss'', dev] @ opts"
  define r0 where "r0 = s\<lparr>sv_world := (sv_world s)\<lparr>script := [ROk, ROk, ROk, ROk, RVal mode, RVal fd]\<rparr>\<rparr>"
  have r0: "on_world sys_call s = (0, r0)" using script by (simp add: on_world_def sys_call_ok r0_def)
  have "create_kiss (cx_host ctx) a (dev # opts) (patty_error_clear error_blank) r0
      = Some (Some ?i, patty_error_clear error_blank, s0)"
    using make_kiss [of r0 mode fd dev opts "cx_host ctx" a] fd mode dev opts by (simp add: r0_def s0_def)
  then have c: "patty_bin_if_create (cx_host ctx) ?argv error_blank r0
      = Some (Some name, Some ?i, patty_error_clear error_blank, s0)"
    using call by (simp add: patty_bin_if_create_def if_types_def)
  have quiet: "announce_pty name fd (sv_world s0) = sv_world s0"
    by (simp add: announce_pty_def sys_query_def sys_fd_def s0_def)
  obtain l where l: "patty_list_append (Some (Suc (Suc (h_next s)), ev_prev (sv_env s))) patty_list_new (Suc (h_next s))
      = Some (Some (Suc (h_next s)), l)"
    by (simp add: patty_list_append_def patty_list_new_def)
  let ?e = "\<lparr>en_fd = fd, en_name = fst (patty_strlcpy name 10), en_iface = h_next s\<rparr>"
  define s2 where "s2 = s1\<lparr>h_entries := (h_entries s1)(Suc (h_next s) \<mapsto> ?e), h_next := Suc (Suc (Suc (h_next s))), sv_ifaces := l,
      sv_fds_watch := (sv_fds_watch s1)(fd := True), sv_fd_max := (if sv_fd_max s1 \<le> fd then fd + 1 else sv_fd_max s1)\<rparr>"
  have add: "patty_ax25_server_if_add (h_next s) name s1 = Some (0, s2)"
    using fd fdi l empty
    by (simp add: patty_ax25_server_if_add_def on_world_def sys_call_def s1_def s0_def s2_def Let_def
        IF_ENTRY_NAME_SIZE_def fd_watch_def fd_ok_def)
  define d' where "d' = (cx_daemon ctx)\<lparr>dm_server := s2\<rparr>"
  have "config_words ([(cstr ''if'', n), (name, n), (cstr ''ax25'', n), (call, n), (cstr ''kiss'', n), (dev, n)] @ map (\<lambda>w. (w, n)) opts) ctx
       = Some (0, ctx\<lparr>cx_daemon := d'\<rparr>)"
    using r0 c quiet add fdi up
    by (simp add: config_words_def config_handlers_def config_if_def s [symmetric] Let_def daemon_own_def
        patty_daemon_if_add_def d'_def s1_def s0_def comp_def)
  then show thesis
    by (rule that) (use l in \<open>simp_all add: d'_def s2_def s1_def s0_def values_one numeral_eq_Suc\<close>)
qed

lemma strlcpy_same: "is_cstring name \<Longrightarrow> length name < 10 \<Longrightarrow> fst (patty_strlcpy name 10) = name"
  by (simp add: patty_strlcpy_take)

lemma line_default_route:
  assumes s: "s = dm_server (cx_daemon ctx)" and script: "script (sv_world s) = []"
    and l: "patty_list_values (sv_ifaces s) = Some [q]"
    and e: "h_entries s q = Some \<lparr>en_fd = fd, en_name = name, en_iface = p\<rparr>"
    and routes: "sv_routes s = patty_dict_new"
  obtains d' where
    "config_words [(cstr ''route'', n), (cstr ''default'', n), (cstr ''if'', n), (name, n)] ctx = Some (0, ctx\<lparr>cx_daemon := d'\<rparr>)"
    and "dm_sock_path d' = dm_sock_path (cx_daemon ctx)" and "h_ifaces (dm_server d') = h_ifaces s"
    and "patty_ax25_server_if_get (dm_server d') name = Some (Some p)"
    and "patty_ax25_server_route_default (dm_server d') = Some (h_next s)"
    and "h_routes (dm_server d') (h_next s) = Some (boot_route p)"
    and "sv_fds_watch (dm_server d') = sv_fds_watch s" and "script (sv_world (dm_server d')) = []"
proof -
  have get: "patty_ax25_server_if_get s name = Some (Some p)"
    using l e by (simp add: patty_ax25_server_if_get_def strncmp_eq_def)
  define t where "t = snd (patty_dict_set True patty_dict_new (hash_addr addr_zero) (Some (h_next s)))"
  have t: "patty_ax25_route_table_add True patty_dict_new (h_next s) (boot_route p) = (Inr (), t)"
    by (simp add: patty_ax25_route_table_add_def patty_ax25_route_table_find_def patty_ax25_route_table_default_def
        boot_route_def route_zero_def t_def dict_set_new_eq)
  have found: "patty_dict_get t (hash_addr addr_zero) = Some (h_next s)"
    unfolding t_def by (rule dict_set_same [THEN conjunct2]) (simp add: dict_set_new_eq)
  define s' where "s' = s\<lparr>h_routes := (h_routes s)(h_next s \<mapsto> boot_route p), h_next := h_next s + 1, sv_routes := t\<rparr>"
  have rz: "rt_dest route_zero = addr_zero" "route_zero\<lparr>rt_iface := p, rt_dest := addr_zero\<rparr> = route_zero\<lparr>rt_iface := p\<rparr>"
    by (simp_all add: route_zero_def)
  have "patty_daemon_route_add name None [] (cx_daemon ctx) = Some (0, (cx_daemon ctx)\<lparr>dm_server := s'\<rparr>)"
    using get script t [unfolded boot_route_def] routes rz
    by (simp add: patty_daemon_route_add_def s [symmetric] on_world_def sys_call_def Let_def
        patty_ax25_server_route_add_def s'_def boot_route_def)
  moreover have u: "(cx_daemon ctx)\<lparr>dm_server := s\<rparr> = cx_daemon ctx" by (simp add: s)
  ultimately have "config_words [(cstr ''route'', n), (cstr ''default'', n), (cstr ''if'', n), (name, n)] ctx
      = Some (0, ctx\<lparr>cx_daemon := (cx_daemon ctx)\<lparr>dm_server := s'\<rparr>\<rparr>)"
    using script
    by (simp add: config_words_def config_handlers_def config_route_def config_route_add_def s [symmetric]
        on_world_def sys_call_def u)
  then show thesis
    by (rule that) (use l e found script in \<open>simp_all add: s'_def strncmp_eq_def patty_ax25_server_if_get_def patty_ax25_server_route_default_def
        patty_ax25_route_table_default_def\<close>)
qed

text \<open>The configuration of one station, as the sample texts below, and the daemon that reads it.\<close>

definition boot_file :: "cstring \<Rightarrow> cstring \<Rightarrow> cstring \<Rightarrow> cstring \<Rightarrow> cstring list \<Rightarrow> byte list" where
  "boot_file path name call dev opts = concat (map line_text
     [[cstr ''sock'', path], [cstr ''if'', name, cstr ''ax25'', call, cstr ''kiss'', dev] @ opts,
      [cstr ''route'', cstr ''default'', cstr ''if'', name]])"

definition boot_script :: "reply list" where
  "boot_script = [ROk, ROk, ROk, ROk, ROk, ROk, ROk, RVal 0x2000, RVal 3]"

definition new_daemon :: "env \<Rightarrow> reply list \<Rightarrow> net daemon" where
  "new_daemon ev rs = \<lparr>dm_sock_path = Some PATTY_DAEMON_DEFAULT_SOCK, dm_pidfile = Some PATTY_DAEMON_DEFAULT_PIDFILE,
     dm_server = server_zero ev (world0 rs)\<rparr>"

lemma new_daemon_new: "patty_daemon_new ev (world0 (replicate 12 ROk @ rs)) = (Some (new_daemon ev rs), world0 rs)"
  by (simp add: patty_daemon_new_def patty_daemon_set_sock_path_def patty_daemon_set_pidfile_def strdup_def on_world_def
      daemon_zero_def server_zero_def patty_ax25_server_new_def new_daemon_def sys_call_def world0_def numeral_eq_Suc)

definition boot_read :: world where
  "boot_read = world0 [RVal 3, RVal (int (length (boot_file (cstr ''/s'') (cstr ''k0'') (cstr ''N0CALL'') (cstr ''/d'') []))), ROk,
     RBytes (boot_file (cstr ''/s'') (cstr ''k0'') (cstr ''N0CALL'') (cstr ''/d'') [])]"

definition boot_env :: env where
  "boot_env = \<lparr>ev_line = termios_zero, ev_blank = tnc_fields 0 [], ev_garbage = replicate PATTY_KISS_TNC_BUFSZ 0,
     ev_prev = 0, ev_ret = 0, ev_frame = frame_zero, ev_params = params_zero\<rparr>"

definition boot_host :: host where
  "boot_host = \<lparr>ho_strerror = (\<lambda>_. []), ho_rx = replicate PATTY_AX25_IF_DEFAULT_MRU 0, ho_tx = [], ho_frame = frame_zero\<rparr>"

definition boot_addr :: addr where
  "boot_addr = snd (patty_ax25_pton (cstr ''N0CALL'') addr_zero)"

lemma config_boots:
  assumes new: "patty_daemon_new ev w = (Some d, w1)"
    and script: "script w1 = [ROk, ROk, ROk, ROk, ROk, ROk, ROk, RVal mode, RVal fd]"
    and read: "file_read heap blk wc = Some (Some (boot_file path name call dev opts), wc')" and "script wc' = []"
    and words: "quotable path" "quotable name" "quotable call" "quotable dev" "list_all quotable opts"
    and fd: "0 \<le> fd" "fd < FD_SETSIZE" and mode: "0 \<le> mode" "(word_of_int mode AND S_IFMT) \<noteq> S_IFSOCK"
    and dev: "dev \<noteq> dev_ptmx" and call: "patty_ax25_pton call addr_zero = (Inr (), a)" and name: "length name < 10" and opts: "settings opts"
  shows "\<exists>d' p q. main_configure ho heap blk wc argv0 op d = Some (0, d') \<and> dm_sock_path d' = Some path
    \<and> patty_ax25_server_if_get (dm_server d') name = Some (Some p)
    \<and> h_ifaces (dm_server d') p = Some (line_iface ho ev a fd) \<and> sv_fds_watch (dm_server d') fd
    \<and> patty_ax25_server_route_default (dm_server d') = Some q
    \<and> h_routes (dm_server d') q = Some (route_zero\<lparr>rt_iface := p\<rparr>)"
proof -
  let ?lss = "[[cstr ''sock'', path], [cstr ''if'', name, cstr ''ax25'', call, cstr ''kiss'', dev] @ opts,
          [cstr ''route'', cstr ''default'', cstr ''if'', name]]"
  let ?ctx = "\<lparr>cx_daemon = d, cx_e = error_blank, cx_host = ho\<rparr>"
  have "\<forall>l \<in> set ?lss. l \<noteq> [] \<and> list_all quotable l"
    using words by (simp add: quotable_def cstr_def)
  note whole = conf_read_file [OF read [unfolded boot_file_def] \<open>script wc' = []\<close> this, of config_words ?ctx, folded handle_config_line_def]
  have d: "dm_server d = server_zero ev w1" by (rule daemon_new_server [OF new])
  define d1 where "d1 = d\<lparr>dm_sock_path := Some path, dm_server := (dm_server d)\<lparr>sv_world :=
     w1\<lparr>script := [ROk, ROk, ROk, ROk, ROk, RVal mode, RVal fd]\<rparr>\<rparr>\<rparr>"
  have 1: "config_words [(cstr ''sock'', 1), (path, 1)] ?ctx = Some (0, ?ctx\<lparr>cx_daemon := d1\<rparr>)"
    using line_sock [of ?ctx _ 1 path 1] script by (simp add: d d1_def server_zero_def)
  obtain d2 where 2: "config_words ([(cstr ''if'', 2), (name, 2), (cstr ''ax25'', 2), (call, 2), (cstr ''kiss'', 2), (dev, 2)] @ map (\<lambda>w. (w, 2)) opts)
       (?ctx\<lparr>cx_daemon := d1\<rparr>) = Some (0, ?ctx\<lparr>cx_daemon := d2\<rparr>)"
    and d2: "dm_sock_path d2 = Some path" "script (sv_world (dm_server d2)) = []"
      "patty_list_values (sv_ifaces (dm_server d2)) = Some [2]"
      "h_entries (dm_server d2) 2 = Some \<lparr>en_fd = fd, en_name = fst (patty_strlcpy name 10), en_iface = 1\<rparr>"
      "h_ifaces (dm_server d2) 1 = Some (line_iface ho ev a fd)" "sv_fds_watch (dm_server d2) fd"
      "sv_routes (dm_server d2) = patty_dict_new"
    by (rule line_if [OF refl, of "?ctx\<lparr>cx_daemon := d1\<rparr>" mode fd dev call a opts 2 name])
      (use fd mode dev call opts in \<open>simp_all add: d1_def d server_zero_def del: One_nat_def\<close>)
  have "is_cstring name" using words(2) by (auto simp: quotable_def is_cstring_def)
  then have name': "fst (patty_strlcpy name 10) = name" using name by (rule strlcpy_same)
  obtain d3 where 3: "config_words [(cstr ''route'', 3), (cstr ''default'', 3), (cstr ''if'', 3), (name, 3)]
       (?ctx\<lparr>cx_daemon := d2\<rparr>) = Some (0, ?ctx\<lparr>cx_daemon := d3\<rparr>)"
    and d3: "dm_sock_path d3 = Some path" "h_ifaces (dm_server d3) = h_ifaces (dm_server d2)"
      "patty_ax25_server_if_get (dm_server d3) name = Some (Some 1)"
      "patty_ax25_server_route_default (dm_server d3) = Some (h_next (dm_server d2))"
      "h_routes (dm_server d3) (h_next (dm_server d2)) = Some (boot_route 1)"
      "sv_fds_watch (dm_server d3) = sv_fds_watch (dm_server d2)"
    by (rule line_default_route [OF refl, of "?ctx\<lparr>cx_daemon := d2\<rparr>" 2 fd name 1 3]) (use d2 name' in simp_all)
  have "patty_conf_read heap blk handle_config_line ?ctx wc = Some (0, ?ctx\<lparr>cx_daemon := d3\<rparr>, wc')"
    using 1 2 3 by (simp add: whole del: One_nat_def)
  then have "main_configure ho heap blk wc argv0 op d = Some (0, d3)"
    by (simp add: main_configure_def)
  with d2 d3 show ?thesis unfolding boot_route_def by auto
qed


lemma boot_words:
  "quotable (cstr ''/s'')" "quotable (cstr ''k0'')" "quotable (cstr ''N0CALL'')" "quotable (cstr ''/d'')"
  "cstr ''/d'' \<noteq> dev_ptmx" "length (cstr ''k0'') < 10"
  "patty_ax25_pton (cstr ''N0CALL'') addr_zero = (Inr (), boot_addr)"
  by code_simp+

lemma boot_read_file:
  "file_read heap 4096 boot_read
     = Some (Some (boot_file (cstr ''/s'') (cstr ''k0'') (cstr ''N0CALL'') (cstr ''/d'') []), (world0 [])\<lparr>closed := [3]\<rparr>)"
proof -
  have "length (boot_file (cstr ''/s'') (cstr ''k0'') (cstr ''N0CALL'') (cstr ''/d'') []) < 4096" by code_simp
  then show ?thesis unfolding boot_read_def by (rule file_read_whole) simp
qed

lemma boot_mode: "(word_of_int 0x2000 AND S_IFMT) \<noteq> S_IFSOCK"
  by code_simp

section \<open>The sample configuration\<close>

text \<open>\<open>examples/pattyd.conf\<close>\<close>

definition sample_conf :: "byte list" where
  "sample_conf = concat (map (\<lambda>l. cstr l @ [0x0a])
     [''sock /var/run/patty.sock'', ''pid /var/run/patty.pid'', ''if kiss0 ax25 N7MMX kiss /dev/ttyUSB0 baud 9600'',
      ''route default if kiss0'', ''route station GB9BLM if kiss0 path KX4EHF WX9KIP''])"

lemma sample_lines:
  "map (map no_column) (conf_lines sample_conf) =
     [[(cstr ''sock'', 1), (cstr ''/var/run/patty.sock'', 1)], [(cstr ''pid'', 2), (cstr ''/var/run/patty.pid'', 2)],
      [(cstr ''if'', 3), (cstr ''kiss0'', 3), (cstr ''ax25'', 3), (cstr ''N7MMX'', 3), (cstr ''kiss'', 3), (cstr ''/dev/ttyUSB0'', 3),
       (cstr ''baud'', 3), (cstr ''9600'', 3)],
      [(cstr ''route'', 4), (cstr ''default'', 4), (cstr ''if'', 4), (cstr ''kiss0'', 4)],
      [(cstr ''route'', 5), (cstr ''station'', 5), (cstr ''GB9BLM'', 5), (cstr ''if'', 5), (cstr ''kiss0'', 5), (cstr ''path'', 5),
       (cstr ''KX4EHF'', 5), (cstr ''WX9KIP'', 5)]]"
  by code_simp

lemma sample_text: "0 \<notin> set sample_conf" "sample_conf ! (length sample_conf - 1) = 0x0a" "length sample_conf < 4096"
  by code_simp+

lemma sample_words:
  "fst (patty_ax25_pton (cstr ''N7MMX'') addr_zero) = Inr ()" "fst (patty_ax25_pton (cstr ''GB9BLM'') addr_zero) = Inr ()"
  "map_option fst (path_pton [cstr ''KX4EHF'', cstr ''WX9KIP''] 0 (rt_repeaters route_zero)) = Some (Inr ())"
  "starts_with_digit (cstr ''9600'')" "cstr ''/dev/ttyUSB0'' \<noteq> dev_ptmx"
  "fst (patty_strlcpy (cstr ''kiss0'') 10) = cstr ''kiss0''"
  "station_path [cstr ''route'', cstr ''station'', cstr ''GB9BLM'', cstr ''if'', cstr ''kiss0'', cstr ''path'', cstr ''KX4EHF'', cstr ''WX9KIP'']
     = Some (Inr [cstr ''KX4EHF'', cstr ''WX9KIP''])"
  by code_simp+

lemma sample_baud: "atoi (cstr ''9600'') = Some 9600"
  by (simp add: atoi_def number_def is_digit_def cstr_def)

lemma line_pid:
  assumes "script (sv_world (dm_server (cx_daemon ctx))) = ROk # ROk # rs"
  shows "config_words [(cstr ''pid'', n), (path, m)] ctx = Some (0, ctx\<lparr>cx_daemon := (cx_daemon ctx)
    \<lparr>dm_pidfile := Some path, dm_server := (dm_server (cx_daemon ctx))\<lparr>sv_world :=
       (sv_world (dm_server (cx_daemon ctx)))\<lparr>script := rs\<rparr>\<rparr>\<rparr>\<rparr>)"
  using assms
  by (simp add: config_words_def config_handlers_def config_pid_def patty_daemon_set_pidfile_def strdup_def
      on_world_def sys_call_ok)

text \<open>Behind a default route every other route is refused.\<close>

lemma route_add_behind_default:
  assumes get: "patty_ax25_server_if_get (dm_server d) name = Some (Some p)" and script: "script (sv_world (dm_server d)) = []"
    and default: "patty_ax25_server_route_default (dm_server d) = Some q"
    and dest: "fst (patty_ax25_pton dest addr_zero) = Inr ()"
    and path: "map_option fst (path_pton hops 0 (rt_repeaters route_zero)) = Some (Inr ())"
  obtains d' where "patty_daemon_route_add name (Some dest) hops d = Some (-1, d')"
    and "sv_routes (dm_server d') = sv_routes (dm_server d)"
    and "err (sv_world (dm_server d')) = Some EEXIST" and "script (sv_world (dm_server d')) = []"
proof -
  obtain a where a: "patty_ax25_pton dest addr_zero = (Inr (), a)" using dest by (cases "patty_ax25_pton dest addr_zero") simp
  obtain rs where rs: "path_pton hops 0 (rt_repeaters route_zero) = Some (Inr (), rs)" using path by auto
  have "patty_ax25_route_table_find (sv_routes (dm_server d)) x \<noteq> None" for x
    using default by (simp add: patty_ax25_route_table_find_def patty_ax25_server_route_default_def split: option.split)
  then have "patty_ax25_route_table_add m (sv_routes (dm_server d)) x r = (Inl EEXIST, sv_routes (dm_server d))" for m x r
    by (simp add: patty_ax25_route_table_add_def)
  then show thesis
    using get script a rs that
    by (auto simp: patty_daemon_route_add_def on_world_def sys_call_def patty_ax25_server_route_add_def set_errno_def
        route_zero_def Let_def)
qed

text \<open>
  The sample configuration: its first four lines, up to the default route, are carried out; the
  station's route of the last one is refused.
\<close>

lemma sample_first_lines:
  assumes new: "patty_daemon_new ev w = (Some d, w1)"
    and script: "script w1 = [ROk, ROk, ROk, ROk, ROk, ROk, ROk, ROk, ROk, RVal mode, RVal fd]"
    and fd: "0 \<le> fd" "fd < FD_SETSIZE" and mode: "0 \<le> mode" "(word_of_int mode AND S_IFMT) \<noteq> S_IFSOCK"
  obtains d4 q where "run_lines config_words (take 4 (map (map no_column) (conf_lines sample_conf)))
      \<lparr>cx_daemon = d, cx_e = error_blank, cx_host = ho\<rparr> = Some (0, \<lparr>cx_daemon = d4, cx_e = error_blank, cx_host = ho\<rparr>)"
    and "patty_ax25_server_if_get (dm_server d4) (cstr ''kiss0'') = Some (Some 1)"
    and "patty_ax25_server_route_default (dm_server d4) = Some q" and "script (sv_world (dm_server d4)) = []"
proof -
  let ?ctx = "\<lparr>cx_daemon = d, cx_e = error_blank, cx_host = ho\<rparr>"
  obtain a where call: "patty_ax25_pton (cstr ''N7MMX'') addr_zero = (Inr (), a)"
    using sample_words(1) by (cases "patty_ax25_pton (cstr ''N7MMX'') addr_zero") simp
  have d: "dm_server d = server_zero ev w1" by (rule daemon_new_server [OF new])
  define d1 where "d1 = d\<lparr>dm_sock_path := Some (cstr ''/var/run/patty.sock''), dm_server := (dm_server d)\<lparr>sv_world :=
     w1\<lparr>script := [ROk, ROk, ROk, ROk, ROk, ROk, ROk, RVal mode, RVal fd]\<rparr>\<rparr>\<rparr>"
  define d2 where "d2 = d1\<lparr>dm_pidfile := Some (cstr ''/var/run/patty.pid''), dm_server := (dm_server d)\<lparr>sv_world :=
     w1\<lparr>script := [ROk, ROk, ROk, ROk, ROk, RVal mode, RVal fd]\<rparr>\<rparr>\<rparr>"
  have 1: "config_words [(cstr ''sock'', 1), (cstr ''/var/run/patty.sock'', 1)] ?ctx = Some (0, ?ctx\<lparr>cx_daemon := d1\<rparr>)"
    using line_sock [of ?ctx _ 1 "cstr ''/var/run/patty.sock''" 1] script by (simp add: d d1_def server_zero_def)
  have 2: "config_words [(cstr ''pid'', 2), (cstr ''/var/run/patty.pid'', 2)] (?ctx\<lparr>cx_daemon := d1\<rparr>) = Some (0, ?ctx\<lparr>cx_daemon := d2\<rparr>)"
    using line_pid [of "?ctx\<lparr>cx_daemon := d1\<rparr>" _ 2 "cstr ''/var/run/patty.pid''" 2] by (simp add: d d1_def d2_def server_zero_def)
  obtain d3 where 3: "config_words [(cstr ''if'', 3), (cstr ''kiss0'', 3), (cstr ''ax25'', 3), (cstr ''N7MMX'', 3), (cstr ''kiss'', 3),
        (cstr ''/dev/ttyUSB0'', 3), (cstr ''baud'', 3), (cstr ''9600'', 3)] (?ctx\<lparr>cx_daemon := d2\<rparr>) = Some (0, ?ctx\<lparr>cx_daemon := d3\<rparr>)"
    and d3: "script (sv_world (dm_server d3)) = []" "patty_list_values (sv_ifaces (dm_server d3)) = Some [2]"
      "h_entries (dm_server d3) 2 = Some \<lparr>en_fd = fd, en_name = fst (patty_strlcpy (cstr ''kiss0'') 10), en_iface = 1\<rparr>"
      "sv_routes (dm_server d3) = patty_dict_new"
    by (rule line_if [OF refl, of "?ctx\<lparr>cx_daemon := d2\<rparr>" mode fd "cstr ''/dev/ttyUSB0''" "cstr ''N7MMX''" a
          "[cstr ''baud'', cstr ''9600'']" 3 "cstr ''kiss0''"])
      (use fd mode call sample_words(5) settings_baud [OF sample_words(4) sample_baud]
        in \<open>simp_all add: d2_def d1_def d server_zero_def del: One_nat_def\<close>)
  obtain d4 where 4: "config_words [(cstr ''route'', 4), (cstr ''default'', 4), (cstr ''if'', 4), (cstr ''kiss0'', 4)]
        (?ctx\<lparr>cx_daemon := d3\<rparr>) = Some (0, ?ctx\<lparr>cx_daemon := d4\<rparr>)"
    and d4: "patty_ax25_server_if_get (dm_server d4) (cstr ''kiss0'') = Some (Some 1)"
      "patty_ax25_server_route_default (dm_server d4) = Some (h_next (dm_server d3))" "script (sv_world (dm_server d4)) = []"
    by (rule line_default_route [OF refl, of "?ctx\<lparr>cx_daemon := d3\<rparr>" 2 fd "cstr ''kiss0''" 1 4])
      (use d3 sample_words(6) in simp_all)
  have "run_lines config_words (take 4 (map (map no_column) (conf_lines sample_conf))) ?ctx
      = Some (0, \<lparr>cx_daemon = d4, cx_e = error_blank, cx_host = ho\<rparr>)"
    unfolding sample_lines using 1 2 3 4 by (simp del: One_nat_def)
  from that [OF this d4] show thesis .
qed

definition sample_route :: "(cstring \<times> nat) list" where
  "sample_route = [(cstr ''route'', 5), (cstr ''station'', 5), (cstr ''GB9BLM'', 5), (cstr ''if'', 5),
     (cstr ''kiss0'', 5), (cstr ''path'', 5), (cstr ''KX4EHF'', 5), (cstr ''WX9KIP'', 5)]"

lemma sample_last_line:
  assumes get: "patty_ax25_server_if_get (dm_server d) (cstr ''kiss0'') = Some (Some p)"
    and default: "patty_ax25_server_route_default (dm_server d) = Some q" and script: "script (sv_world (dm_server d)) = []"
  obtains ctx where "config_words sample_route \<lparr>cx_daemon = d, cx_e = error_blank, cx_host = ho\<rparr> = Some (-1, ctx)"
    and "patty_daemon_route_add (cstr ''kiss0'') (Some (cstr ''GB9BLM'')) [cstr ''KX4EHF'', cstr ''WX9KIP''] d
      = Some (-1, cx_daemon ctx)"
    and "sv_routes (dm_server (cx_daemon ctx)) = sv_routes (dm_server d)"
    and "err (sv_world (dm_server (cx_daemon ctx))) = Some EEXIST" and "script (sv_world (dm_server (cx_daemon ctx))) = []"
proof -
  obtain d5 where add: "patty_daemon_route_add (cstr ''kiss0'') (Some (cstr ''GB9BLM'')) [cstr ''KX4EHF'', cstr ''WX9KIP''] d = Some (-1, d5)"
    and d5: "sv_routes (dm_server d5) = sv_routes (dm_server d)" "err (sv_world (dm_server d5)) = Some EEXIST"
      "script (sv_world (dm_server d5)) = []"
    by (rule route_add_behind_default [OF get script default sample_words(2,3)])
  with script sample_words(7)
  have "\<exists>ctx. config_words sample_route \<lparr>cx_daemon = d, cx_e = error_blank, cx_host = ho\<rparr> = Some (-1, ctx) \<and> cx_daemon ctx = d5"
    by (simp add: config_words_def config_handlers_def config_route_def config_route_add_def on_world_def sys_call_def
        arg_def conf_fail_def sample_route_def)
  then show thesis using that add d5 by blast
qed

section \<open>Properties\<close>

text \<open>
  C2: A configuration brings up a station. The file names a socket, one KISS interface with its
  callsign and device, and makes it the default route, its words written plainly or in quotes.
  After reading it the daemon has the socket's path; the interface is found under its name, is up,
  uses its device, has its address, and is watched; and a route to any station goes to it.
\<close>
theorem config_boots_station:
  assumes new: "patty_daemon_new ev w = (Some d, w1)"
    and script: "script w1 = [ROk, ROk, ROk, ROk, ROk, ROk, ROk, RVal mode, RVal fd]"
    and read: "file_read heap blk wc = Some (Some (boot_file path name call dev opts), wc')" and "script wc' = []"
    and words: "quotable path" "quotable name" "quotable call" "quotable dev" "list_all quotable opts"
    and fd: "0 \<le> fd" "fd < FD_SETSIZE" and mode: "0 \<le> mode" "(word_of_int mode AND S_IFMT) \<noteq> S_IFSOCK"
    and dev: "dev \<noteq> dev_ptmx" and call: "patty_ax25_pton call addr_zero = (Inr (), a)" and name: "length name < 10" and opts: "settings opts"
  shows "\<exists>d' p q. main_configure ho heap blk wc argv0 op d = Some (0, d') \<and> dm_sock_path d' = Some path
    \<and> patty_ax25_server_if_get (dm_server d') name = Some (Some p)
    \<and> h_ifaces (dm_server d') p = Some (line_iface ho ev a fd) \<and> sv_fds_watch (dm_server d') fd
    \<and> patty_ax25_server_route_default (dm_server d') = Some q
    \<and> h_routes (dm_server d') q = Some (route_zero\<lparr>rt_iface := p\<rparr>)"
  by (rule config_boots [OF assms])

lemma config_boots_station_witness:
  "\<exists>d' p q. main_configure boot_host (\<lambda>_. 0) 4096 boot_read [] \<lparr>op_fg = True, op_standalone = False, op_config = []\<rparr>
       (new_daemon boot_env boot_script) = Some (0, d') \<and> dm_sock_path d' = Some (cstr ''/s'')
    \<and> patty_ax25_server_if_get (dm_server d') (cstr ''k0'') = Some (Some p)
    \<and> h_ifaces (dm_server d') p = Some (line_iface boot_host boot_env boot_addr 3) \<and> sv_fds_watch (dm_server d') 3
    \<and> patty_ax25_server_route_default (dm_server d') = Some q
    \<and> h_routes (dm_server d') q = Some (route_zero\<lparr>rt_iface := p\<rparr>)"
  by (rule config_boots_station [OF new_daemon_new _ boot_read_file _ boot_words(1-4) _ _ _ _ boot_mode boot_words(5,7,6) settings_none])
    (simp_all add: world0_def boot_script_def FD_SETSIZE_def)

text \<open>
  C16: Every interface that a configuration makes is well formed, whatever the file holds and
  whether or not reading it fails: the interface is driven by one of the two drivers, its device
  keeps their contract and its buffer has the nominal size; so receiving from it returns, stays
  inside of the buffers, and delivers at most what was asked for.
\<close>
theorem config_ifaces_typed:
  assumes "patty_daemon_new ev w = (Some d, w1)" and "host_ok ho ev"
    and "main_configure ho heap blk wc argv0 op d = Some (r, d')"
    and "h_ifaces (dm_server d') p = Some iface"
  shows "net_iface_ok (ho_frame ho) iface
    \<and> (PATTY_AX25_IF_DEFAULT_MRU \<le> length buf \<longrightarrow>
        (\<exists>n iface' buf' wi'. patty_ax25_if_recv iface buf PATTY_AX25_IF_DEFAULT_MRU wi = Some (n, iface', buf', wi')
           \<and> n \<le> int PATTY_AX25_IF_DEFAULT_MRU \<and> length buf' = length buf \<and> (0 \<le> n \<longrightarrow> net_iface_ok (ho_frame ho) iface')))"
proof -
  let ?ctx = "\<lparr>cx_daemon = d, cx_e = error_blank, cx_host = ho\<rparr>"
  obtain ctx' x where read: "patty_conf_read heap blk handle_config_line ?ctx wc = Some (r, ctx', x)"
    and d': "h_ifaces (dm_server d') = h_ifaces (dm_server (cx_daemon ctx'))"
    using assms(3) by (auto simp: main_configure_def complain_def on_world_def Let_def split: prod.splits elim!: bind_SomeE)
  have start: "ctx_ok ?ctx \<and> cx_host ?ctx = ho"
    using daemon_new_server [OF assms(1)] assms(2) by (simp add: ctx_ok_def ifaces_ok_def server_zero_def)
  have "ctx_ok ctx' \<and> cx_host ctx' = ho"
    by (rule conf_read_keeps [where I = "\<lambda>c. ctx_ok c \<and> cx_host c = ho", OF _ read start])
      (blast dest: handle_config_line_ok handle_config_line_host)
  with assms(4) have ok: "net_iface_ok (ho_frame ho) iface" by (auto simp: ctx_ok_def ifaces_ok_def d')
  with net_driver.if_recv_returns [of "ho_frame ho" PATTY_AX25_IF_DEFAULT_MRU iface buf wi]
  show ?thesis by (simp add: net_iface_ok_iff)
qed

lemma config_ifaces_typed_witness:
  "net_iface_ok frame_zero (line_iface boot_host boot_env boot_addr 3)
    \<and> (\<exists>n iface' buf' wi'. patty_ax25_if_recv (line_iface boot_host boot_env boot_addr 3) (replicate PATTY_AX25_IF_DEFAULT_MRU 0)
          PATTY_AX25_IF_DEFAULT_MRU (world0 [RBytes [0xc0, 0, 1, 0xc0]]) = Some (n, iface', buf', wi')
          \<and> n \<le> int PATTY_AX25_IF_DEFAULT_MRU)"
proof -
  obtain d' p where m: "main_configure boot_host (\<lambda>_. 0) 4096 boot_read [] \<lparr>op_fg = True, op_standalone = False, op_config = []\<rparr>
       (new_daemon boot_env boot_script) = Some (0, d')"
    and p: "h_ifaces (dm_server d') p = Some (line_iface boot_host boot_env boot_addr 3)"
    using config_boots [where ho = boot_host and ev = boot_env and fd = 3 and heap = "\<lambda>_. 0" and ?argv0.0 = "[]"
        and op = "\<lparr>op_fg = True, op_standalone = False, op_config = []\<rparr>",
        OF new_daemon_new _ boot_read_file _ boot_words(1-4) _ _ _ _ boot_mode boot_words(5,7,6) settings_none]
    by (auto simp: world0_def boot_script_def FD_SETSIZE_def)
  have "host_ok boot_host boot_env" by (simp add: host_ok_def boot_host_def boot_env_def)
  from config_ifaces_typed [OF new_daemon_new this m p, of "replicate PATTY_AX25_IF_DEFAULT_MRU 0" "world0 [RBytes [0xc0, 0, 1, 0xc0]]"]
  show ?thesis by (auto simp: boot_host_def)
qed

lemma complain_quiet:
  assumes "dm_server d = server_zero ev w" and "script w = []"
  shows "dm_server (complain m d) = server_zero ev (w\<lparr>out := out w @ [(2, m @ [0x0a])]\<rparr>)"
  using assms by (simp add: complain_def on_world_def server_zero_def sys_write_def sys_call_def)

lemma daemon_destroy_new:
  assumes "dm_server d = server_zero ev w" and "script w = []"
  shows "\<exists>w'. patty_daemon_destroy d = Some w' \<and> out w' = out w"
  using assms
  by (simp add: patty_daemon_destroy_def patty_ax25_server_destroy_def destroy_ifaces_def server_zero_def
      patty_list_values_def patty_list_new_def each_item.simps sys_call_def split: prod.splits)

text \<open>
  C34: Without a further argument pattyd never serves, whatever its options: on a system without
  failures it only prints the usage message and exits with 64, so that a configuration file is read only when some unrelated
  argument follows the options. When the options themselves are in order, it complains of too many
  arguments first.
\<close>
theorem pattyd_usage_only:
  assumes "patty_daemon_new ev w = (Some (d :: net daemon), w1)" and "script w1 = []"
  shows "\<exists>w2. pattyd_main ho ev junk e heap blk wc argv0 opts [] ts w = Some (Exited EX_USAGE w2)
    \<and> out w2 = out w1
        @ (if main_options opts \<lparr>op_fg = False, op_standalone = False, op_config = DEFAULT_CONFIG_FILE\<rparr> = None then []
           else [(2, cstr ''Too many arguments provided'' @ [0x0a])])
        @ [(2, cstr ''usage: '' @ argv0 @ cstr '' [-f] [-c pattyd.conf]'' @ [0x0a]
               @ cstr ''       '' @ argv0 @ cstr '' [-f] -s patty.sock MYCALL /dev/ttyXYZ [tioarg ...]'' @ [0x0a])]"
proof -
  let ?u = "cstr ''usage: '' @ argv0 @ cstr '' [-f] [-c pattyd.conf]'' @ [0x0a]
               @ cstr ''       '' @ argv0 @ cstr '' [-f] -s patty.sock MYCALL /dev/ttyXYZ [tioarg ...]''"
  have d: "dm_server d = server_zero ev w1" by (rule daemon_new_server [OF assms(1)])
  have exits: "\<exists>w2. main_exit EX_USAGE (complain ?u d') = Some (Exited EX_USAGE w2) \<and> out w2 = out w' @ [(2, ?u @ [0x0a])]"
    if "dm_server d' = server_zero ev w'" "script w' = []" for d' :: "net daemon" and w'
    using daemon_destroy_new [OF complain_quiet [OF that, of ?u]] that(2) by (auto simp: main_exit_def)
  have more: "\<exists>w2. main_exit EX_USAGE (complain ?u (complain t d)) = Some (Exited EX_USAGE w2)
      \<and> out w2 = out w1 @ [(2, t @ [0x0a])] @ [(2, ?u @ [0x0a])]" for t
    using exits [OF complain_quiet [OF d assms(2), of t]] assms(2) by simp
  show ?thesis
    using assms(1) exits [OF d assms(2)] more [of "cstr ''Too many arguments provided''"]
    by (auto simp: pattyd_main_def usage_def split: option.splits)
qed

lemma pattyd_usage_only_witness:
  "\<exists>w2. pattyd_main boot_host boot_env addr_zero error_blank (\<lambda>_. 0) 4096 boot_read (cstr ''pattyd'')
     [OptChar 0x66 [], OptChar 0x63 (cstr ''/c'')] [] [] (world0 (replicate 12 ROk @ [])) = Some (Exited EX_USAGE w2)
   \<and> out w2 = [(2, cstr ''Too many arguments provided'' @ [0x0a]),
       (2, cstr ''usage: pattyd [-f] [-c pattyd.conf]'' @ [0x0a]
           @ cstr ''       pattyd [-f] -s patty.sock MYCALL /dev/ttyXYZ [tioarg ...]'' @ [0x0a])]"
proof -
  have "main_options [OptChar 0x66 [], OptChar 0x63 (cstr ''/c'')]
      \<lparr>op_fg = False, op_standalone = False, op_config = DEFAULT_CONFIG_FILE\<rparr> \<noteq> None"
    by code_simp
  with pattyd_usage_only [OF new_daemon_new [of boot_env "[]"], of boot_host addr_zero error_blank "\<lambda>_. 0" 4096 boot_read
      "cstr ''pattyd''" "[OptChar 0x66 [], OptChar 0x63 (cstr ''/c'')]" "[]"]
  show ?thesis by (simp add: world0_def cstr_def)
qed

lemma path_pton_fits:
  "path_pton hs i rs = Some (Inr (), rs') \<Longrightarrow> i \<le> length rs \<Longrightarrow> i + length hs \<le> length rs"
proof (induction hs i rs rule: path_pton.induct)
  case (2 h hs i rs)
  obtain r a where p: "patty_ax25_pton h (rs ! i) = (r, a)" by fastforce
  with "2.prems" have r: "r = Inr ()" "\<not> length rs \<le> i" by (auto split: if_splits sum.splits)
  with "2.IH" [OF r(2) p [symmetric] r(1)] "2.prems" p show ?case by simp
qed simp

lemma daemon_route_stored:
  assumes "patty_daemon_route_add ifname (Some dest) hops d = Some (r, d')" and "\<not> r < 0"
  shows "length hops \<le> 8 \<and> (\<exists>rt p. patty_ax25_server_if_get (dm_server d) ifname = Some (Some p)
    \<and> h_routes (dm_server d') (h_next (dm_server d)) = Some rt \<and> rt_iface rt = p \<and> rt_hops rt = 0
    \<and> patty_ax25_pton dest addr_zero = (Inr (), rt_dest rt))"
proof -
  obtain m t where c: "on_world sys_call (dm_server d) = (m, t)" by fastforce
  then have next_t: "h_next t = h_next (dm_server d)" by (auto simp: on_world_def split: prod.splits)
  obtain x a where a: "patty_ax25_pton dest addr_zero = (x, a)" by fastforce
  obtain p where p: "patty_ax25_server_if_get (dm_server d) ifname = Some (Some p)"
    using assms by (auto simp: patty_daemon_route_add_def split: option.splits elim!: bind_SomeE)
  with assms c a have x: "x = Inr ()"
    by (auto simp: patty_daemon_route_add_def Let_def route_zero_def split: sum.splits if_splits)
  obtain y rs where y: "path_pton hops 0 (rt_repeaters route_zero) = Some (y, rs)"
    using assms c a p x by (auto simp: patty_daemon_route_add_def Let_def route_zero_def split: if_splits elim!: bind_SomeE)
  with assms c a p x have y0: "y = Inr ()"
    by (auto simp: patty_daemon_route_add_def Let_def route_zero_def split: sum.splits if_splits)
  let ?rt = "route_zero\<lparr>rt_iface := p, rt_dest := a, rt_repeaters := rs\<rparr>"
  obtain u where u: "patty_ax25_server_route_add (h_next t) (t\<lparr>h_routes := (h_routes t)(h_next t \<mapsto> ?rt), h_next := h_next t + 1\<rparr>) = Some (r, u)"
    and d': "d' = d\<lparr>dm_server := u\<rparr>"
    using assms c a p x y y0
    by (auto simp: patty_daemon_route_add_def Let_def route_zero_def split: if_splits elim!: bind_SomeE)
  have "h_routes u (h_next t) = Some ?rt"
    using u by (auto simp: patty_ax25_server_route_add_def on_world_def set_errno_def split: prod.splits sum.splits)
  moreover have "length hops \<le> 8"
    using path_pton_fits [OF y [unfolded y0]] by (simp add: route_zero_def PATTY_AX25_MAX_HOPS_def)
  ultimately show ?thesis
    using p a x next_t d' by (intro conjI exI [of _ ?rt] exI [of _ p]) (simp_all add: route_zero_def)
qed

text \<open>
  C35: Routes to stations. A line that is accepted has at least five words and at most eight
  repeaters; the new route has the station's address and the interface of that name, but its number
  of repeaters is always 0, so that the path behind the keyword \<open>path\<close> is lost.
\<close>
theorem station_route_loses_path:
  assumes "argv ! 1 = cstr ''station''" and "config_route n argv ctx = Some (0, ctx')"
  shows "5 \<le> length argv \<and> length argv \<le> 14
    \<and> (\<exists>rt p. patty_ax25_server_if_get (dm_server (cx_daemon ctx)) (argv ! 4) = Some (Some p)
        \<and> h_routes (dm_server (cx_daemon ctx')) (h_next (dm_server (cx_daemon ctx))) = Some rt
        \<and> rt_iface rt = p \<and> patty_ax25_pton (argv ! 2) addr_zero = (Inr (), rt_dest rt) \<and> rt_hops rt = 0)"
proof -
  have neq: "cstr ''station'' \<noteq> cstr ''default''" by simp
  obtain hops where hops: "station_path argv = Some (Inr hops)" and len: "5 \<le> length argv"
    and add: "config_route_add n (cstr ''route'') (argv ! 4) (Some (argv ! 2)) hops ctx = Some (0, ctx')"
    using assms neq
    by (auto simp: config_route_def conf_fail_def arg_def split: if_splits sum.splits elim!: bind_SomeE)
  obtain r d where d: "patty_daemon_route_add (argv ! 4) (Some (argv ! 2)) hops (cx_daemon ctx) = Some (r, d)"
    and r: "\<not> r < 0" and ctx': "cx_daemon ctx' = d"
    using add by (auto simp: config_route_add_def conf_fail_def Let_def split: if_splits elim!: bind_SomeE)
  have "length argv \<le> 6 \<or> hops = drop 6 argv" using hops len by (auto simp: station_path_def split: if_splits)
  with daemon_route_stored [OF d r] len ctx' show ?thesis by auto
qed

lemma station_route_loses_path_witness:
  "\<exists>ctx ctx' rt. config_route 4 [cstr ''route'', cstr ''station'', cstr ''N0CALL'', cstr ''if'', cstr ''k0'', cstr ''path'', cstr ''K1ABC'']
       ctx = Some (0, ctx')
    \<and> h_routes (dm_server (cx_daemon ctx')) (h_next (dm_server (cx_daemon ctx))) = Some rt
    \<and> rt_dest rt = boot_addr \<and> rt_hops rt = 0"
proof -
  let ?argv = "[cstr ''route'', cstr ''station'', cstr ''N0CALL'', cstr ''if'', cstr ''k0'', cstr ''path'', cstr ''K1ABC'']"
  define c where "c = \<lparr>cx_daemon = new_daemon boot_env (drop 2 boot_script),
    cx_e = error_blank, cx_host = boot_host\<rparr>"
  obtain d :: "net daemon" where d: "script (sv_world (dm_server d)) = []"
      "patty_list_values (sv_ifaces (dm_server d)) = Some [h_next (dm_server (cx_daemon c)) + 1]"
      "h_entries (dm_server d) (h_next (dm_server (cx_daemon c)) + 1) = Some \<lparr>en_fd = 3, en_name = fst (patty_strlcpy (cstr ''k0'') 10),
         en_iface = h_next (dm_server (cx_daemon c))\<rparr>"
      "sv_routes (dm_server d) = sv_routes (dm_server (cx_daemon c))"
  proof (rule line_if [OF refl, where ctx = c and mode = "0x2000" and fd = 3 and dev = "cstr ''/d''" and call = "cstr ''N0CALL''"
        and a = boot_addr and opts = "[]" and n = 2 and name = "cstr ''k0''"])
    show "script (sv_world (dm_server (cx_daemon c))) = [ROk, ROk, ROk, ROk, ROk, RVal 0x2000, RVal 3]"
      and "sv_ifaces (dm_server (cx_daemon c)) = patty_list_new"
      by (simp_all add: c_def new_daemon_def server_zero_def world0_def boot_script_def)
  qed (use boot_words boot_mode that settings_none in \<open>simp_all add: FD_SETSIZE_def\<close>)
  have c: "h_next (dm_server (cx_daemon c)) = 1" "sv_routes (dm_server (cx_daemon c)) = patty_dict_new"
    by (simp_all add: c_def new_daemon_def server_zero_def)
  have "fst (patty_strlcpy (cstr ''k0'') 10) = cstr ''k0''" by code_simp
  with d c have get: "patty_ax25_server_if_get (dm_server d) (cstr ''k0'') = Some (Some 1)"
    by (simp add: patty_ax25_server_if_get_def strncmp_eq_def)
  let ?ctx = "\<lparr>cx_daemon = d, cx_e = error_blank, cx_host = boot_host\<rparr>"
  have path: "path_pton [cstr ''K1ABC''] 0 (replicate 8 addr_zero) = Some (Inr (), (replicate 8 addr_zero)[0 := snd (patty_ax25_pton (cstr ''K1ABC'') addr_zero)])"
    by code_simp
  have argv: "station_path ?argv = Some (Inr [cstr ''K1ABC''])" by code_simp
  obtain ctx' where c': "config_route 4 ?argv ?ctx = Some (0, ctx')"
    using argv get d c path boot_words(7)
    by (auto simp: config_route_def arg_def config_route_add_def patty_daemon_route_add_def on_world_def sys_call_def
        route_zero_def PATTY_AX25_MAX_HOPS_def patty_ax25_server_route_add_def patty_ax25_route_table_add_def
        patty_ax25_route_table_find_def patty_ax25_route_table_default_def dict_set_new_eq Let_def)
  from station_route_loses_path [OF _ c'] boot_words(7) obtain rt where
    "h_routes (dm_server (cx_daemon ctx')) (h_next (dm_server d)) = Some rt" "rt_dest rt = boot_addr" "rt_hops rt = 0"
    by auto
  with c' show ?thesis by (intro exI [of _ ?ctx] exI [of _ ctx'] exI [of _ rt]) simp
qed

text \<open>
  C36: When the default route of the stand-alone mode cannot be stored, the interface is destroyed
  although the server lists it; destroying the daemon, which follows at once, uses it again.
\<close>
theorem standalone_failure_dangles:
  assumes "patty_daemon_new ev w = (Some d, w1)" and "script w1 = [RVal 0, ROk, ROk, RErr ENOMEM]"
    and "if_drv iface = net_driver junk" and "fd_ok (d_fd (net_driver junk) (if_phy iface))"
  shows "\<exists>d'. standalone_if ho addr argv0 argv iface d = Some (-1, d') \<and> patty_daemon_destroy d' = None"
proof -
  have d: "dm_server d = server_zero ev w1" by (rule daemon_new_server [OF assms(1)])
  obtain r i where i: "patty_ax25_if_addr_set iface addr = (r, i)" by fastforce
  then have r: "\<not> r < 0" and phy: "if_phy i = if_phy iface" "if_drv i = if_drv iface"
    by (auto simp: patty_ax25_if_addr_set_def Let_def)
  define fd where "fd = patty_ax25_if_fd i"
  have fd: "fd_ok fd" "0 \<le> fd" "patty_ax25_if_fd (patty_ax25_if_up i) = fd"
    using assms(3,4) phy by (simp_all add: fd_def patty_ax25_if_fd_def patty_ax25_if_up_def fd_ok_def)
  show ?thesis
    using d i r fd assms(2)
    by (simp add: standalone_if_def fd_def [symmetric] announce_pty_def sys_query_def sys_fd_def daemon_own_def Let_def
        patty_daemon_if_add_def patty_ax25_server_if_add_def on_world_def sys_call_def server_zero_def
        patty_list_append_def patty_list_new_def fd_watch_def IF_ENTRY_NAME_SIZE_def
        patty_daemon_route_add_default_def patty_daemon_route_add_def patty_ax25_server_if_get_def patty_list_values_def
        each_item.simps strncmp_eq_def daemon_if_destroy_def complain_def sys_write_def
        patty_daemon_destroy_def patty_ax25_server_destroy_def destroy_ifaces_def)
qed

lemma standalone_failure_dangles_witness:
  "\<exists>d'. standalone_if boot_host boot_addr (cstr ''pattyd'') [] (line_iface boot_host boot_env boot_addr 3)
       (new_daemon boot_env [RVal 0, ROk, ROk, RErr ENOMEM]) = Some (-1, d') \<and> patty_daemon_destroy d' = None"
proof (rule standalone_failure_dangles [OF new_daemon_new])
  show "if_drv (line_iface boot_host boot_env boot_addr 3) = net_driver (ho_frame boot_host)"
    by (simp add: line_iface_def)
  show "fd_ok (d_fd (net_driver (ho_frame boot_host)) (if_phy (line_iface boot_host boot_env boot_addr 3)))"
    by (simp add: line_iface_def net_driver_def patty_kiss_tnc_driver_def patty_kiss_tnc_fd_def fd_ok_def FD_SETSIZE_def Let_def)
qed (simp add: world0_def)

text \<open>
  C18: The sample configuration of the repository is refused. Its first four lines do what they say,
  up to the default route; but a lookup falls back to that route, so that adding the station's
  route of the fifth and last line finds a route already there and fails with EEXIST. No route is
  added, the default route stands, and reading the configuration fails with that error.
\<close>
theorem sample_conf_refused:
  assumes new: "patty_daemon_new ev w = (Some d, w1)"
    and script: "script w1 = [ROk, ROk, ROk, ROk, ROk, ROk, ROk, ROk, ROk, RVal mode, RVal fd]"
    and read: "file_read heap blk wc = Some (Some sample_conf, wc')" "script wc' = []"
    and fd: "0 \<le> fd" "fd < FD_SETSIZE" and mode: "0 \<le> mode" "(word_of_int mode AND S_IFMT) \<noteq> S_IFSOCK"
  shows "\<exists>d4 d' q ctx. run_lines config_words (take 4 (map (map no_column) (conf_lines sample_conf)))
          \<lparr>cx_daemon = d, cx_e = error_blank, cx_host = ho\<rparr> = Some (0, \<lparr>cx_daemon = d4, cx_e = error_blank, cx_host = ho\<rparr>)
    \<and> patty_ax25_server_route_default (dm_server d4) = Some q
    \<and> drop 4 (map (map no_column) (conf_lines sample_conf))
        = [[(cstr ''route'', 5), (cstr ''station'', 5), (cstr ''GB9BLM'', 5), (cstr ''if'', 5),
            (cstr ''kiss0'', 5), (cstr ''path'', 5), (cstr ''KX4EHF'', 5), (cstr ''WX9KIP'', 5)]]
    \<and> config_words (map (map no_column) (conf_lines sample_conf) ! 4)
        \<lparr>cx_daemon = d4, cx_e = error_blank, cx_host = ho\<rparr> = Some (-1, ctx)
    \<and> patty_daemon_route_add (cstr ''kiss0'') (Some (cstr ''GB9BLM'')) [cstr ''KX4EHF'', cstr ''WX9KIP''] d4
        = Some (-1, cx_daemon ctx)
    \<and> err (sv_world (dm_server (cx_daemon ctx))) = Some EEXIST
    \<and> main_configure ho heap blk wc argv0 op d = Some (-1, d')
    \<and> err (sv_world (dm_server d')) = Some EEXIST
    \<and> sv_routes (dm_server d') = sv_routes (dm_server d4)
    \<and> patty_ax25_server_route_default (dm_server d') = Some q"
proof -
  let ?ctx = "\<lparr>cx_daemon = d, cx_e = error_blank, cx_host = ho\<rparr>" and ?ls = "map (map no_column) (conf_lines sample_conf)"
  from sample_first_lines [OF new script fd mode] obtain d4 q where
    first: "run_lines config_words (take 4 ?ls) ?ctx = Some (0, ?ctx\<lparr>cx_daemon := d4\<rparr>)"
    and d4: "patty_ax25_server_if_get (dm_server d4) (cstr ''kiss0'') = Some (Some 1)"
      "patty_ax25_server_route_default (dm_server d4) = Some q" "script (sv_world (dm_server d4)) = []" by auto
  from sample_last_line [OF d4] obtain ctx where
    final: "config_words sample_route (?ctx\<lparr>cx_daemon := d4\<rparr>) = Some (-1, ctx)"
    and add: "patty_daemon_route_add (cstr ''kiss0'') (Some (cstr ''GB9BLM'')) [cstr ''KX4EHF'', cstr ''WX9KIP''] d4
      = Some (-1, cx_daemon ctx)"
    and ctx: "sv_routes (dm_server (cx_daemon ctx)) = sv_routes (dm_server d4)"
      "err (sv_world (dm_server (cx_daemon ctx))) = Some EEXIST" "script (sv_world (dm_server (cx_daemon ctx))) = []"
    by auto
  have fifth: "drop 4 ?ls = [sample_route]" "?ls ! 4 = sample_route"
    by (simp_all add: sample_lines sample_route_def del: One_nat_def)
  have split: "take 4 ?ls @ [sample_route] = ?ls" using append_take_drop_id [of 4 ?ls] by (simp only: fifth(1))
  have "run_lines config_words (take 4 ?ls @ [sample_route]) ?ctx = Some (-1, ctx)"
    using first final by (simp add: run_lines_append del: take_map)
  then have "run_lines config_words ?ls ?ctx = Some (-1, ctx)" by (simp only: split)
  moreover have "patty_conf_read heap blk handle_config_line ?ctx wc
      = map_option (\<lambda>(r, ctx). (r, ctx, wc')) (run_lines config_words ?ls ?ctx)"
    unfolding handle_config_line_def run_lines_map [symmetric]
    by (rule conf_read_run [OF read]) (simp_all add: sample_text del: One_nat_def)
  ultimately obtain m where conf: "main_configure ho heap blk wc argv0 op d = Some (-1, complain m (cx_daemon ctx))"
    by (auto simp: main_configure_def Let_def)
  have quiet: "err (sv_world (dm_server (complain m (cx_daemon ctx)))) = Some EEXIST"
    "sv_routes (dm_server (complain m (cx_daemon ctx))) = sv_routes (dm_server d4)"
    using ctx by (simp_all add: complain_def on_world_def sys_write_def sys_call_def)
  moreover have "patty_ax25_server_route_default (dm_server (complain m (cx_daemon ctx))) = Some q"
    using d4(2) quiet(2) by (simp add: patty_ax25_server_route_default_def complain_def on_world_def split: prod.split)
  ultimately show ?thesis
    using first d4(2) fifth final add ctx conf
    by (intro exI [of _ d4] exI [of _ "complain m (cx_daemon ctx)"] exI [of _ q] exI [of _ ctx])
      (simp add: sample_route_def del: take_map drop_map)
qed

lemma sample_conf_refused_witness:
  "\<exists>d' q. main_configure boot_host (\<lambda>_. 0) 4096 (world0 [RVal 3, RVal (int (length sample_conf)), ROk, RBytes sample_conf]) []
       \<lparr>op_fg = True, op_standalone = False, op_config = []\<rparr>
       (new_daemon boot_env [ROk, ROk, ROk, ROk, ROk, ROk, ROk, ROk, ROk, RVal 0x2000, RVal 3]) = Some (-1, d')
    \<and> err (sv_world (dm_server d')) = Some EEXIST
    \<and> patty_ax25_server_route_default (dm_server d') = Some q"
proof -
  have script: "script (world0 rs) = rs" "script ((world0 [])\<lparr>closed := [3]\<rparr>) = []" for rs by (simp_all add: world0_def)
  have fd: "0 \<le> (3 :: int)" "3 < FD_SETSIZE" and mode: "0 \<le> (0x2000 :: int)" by (simp_all add: FD_SETSIZE_def)
  from sample_conf_refused [OF new_daemon_new script(1) file_read_whole [OF sample_text(3) fd(1)] script(2) fd mode boot_mode,
      where ho = boot_host and op = "\<lparr>op_fg = True, op_standalone = False, op_config = []\<rparr>" and ?argv0.0 = "[]", of boot_env]
  show ?thesis by blast
qed

end
