(* ===== verification/Patty_Tools.thy ===== *)
theory Patty_Tools
  imports Patty_Print Patty_Daemon
begin

text \<open>
  The two tools that watch an interface: \<open>src/bin/ax25dump.c\<close>, which prints every frame it hears, and
  \<open>src/bin/tncd.c\<close>, which lends a promiscuous terminal to other programs.

  Both start from the options as \<open>getopt_long\<close> delivers them and from the arguments; \<open>argv\<close> is all
  of them, the program's name excluded, and \<open>rest\<close> those behind the options. \<open>strerror\<close> and what
  uninitialised memory holds are parameters. Messages on the error stream are written like all
  others. The lemmas show that a frame is dumped whole even when it cannot be decoded, and how tncd
  ends.
\<close>

section \<open>Shared\<close>

text \<open>The options of both tools: the socket's path and the name of the interface.\<close>

record tool_options =
  to_sock :: "cstring option"
  to_ifname :: "cstring option"

fun tool_opts :: "option_read list \<Rightarrow> tool_options \<Rightarrow> tool_options option" where
  "tool_opts [] op = Some op"
| "tool_opts (OptChar c optarg # os) op =
     (if c = 0x73 then tool_opts os (op\<lparr>to_sock := Some optarg\<rparr>)
      else if c = 0x69 then tool_opts os (op\<lparr>to_ifname := Some optarg\<rparr>)
      else None)"
| "tool_opts (_ # os) op = None"

text \<open>What the host provides: the texts of the library and the contents of fresh memory.\<close>

record tool_host =
  th_strerror :: "int \<Rightarrow> cstring"
  th_errno :: int
  th_line :: termios
  th_tnc :: tnc
  th_garbage :: "byte list"
  th_buf :: "byte list"
  th_frame :: frame
  th_params :: params
  th_name :: "byte list"

definition say :: "cstring \<Rightarrow> world \<Rightarrow> world" where
  "say message w = snd (fprintf 2 (message @ [0x0a]) w)"

text \<open>\<open>struct patty_client_setsockopt_if\<close>: the name is copied over what the memory held.\<close>

definition put_if_request :: "byte list \<Rightarrow> cstring \<Rightarrow> byte list" where
  "put_if_request junk name =
     (let n = fst (patty_strlcpy name (of_nat PATTY_AX25_IF_NAME_SIZE)) @ [0] in
      n @ drop (length n) junk @ put_int promisc_num)"

text \<open>\<open>PATTY_AX25_SOCK_RAW\<close> in a message.\<close>

definition raw_num :: int where "raw_num = 2"

section \<open>ax25dump\<close>

definition AX25DUMP_BUFSZ :: nat where "AX25DUMP_BUFSZ = 4096"

text \<open>
  The body of the loop for a frame of \<open>n\<close> bytes in \<open>buf\<close>. The first half prints what can be decoded;
  \<open>False\<close> is a jump to \<open>error_io\<close>. The second half dumps the frame in any case.
\<close>

definition print_xid :: "tool_host \<Rightarrow> byte list \<Rightarrow> nat \<Rightarrow> nat \<Rightarrow> world \<Rightarrow> (bool \<times> world) option" where
  "print_xid th buf offset n w =
     do { (r, params) \<leftarrow> patty_ax25_frame_decode_xid (th_params th) buf offset n;
          case r of
            Inl e \<Rightarrow> Some (True, snd (fprintf 1 (cstr ''Invalid XID parameters'' @ [0x0a]) (w\<lparr>err := Some e\<rparr>)))
          | Inr _ \<Rightarrow> (case patty_print_params 1 params w of (r, w) \<Rightarrow> Some (\<not> r < 0, w)) }"

definition print_decoded :: "tool_host \<Rightarrow> cstring \<Rightarrow> byte list \<Rightarrow> nat \<Rightarrow> world \<Rightarrow> (bool \<times> world) option" where
  "print_decoded th argv0 buf n w =
     do { (r, frame) \<leftarrow> patty_ax25_frame_decode_address (th_frame th) buf n;
          case r of
            Inl e \<Rightarrow> Some (True, snd (fprintf 1 (cstr ''Invalid frame address'' @ [0x0a]) (w\<lparr>err := Some e\<rparr>)))
          | Inr offset \<Rightarrow>
              do { (r, frame) \<leftarrow> patty_ax25_frame_decode_control frame PATTY_AX25_FRAME_NORMAL buf offset n;
                   case r of
                     Inl e \<Rightarrow> Some (True, snd (fprintf 1 (cstr ''Invalid frame control'' @ [0x0a]) (w\<lparr>err := Some e\<rparr>)))
                   | Inr decoded \<Rightarrow>
                       if decoded < 0 then Some (True, snd (fprintf 1 (cstr ''Invalid frame control'' @ [0x0a]) w))
                       else do { (r, w) \<leftarrow> patty_print_frame_header 1 frame w;
                                 if r < 0
                                 then Some (False, say (argv0 @ cstr '': patty_print_frame_header(): ''
                                                        @ th_strerror th (errno_num (err w))) w)
                                 else if f_type frame = PATTY_AX25_FRAME_XID
                                 then print_xid th buf (offset + nat decoded) n w
                                 else Some (True, w) } } }"

definition dump_frame :: "tool_host \<Rightarrow> cstring \<Rightarrow> byte list \<Rightarrow> nat \<Rightarrow> world \<Rightarrow> (bool \<times> world) option" where
  "dump_frame th argv0 buf n w =
     do { (ok, w) \<leftarrow> print_decoded th argv0 buf n w;
          if \<not> ok then Some (False, w)
          else do { (r, w) \<leftarrow> patty_print_hexdump 1 buf n w;
                    if r < 0 then Some (False, w)
                    else case sys_call w of (r, w) \<Rightarrow> Some (\<not> r < 0, w) } }"

partial_function (option) dump_loop ::
  "tool_host \<Rightarrow> cstring \<Rightarrow> tnc \<Rightarrow> byte list \<Rightarrow> world \<Rightarrow> (bool \<times> tnc \<times> world) option" where
  "dump_loop th argv0 raw buf w =
     do { (n, raw, buf, w) \<leftarrow> patty_kiss_tnc_recv raw buf AX25DUMP_BUFSZ w;
          if \<not> n > 0 then Some (True, raw, w)
          else do { (ok, w) \<leftarrow> dump_frame th argv0 buf (nat n) w;
                    if ok then dump_loop th argv0 raw buf w else Some (False, raw, w) } }"

text \<open>
  The ends of \<open>main\<close>: the client, if there is one, closes its socket and is destroyed. While a client
  exists, its field \<open>cl_world\<close> is brought up to date first.
\<close>

definition dump_end :: "int \<Rightarrow> client option \<Rightarrow> int \<Rightarrow> world \<Rightarrow> (int \<times> world) option" where
  "dump_end ret client fd w =
     (case client of
        None \<Rightarrow> Some (ret, w)
      | Some c \<Rightarrow>
          do { (r, c) \<leftarrow> patty_client_close fd (c\<lparr>cl_world := w\<rparr>);
               c \<leftarrow> patty_client_destroy c;
               Some (ret, cl_world c) })"

text \<open>\<open>usage\<close> prints and leaves the process.\<close>

definition dump_usage :: "cstring \<Rightarrow> cstring option \<Rightarrow> world \<Rightarrow> int \<times> world" where
  "dump_usage argv0 message w =
     (EX_USAGE,
      say (cstr ''usage: '' @ argv0 @ cstr '' [-s patty.sock] -i ifname'' @ [0x0a]
           @ cstr ''       '' @ argv0 @ cstr '' /dev/ttyXYZ [tioarg ...]'' @ [0x0a]
           @ cstr ''       '' @ argv0 @ cstr '' file.cap'')
        (case message of None \<Rightarrow> w | Some m \<Rightarrow> say m w))"

text \<open>From the device that \<open>info\<close> describes on.\<close>

definition dump_device :: "tool_host \<Rightarrow> cstring \<Rightarrow> tnc_info \<Rightarrow> client option \<Rightarrow> world \<Rightarrow> (int \<times> world) option" where
  "dump_device th argv0 info client w =
     (case patty_kiss_tnc_new (th_line th) (th_tnc th) (th_garbage th) info w of
        (None, w) \<Rightarrow>
          dump_end 1 client (ti_fd info)
            (say (argv0 @ cstr '': fd '' @ fmt_d (ti_fd info) @ cstr '': patty_kiss_tnc_new(): '' @ th_strerror th (errno_num (err w))) w)
      | (Some raw, w) \<Rightarrow>
          (case sys_call w of (m, w) \<Rightarrow>
           if m < 0 then dump_end 1 client (ti_fd info) (patty_kiss_tnc_destroy raw w)
           else do { (ok, raw, w) \<leftarrow> dump_loop th argv0 raw (th_buf th) w;
                     dump_end (if ok then 0 else 1) client (ti_fd info) (patty_kiss_tnc_destroy raw w) }))"

text \<open>The socket of a client is made promiscuous before its terminal is read as a device.\<close>

definition dump_client :: "tool_host \<Rightarrow> cstring \<Rightarrow> cstring option \<Rightarrow> cstring \<Rightarrow> world \<Rightarrow> (int \<times> world) option" where
  "dump_client th argv0 sock ifname w =
     (case patty_client_new (th_errno th) sock w of
        (None, w) \<Rightarrow>
          do { name \<leftarrow> sock;
               Some (1, say (argv0 @ cstr '': patty_client_new(): '' @ name @ cstr '': '' @ th_strerror th (errno_num (err w))) w) }
      | (Some c, w) \<Rightarrow>
          do { (fd, c) \<leftarrow> patty_client_socket (uint PATTY_AX25_PROTO_NONE) raw_num c;
               if fd < 0
               then dump_end 1 (Some c) fd
                      (say (argv0 @ cstr '': patty_client_socket(): '' @ th_strerror th (cl_errno c)) (cl_world c))
               else do { (r, c) \<leftarrow> patty_client_setsockopt fd PATTY_AX25_SOCK_IF (put_if_request (th_name th) ifname) 12 c;
                         if r < 0
                         then dump_end 1 (Some c) fd
                                (say (argv0 @ cstr '': patty_client_setsockopt(): '' @ ifname @ cstr '': '' @ th_strerror th (cl_errno c))
                                   (cl_world c))
                         else dump_device th argv0 (tnc_info_zero\<lparr>ti_flags := PATTY_KISS_TNC_FD, ti_fd := fd\<rparr>) (Some c) (cl_world c) } })"

text \<open>
  Without an interface the device is the first of all arguments, not the first behind the options.
  The message for a wrong device prints the path of the socket; printing NULL is undefined.
\<close>

definition ax25dump_main ::
  "tool_host \<Rightarrow> cstring \<Rightarrow> option_read list \<Rightarrow> cstring list \<Rightarrow> cstring list \<Rightarrow> patty_error \<Rightarrow> world \<Rightarrow> (int \<times> world) option" where
  "ax25dump_main th argv0 opts argv rest e w =
     (case tool_opts opts \<lparr>to_sock = None, to_ifname = None\<rparr> of
        None \<Rightarrow> Some (dump_usage argv0 None w)
      | Some op \<Rightarrow>
          (case to_ifname op of
             Some ifname \<Rightarrow>
               if rest \<noteq> [] then Some (dump_usage argv0 (Some (cstr ''Too many arguments provided'')) w)
               else dump_client th argv0 (to_sock op) ifname w
           | None \<Rightarrow>
               if argv = [] then Some (dump_usage argv0 (Some (cstr ''Not enough arguments provided'')) w)
               else do { (r, info, e) \<leftarrow> patty_bin_kiss_config argv e;
                         if r < 0
                         then do { name \<leftarrow> to_sock op;
                                   Some (1, say (argv0 @ cstr '': patty_bin_kiss_config(): '' @ name @ cstr '': '' @ patty_error_string e) w) }
                         else dump_device th argv0 info None w }))"

section \<open>tncd\<close>

text \<open>Closing the server's socket; the answer must be complete for its fields to be read.\<close>

definition pty_close :: "int \<Rightarrow> client \<Rightarrow> (int \<times> client) option" where
  "pty_close fd c =
     (case write_all [put_int (call_num PATTY_CLIENT_CLOSE), put_int fd] c of (ok, c) \<Rightarrow>
      if \<not> ok then Some (-1, c)
      else case patty_client_read 8 c of
        (Inl e, c) \<Rightarrow> Some (-1, c)
      | (Inr bs, c) \<Rightarrow>
          do { ret \<leftarrow> get_int bs 0;
               if ret < 0 then do { eno \<leftarrow> get_int bs 4; Some (ret, c\<lparr>cl_errno := eno\<rparr>) }
               else Some (ret, c) })"

text \<open>
  \<open>pty_promisc\<close>: a raw socket is made promiscuous on the interface. The result is the server's
  descriptor and the path of the terminal. A write that fails once the socket exists leaves it open
  when it is that of the call's number.
\<close>

definition pty_promisc :: "byte list \<Rightarrow> cstring \<Rightarrow> client \<Rightarrow> (int \<times> cstring \<times> client) option" where
  "pty_promisc junk ifname c =
     (let close_it = (\<lambda>fd c. do { (r, c) \<leftarrow> pty_close fd c; Some (-1, [], c) }) in
      case write_all [put_int (call_num PATTY_CLIENT_SOCKET),
                      put_socket_request \<lparr>rq_proto = uint PATTY_AX25_PROTO_NONE, rq_type = raw_num\<rparr>] c of (ok, c) \<Rightarrow>
      if \<not> ok then Some (-1, [], c)
      else case patty_client_read 264 c of
        (Inl e, c) \<Rightarrow> Some (-1, [], c)
      | (Inr bs, c) \<Rightarrow>
          do { fd \<leftarrow> get_int bs 0;
               if fd < 0 then do { eno \<leftarrow> get_int bs 4; Some (-1, [], c\<lparr>cl_errno := eno\<rparr>) }
               else case patty_client_write (put_int (call_num PATTY_CLIENT_SETSOCKOPT)) c of (r, c) \<Rightarrow>
               if r < 0 then Some (-1, [], c)
               else case write_all [put_setsockopt_request \<lparr>rq_fd = fd, rq_opt = PATTY_AX25_SOCK_IF, rq_len = 12\<rparr>,
                                    put_if_request junk ifname] c of (ok, c) \<Rightarrow>
               if \<not> ok then close_it fd c
               else case patty_client_read 8 c of
                 (Inl e, c) \<Rightarrow> close_it fd c
               | (Inr rs, c) \<Rightarrow>
                   do { ret \<leftarrow> get_int rs 0;
                        if ret < 0 then do { eno \<leftarrow> get_int rs 4; close_it fd (c\<lparr>cl_errno := eno\<rparr>) }
                        else do { path \<leftarrow> get_path bs 8; Some (fd, path, c) } } })"

text \<open>
  The loop of pings: as many turns as \<open>fuel\<close> says, \<open>None\<close> in the second place for a loop that still
  runs. \<open>sleep\<close> cannot fail.
\<close>

fun ping_loop :: "nat \<Rightarrow> client \<Rightarrow> (int option \<times> client) option" where
  "ping_loop 0 c = Some (None, c)"
| "ping_loop (Suc fuel) c =
     do { (pong, c) \<leftarrow> patty_client_ping c;
          if pong \<le> 0 then Some (Some pong, c) else ping_loop fuel c }"

definition tncd_usage :: "cstring \<Rightarrow> cstring option \<Rightarrow> world \<Rightarrow> int \<times> world" where
  "tncd_usage argv0 message w =
     (EX_USAGE, say (cstr ''usage: '' @ argv0 @ cstr '' [-s patty.sock] -i ifname'')
                  (case message of None \<Rightarrow> w | Some m \<Rightarrow> say m w))"

datatype tool_outcome = Watching client | Left int world

text \<open>
  When the server is gone the loop ends by \<open>break\<close>, the client is destroyed, and the code falls
  through to the error exits, which use it: that is undefined.
\<close>

definition tncd_main ::
  "tool_host \<Rightarrow> cstring \<Rightarrow> option_read list \<Rightarrow> cstring list \<Rightarrow> nat \<Rightarrow> world \<Rightarrow> tool_outcome option" where
  "tncd_main th argv0 opts rest fuel w =
     (let left = (\<lambda>(r, w). Some (Left r w)) in
      case tool_opts opts \<lparr>to_sock = None, to_ifname = None\<rparr> of
        None \<Rightarrow> left (tncd_usage argv0 None w)
      | Some op \<Rightarrow>
          (case to_ifname op of
             None \<Rightarrow> left (tncd_usage argv0 (Some (cstr ''No interface name provided'')) w)
           | Some ifname \<Rightarrow>
               if rest \<noteq> [] then left (tncd_usage argv0 (Some (cstr ''Too many arguments provided'')) w)
               else case patty_client_new (th_errno th) (to_sock op) w of
                 (None, w) \<Rightarrow> Some (Left 1 (say (argv0 @ cstr '': patty_client_new(): '' @ th_strerror th (errno_num (err w))) w))
               | (Some c, w) \<Rightarrow>
                   do { (fd, pty, c) \<leftarrow> pty_promisc (th_name th) ifname c;
                        if fd < 0
                        then do { c \<leftarrow> patty_client_destroy (c\<lparr>cl_world := say (argv0 @ cstr '': pty_promisc(): '' @ ifname @ cstr '': ''
                                                              @ th_strerror th (cl_errno c)) (cl_world c)\<rparr>);
                                  Some (Left 1 (cl_world c)) }
                        else do { (ended, c) \<leftarrow> ping_loop fuel (c\<lparr>cl_world := snd (fprintf 1 (pty @ [0x0a]) (cl_world c))\<rparr>);
                                  case ended of
                                    None \<Rightarrow> Some (Watching c)
                                  | Some pong \<Rightarrow>
                                      if pong = 0 then do { c \<leftarrow> patty_client_destroy c; None }
                                      else do { (r, c) \<leftarrow> pty_close fd (c\<lparr>cl_world := say (argv0 @ cstr '': patty_client_ping(): ''
                                                            @ th_strerror th (cl_errno c)) (cl_world c)\<rparr>);
                                                c \<leftarrow> patty_client_destroy c;
                                                Some (Left 1 (cl_world c)) } } }))"

section \<open>Printing succeeds when every call does\<close>

definition prints :: "int \<Rightarrow> world \<Rightarrow> world \<Rightarrow> bool" where
  "prints fh w w' \<longleftrightarrow> script w' = [] \<and> (\<exists>t. stream_of fh (out w') = stream_of fh (out w) @ t)"

lemma prints_refl: "script w = [] \<Longrightarrow> prints fh w w"
  by (simp add: prints_def)

lemma prints_trans: "prints fh w v \<Longrightarrow> prints fh v u \<Longrightarrow> prints fh w u"
  by (auto simp: prints_def)

lemma prints_script: "prints fh w w' \<Longrightarrow> script w' = []"
  by (simp add: prints_def)

lemma prints_err [simp]: "prints fh (w\<lparr>err := e\<rparr>) w' = prints fh w w'" "prints fh w (w'\<lparr>err := e\<rparr>) = prints fh w w'"
  by (simp_all add: prints_def)

lemma fprintf_prints: "script w = [] \<Longrightarrow> fprintf fh s w = (int (length s), w\<lparr>out := out w @ [(fh, s)]\<rparr>)"
  by (simp add: fprintf_def sys_write_def sys_call_def)

lemma fprintf_snd: "script w = [] \<Longrightarrow> prints fh w (snd (fprintf fh s w))"
  by (simp add: fprintf_prints prints_def)

lemma print_all_prints: "script w = [] \<Longrightarrow> \<exists>w'. print_all fh ss w = (0, w') \<and> prints fh w w'"
  using print_all_quiet [of w fh ss] by (auto simp: prints_def)

lemma print_addr_prints: "script w = [] \<Longrightarrow> prints fh w (snd (print_addr fh a w))"
  by (auto simp: print_addr_def fprintf_snd prints_refl split: prod.splits sum.splits)

lemma print_hops_prints:
  "script w = [] \<Longrightarrow> prints fh w (fold (\<lambda>i w. snd (print_addr fh (f i) (snd (fprintf fh s w)))) is w)"
proof (induction "is" arbitrary: w)
  case (Cons i "is")
  let ?w = "snd (print_addr fh (f i) (snd (fprintf fh s w)))"
  have "prints fh w ?w"
    using fprintf_snd [OF Cons.prems] by (blast intro: prints_trans print_addr_prints prints_script)
  with Cons.IH [OF prints_script [OF this]] show ?case by (auto intro: prints_trans)
qed (simp add: prints_refl)

lemma frame_header_prints:
  assumes "script w = []" and "patty_print_frame_header fh frame w = Some (r, w')"
  shows "0 \<le> r \<and> prints fh w w'"
proof -
  let ?w1 = "snd (print_addr fh (f_dest frame) (snd (fprintf fh (cstr ''>'') (snd (print_addr fh (f_src frame) w)))))"
  let ?w2 = "fold (\<lambda>i w. snd (print_addr fh (f_repeaters frame ! i) (snd (fprintf fh (cstr '','') w)))) [0..<f_hops frame] ?w1"
  have "prints fh w (snd (print_addr fh (f_src frame) w))" by (rule print_addr_prints [OF assms(1)])
  then have "prints fh w ?w1"
    by (blast intro: prints_trans fprintf_snd print_addr_prints prints_script)
  then have w2: "prints fh w ?w2" by (blast intro: prints_trans print_hops_prints prints_script)
  obtain w3 where w3: "print_all fh (header_texts frame) ?w2 = (0, w3)" "prints fh ?w2 w3"
    using print_all_prints [OF prints_script [OF w2]] by blast
  have "print_frame_addrs fh frame w = Some (0, ?w2)"
    using assms(2) by (auto simp: patty_print_frame_header_def print_frame_addrs_def Let_def split: if_splits)
  with assms(2) w3 have r: "fprintf fh [0x0a] w3 = (r, w')" by (simp add: patty_print_frame_header_def)
  have "prints fh w w3" using w2 w3(2) by (rule prints_trans)
  with fprintf_snd [OF prints_script [OF w3(2)], of fh "[0x0a]"] fprintf_prints [OF prints_script [OF w3(2)], of fh "[0x0a]"] r
  show ?thesis by (auto intro: prints_trans)
qed

lemma print_params_prints:
  assumes "script w = []" shows "\<exists>w'. patty_print_params fh p w = (0, w') \<and> prints fh w w'"
proof -
  let ?ss = "[cstr ''    XID parameters:'' @ [0x0a], cstr ''        Classes of procedures:'' @ [0x0a]]
                         @ flag_texts (p_classes p) classes_flags"
  obtain w1 where w1: "print_all fh ?ss w = (0, w1)" "prints fh w w1" using print_all_prints [OF assms] by blast
  let ?w2 = "snd (fprintf fh (cstr ''        HDLC optional functions:'' @ [0x0a]) w1)"
  have w2: "prints fh w ?w2" using w1(2) by (blast intro: prints_trans fprintf_snd prints_script)
  obtain w3 where "print_all fh (flag_texts (p_hdlc p) hdlc_flags
          @ map (\<lambda>(_, value, name). cstr ''        '' @ cstr name @ cstr '': '' @ fmt_u (unat value) @ [0x0a])
              (filter (\<lambda>(flag, _). p_flags p AND push_bit flag 1 \<noteq> 0) (params_fields p))) ?w2 = (0, w3)" "prints fh ?w2 w3"
    using print_all_prints [OF prints_script [OF w2]] by blast
  with w1(1) w2 show ?thesis
    unfolding patty_print_params_def by (auto simp del: print_all.simps intro: prints_trans)
qed

lemma fprintf_err_snd: "script w = [] \<Longrightarrow> prints fh w (snd (fprintf fh s (w\<lparr>err := e\<rparr>)))"
  using fprintf_snd [of "w\<lparr>err := e\<rparr>" fh s] by simp

lemma print_xid_prints:
  assumes "print_xid th buf offset n w = Some (ok, w')" and "script w = []"
  shows "ok \<and> prints 1 w w'"
proof -
  obtain r p where xid: "patty_ax25_frame_decode_xid (th_params th) buf offset n = Some (r, p)"
    using assms(1) by (auto simp: print_xid_def elim!: bind_SomeE)
  obtain v where "patty_print_params 1 p w = (0, v)" "prints 1 w v" using print_params_prints [OF assms(2)] by blast
  with assms xid show ?thesis by (cases r) (auto simp: print_xid_def fprintf_err_snd)
qed

lemma print_decoded_prints:
  assumes "print_decoded th argv0 buf n w = Some (ok, w')" and script: "script w = []"
  shows "ok \<and> prints 1 w w'"
proof -
  obtain r frame where addr: "patty_ax25_frame_decode_address (th_frame th) buf n = Some (r, frame)"
    using assms(1) by (auto simp: print_decoded_def elim!: bind_SomeE)
  show ?thesis
  proof (cases r)
    case (Inl e)
    with assms(1) addr show ?thesis by (auto simp: print_decoded_def intro: fprintf_err_snd [OF script])
  next
    case (Inr offset)
    with assms(1) addr obtain r frame' where
      control: "patty_ax25_frame_decode_control frame PATTY_AX25_FRAME_NORMAL buf offset n = Some (r, frame')"
      by (auto simp: print_decoded_def elim!: bind_SomeE)
    show ?thesis
    proof (cases r)
      case (Inl e)
      with assms(1) addr control \<open>_ = Inr offset\<close> show ?thesis
        by (auto simp: print_decoded_def intro: fprintf_err_snd [OF script])
    next
      case (Inr decoded)
      show ?thesis
      proof (cases "decoded < 0")
        case True
        with assms(1) addr control \<open>_ = Inr offset\<close> Inr show ?thesis
          by (auto simp: print_decoded_def intro: fprintf_snd [OF script])
      next
        case False
        with assms(1) addr control \<open>_ = Inr offset\<close> Inr obtain h v where
          header: "patty_print_frame_header 1 frame' w = Some (h, v)"
          by (auto simp: print_decoded_def elim!: bind_SomeE)
        have v: "0 \<le> h" "prints 1 w v" using frame_header_prints [OF script header] by simp_all
        with assms(1) addr control \<open>_ = Inr offset\<close> Inr header False
        have "if f_type frame' = PATTY_AX25_FRAME_XID
              then print_xid th buf (offset + nat decoded) n v = Some (ok, w') else ok \<and> w' = v"
          by (auto simp: print_decoded_def split: if_splits)
        with v(2) show ?thesis
          by (auto split: if_splits dest!: print_xid_prints [OF _ prints_script [OF v(2)]] intro: prints_trans)
      qed
    qed
  qed
qed

text \<open>A dump of a part of the data is the dump of that part.\<close>

lemma dump_row_take:
  assumes "len \<le> length data" shows "dump_row data len i = dump_row (take len data) len i"
proof -
  have "dump_cell data len i = dump_cell (take len data) len i"
    using assms by (intro ext) (simp add: dump_cell_def)
  moreover have "data ! (i + x) = take len data ! (i + x)" if "x < min 16 (len - i)" for x
  proof -
    have "i + x < len" using that by linarith
    then show ?thesis by simp
  qed
  ultimately show ?thesis unfolding dump_row_def by (auto intro!: map_cong)
qed

lemma dump_rows_take:
  "len \<le> length data \<Longrightarrow> dump_rows fh data len i w = dump_rows fh (take len data) len i w"
proof (induction fh data len i w rule: dump_rows.induct)
  case (1 fh data len i w)
  show ?case
    unfolding dump_rows.simps [of fh data len i w] dump_rows.simps [of fh "take len data" len i w]
      dump_row_take [OF "1.prems", of i]
    using 1 by (auto simp flip: dump_row_take split: prod.splits)
qed

lemma hexdump_shows:
  assumes "patty_print_hexdump fh buf n w = Some (r, w')" and "script w = []" and "n \<le> 2 ^ 32"
  shows "r = 0 \<and> script w' = [] \<and> (\<exists>printed. stream_of fh (out w') = stream_of fh (out w) @ printed \<and> undump printed = take n buf)"
proof -
  have n: "n \<le> length buf" "dump_rows fh buf n 0 w = (r, w')"
    using assms(1) by (simp_all add: patty_print_hexdump_def split: if_splits)
  with dump_rows_take [of n buf fh 0 w] dump_rows_reads [OF assms(2), of "take n buf" fh 0] assms(3) show ?thesis by auto
qed

section \<open>How tncd ends\<close>

text \<open>A server that goes away while tncd waits leads into the exits that use the freed client.\<close>

lemma tncd_server_gone:
  assumes "patty_client_new (th_errno th) None w = (Some c, w1)"
    and "pty_promisc (th_name th) ifname c = Some (fd, pty, c1)" and "0 \<le> fd"
    and "ping_loop fuel (c1\<lparr>cl_world := snd (fprintf 1 (pty @ [0x0a]) (cl_world c1))\<rparr>) = Some (Some 0, c2)"
  shows "tncd_main th argv0 [OptChar 0x69 ifname] [] fuel w = None"
  using assms by (cases "patty_client_destroy c2") (simp_all add: tncd_main_def)

text \<open>Every end that the code defines is a failure.\<close>

lemma tncd_fails:
  assumes "tncd_main th argv0 opts rest fuel w = Some (Left r w')" shows "r = 1 \<or> r = EX_USAGE"
  using assms
  by (auto simp: tncd_main_def tncd_usage_def Let_def split: option.splits if_splits prod.splits elim!: bind_SomeE)

section \<open>Which frames can be shown\<close>

text \<open>
  The parameters of an XID frame whose decoder leaves the buffer, or shifts a value of more than four
  bytes by more than its width: for these frames the code defines nothing.
\<close>

definition xid_undefined :: "tool_host \<Rightarrow> byte list \<Rightarrow> nat \<Rightarrow> bool" where
  "xid_undefined th buf n =
     (case patty_ax25_frame_decode_address (th_frame th) buf n of
        Some (Inr offset, frame) \<Rightarrow>
          (case patty_ax25_frame_decode_control frame PATTY_AX25_FRAME_NORMAL buf offset n of
             Some (Inr decoded, frame) \<Rightarrow> 0 \<le> decoded \<and> f_type frame = PATTY_AX25_FRAME_XID
               \<and> patty_ax25_frame_decode_xid (th_params th) buf (offset + nat decoded) n = None
           | _ \<Rightarrow> False)
      | _ \<Rightarrow> False)"

text \<open>The control field and the protocol octet lie at most two bytes behind the frame.\<close>

lemma classify_control_keeps:
  "classify_control fr fmt = Some fr' \<Longrightarrow> f_hops fr' = f_hops fr \<and> f_repeaters fr' = f_repeaters fr"
  by (auto simp: classify_control_def Let_def split: if_splits)

lemma decode_control_defined:
  assumes "offset \<le> n" and "n + 2 \<le> length buf"
  shows "\<exists>r fr'. patty_ax25_frame_decode_control fr PATTY_AX25_FRAME_NORMAL buf offset n = Some (r, fr')
    \<and> f_hops fr' = f_hops fr \<and> f_repeaters fr' = f_repeaters fr"
proof -
  have rd: "rd buf offset = Some (buf ! offset)" "rd buf (offset + 1) = Some (buf ! (offset + 1))"
    using assms by (simp_all add: rd_def)
  let ?f = "(clear_control fr)\<lparr>f_control := ucast (buf ! offset), f_format := PATTY_AX25_FRAME_NORMAL\<rparr>"
  have keep: "f_hops ?f = f_hops fr" "f_repeaters ?f = f_repeaters fr" by (simp_all add: clear_control_def)
  show ?thesis
  proof (cases "classify_control ?f PATTY_AX25_FRAME_NORMAL")
    case None
    with rd keep show ?thesis by (simp add: patty_ax25_frame_decode_control_def read_control_def Let_def)
  next
    case (Some fr')
    with classify_control_keeps [OF this] keep rd show ?thesis
      by (auto simp: patty_ax25_frame_decode_control_def read_control_def Let_def)
  qed
qed

lemma frame_header_defined:
  assumes "f_hops frame \<le> length (f_repeaters frame)"
  shows "\<exists>r w'. patty_print_frame_header fh frame w = Some (r, w')"
  using assms by (auto simp: patty_print_frame_header_def print_frame_addrs_def Let_def split: prod.splits)

lemma print_xid_defined:
  "print_xid th buf offset n w = None \<longleftrightarrow> patty_ax25_frame_decode_xid (th_params th) buf offset n = None"
  by (cases "patty_ax25_frame_decode_xid (th_params th) buf offset n")
    (auto simp: print_xid_def split: sum.splits prod.splits)

lemma print_decoded_defined:
  assumes "length (f_repeaters (th_frame th)) = 8" and "n + 2 \<le> length buf" and script: "script w = []"
  shows "print_decoded th argv0 buf n w = None \<longleftrightarrow> xid_undefined th buf n"
proof -
  from decode_address_safe [of n buf "th_frame th"] assms(2) obtain r frame where
    addr: "patty_ax25_frame_decode_address (th_frame th) buf n = Some (r, frame)"
    and hops: "\<And>k. r = Inr k \<Longrightarrow> k \<le> n \<and> f_hops frame \<le> 8" "length (f_repeaters frame) = 8"
    using assms(1) by auto
  show ?thesis
  proof (cases r)
    case (Inl e)
    with addr show ?thesis by (simp add: print_decoded_def xid_undefined_def)
  next
    case offset: (Inr offset)
    from decode_control_defined [OF _ assms(2), of offset frame] hops(1) [OF offset] obtain c fr where
      control: "patty_ax25_frame_decode_control frame PATTY_AX25_FRAME_NORMAL buf offset n = Some (c, fr)"
      and fr: "f_hops fr \<le> length (f_repeaters fr)"
      using hops(2) by auto
    show ?thesis
    proof (cases "\<exists>decoded. c = Inr decoded \<and> 0 \<le> decoded")
      case False
      with addr offset control show ?thesis
        by (cases c) (auto simp: print_decoded_def xid_undefined_def)
    next
      case True
      then obtain decoded where decoded: "c = Inr decoded" "0 \<le> decoded" by blast
      obtain h v where header: "patty_print_frame_header 1 fr w = Some (h, v)"
        using frame_header_defined [OF fr] by blast
      have "0 \<le> h" using frame_header_prints [OF script header] by simp
      with addr offset control decoded header print_xid_defined [of th buf "offset + nat decoded" n v] show ?thesis
        by (auto simp: print_decoded_def xid_undefined_def)
    qed
  qed
qed

section \<open>Properties\<close>

text \<open>
  C37: What ax25dump makes of a frame, for every frame and every content of its buffer, as long as
  two bytes of the buffer are left behind it and the output does not fail. If it is an XID frame whose parameters lead their
  decoder out of the buffer or to an undefined shift, nothing is defined. For every other frame,
  decodable or not, the output ends with a dump that reads back as exactly the bytes of the frame,
  and the program goes on with the next one.
\<close>
theorem ax25dump_shows_frame:
  assumes "length (f_repeaters (th_frame th)) = 8" and "n + 2 \<le> length buf" and "script w = []" and "n \<le> 2 ^ 32"
  shows "if xid_undefined th buf n then dump_frame th argv0 buf n w = None
    else \<exists>w' decoded printed. dump_frame th argv0 buf n w = Some (True, w') \<and> script w' = []
      \<and> stream_of 1 (out w') = stream_of 1 (out w) @ decoded @ printed \<and> undump printed = take n buf"
proof (cases "xid_undefined th buf n")
  case True
  with print_decoded_defined [OF assms(1-3), of argv0] show ?thesis by (simp add: dump_frame_def)
next
  case False
  with print_decoded_defined [OF assms(1-3), of argv0] obtain d w1 where d: "print_decoded th argv0 buf n w = Some (d, w1)"
    by fastforce
  from print_decoded_prints [OF this assms(3)] have p: "d" "prints 1 w w1" by simp_all
  obtain r w2 where h: "patty_print_hexdump 1 buf n w1 = Some (r, w2)"
    using assms(2) by (cases "dump_rows 1 buf n 0 w1") (simp add: patty_print_hexdump_def)
  from hexdump_shows [OF h prints_script [OF p(2)] assms(4)] p d h False show ?thesis
    by (auto simp: dump_frame_def sys_call_def prints_def) blast
qed

text \<open>
  The tool on a quiet host, and two frames: WX0A to APRS, an information frame without repeaters; and
  an XID frame with a parameter of five bytes.
\<close>

definition tool0 :: tool_host where
  "tool0 = \<lparr>th_strerror = (\<lambda>_. []), th_errno = 0, th_line = termios_zero, th_tnc = tnc_fields 0 [], th_garbage = [],
     th_buf = replicate AX25DUMP_BUFSZ 0, th_frame = frame_zero, th_params = params_zero, th_name = replicate 8 0\<rparr>"

definition heard :: "byte list" where
  "heard = [0x82, 0xa0, 0xa4, 0xa6, 0x40, 0x40, 0xe0, 0xae, 0xb0, 0x60, 0x82, 0x40, 0x40, 0x61, 0x03, 0xf0, 0x3e, 0x68, 0x69]"

definition heard_xid :: "byte list" where
  "heard_xid = [0x82, 0xa0, 0xa4, 0xa6, 0x40, 0x40, 0xe0, 0xae, 0xb0, 0x60, 0x82, 0x40, 0x40, 0x61, 0xaf,
     0x82, 0x80, 0, 7, 2, 5, 1, 1, 1, 1, 1]"

lemma heard_defined: "\<not> xid_undefined tool0 (heard @ [0, 0]) 19" "xid_undefined tool0 (heard_xid @ [0, 0]) 26"
  by code_simp+

lemma ax25dump_shows_frame_witness:
  "(\<exists>w' decoded printed. dump_frame tool0 (cstr ''ax25dump'') (heard @ [0, 0]) 19 (world0 []) = Some (True, w')
    \<and> stream_of 1 (out w') = stream_of 1 (out (world0 [])) @ decoded @ printed \<and> undump printed = heard)
   \<and> dump_frame tool0 (cstr ''ax25dump'') (heard_xid @ [0, 0]) 26 (world0 []) = None"
proof -
  have host: "length (f_repeaters (th_frame tool0)) = 8" "script (world0 []) = []"
    by (simp_all add: tool0_def frame_zero_def world0_def PATTY_AX25_MAX_HOPS_def)
  have len: "19 + 2 \<le> length (heard @ [0, 0])" "26 + 2 \<le> length (heard_xid @ [0, 0])"
    and small: "(19 :: nat) \<le> 2 ^ 32" "(26 :: nat) \<le> 2 ^ 32" and whole: "take 19 (heard @ [0, 0]) = heard"
    by (simp_all add: heard_def heard_xid_def)
  show ?thesis
    using ax25dump_shows_frame [OF host(1) len(1) host(2) small(1), of "cstr ''ax25dump''"]
      ax25dump_shows_frame [OF host(1) len(2) host(2) small(2), of "cstr ''ax25dump''"] heard_defined whole
    by auto
qed

end
