(* ===== verification/Patty_Examples.thy ===== *)
theory Patty_Examples
  imports Patty_Tools
begin

text \<open>
  The sample programs on top of the client library: \<open>src/examples/connect.c\<close>, which shows what a
  station sends, \<open>listen.c\<close>, which greets one caller, and \<open>login.c\<close>, which starts a login program for
  every caller.

  \<open>args\<close> are the arguments behind the program's name; \<open>junk\<close> is what the address on the stack holds.
  Calls of the system outside of the library set the client's \<open>errno\<close> as those of the library do. The
  loop of \<open>login.c\<close> takes a list of turns, each with what \<open>select\<close> finds, what \<open>fork\<close> yields, and the
  script and the terminal's name of the child; the processes it has started are part of its result.
  The lemmas show that connect passes on everything it receives, and which programs login starts.
\<close>

section \<open>Shared\<close>

text \<open>\<open>PATTY_AX25_SOCK_STREAM\<close> in a message.\<close>

definition stream_num :: int where "stream_num = 0"

definition fails_with :: "tool_host \<Rightarrow> cstring \<Rightarrow> cstring \<Rightarrow> client \<Rightarrow> client" where
  "fails_with th argv0 what c =
     c\<lparr>cl_world := say (argv0 @ cstr '': '' @ what @ cstr '': '' @ th_strerror th (cl_errno c)) (cl_world c)\<rparr>"

text \<open>The ends of the programs: terminals are closed, then the client is destroyed.\<close>

fun end_client :: "int \<Rightarrow> int list \<Rightarrow> client \<Rightarrow> (int \<times> world) option" where
  "end_client ret [] c = do { c \<leftarrow> patty_client_destroy c; Some (ret, cl_world c) }"
| "end_client ret (fd # fds) c = do { (r, c) \<leftarrow> patty_client_close fd c; end_client ret fds c }"

section \<open>connect\<close>

definition connect_usage :: "cstring \<Rightarrow> string \<Rightarrow> world \<Rightarrow> int \<times> world" where
  "connect_usage argv0 message w =
     (1, say (cstr ''usage: '' @ argv0 @ cstr '' /var/run/patty/patty.sock remotecall'') (say (cstr message) w))"

lemma sys_read_shorter:
  assumes "sys (sys_read n) c = (Inr bs, c')" and "bs \<noteq> []"
  shows "length (script (cl_world c')) < length (script (cl_world c))"
  using assms by (cases "script (cl_world c)") (auto simp: sys_def sys_read_def split: reply.splits)

lemma sys_write_script:
  "sys (sys_write fd bs) c = (r, c') \<Longrightarrow> length (script (cl_world c')) \<le> length (script (cl_world c))"
  by (cases "script (cl_world c)") (auto simp: sys_def sys_write_def sys_call_def split: reply.splits)

text \<open>\<open>while ((readlen = read(fd, buf, sizeof(buf))) > 0)\<close>; \<open>False\<close> is a jump to \<open>error_write\<close>.\<close>

function relay :: "client \<Rightarrow> bool \<times> client" where
  "relay c =
     (case sys (sys_read 4096) c of
        (Inl e, c) \<Rightarrow> (True, c)
      | (Inr bs, c) \<Rightarrow>
          if bs = [] then (True, c)
          else case sys (sys_write 1 bs) c of (r, c) \<Rightarrow> if r < 0 then (False, c) else relay c)"
  by pat_completeness auto
termination
proof (relation "measure (\<lambda>c. length (script (cl_world c)))", goal_cases)
  case 2
  then show ?case by (auto dest!: sys_read_shorter [OF sym] sys_write_script [OF sym])
qed simp

declare relay.simps [simp del]

text \<open>The result of \<open>patty_ax25_pton\<close> is ignored.\<close>

definition connect_main :: "tool_host \<Rightarrow> addr \<Rightarrow> cstring \<Rightarrow> cstring list \<Rightarrow> world \<Rightarrow> (int \<times> world) option" where
  "connect_main th junk argv0 args w =
     (case args of
        [] \<Rightarrow> Some (connect_usage argv0 ''No patty socket provided'' w)
      | [_] \<Rightarrow> Some (connect_usage argv0 ''No remote callsign provided'' w)
      | [path, call] \<Rightarrow>
          let peer = snd (patty_ax25_pton call junk) in
          (case patty_client_new (th_errno th) (Some path) w of
             (None, w) \<Rightarrow> Some (1, say (argv0 @ cstr '': patty_client_new(): '' @ path @ cstr '': '' @ th_strerror th (errno_num (err w))) w)
           | (Some c, w) \<Rightarrow>
               do { (fd, c) \<leftarrow> patty_client_socket (uint PATTY_AX25_PROTO_NONE) stream_num c;
                    if fd < 0 then end_client 1 [] (fails_with th argv0 (cstr ''patty_client_socket()'') c)
                    else do { (r, c) \<leftarrow> patty_client_connect fd peer c;
                              if r < 0 then end_client 1 [fd] (fails_with th argv0 (cstr ''patty_client_connect()'') c)
                              else case relay c of (ok, c) \<Rightarrow> end_client (if ok then 0 else 1) [fd] c } })
      | _ \<Rightarrow> Some (connect_usage argv0 ''Too many arguments provided'' w))"

section \<open>listen\<close>

definition listen_usage :: "cstring \<Rightarrow> string \<Rightarrow> world \<Rightarrow> int \<times> world" where
  "listen_usage argv0 message w =
     (1, say (cstr ''usage: '' @ argv0 @ cstr '' /var/run/patty/patty.sock localcall'') (say (cstr message) w))"

definition listen_main :: "tool_host \<Rightarrow> addr \<Rightarrow> cstring \<Rightarrow> cstring list \<Rightarrow> world \<Rightarrow> (int \<times> world) option" where
  "listen_main th junk argv0 args w =
     (case args of
        [] \<Rightarrow> Some (listen_usage argv0 ''No patty socket provided'' w)
      | [_] \<Rightarrow> Some (listen_usage argv0 ''No local callsign provided'' w)
      | [path, call] \<Rightarrow>
          let addr = snd (patty_ax25_pton call junk) in
          (case patty_client_new (th_errno th) (Some path) w of
             (None, w) \<Rightarrow> Some (1, say (argv0 @ cstr '': patty_client_new(): '' @ path @ cstr '': '' @ th_strerror th (errno_num (err w))) w)
           | (Some c, w) \<Rightarrow>
               do { (local, c) \<leftarrow> patty_client_socket (uint PATTY_AX25_PROTO_NONE) stream_num c;
                    if local < 0 then end_client 1 [] (fails_with th argv0 (cstr ''patty_client_socket()'') c)
                    else do { (r, c) \<leftarrow> patty_client_bind local addr c;
                    if r < 0 then end_client 1 [local] (fails_with th argv0 (cstr ''patty_client_bind()'') c)
                    else do { (r, c) \<leftarrow> patty_client_listen local c;
                    if r < 0 then end_client 1 [local] (fails_with th argv0 (cstr ''patty_client_listen()'') c)
                    else do { (remote, peer, c) \<leftarrow> patty_client_accept local c;
                    if remote < 0 then end_client 1 [local] (fails_with th argv0 (cstr ''patty_client_accept()'') c)
                    else case sys (sys_write remote (cstr ''hello world'' @ [0x0a])) c of (r, c) \<Rightarrow>
                      end_client (if r < 0 then 1 else 0) [remote, local] c } } } })
      | _ \<Rightarrow> Some (listen_usage argv0 ''Too many arguments provided'' w))"

section \<open>login\<close>

definition login_usage :: "cstring \<Rightarrow> string \<Rightarrow> world \<Rightarrow> int \<times> world" where
  "login_usage argv0 message w =
     (1, say (cstr ''usage: '' @ argv0 @ cstr '' /var/run/patty/patty.sock localcall'') (say (cstr message) w))"

text \<open>A turn of the loop; \<open>lt_ready\<close> is the result of \<open>select\<close>, negative for an error.\<close>

record login_turn =
  lt_ready :: int
  lt_local :: bool
  lt_fork :: "errno option"
  lt_child :: "reply list"
  lt_tty :: "cstring option"

text \<open>How a child ends: it leaves with a status, or it becomes the program with these arguments.\<close>

datatype child = Exited int world | Executes "cstring list" world

text \<open>\<open>struct patty_client_setsockopt_params\<close>; \<open>pad\<close> is the gap behind the flags.\<close>

definition login_params :: "byte list \<Rightarrow> byte list" where
  "login_params pad =
     put_u32 (PATTY_AX25_SOCK_PARAM_MTU OR PATTY_AX25_SOCK_PARAM_WINDOW) @ take 4 pad
     @ put_size 254 @ put_size 1 @ put_size 0 @ put_size 0"

text \<open>The results of \<open>close\<close> and \<open>dup2\<close> are ignored, as is a terminal that cannot be opened.\<close>

definition login_child :: "tool_host \<Rightarrow> cstring \<Rightarrow> login_turn \<Rightarrow> addr \<Rightarrow> int \<Rightarrow> client \<Rightarrow> child" where
  "login_child th argv0 t peer remote c0 =
     (let c = c0\<lparr>cl_world := (cl_world c0)\<lparr>script := lt_child t\<rparr>\<rparr>;
          leave = (\<lambda>what c. Exited 127 (cl_world (fails_with th argv0 (cstr what) c))) in
      case patty_ax25_ntop peer 10 of
        (Inl e, _) \<Rightarrow> leave ''patty_ax25_ntop()'' (c\<lparr>cl_errno := errno_num (Some e)\<rparr>)
      | (Inr _, address) \<Rightarrow>
          (case lt_tty t of
             None \<Rightarrow> leave ''ttyname()'' c
           | Some name \<Rightarrow>
               (case sys sys_call c of (r, c) \<Rightarrow>
                if r < 0 then leave ''setsid()'' c
                else case sys sys_fd c of (fd, c) \<Rightarrow>
                let c = (if fd < 0 then c\<lparr>cl_world := say (argv0 @ cstr '': open(): '' @ name @ cstr '':  '' @ th_strerror th (cl_errno c)) (cl_world c)\<rparr> else c);
                    c = fold (\<lambda>fd c. snd (sys (sys_close fd) c)) [remote, 0, 1, 2] c;
                    c = ((\<lambda>c. snd (sys sys_call c)) ^^ 3) c in
                case sys sys_call c of (r, c) \<Rightarrow>
                if r < 0 then Exited 127 (cl_world c)
                else Executes [cstr ''/bin/login'', cstr ''-h'', takeWhile (\<lambda>b. b \<noteq> 0) address] (cl_world c))))"

text \<open>
  The loop. The parent closes the caller's terminal with \<open>close\<close>, so the client keeps its entry. A
  caller that cannot be served ends the program at once with \<open>exit\<close>.
\<close>

datatype login_outcome = Serving client | Ended int world

fun login_loop :: "tool_host \<Rightarrow> cstring \<Rightarrow> byte list \<Rightarrow> int \<Rightarrow> login_turn list \<Rightarrow> client \<Rightarrow> child list
    \<Rightarrow> (login_outcome \<times> child list) option" where
  "login_loop th argv0 pad local [] c children = Some (Serving c, children)"
| "login_loop th argv0 pad local (t # ts) c children =
     (let leave = (\<lambda>ret c. do { (ret, w) \<leftarrow> end_client ret [local] c; Some (Ended ret w, children) }) in
      do { (pong, c) \<leftarrow> patty_client_ping c;
           if pong < 0 then leave 1 (fails_with th argv0 (cstr ''patty_client_ping()'') c)
           else if pong = 0 then leave 0 c
           else if lt_ready t < 0 then leave 1 (fails_with th argv0 (cstr ''select()'') c)
           else if lt_ready t = 0 then login_loop th argv0 pad local ts c children
           else case sys sys_call c of (r, c) \<Rightarrow>
           let c = (if r < 0 then c\<lparr>cl_errno := 0\<rparr> else c) in
           if \<not> lt_local t then login_loop th argv0 pad local ts c children
           else do { (remote, peer, c) \<leftarrow> patty_client_accept local c;
                     if remote < 0 then Some (Ended 127 (cl_world c), children)
                     else do { peer \<leftarrow> peer;
                               (r, c) \<leftarrow> patty_client_setsockopt remote PATTY_AX25_SOCK_PARAMS (login_params pad) 40 c;
                               if r < 0 then Some (Ended 127 (cl_world c), children)
                               else case lt_fork t of
                                 Some e \<Rightarrow> leave 1 (fails_with th argv0 (cstr ''fork()'') (c\<lparr>cl_errno := errno_num (Some e)\<rparr>))
                               | None \<Rightarrow> login_loop th argv0 pad local ts (snd (sys (sys_close remote) c))
                                       (children @ [login_child th argv0 t peer remote c]) } } })"

definition login_main :: "tool_host \<Rightarrow> addr \<Rightarrow> byte list \<Rightarrow> cstring \<Rightarrow> cstring list \<Rightarrow> login_turn list \<Rightarrow> world
    \<Rightarrow> (login_outcome \<times> child list) option" where
  "login_main th junk pad argv0 args turns w =
     (let usage = (\<lambda>m. case login_usage argv0 m w of (r, w) \<Rightarrow> Some (Ended r w, []));
          leave = (\<lambda>fds c. do { (r, w) \<leftarrow> end_client 1 fds c; Some (Ended r w, []) }) in
      case args of
        [] \<Rightarrow> usage ''No patty socket provided''
      | [_] \<Rightarrow> usage ''No local callsign provided''
      | [path, call] \<Rightarrow>
          (case patty_ax25_pton call junk of
             (Inl e, _) \<Rightarrow> Some (Ended 1 (say (argv0 @ cstr '': patty_ax25_pton(): '' @ call @ cstr '': '' @ th_strerror th (errno_num (Some e))) w), [])
           | (Inr _, addr) \<Rightarrow>
               (case patty_client_new (th_errno th) (Some path) w of
                  (None, w) \<Rightarrow> Some (Ended 1 (say (argv0 @ cstr '': patty_client_new(): '' @ path @ cstr '': '' @ th_strerror th (errno_num (err w))) w), [])
                | (Some c, w) \<Rightarrow>
                    do { (local, c) \<leftarrow> patty_client_socket (uint PATTY_AX25_PROTO_NONE) stream_num c;
                         if local < 0 then leave [] (fails_with th argv0 (cstr ''patty_client_socket()'') c)
                         else do { (r, c) \<leftarrow> patty_client_bind local addr c;
                         if r < 0 then leave [local] (fails_with th argv0 (cstr ''patty_client_bind()'') c)
                         else do { (r, c) \<leftarrow> patty_client_listen local c;
                         if r < 0 then leave [local] (fails_with th argv0 (cstr ''patty_client_listen()'') c)
                         else if \<not> fd_ok local then None
                         else login_loop th argv0 pad local turns c [] } } }))
      | _ \<Rightarrow> usage ''Too many arguments provided'')"

section \<open>What the samples do\<close>

text \<open>connect writes out all it reads, in order, until the terminal ends.\<close>

lemma relay_turn:
  assumes "script (cl_world c) = RBytes b # ROk # rs" and "b \<noteq> []" and "length b \<le> 4096"
  obtains c' where "relay c = relay c'" and "script (cl_world c') = rs" and "cl_socks c' = cl_socks c"
    and "stream_of 1 (out (cl_world c')) = stream_of 1 (out (cl_world c)) @ b"
proof -
  let ?c = "c\<lparr>cl_world := (cl_world c)\<lparr>err := None, script := rs, out := out (cl_world c) @ [(1, b)]\<rparr>\<rparr>"
  have "relay c = relay ?c"
    using assms by (subst relay.simps) (simp add: sys_def sys_read_def sys_write_def sys_call_def)
  then show thesis by (rule that) simp_all
qed

lemma connect_relays:
  assumes "script (cl_world c) = concat (map (\<lambda>b. [RBytes b, ROk]) bs)" and "\<forall>b \<in> set bs. b \<noteq> [] \<and> length b \<le> 4096"
  shows "\<exists>c'. relay c = (True, c') \<and> stream_of 1 (out (cl_world c')) = stream_of 1 (out (cl_world c)) @ concat bs
    \<and> cl_socks c' = cl_socks c"
  using assms
proof (induction bs arbitrary: c)
  case Nil
  then show ?case by (subst relay.simps) (simp add: sys_def sys_read_def)
next
  case (Cons b bs)
  then obtain c1 where "relay c = relay c1" "script (cl_world c1) = concat (map (\<lambda>b. [RBytes b, ROk]) bs)"
    "cl_socks c1 = cl_socks c" "stream_of 1 (out (cl_world c1)) = stream_of 1 (out (cl_world c)) @ b"
    by (auto elim: relay_turn)
  with Cons.IH [of c1] Cons.prems(2) show ?case by auto
qed

text \<open>Whatever a child of login becomes is the login program, told the station that called.\<close>

definition runs_login :: "child \<Rightarrow> bool" where
  "runs_login x \<longleftrightarrow> (case x of Exited r w \<Rightarrow> r = 127
     | Executes args w \<Rightarrow> \<exists>peer address. patty_ax25_ntop peer 10 = (Inr (), address)
         \<and> args = [cstr ''/bin/login'', cstr ''-h'', takeWhile (\<lambda>b. b \<noteq> 0) address])"

lemma login_child_runs: "runs_login (login_child th argv0 t peer remote c)"
proof (cases "patty_ax25_ntop peer 10")
  case (Pair r address)
  show ?thesis
  proof (cases r)
    case (Inr u)
    with Pair have "patty_ax25_ntop peer 10 = (Inr (), address)" by simp
    then show ?thesis by (auto simp: login_child_def runs_login_def Let_def split: prod.splits option.splits)
  qed (simp add: login_child_def runs_login_def Let_def Pair)
qed

lemma login_loop_children:
  "login_loop th argv0 pad local ts c children = Some (r, children') \<Longrightarrow> list_all runs_login children
    \<Longrightarrow> list_all runs_login children'"
proof (induction ts arbitrary: c children)
  case (Cons t ts)
  have child: "list_all runs_login (children @ [login_child th argv0 t peer remote c1])" for peer remote c1
    using Cons.prems(2) by (simp add: login_child_runs)
  show ?case
    using Cons.prems
    by (auto simp: Let_def split: if_splits option.splits prod.splits elim!: bind_SomeE)
      (blast intro: Cons.IH child)+
qed simp

lemma login_runs_login:
  assumes "login_main th junk pad argv0 args turns w = Some (r, children)" shows "list_all runs_login children"
  using assms
  by (auto simp: login_main_def Let_def split: list.splits sum.splits option.splits prod.splits if_splits
      elim!: bind_SomeE) (drule login_loop_children, simp_all)

text \<open>
  The terminal of a caller that login has served stays in the client's dictionary, because the parent
  closes it behind the library's back.
\<close>

lemma open_sock_enters:
  assumes "open_sock sock c = Some (fd, c')" and "0 \<le> fd" and "client_ok c"
  shows "sock_of fd c' \<noteq> None"
proof -
  obtain fd1 c1 where 1: "sys sys_fd c = (fd1, c1)" by (cases "sys sys_fd c")
  obtain r2 c2 where 2: "sys sys_call c1 = (r2, c2)" by (cases "sys sys_call c1")
  obtain r3 c3 where 3: "sys sys_call c2 = (r3, c3)" by (cases "sys sys_call c2")
  let ?st = "\<lambda>w. case dict_store (cl_socks c3) (word_of_int fd1) (Some (h_cnext c3)) w of (ok, d, w) \<Rightarrow> ((ok, d), w)"
  obtain ok d c4 where 4: "sys ?st c3 = ((ok, d), c4)" by (cases "sys ?st c3") auto
  have c3: "client_ok c3" using 1 2 3 assms(3) by (blast dest: sys_socks client_ok_same)
  obtain w w' where st: "dict_store (cl_socks c3) (word_of_int fd1) (Some (h_cnext c3)) w = (ok, d, w')"
    using 4 by (auto simp: sys_def split: prod.splits)
  show ?thesis
    using assms(1,2) client_ok_stored(3) [OF c3 st]
    by (auto simp: open_sock_def Let_def 1 2 3 4 sock_of_def split: if_splits elim!: bind_SomeE)
qed

lemma login_keeps_caller:
  assumes "client_ok c" and "patty_client_accept local c = Some (remote, peer, c1)" and "0 \<le> remote"
    and "patty_client_setsockopt remote PATTY_AX25_SOCK_PARAMS (login_params pad) 40 c1 = Some (r, c2)"
  shows "sock_of remote (snd (sys (sys_close remote) c2)) \<noteq> None"
proof -
  have "sock_of remote c1 \<noteq> None"
    using assms(1-3)
    by (auto simp: patty_client_accept_def split: option.splits prod.splits if_splits sum.splits simp del: write_all.simps
        elim!: bind_SomeE dest!: sys_socks write_all_socks take_response_socks)
      (force simp: sock_of_def dest: open_sock_enters client_ok_same)+
  then show ?thesis
    using simple_calls_socks(4) [OF assms(4)] snd_sys_socks [of c2 "sys_close remote"] by (simp add: sock_of_def same_table_def)
qed

end
