(* ===== verification/Patty_Transmit.thy ===== *)
theory Patty_Transmit
  imports Patty_Sock
begin

text \<open>
  What sockets put on the air. The frames that \<open>frame_send\<close> of \<open>src/src/sock.c\<close> builds by hand are
  those of the encoder in \<open>src/src/frame.c\<close>; the invariant \<open>sock_ok\<close> (addresses, buffers and slots
  have the sizes that the parameters of the socket ask for) keeps every store inside its buffer;
  an acknowledgement marks exactly the slots it covers; and a small write arrives as it was given.
\<close>

section \<open>Slots\<close>

lemma tx_slots_cases: "tx_slots k = 8 \<or> tx_slots k = 128"
  by (simp add: tx_slots_def)

lemma tx_seq_range: "0 \<le> tx_seq k seq" "tx_seq k seq < int (unat (tx_slots k))"
proof -
  have "(word_of_int seq :: size_t) mod tx_slots k < tx_slots k"
    by (rule word_mod_less_divisor) (use tx_slots_cases [of k] in auto)
  then have "uint ((word_of_int seq :: size_t) mod tx_slots k) < uint (tx_slots k)"
    by (simp add: word_less_def)
  then show "0 \<le> tx_seq k seq" "tx_seq k seq < int (unat (tx_slots k))"
    by (simp_all add: tx_seq_def)
qed

text \<open>The modulus is a power of two, so conversion to 64 bits does no harm.\<close>

lemma tx_seq_mod: "tx_seq k seq = seq mod seq_modulus k"
proof -
  have "uint ((word_of_int seq :: size_t) mod tx_slots k) = (seq mod 2 ^ 64) mod uint (tx_slots k)"
    by (simp add: uint_mod uint_word_of_int)
  also have "\<dots> = seq mod seq_modulus k"
    by (simp add: tx_slots_def seq_modulus_def mod_mod_cancel)
  finally show ?thesis by (simp add: tx_seq_def)
qed

text \<open>The allocation has one record of the current size for each sequence number.\<close>

definition slots_ok :: "sock \<Rightarrow> bool" where
  "slots_ok k \<longleftrightarrow> (\<exists>sl. s_tx_slots k = Some sl \<and> sl_size sl = unat (tx_slot_size k)
     \<and> length (sl_list sl) = unat (tx_slots k)
     \<and> (\<forall>t \<in> set (sl_list sl). unat (ts_len t) \<le> length (ts_data t) \<and> ts_len t \<le> s_n_maxlen_tx k))"

definition slot_list :: "sock \<Rightarrow> tx_slot list" where
  "slot_list k = (case s_tx_slots k of None \<Rightarrow> [] | Some sl \<Rightarrow> sl_list sl)"

lemma slots_ok_length: "slots_ok k \<Longrightarrow> length (slot_list k) = unat (tx_slots k)"
  by (auto simp: slots_ok_def slot_list_def)

lemma tx_slot_ok:
  assumes "slots_ok k"
  shows "tx_slot k seq = Some (nat (tx_seq k seq), slot_list k ! nat (tx_seq k seq))"
    and "nat (tx_seq k seq) < length (slot_list k)"
proof -
  show 1: "nat (tx_seq k seq) < length (slot_list k)"
    using slots_ok_length [OF assms] tx_seq_range [of k seq] by linarith
  with assms show "tx_slot k seq = Some (nat (tx_seq k seq), slot_list k ! nat (tx_seq k seq))"
    by (auto simp: slots_ok_def tx_slot_def slot_list_def Let_def)
qed

lemma slot_data_ok:
  assumes "slots_ok k" and "i < length (slot_list k)"
  shows "unat (ts_len (slot_list k ! i)) \<le> length (ts_data (slot_list k ! i))"
    and "ts_len (slot_list k ! i) \<le> s_n_maxlen_tx k"
  using assms by (auto simp: slots_ok_def slot_list_def)

lemma slot_list_put: "slot_list (tx_slot_put k i t) = (slot_list k)[i := t]"
  by (simp add: tx_slot_put_def slot_list_def split: option.splits)

lemma tx_slots_put [simp]: "tx_slots (tx_slot_put k i t) = tx_slots k"
  by (simp add: tx_slot_put_def tx_slots_def)

lemma tx_seq_put [simp]: "tx_seq (tx_slot_put k i t) = tx_seq k"
  by (simp add: tx_seq_def fun_eq_iff)

lemma slots_ok_put:
  assumes "slots_ok k" and "unat (ts_len t) \<le> length (ts_data t)" and "ts_len t \<le> s_n_maxlen_tx k"
  shows "slots_ok (tx_slot_put k i t)"
  using assms by (auto simp: slots_ok_def tx_slot_put_def tx_slots_def tx_slot_size_def dest!: set_update_subset_insert [THEN subsetD])

text \<open>Fields that the slots do not depend on.\<close>

lemma slots_ok_cong:
  "s_tx_slots k' = s_tx_slots k \<Longrightarrow> s_mode k' = s_mode k \<Longrightarrow> s_n_maxlen_tx k' = s_n_maxlen_tx k \<Longrightarrow>
    slots_ok k' = slots_ok k"
  by (simp add: slots_ok_def tx_slot_size_def tx_slots_def)

section \<open>The frame of a socket\<close>

definition frame_of :: "sock \<Rightarrow> frame_cr \<Rightarrow> u16 \<Rightarrow> byte \<Rightarrow> byte list option \<Rightarrow> nat \<Rightarrow> frame" where
  "frame_of k cr control proto info infolen = frame_zero
     \<lparr>f_dest := s_remote k, f_src := s_local k, f_repeaters := s_repeaters k, f_hops := s_hops k,
      f_control := control, f_cr := cr, f_proto := proto, f_info := info, f_infolen := of_nat infolen,
      f_format := (if s_mode k = PATTY_AX25_SOCK_SABME then PATTY_AX25_FRAME_EXTENDED else PATTY_AX25_FRAME_NORMAL)\<rparr>"

lemma tx_slot_put_fields [simp]:
  "s_proto (tx_slot_put k i t) = s_proto k" "s_mode (tx_slot_put k i t) = s_mode k"
  "s_vs (tx_slot_put k i t) = s_vs k" "s_vr (tx_slot_put k i t) = s_vr k" "s_va (tx_slot_put k i t) = s_va k"
  "s_n_maxlen_tx (tx_slot_put k i t) = s_n_maxlen_tx k" "s_n_window_tx (tx_slot_put k i t) = s_n_window_tx k"
  "seq_mask (tx_slot_put k i t) = seq_mask k"
  "frame_of (tx_slot_put k i t) = frame_of k"
  by (simp_all add: tx_slot_put_def seq_mask_def frame_of_def fun_eq_iff)

lemma control_i_put [simp]: "control_i (tx_slot_put k i t) = control_i k"
  by (cases "s_mode k") (simp_all add: control_i_def patty_ax25_sock_flow_left_def fun_eq_iff)

definition sock_addr_ok :: "sock \<Rightarrow> bool" where
  "sock_addr_ok k \<longleftrightarrow> station_ok (callsign (s_remote k)) \<and> station_ok (callsign (s_local k))
     \<and> s_hops k \<le> 8 \<and> length (s_repeaters k) = 8
     \<and> (\<forall>a \<in> set (take (s_hops k) (s_repeaters k)). station_ok (callsign a))"

lemma frame_of_addr_ok: "sock_addr_ok k \<Longrightarrow> frame_addr_ok (frame_of k cr c p i n)"
  by (simp add: sock_addr_ok_def frame_addr_ok_def frame_of_def)

lemma frame_of_hops [simp]: "f_hops (frame_of k cr c p i n) = s_hops k"
  by (simp add: frame_of_def)

lemma sock_address_octets_eq: "sock_address_octets k cr = address_octets (frame_of k cr c p i n) False"
  by (simp add: sock_address_octets_def address_octets_def frame_of_def Let_def)

lemma sock_encode_address_eq: "sock_encode_address k cr buf len = encode_address (frame_of k cr c p i n) buf False len"
  by (simp add: sock_encode_address_def encode_address_def Let_def sock_address_octets_eq [of k cr c p i n])
     (simp add: frame_of_def)

lemma control_octets_eq: "control_octets k c = ctl_octets (f_format (frame_of k cr c p i n)) c"
  by (simp add: control_octets_def ctl_octets_def frame_of_def ucast_low_byte ucast_high_byte)

lemma station_ok_nonzero: "station_ok bs \<Longrightarrow> bs ! 0 \<noteq> 0"
  by (cases bs) (auto simp: station_ok_def station_octet_def PATTY_AX25_ADDR_CHAR_VALID_def)

text \<open>What \<open>frame_send\<close> is given: information it can copy, of a length that fits the buffer.\<close>

definition info_bytes :: "info_src \<Rightarrow> byte list option" where
  "info_bytes info = (case info of Info bs \<Rightarrow> Some bs | _ \<Rightarrow> None)"

definition info_ok :: "sock \<Rightarrow> info_src \<Rightarrow> nat \<Rightarrow> bool" where
  "info_ok k info n \<longleftrightarrow> info \<noteq> TxBuf \<and> (case info of Info bs \<Rightarrow> n \<le> length bs | _ \<Rightarrow> True)
     \<and> n \<le> unat (s_n_maxlen_tx k)"

definition tx_buf_ok :: "sock \<Rightarrow> bool" where
  "tx_buf_ok k \<longleftrightarrow> unat (s_n_maxlen_tx k) < 2 ^ 32
     \<and> (\<exists>tx. s_tx_buf k = Some tx \<and> length tx = 73 + unat (s_n_maxlen_tx k))"

lemma tx_bufsz_ok:
  assumes "unat (s_n_maxlen_tx k) < 2 ^ 32"
  shows "unat (overhead + s_n_maxlen_tx k) = 73 + unat (s_n_maxlen_tx k)"
proof -
  have "unat (overhead + s_n_maxlen_tx k) = unat overhead + unat (s_n_maxlen_tx k)"
    by (rule unat_add_lem [THEN iffD1]) (use assms in \<open>simp add: overhead_def PATTY_AX25_FRAME_OVERHEAD_def\<close>)
  then show ?thesis by (simp add: overhead_def PATTY_AX25_FRAME_OVERHEAD_def)
qed

lemma wire_frame_of_length:
  assumes "sock_addr_ok k"
  shows "length (wire (frame_stations (frame_of k cr c p i n) False)) = 7 * (2 + s_hops k)"
  using wire_length [of "frame_stations (frame_of k cr c p i n) False"] frame_stations_ok [OF frame_of_addr_ok [OF assms], of cr c p i n False]
  by (auto dest: station_ok_length)

text \<open>
  The octets \<open>frame_send\<close> puts together, and that it stores them: the protocol is written only for
  control fields of I frames.
\<close>

definition sent_octets :: "sock \<Rightarrow> frame_cr \<Rightarrow> u16 \<Rightarrow> byte \<Rightarrow> info_src \<Rightarrow> nat \<Rightarrow> byte list" where
  "sent_octets k cr c proto info n =
     wire (frame_stations (frame_of k cr c proto (info_bytes info) n) False) @ control_octets k c
       @ (case info_bytes info of
            None \<Rightarrow> []
          | Some bs \<Rightarrow> if n = 0 then [] else (if PATTY_AX25_FRAME_CONTROL_I c then [proto] else []) @ take n bs)"

lemma frame_send_sent:
  assumes l: "l_sock l = k" "l_iface l = Some iface" and ok: "sock_addr_ok k" "tx_buf_ok k" "info_ok k info n"
    and tx: "s_tx_buf k = Some tx"
    and f: "f = frame_of k cr c proto (info_bytes info) n" and so: "so = sent_octets k cr c proto info n"
  shows "frame_send cr c proto info n l = link_if_send so (l\<lparr>l_sock := k\<lparr>s_tx_buf := Some (so @ drop (length so) tx)\<rparr>\<rparr>)"
    and "length so \<le> length tx"
proof -
  define w ctl off where "w = wire (frame_stations f False)" and "ctl = control_octets k c"
    and "off = 7 * (2 + s_hops k)"
  have lt: "length tx = 73 + unat (s_n_maxlen_tx k)" and small: "unat (s_n_maxlen_tx k) < 2 ^ 32"
    using ok(2) tx by (auto simp: tx_buf_ok_def)
  have hops: "s_hops k \<le> 8" using ok(1) by (simp add: sock_addr_ok_def)
  have ctl: "ctl = ctl_octets (f_format f) (f_control f)" "length ctl \<le> 2"
    using ctl_octets_length(1) by (simp_all add: ctl_def control_octets_eq [of k c cr proto "info_bytes info" n] f)
      (simp_all add: frame_of_def)
  have n: "n \<le> unat (s_n_maxlen_tx k)" using ok(3) by (simp add: info_ok_def)
  have room: "off + length ctl + 1 + n \<le> length tx"
    using hops ctl(2) n lt by (simp add: off_def)
  have lw: "length w = off" using wire_frame_of_length [OF ok(1)] by (simp add: w_def f off_def)
  have addr: "sock_encode_address k cr tx (unat (tx_bufsz k)) = Some (Inr off, w @ drop off tx)"
    unfolding sock_encode_address_eq [of k cr tx _ c proto "info_bytes info" n] w_def f off_def
    using encode_address_wire [OF frame_of_addr_ok [OF ok(1)], of cr c proto "info_bytes info" n "unat (tx_bufsz k)" tx False]
      hops lt tx_bufsz_ok [OF small] by (simp add: tx_bufsz_def)
  have big: "\<not> toobig k n" using n by (simp add: toobig_def tx_bufsz_ok [OF small])
  have nz: "callsign (s_remote k) ! 0 \<noteq> 0" using ok(1) by (simp add: sock_addr_ok_def station_ok_nonzero)
  have b1: "blit (w @ drop off tx) off ctl = Some (w @ ctl @ drop (off + length ctl) tx)"
    using blit_prefix [OF lw, of ctl "drop off tx"] room by (simp add: add.commute)
  have send: "frame_send cr c proto info n l
    = (do { (buf, offset) \<leftarrow>
              (if info \<noteq> NoInfo \<and> n \<noteq> 0
               then let pid = (if PATTY_AX25_FRAME_CONTROL_I c then [proto] else []) in
                    do { buf \<leftarrow> blit (w @ ctl @ drop (off + length ctl) tx) (off + length ctl) pid;
                         buf \<leftarrow> copy_info info n buf (off + length ctl + length pid);
                         Some (buf, off + length ctl + length pid + n) }
               else Some (w @ ctl @ drop (off + length ctl) tx, off + length ctl));
            link_if_send (take offset buf) (l\<lparr>l_sock := k\<lparr>s_tx_buf := Some buf\<rparr>\<rparr>) })"
    using l tx big nz addr b1 by (simp add: frame_send_def ctl_def Let_def)
  have "frame_send cr c proto info n l
      = link_if_send so
          (l\<lparr>l_sock := k\<lparr>s_tx_buf := Some (so @ drop (length so) tx)\<rparr>\<rparr>)
    \<and> length so \<le> length tx"
  proof (cases "info \<noteq> NoInfo \<and> n \<noteq> 0")
    case False
    then have "so = w @ ctl"
      using ok(3) by (auto simp: so sent_octets_def f info_bytes_def info_ok_def w_def ctl_def split: info_src.splits)
    with False send lw room show ?thesis by auto
  next
    case True
    then obtain bs where bs: "info = Info bs" "n \<le> length bs" "n \<noteq> 0"
      using ok(3) by (cases info) (auto simp: info_ok_def)
    define pid where "pid = (if PATTY_AX25_FRAME_CONTROL_I c then [proto] else [])"
    have fo: "so = w @ ctl @ pid @ take n bs"
      using bs by (simp add: so sent_octets_def f w_def ctl_def pid_def info_bytes_def)
    have lp: "length pid \<le> 1" by (simp add: pid_def)
    have b2: "blit (w @ ctl @ drop (off + length ctl) tx) (off + length ctl) pid
        = Some (w @ ctl @ pid @ drop (off + length ctl + length pid) tx)"
      using blit_prefix [of "w @ ctl" "off + length ctl" pid "drop (off + length ctl) tx"] lw room lp
      by (simp add: add.commute)
    have "blit (w @ ctl @ pid @ drop (off + length ctl + length pid) tx) (off + length ctl + length pid) (take n bs)
        = Some (w @ ctl @ pid @ take n bs @ drop (off + length ctl + length pid + n) tx)"
      using blit_prefix [of "w @ ctl @ pid" "off + length ctl + length pid" "take n bs" "drop (off + length ctl + length pid) tx"]
        lw room lp bs(2) by (simp add: min_absorb2 add.commute)
    then have "copy_info info n (w @ ctl @ pid @ drop (off + length ctl + length pid) tx) (off + length ctl + length pid)
        = Some (w @ ctl @ pid @ take n bs @ drop (off + length ctl + length pid + n) tx)"
      using bs by (simp add: copy_info_def slice_def)
    moreover have "length (w @ ctl @ pid @ take n bs) = off + length ctl + length pid + n" using lw bs(2) by simp
    ultimately show ?thesis
      using send True b2 room lp lw bs(2) unfolding fo pid_def [symmetric] by (simp add: Let_def min_absorb2 add.assoc)
  qed
  then show "frame_send cr c proto info n l
      = link_if_send so
          (l\<lparr>l_sock := k\<lparr>s_tx_buf := Some (so @ drop (length so) tx)\<rparr>\<rparr>)"
    and "length so \<le> length tx" by simp_all
qed

text \<open>But for UI frames with information these are the octets of the frame encoder.\<close>

lemma sent_octets_frame:
  assumes "info_ok k info n" and "tx_buf_ok k" and "\<not> PATTY_AX25_FRAME_CONTROL_UI c \<or> info = NoInfo \<or> n = 0"
  shows "sent_octets k cr c proto info n = frame_octets (frame_of k cr c proto (info_bytes info) n)"
proof -
  have un: "unat (of_nat n :: size_t) = n"
    by (subst unat_of_nat) (use assms(1,2) in \<open>simp add: info_ok_def tx_buf_ok_def\<close>)
  have "n = 0" if "(of_nat n :: size_t) = 0" using un unfolding that by simp
  then have "(of_nat n :: size_t) = 0 \<longleftrightarrow> n = 0" by auto
  moreover note un
  moreover have "control_octets k c = ctl_octets (f_format (frame_of k cr c proto (info_bytes info) n)) c"
    by (rule control_octets_eq)
  ultimately show ?thesis
    using assms(3) by (auto simp: sent_octets_def frame_octets_def frame_of_def proto_octets_def info_bytes_def
        split: info_src.splits)
qed

lemma frame_send_octets:
  assumes l: "l_sock l = k" "l_iface l = Some iface" and ok: "sock_addr_ok k" "tx_buf_ok k" "info_ok k info n"
    and ui: "\<not> PATTY_AX25_FRAME_CONTROL_UI c \<or> info = NoInfo"
    and tx: "s_tx_buf k = Some tx"
    and f: "f = frame_of k cr c proto (info_bytes info) n"
  shows "frame_send cr c proto info n l
    = link_if_send (frame_octets f)
        (l\<lparr>l_sock := k\<lparr>s_tx_buf := Some (frame_octets f @ drop (length (frame_octets f)) tx)\<rparr>\<rparr>)"
    and "length (frame_octets f) \<le> length tx"
proof -
  have "frame_octets f = sent_octets k cr c proto info n" using sent_octets_frame [OF ok(3,2)] ui f by auto
  from frame_send_sent [OF l ok tx f this]
  show "frame_send cr c proto info n l
    = link_if_send (frame_octets f)
        (l\<lparr>l_sock := k\<lparr>s_tx_buf := Some (frame_octets f @ drop (length (frame_octets f)) tx)\<rparr>\<rparr>)"
    and "length (frame_octets f) \<le> length tx" by simp_all
qed

text \<open>With them the protocol octet is missing, behind the addresses and the control octet.\<close>

lemma sent_octets_ui:
  fixes cr :: frame_cr and proto :: byte
  assumes "info_ok k info n" and "tx_buf_ok k" and "sock_addr_ok k"
    and "PATTY_AX25_FRAME_CONTROL_UI c" and "info \<noteq> NoInfo" and "n \<noteq> 0"
  defines "enc \<equiv> frame_octets (frame_of k cr c proto (info_bytes info) n)" and "p \<equiv> 7 * (2 + s_hops k) + 1"
  shows "sent_octets k cr c proto info n = take p enc @ drop (Suc p) enc" and "enc ! p = proto" and "p < length enc"
proof -
  let ?w = "wire (frame_stations (frame_of k cr c proto (info_bytes info) n) False)"
  obtain bs where bs: "info_bytes info = Some bs" using assms(1,5) by (cases info) (auto simp: info_ok_def info_bytes_def)
  have un: "unat (of_nat n :: size_t) = n"
    by (subst unat_of_nat) (use assms(1,2) in \<open>simp add: info_ok_def tx_buf_ok_def\<close>)
  then have nz: "(of_nat n :: size_t) \<noteq> 0" using assms(6) by (metis unat_0)
  have ctl: "ctl_octets fmt c = [ucast c]" for fmt using control_UI_U(1) [OF assms(4)] by (simp add: ctl_octets_def)
  have enc: "enc = (?w @ [ucast c]) @ proto # take n bs"
    using bs un nz assms(4) by (simp add: enc_def frame_octets_def ctl) (simp add: frame_of_def proto_octets_def un ctl)
  have len: "length (?w @ [ucast c]) = p" using wire_frame_of_length [OF assms(3)] by (simp add: p_def)
  have "sent_octets k cr c proto info n = (?w @ [ucast c]) @ take n bs"
    using bs assms(6) control_UI_U(2) [OF assms(4)]
    by (simp add: sent_octets_def control_octets_eq [of k c cr proto "info_bytes info" n] ctl)
  moreover have "take p enc = ?w @ [ucast c]" "drop (Suc p) enc = take n bs"
    unfolding enc len [symmetric] by (simp_all only: append_eq_conv_conj [symmetric] take_append drop_append) simp_all
  ultimately show "sent_octets k cr c proto info n = take p enc @ drop (Suc p) enc" by simp
  show "enc ! p = proto" unfolding enc len [symmetric] by (rule nth_append_length)
  show "p < length enc" unfolding enc len [symmetric] by simp
qed

text \<open>
  C23: The frames that sockets build by hand against those of the frame encoder. For every control
  field, and a socket whose addresses and buffers are in order, \<open>frame_send\<close> leaves in the socket's buffer and gives to the interface exactly what
  patty_ax25_frame_encode makes of the socket's addresses, mode and path, with one exception: a UI
  frame with information lacks the protocol octet, which the encoder writes behind the control field.
\<close>
theorem frame_send_encodes:
  assumes "l_iface l = Some iface" and "sock_addr_ok (l_sock l)" and "tx_buf_ok (l_sock l)"
    and "info_ok (l_sock l) info n" and "s_tx_buf (l_sock l) = Some tx"
  shows "\<exists>enc sent.
      patty_ax25_frame_encode (frame_of (l_sock l) cr c proto (info_bytes info) (if info = NoInfo then 0 else n)) tx (length tx)
        = Some (Inr (length enc), enc @ drop (length enc) tx)
    \<and> frame_send cr c proto info n l
        = link_if_send sent (l\<lparr>l_sock := (l_sock l)\<lparr>s_tx_buf := Some (sent @ drop (length sent) tx)\<rparr>\<rparr>)
    \<and> (if PATTY_AX25_FRAME_CONTROL_UI c \<and> info \<noteq> NoInfo \<and> n \<noteq> 0
       then (let pid = 7 * (2 + s_hops (l_sock l)) + 1 in
             pid < length enc \<and> enc ! pid = proto \<and> sent = take pid enc @ drop (Suc pid) enc)
       else sent = enc)"
proof -
  define n' where "n' = (if info = NoInfo then 0 else n)"
  let ?k = "l_sock l"
  let ?f = "frame_of ?k cr c proto (info_bytes info) n'" and ?so = "sent_octets ?k cr c proto info n"
  have lt: "length tx = 73 + unat (s_n_maxlen_tx ?k)" "unat (s_n_maxlen_tx ?k) < 2 ^ 32"
    using assms(3,5) by (auto simp: tx_buf_ok_def)
  have n: "n' \<le> unat (s_n_maxlen_tx ?k)" using assms(4) by (simp add: info_ok_def n'_def)
  have un: "unat (of_nat n' :: size_t) = n'" by (subst unat_of_nat) (use n lt in simp)
  have "f_infolen ?f = of_nat n'" by (simp add: frame_of_def)
  moreover have "s_hops ?k \<le> 8" using assms(2) by (simp add: sock_addr_ok_def)
  ultimately have enc: "patty_ax25_frame_encode ?f tx (length tx)
      = Some (Inr (length (frame_octets ?f)), frame_octets ?f @ drop (length (frame_octets ?f)) tx)"
    using assms(4) n lt un
    by (intro frame_encode_octets frame_of_addr_ok [OF assms(2)])
       (auto simp: frame_of_def info_bytes_def info_ok_def n'_def split: info_src.splits)
  have f: "frame_octets ?f = frame_octets (frame_of ?k cr c proto (info_bytes info) n)"
    by (cases "info = NoInfo") (simp_all add: n'_def frame_octets_def frame_of_def frame_stations_def info_bytes_def)
  have send: "frame_send cr c proto info n l
      = link_if_send ?so (l\<lparr>l_sock := ?k\<lparr>s_tx_buf := Some (?so @ drop (length ?so) tx)\<rparr>\<rparr>)"
    by (rule frame_send_sent [OF refl assms(1-5) refl refl])
  show ?thesis
    unfolding n'_def [symmetric]
    by (intro exI [of _ "frame_octets ?f"] exI [of _ ?so] conjI enc send)
      (use sent_octets_frame [OF assms(4,3), of c cr proto] sent_octets_ui [OF assms(4,3,2), of c cr proto] in
        \<open>auto simp: f Let_def\<close>)
qed

section \<open>Sequence numbers on the air\<close>


lemma control_U_bit: "PATTY_AX25_FRAME_CONTROL_U c \<Longrightarrow> bit c 0"
proof -
  assume "PATTY_AX25_FRAME_CONTROL_U c"
  then have "bit (c AND 0x03) 0 = bit (0x03 :: u16) 0" by (simp add: control_defs)
  then show "bit c 0" by (simp add: bits)
qed





lemma control_i_even: "\<not> bit (control_i k ns) 0"
  by (simp add: control_i_def Let_def bits split: sock_mode.split)


section \<open>Acknowledgement\<close>

text \<open>A slot waits when it holds a frame that was not acknowledged.\<close>

definition waiting :: "tx_slot \<Rightarrow> bool" where
  "waiting t \<longleftrightarrow> ts_len t > 0 \<and> \<not> ts_ack t"

lemma tx_seq_distinct:
  assumes "d < e" and "e \<le> d + n" and "int n < seq_modulus k"
  shows "tx_seq k (i + int d) \<noteq> tx_seq k (i + int e)"
proof
  assume "tx_seq k (i + int d) = tx_seq k (i + int e)"
  then have "seq_modulus k dvd (i + int e) - (i + int d)"
    unfolding tx_seq_mod by (metis mod_eq_dvd_iff)
  moreover have "0 < (i + int e) - (i + int d)" using assms(1) by simp
  moreover have "(i + int e) - (i + int d) < seq_modulus k" using assms by linarith
  ultimately show False using zdvd_imp_le by fastforce
qed

lemma seq_modulus_put [simp]: "seq_modulus (tx_slot_put k i t) = seq_modulus k"
  by (simp add: tx_slot_put_def seq_modulus_def)

text \<open>The slots of the \<open>n\<close> sequence numbers from \<open>i\<close> on.\<close>

definition seq_range :: "sock \<Rightarrow> int \<Rightarrow> nat \<Rightarrow> nat set" where
  "seq_range k i n = (\<lambda>d. nat (tx_seq k (i + int d))) ` {..<n}"

lemma seq_range_Suc: "seq_range k i (Suc n) = insert (nat (tx_seq k i)) (seq_range k (i + 1) n)"
  by (auto simp: seq_range_def lessThan_Suc_eq_insert_0 image_image algebra_simps)

lemma seq_range_distinct:
  assumes "int n < seq_modulus k"
  shows "nat (tx_seq k i) \<notin> seq_range k (i + 1) n"
proof
  assume "nat (tx_seq k i) \<in> seq_range k (i + 1) n"
  then obtain d where d: "d < n" "nat (tx_seq k i) = nat (tx_seq k (i + 1 + int d))" by (auto simp: seq_range_def)
  then have "tx_seq k (i + int 0) = tx_seq k (i + int (Suc d))"
    using eq_nat_nat_iff [OF tx_seq_range(1) tx_seq_range(1), of k i k "i + 1 + int d"] by (simp add: add.assoc)
  with tx_seq_distinct [of 0 "Suc d" n k i] d(1) assms show False by simp
qed

text \<open>The same socket but for the slots and \<open>va\<close>.\<close>

definition same_but_slots :: "sock \<Rightarrow> sock \<Rightarrow> bool" where
  "same_but_slots k k' \<longleftrightarrow> k'\<lparr>s_tx_slots := None, s_va := 0\<rparr> = k\<lparr>s_tx_slots := None, s_va := 0\<rparr>"

lemma same_but_slots_refl: "same_but_slots k k"
  by (simp add: same_but_slots_def)

lemma same_but_slots_trans: "same_but_slots k k' \<Longrightarrow> same_but_slots k' k'' \<Longrightarrow> same_but_slots k k''"
  by (simp add: same_but_slots_def)

lemma same_but_slots_put: "same_but_slots k ((tx_slot_put k i t)\<lparr>s_va := v\<rparr>)"
  by (simp add: same_but_slots_def tx_slot_put_def)

text \<open>
  The loop acknowledges the slots of its range that wait, leaves the others alone, and moves
  \<open>va\<close> behind the last one.
\<close>

lemma ack_loop_marks:
  assumes "slots_ok k" and "int n \<le> seq_modulus k" and "\<forall>j \<in> seq_range k i n. waiting (slot_list k ! j)"
  shows "\<exists>k'. ack_loop n i ret k = Some (ret + int n, k') \<and> slots_ok k'
    \<and> (\<forall>j. slot_list k' ! j = (if j \<in> seq_range k i n then (slot_list k ! j)\<lparr>ts_ack := True\<rparr> else slot_list k ! j))
    \<and> length (slot_list k') = length (slot_list k)
    \<and> same_but_slots k k' \<and> s_va k' = (if n = 0 then s_va k else tx_seq k (i + int n))"
  using assms
proof (induction n arbitrary: i ret k)
  case 0
  then show ?case by (simp add: seq_range_def same_but_slots_refl)
next
  case (Suc n)
  let ?i = "nat (tx_seq k i)"
  let ?t = "slot_list k ! ?i"
  let ?k = "(tx_slot_put k ?i (?t\<lparr>ts_ack := True\<rparr>))\<lparr>s_va := tx_seq k (i + 1)\<rparr>"
  note slot = tx_slot_ok [OF Suc.prems(1), of i]
  have w: "waiting ?t" using Suc.prems(3) by (simp add: seq_range_Suc)
  have lst: "slot_list ?k = (slot_list k)[?i := ?t\<lparr>ts_ack := True\<rparr>]"
    using slot_list_put [of k ?i "?t\<lparr>ts_ack := True\<rparr>"] by (simp add: slot_list_def)
  have ok: "slots_ok ?k"
    using slots_ok_put [OF Suc.prems(1), of "?t\<lparr>ts_ack := True\<rparr>" ?i] slot_data_ok [OF Suc.prems(1) slot(2)]
    by (subst slots_ok_cong [of _ "tx_slot_put k ?i (?t\<lparr>ts_ack := True\<rparr>)"]) simp_all
  have seq: "tx_seq ?k = tx_seq k" "seq_modulus ?k = seq_modulus k" "seq_range ?k = seq_range k"
    by (simp_all add: fun_eq_iff tx_seq_def tx_slot_put_def tx_slots_def seq_modulus_def seq_range_def)
  have fresh: "?i \<notin> seq_range k (i + 1) n" using Suc.prems(2) by (intro seq_range_distinct) simp
  then have "\<forall>j \<in> seq_range ?k (i + 1) n. waiting (slot_list ?k ! j)"
    using Suc.prems(3) unfolding lst seq by (simp add: seq_range_Suc) (metis nth_list_update_neq)
  from Suc.IH [OF ok _ this, of "ret + 1"] Suc.prems(2) obtain k' where
    k': "ack_loop n (i + 1) (ret + 1) ?k = Some (ret + 1 + int n, k')" "slots_ok k'"
      "\<forall>j. slot_list k' ! j = (if j \<in> seq_range k (i + 1) n then (slot_list ?k ! j)\<lparr>ts_ack := True\<rparr> else slot_list ?k ! j)"
      "length (slot_list k') = length (slot_list ?k)"
      "same_but_slots ?k k'" "s_va k' = (if n = 0 then s_va ?k else tx_seq k (i + 1 + int n))"
    unfolding seq by auto
  have "ack_loop (Suc n) i ret k = Some (ret + int (Suc n), k')"
    using slot k'(1) w by (simp add: waiting_def)
  moreover have "\<forall>j. slot_list k' ! j
      = (if j \<in> seq_range k i (Suc n) then (slot_list k ! j)\<lparr>ts_ack := True\<rparr> else slot_list k ! j)"
    using k'(3) slot(2) fresh unfolding lst by (auto simp: seq_range_Suc nth_list_update)
  moreover have "same_but_slots k k'" by (rule same_but_slots_trans [OF same_but_slots_put k'(5)])
  moreover have "s_va k' = tx_seq k (i + int (Suc n))" using k'(6) by (auto simp: algebra_simps)
  ultimately show ?case using k'(2,4) lst by auto
qed

lemma seq_modulus_pos: "0 < seq_modulus k"
  by (simp add: seq_modulus_def)

lemma seq_modulus_slots: "int (unat (tx_slots k)) = seq_modulus k"
  by (simp add: seq_modulus_def tx_slots_def)

lemma seq_range_iff:
  assumes "int n \<le> seq_modulus k"
  shows "j \<in> seq_range k i n \<longleftrightarrow> int j < seq_modulus k \<and> (int j - i) mod seq_modulus k < int n"
proof
  assume "j \<in> seq_range k i n"
  then obtain d where d: "d < n" "j = nat ((i + int d) mod seq_modulus k)" by (auto simp: seq_range_def tx_seq_mod)
  then have j: "int j = (i + int d) mod seq_modulus k" using seq_modulus_pos [of k] by simp
  then have "(int j - i) mod seq_modulus k = int d mod seq_modulus k"
    by (simp add: mod_diff_left_eq)
  also have "\<dots> = int d" using d(1) assms by (intro mod_pos_pos_trivial) linarith+
  finally show "int j < seq_modulus k \<and> (int j - i) mod seq_modulus k < int n"
    using j d(1) seq_modulus_pos [of k] by simp
next
  assume r: "int j < seq_modulus k \<and> (int j - i) mod seq_modulus k < int n"
  define d where "d = nat ((int j - i) mod seq_modulus k)"
  have d: "int d = (int j - i) mod seq_modulus k" using seq_modulus_pos [of k] by (simp add: d_def)
  then have "(i + int d) mod seq_modulus k = int j mod seq_modulus k" by (simp add: mod_add_right_eq)
  then have "nat (tx_seq k (i + int d)) = j" using r by (simp add: tx_seq_mod)
  moreover have "d < n" using r d by linarith
  ultimately show "j \<in> seq_range k i n" unfolding seq_range_def by blast
qed

text \<open>
  C9: An acknowledgement that is sound, one whose N(R) lies behind V(A) and only covers frames
  that wait, acknowledges exactly the frames from V(A) up to N(R), modulo 8 or 128: their slots are
  marked, all other slots and fields stay, V(A) becomes N(R), and their number is returned.
\<close>
theorem ack_marks_window:
  assumes "slots_ok k" and "0 \<le> s_va k" and "s_va k < seq_modulus k" and "0 \<le> nr" and "nr < seq_modulus k"
    and "nr \<noteq> s_va k"
    and "\<forall>j. int j < seq_modulus k \<and> (int j - s_va k) mod seq_modulus k < (nr - s_va k) mod seq_modulus k
           \<longrightarrow> waiting (slot_list k ! j)"
  shows "\<exists>k'. patty_ax25_sock_ack k nr = Some ((nr - s_va k) mod seq_modulus k, k')
    \<and> slots_ok k' \<and> s_va k' = nr \<and> same_but_slots k k'
    \<and> (\<forall>j. int j < seq_modulus k \<longrightarrow> slot_list k' ! j =
         (if (int j - s_va k) mod seq_modulus k < (nr - s_va k) mod seq_modulus k
          then (slot_list k ! j)\<lparr>ts_ack := True\<rparr> else slot_list k ! j))"
proof -
  define n where "n = nat ((nr - s_va k) mod seq_modulus k)"
  have n: "int n = (nr - s_va k) mod seq_modulus k" "int n \<le> seq_modulus k"
    using seq_modulus_pos [of k] by (simp_all add: n_def less_imp_le)
  have nz: "n \<noteq> 0"
  proof
    assume "n = 0"
    then have "seq_modulus k dvd nr - s_va k" using n(1) by (simp add: dvd_eq_mod_eq_0)
    then have "nr mod seq_modulus k = s_va k mod seq_modulus k" by (simp add: mod_eq_dvd_iff)
    with assms(2-6) show False by simp
  qed
  have max: "nat ((if nr < s_va k then nr + seq_modulus k else nr) - s_va k) = n"
  proof (cases "nr < s_va k")
    case True
    have "(nr - s_va k) mod seq_modulus k = (nr - s_va k + seq_modulus k) mod seq_modulus k" by simp
    also have "\<dots> = nr - s_va k + seq_modulus k" using True assms(2-5) by (intro mod_pos_pos_trivial) linarith+
    finally show ?thesis using True by (simp add: n_def algebra_simps)
  next
    case False
    have "(nr - s_va k) mod seq_modulus k = nr - s_va k" using False assms(2-5) by (intro mod_pos_pos_trivial) linarith+
    with False show ?thesis by (simp add: n_def)
  qed
  have va: "tx_seq k (s_va k + int n) = nr"
    using assms(4,5) by (simp add: tx_seq_mod n(1) mod_add_right_eq)
  have "\<forall>j \<in> seq_range k (s_va k) n. waiting (slot_list k ! j)"
    using assms(7) seq_range_iff [OF n(2), of _ "s_va k"] n(1) by simp
  from ack_loop_marks [OF assms(1) n(2) this, of 0] obtain k' where
    "ack_loop n (s_va k) 0 k = Some (int n, k')" "slots_ok k'" "same_but_slots k k'" "s_va k' = nr"
    and marks: "\<forall>j. slot_list k' ! j
      = (if j \<in> seq_range k (s_va k) n then (slot_list k ! j)\<lparr>ts_ack := True\<rparr> else slot_list k ! j)"
    using nz va by auto
  moreover from this have "patty_ax25_sock_ack k nr = Some ((nr - s_va k) mod seq_modulus k, k')"
    using assms(6) max n(1) by (simp add: patty_ax25_sock_ack_def Let_def)
  moreover have "\<forall>j. int j < seq_modulus k \<longrightarrow> slot_list k' ! j =
         (if (int j - s_va k) mod seq_modulus k < (nr - s_va k) mod seq_modulus k
          then (slot_list k ! j)\<lparr>ts_ack := True\<rparr> else slot_list k ! j)"
    using marks seq_range_iff [OF n(2), of _ "s_va k"] n(1) by simp
  ultimately show ?thesis by blast
qed

text \<open>A socket of the default size whose slots all wait.\<close>

definition sample_sock :: sock where
  "sample_sock = sock_zero\<lparr>s_mode := PATTY_AX25_SOCK_SABM, s_type := PATTY_AX25_SOCK_STREAM,
     s_state := PATTY_AX25_SOCK_ESTABLISHED, s_fd := 7, s_iface := 1,
     s_local := addr_of [0x41] 1, s_remote := addr_of [0x42] 2, s_n_maxlen_tx := 127, s_n_maxlen_rx := 127,
     s_n_window_tx := 4, s_n_window_rx := 4, s_n_retry := 10, s_retries := 10,
     s_tx_buf := Some (replicate 200 0), s_io_buf := Some (replicate 200 0),
     s_tx_slots := Some \<lparr>sl_size = 143, sl_list = replicate 8 \<lparr>ts_len = 2, ts_ack = False, ts_data = [1, 2]\<rparr>\<rparr>\<rparr>"

lemma sample_sock_slots: "slots_ok sample_sock" "slot_list sample_sock = replicate 8 \<lparr>ts_len = 2, ts_ack = False, ts_data = [1, 2]\<rparr>"
  by (simp_all add: slots_ok_def slot_list_def sample_sock_def tx_slot_size_def tx_slots_def)

lemma ack_marks_window_witness:
  "\<exists>k'. patty_ax25_sock_ack (sample_sock\<lparr>s_va := 6\<rparr>) 1 = Some (3, k') \<and> s_va k' = 1"
proof -
  have ok: "slots_ok (sample_sock\<lparr>s_va := 6\<rparr>)" using sample_sock_slots by (subst slots_ok_cong) simp_all
  have m: "seq_modulus (sample_sock\<lparr>s_va := 6\<rparr>) = 8" by (simp add: seq_modulus_def sample_sock_def)
  have "slot_list (sample_sock\<lparr>s_va := 6\<rparr>) = slot_list sample_sock" by (simp add: slot_list_def)
  then show ?thesis
    using ack_marks_window [OF ok, of 1] by (simp add: m sample_sock_slots waiting_def) blast
qed

section \<open>Sending is safe\<close>

definition sock_ok :: "sock \<Rightarrow> bool" where
  "sock_ok k \<longleftrightarrow> sock_addr_ok k \<and> tx_buf_ok k \<and> slots_ok k"

lemma sock_ok_cong:
  assumes "s_tx_slots k' = s_tx_slots k" "s_mode k' = s_mode k" "s_n_maxlen_tx k' = s_n_maxlen_tx k"
    "s_tx_buf k' = s_tx_buf k" "s_local k' = s_local k" "s_remote k' = s_remote k"
    "s_repeaters k' = s_repeaters k" "s_hops k' = s_hops k"
  shows "sock_ok k' = sock_ok k"
  using assms slots_ok_cong [OF assms(1-3)] by (simp add: sock_ok_def sock_addr_ok_def tx_buf_ok_def)

lemma sock_ok_tx_buf:
  assumes "sock_ok k" and "s_tx_buf k = Some tx" and "length b = length tx"
  shows "sock_ok (k\<lparr>s_tx_buf := Some b\<rparr>)"
  using assms slots_ok_cong [of "k\<lparr>s_tx_buf := Some b\<rparr>" k]
  by (auto simp: sock_ok_def sock_addr_ok_def tx_buf_ok_def)

lemma sock_ok_slots:
  assumes "sock_ok k" and "unat (ts_len t) \<le> length (ts_data t)" and "ts_len t \<le> s_n_maxlen_tx k"
  shows "sock_ok (tx_slot_put k i t)"
  using assms slots_ok_put [of k t i]
  by (simp add: sock_ok_def sock_addr_ok_def tx_buf_ok_def tx_slot_put_def)

context sending_driver
begin

text \<open>A link whose socket is in order and whose interface uses the driver.\<close>

definition link_ok :: "nat \<Rightarrow> 'p link \<Rightarrow> bool" where
  "link_ok len l \<longleftrightarrow> sock_ok (l_sock l) \<and> (\<exists>i. l_iface l = Some i \<and> iface_ok len i)"

lemma link_send_ok:
  assumes "l_iface l = Some i" and "iface_ok len i"
  obtains r i' w' where "link_if_send bs l = Some (r, l\<lparr>l_iface := Some i', l_world := w'\<rparr>)" and "iface_ok len i'"
proof -
  from if_send_ok [OF assms(2), of bs "l_world l"] obtain r i' w'
    where "patty_ax25_if_send i bs (l_world l) = Some (r, i', w')" and "iface_ok len i'" by blast
  with assms(1) show thesis by (intro that [of r w' i']) (simp_all add: link_if_send_def)
qed

lemma frame_send_ok:
  assumes "link_ok len l" and "info_ok (l_sock l) info n" and "\<not> PATTY_AX25_FRAME_CONTROL_UI c \<or> info = NoInfo"
  obtains r l' b where "frame_send cr c proto info n l = Some (r, l')" and "link_ok len l'"
    and "l_sock l' = (l_sock l)\<lparr>s_tx_buf := b\<rparr>"
proof -
  obtain i tx where i: "l_iface l = Some i" "iface_ok len i" and tx: "s_tx_buf (l_sock l) = Some tx"
    using assms(1) by (auto simp: link_ok_def sock_ok_def tx_buf_ok_def)
  have ok: "sock_addr_ok (l_sock l)" "tx_buf_ok (l_sock l)" "sock_ok (l_sock l)"
    using assms(1) by (auto simp: link_ok_def sock_ok_def)
  let ?o = "frame_octets (frame_of (l_sock l) cr c proto (info_bytes info) n)"
  let ?k = "(l_sock l)\<lparr>s_tx_buf := Some (?o @ drop (length ?o) tx)\<rparr>"
  note fs = frame_send_octets [OF refl i(1) ok(1,2) assms(2,3) tx refl, of cr proto]
  have k: "sock_ok ?k" using ok(3) tx fs(2) by (intro sock_ok_tx_buf) simp_all
  obtain r i' w' where "link_if_send ?o (l\<lparr>l_sock := ?k\<rparr>)
      = Some (r, l\<lparr>l_sock := ?k\<rparr>\<lparr>l_iface := Some i', l_world := w'\<rparr>)" "iface_ok len i'"
    by (rule link_send_ok [of "l\<lparr>l_sock := ?k\<rparr>" i len ?o]) (use i in simp_all)
  with fs(1) k show thesis by (intro that [of r "l\<lparr>l_sock := ?k\<rparr>\<lparr>l_iface := Some i', l_world := w'\<rparr>"])
    (simp_all add: link_ok_def)
qed

lemma resend_ok:
  assumes "link_ok len l"
  obtains r l' where "patty_ax25_sock_resend seq l = Some (r, l')" and "link_ok len l'"
    and "s_tx_slots (l_sock l') = s_tx_slots (l_sock l)"
proof -
  have ok: "slots_ok (l_sock l)" using assms by (simp add: link_ok_def sock_ok_def)
  let ?t = "slot_list (l_sock l) ! nat (tx_seq (l_sock l) seq)"
  note slot = tx_slot_ok [OF ok, of seq]
  show thesis
  proof (cases "ts_len ?t > 0")
    case False
    with slot(1) have "patty_ax25_sock_resend seq l = Some (0, l)" by (simp add: patty_ax25_sock_resend_def)
    with assms show thesis by (intro that) simp_all
  next
    case True
    have info: "info_ok (l_sock l) (Info (ts_data ?t)) (unat (ts_len ?t))"
      using slot_data_ok [OF ok slot(2)] by (simp add: info_ok_def word_le_nat_alt)
    have c: "\<not> PATTY_AX25_FRAME_CONTROL_UI (control_i (l_sock l) seq) \<or> Info (ts_data ?t) = NoInfo"
      using control_UI_U(1) control_U_bit control_i_even by blast
    from frame_send_ok [OF assms info c] obtain r l' b where
      "frame_send PATTY_AX25_FRAME_COMMAND (control_i (l_sock l) seq) (s_proto (l_sock l)) (Info (ts_data ?t))
         (unat (ts_len ?t)) l = Some (r, l')" "link_ok len l'" "l_sock l' = (l_sock l)\<lparr>s_tx_buf := b\<rparr>" by metis
    with slot(1) True show thesis by (intro that [of r l']) (simp_all add: patty_ax25_sock_resend_def)
  qed
qed

lemma resend_pending_ok:
  assumes "link_ok len l"
  shows "\<exists>r l'. patty_ax25_sock_resend_pending l = Some (r, l') \<and> link_ok len l'"
proof -
  have ok: "slots_ok (l_sock l)" using assms by (simp add: link_ok_def sock_ok_def)
  note slot = tx_slot_ok [OF ok, of "s_vs (l_sock l)"]
  obtain r l' where "patty_ax25_sock_resend (s_vs (l_sock l)) l = Some (r, l')" and "link_ok len l'"
    by (rule resend_ok [OF assms])
  moreover have "link_ok len (l'\<lparr>l_sock := (l_sock l')\<lparr>s_vs := v\<rparr>\<rparr>)" if "link_ok len l'" for v l'
    using that sock_ok_cong [of "(l_sock l')\<lparr>s_vs := v\<rparr>" "l_sock l'"] by (simp add: link_ok_def)
  ultimately show ?thesis using assms slot(1) by (auto simp: patty_ax25_sock_resend_pending_def)
qed

lemma sock_write_ok:
  assumes "link_ok len l" and "s_type (l_sock l) = PATTY_AX25_SOCK_STREAM" and "s_mode (l_sock l) \<noteq> PATTY_AX25_SOCK_DM"
    and "n \<le> length buf" and "n \<le> unat (s_n_maxlen_tx (l_sock l))"
  shows "\<exists>r l'. patty_ax25_sock_write buf n l = Some (r, l') \<and> link_ok len l' \<and> (r = -1 \<or> r = int n)"
proof -
  let ?k = "l_sock l"
  have ok: "sock_ok ?k" "slots_ok ?k" using assms by (simp_all add: link_ok_def sock_ok_def)
  note slot = tx_slot_ok [OF ok(2), of "s_vs ?k"]
  let ?i = "nat (tx_seq ?k (s_vs ?k))"
  have small: "n < 2 ^ 64" using le_less_trans [OF assms(5) unsigned_less] by simp
  have un: "unat (of_nat n :: size_t) = n" by (subst unat_of_nat) (use small in simp)
  let ?t = "(slot_list ?k ! ?i)\<lparr>ts_len := of_nat n, ts_ack := False, ts_data := take n buf\<rparr>"
  let ?k1 = "tx_slot_put ?k ?i ?t"
  have "slice buf 0 n = Some (take n buf)" using assms(4) by (simp add: slice_def)
  moreover have "tx_slot_save ?k (take n buf) = Some ?k1"
    using slot(1) assms(4,5) by (simp add: tx_slot_save_def min_absorb2)
  moreover have k1: "sock_ok ?k1"
    by (rule sock_ok_slots [OF ok(1)]) (use assms(4,5) un in \<open>simp_all add: word_le_nat_alt\<close>)
  moreover have k1_eqs: "s_proto ?k1 = s_proto ?k" "s_vs ?k1 = s_vs ?k" "s_n_maxlen_tx ?k1 = s_n_maxlen_tx ?k"
    by (simp_all add: tx_slot_put_def)
  moreover obtain r l' b where "frame_send PATTY_AX25_FRAME_COMMAND (control_i ?k1 (s_vs ?k1)) (s_proto ?k1) (Info buf) n
      (l\<lparr>l_sock := ?k1\<rparr>) = Some (r, l')" "link_ok len l'"
  proof (rule frame_send_ok [of len "l\<lparr>l_sock := ?k1\<rparr>" "Info buf" n "control_i ?k1 (s_vs ?k1)"])
    show "link_ok len (l\<lparr>l_sock := ?k1\<rparr>)" using assms(1) k1 by (simp add: link_ok_def)
    show "info_ok (l_sock (l\<lparr>l_sock := ?k1\<rparr>)) (Info buf) n" using assms(4,5) k1_eqs by (simp add: info_ok_def)
    show "\<not> PATTY_AX25_FRAME_CONTROL_UI (control_i ?k1 (s_vs ?k1)) \<or> Info buf = NoInfo"
      using control_UI_U(1) control_U_bit control_i_even by blast
  qed blast
  moreover have "link_ok len (l'\<lparr>l_sock := patty_ax25_sock_vs_incr (l_sock l')\<rparr>)" if "link_ok len l'" for l'
    using that sock_ok_cong [of "patty_ax25_sock_vs_incr (l_sock l')" "l_sock l'"]
    by (simp add: link_ok_def patty_ax25_sock_vs_incr_def)
  ultimately show ?thesis
    using assms(2,3,5) by (auto simp: patty_ax25_sock_write_def Let_def)
qed

end

lemma ack_loop_ok:
  assumes "slots_ok k"
  shows "\<exists>r k'. ack_loop n i ret k = Some (r, k') \<and> slots_ok k' \<and> same_but_slots k k'"
  using assms
proof (induction n arbitrary: i ret k)
  case 0
  then show ?case by (simp add: same_but_slots_refl)
next
  case (Suc n)
  let ?i = "nat (tx_seq k i)"
  let ?t = "(slot_list k ! ?i)\<lparr>ts_ack := True\<rparr>"
  let ?k = "(tx_slot_put k ?i ?t)\<lparr>s_va := tx_seq k (i + 1)\<rparr>"
  note slot = tx_slot_ok [OF Suc.prems, of i]
  have "slots_ok ?k"
    using slots_ok_put [OF Suc.prems, of ?t ?i] slot_data_ok [OF Suc.prems slot(2)]
    by (subst slots_ok_cong [of _ "tx_slot_put k ?i ?t"]) simp_all
  then show ?case
    using Suc.IH [of ?k "i + 1" "ret + 1"] Suc.IH [OF Suc.prems, of "i + 1" ret] slot(1)
      same_but_slots_trans [OF same_but_slots_put [of k "tx_seq k (i + 1)" ?i ?t]]
    by auto
qed

lemma sock_ok_same:
  assumes "sock_ok k" and "slots_ok k'" and "same_but_slots k k'"
  shows "sock_ok k'"
proof -
  have "f k' = f k" if "\<And>sl v q. f (q\<lparr>s_tx_slots := sl, s_va := v\<rparr>) = f q" for f :: "sock \<Rightarrow> 'a"
    using assms(3) that by (metis same_but_slots_def)
  note same = this
  have "sock_addr_ok k' = sock_addr_ok k" by (rule same) (simp add: sock_addr_ok_def)
  moreover have "tx_buf_ok k' = tx_buf_ok k" by (rule same) (simp add: tx_buf_ok_def)
  ultimately show ?thesis using assms(1,2) by (simp add: sock_ok_def)
qed

lemma sock_ack_ok:
  assumes "sock_ok k"
  shows "\<exists>r k'. patty_ax25_sock_ack k nr = Some (r, k') \<and> sock_ok k'"
proof -
  have ok: "slots_ok k" using assms by (simp add: sock_ok_def)
  show ?thesis
    using ack_loop_ok [OF ok] sock_ok_same [OF assms] assms
    by (auto simp: patty_ax25_sock_ack_def Let_def) (metis assms sock_ok_same ack_loop_ok ok)+
qed

section \<open>The buffers a socket is given\<close>

lemma clear_slots_ok:
  assumes "slots_ok k"
  shows "\<exists>k'. clear_slots n i k = Some k' \<and> slots_ok k' \<and> same_but_slots k k'"
  using assms
proof (induction n arbitrary: i k)
  case 0
  then show ?case by (simp add: same_but_slots_refl)
next
  case (Suc n)
  let ?i = "nat (tx_seq k (int i))"
  let ?t = "(slot_list k ! ?i)\<lparr>ts_len := 0, ts_ack := False\<rparr>"
  note slot = tx_slot_ok [OF Suc.prems, of "int i"]
  have "slots_ok (tx_slot_put k ?i ?t)" by (rule slots_ok_put [OF Suc.prems]) simp_all
  moreover have "same_but_slots k (tx_slot_put k ?i ?t)" by (simp add: same_but_slots_def tx_slot_put_def)
  ultimately show ?case using Suc.IH [of "tx_slot_put k ?i ?t" "i + 1"] slot(1) same_but_slots_trans by fastforce
qed

lemma alloc_slots_ok:
  assumes "unat (s_n_maxlen_tx k) < 2 ^ 32"
  shows "slots_ok (k\<lparr>s_tx_slots := Some (alloc_slots k)\<rparr>)"
proof -
  have s: "unat (tx_slot_size k) = 16 + unat (s_n_maxlen_tx k)"
    using assms by (simp add: tx_slot_size_def unat_word_ariths)
  have m: "unat (tx_slots k) \<le> 128" "unat (tx_slots k) \<noteq> 0" by (auto simp: tx_slots_def)
  have "unat (tx_slots k) * unat (tx_slot_size k) \<le> 128 * (2 ^ 32 + 16)"
    by (rule mult_le_mono) (use m s assms in auto)
  then have "unat (tx_slots_size k) = unat (tx_slots k) * unat (tx_slot_size k)"
    by (simp add: tx_slots_size_def unat_word_ariths)
  with s have d: "unat (tx_slots_size k) div unat (tx_slot_size k) = unat (tx_slots k)" by simp
  show ?thesis
    unfolding slots_ok_def by (simp add: alloc_slots_def d) (simp add: tx_slot_size_def tx_slots_def slot_empty_def)
qed

text \<open>
  C29: Buffers. Whatever the parameters of a socket (with a frame length below 4 GiB), allocating its
  buffers either fails, or leaves it with a transmit buffer that holds every frame and with one
  slot of the right size for each sequence number. No slot outside of the allocation is touched.
\<close>
theorem realloc_establishes:
  assumes "unat (s_n_maxlen_tx k) < 2 ^ 32"
  shows "\<exists>r k' w'. patty_ax25_sock_realloc_bufs k w = Some (r, k', w') \<and> (r = 0 \<or> r = -1)
    \<and> (r = 0 \<longrightarrow> tx_buf_ok k' \<and> slots_ok k' \<and> s_mode k' = s_mode k \<and> s_n_maxlen_tx k' = s_n_maxlen_tx k
         \<and> s_io_buf k' = Some (replicate (73 + unat (s_n_maxlen_tx k)) 0))"
proof -
  obtain r1 w1 where c1: "sys_call w = (r1, w1)" by (rule prod.exhaust)
  obtain r2 w2 where c2: "sys_call w1 = (r2, w2)" by (rule prod.exhaust)
  obtain r3 w3 where c3: "sys_call w2 = (r3, w3)" by (rule prod.exhaust)
  let ?tx = "replicate (73 + unat (s_n_maxlen_tx k)) 0 :: byte list"
  define k1 where "k1 = k\<lparr>s_tx_buf := Some ?tx, s_io_buf := Some ?tx\<rparr>"
  have sz: "unat (tx_bufsz k') = 73 + unat (s_n_maxlen_tx k')" "unat (io_bufsz k') = 73 + unat (s_n_maxlen_tx k')"
    if "s_n_maxlen_tx k' = s_n_maxlen_tx k" for k'
    using tx_bufsz_ok [of k'] assms that by (simp_all add: tx_bufsz_def io_bufsz_def)
  have "slots_ok (k1\<lparr>s_tx_slots := Some (alloc_slots k1)\<rparr>)" using assms by (intro alloc_slots_ok) (simp add: k1_def)
  from clear_slots_ok [OF this] obtain k2 where
    k2: "clear_slots (unat (tx_slots k1)) 0 (k1\<lparr>s_tx_slots := Some (alloc_slots k1)\<rparr>) = Some k2" "slots_ok k2"
      "same_but_slots (k1\<lparr>s_tx_slots := Some (alloc_slots k1)\<rparr>) k2" by blast
  have f: "f k2 = f k1" if "\<And>sl v q. f (q\<lparr>s_tx_slots := sl, s_va := v\<rparr>) = f q" "\<And>sl q. f (q\<lparr>s_tx_slots := sl\<rparr>) = f q" for f :: "sock \<Rightarrow> 'a"
    using k2(3) that by (metis same_but_slots_def)
  have "s_tx_buf k2 = s_tx_buf k1" "s_io_buf k2 = s_io_buf k1" "s_mode k2 = s_mode k1" "s_n_maxlen_tx k2 = s_n_maxlen_tx k1"
    by (rule f; simp)+
  then have fin: "tx_buf_ok k2 \<and> slots_ok k2 \<and> s_mode k2 = s_mode k \<and> s_n_maxlen_tx k2 = s_n_maxlen_tx k
      \<and> s_io_buf k2 = Some ?tx"
    using assms k2(2) by (simp add: tx_buf_ok_def k1_def)
  have "patty_ax25_sock_realloc_bufs k w =
    (if r1 < 0 then Some (-1, k\<lparr>s_tx_buf := None\<rparr>, w1)
     else if r2 < 0 then Some (-1, (k\<lparr>s_tx_buf := Some ?tx\<rparr>)\<lparr>s_io_buf := None, s_tx_buf := None\<rparr>, w2)
     else if r3 < 0 then Some (-1, k1\<lparr>s_tx_slots := None, s_io_buf := None, s_tx_buf := None\<rparr>, w3)
     else Some (0, k2, w3))"
    using c1 c2 c3 k2(1) sz by (simp add: patty_ax25_sock_realloc_bufs_def init_bufs_def Let_def k1_def)
  with fin show ?thesis by (cases "r1 < 0"; cases "r2 < 0"; cases "r3 < 0") auto
qed

lemma realloc_establishes_witness:
  "\<exists>r k' w'. patty_ax25_sock_realloc_bufs (sample_sock\<lparr>s_mode := PATTY_AX25_SOCK_SABME\<rparr>) (world0 []) = Some (r, k', w')
    \<and> (r = 0 \<longrightarrow> slots_ok k')"
  using realloc_establishes [of "sample_sock\<lparr>s_mode := PATTY_AX25_SOCK_SABME\<rparr>" "world0 []"]
  by (auto simp: sample_sock_def)

section \<open>Over the KISS driver\<close>


definition kiss_link_ok :: "tnc link \<Rightarrow> bool" where
  "kiss_link_ok l \<longleftrightarrow> sock_ok (l_sock l) \<and> (\<exists>i. l_iface l = Some i \<and> kiss_iface_ok 4096 i)"

lemma kiss_link_ok_iff: "kiss_link_ok l \<longleftrightarrow> kiss_driver.link_ok 4096 l"
  by (simp add: kiss_link_ok_def kiss_driver.link_ok_def kiss_iface_ok_iff)

text \<open>
  C19: Memory safety of the sender. On a connection whose addresses, buffers and slots fit its
  parameters, and for every behaviour of the interface's device, a write of at most the
  negotiated length, a repetition, every supervisory frame, the frames that connect and disconnect,
  and an acknowledgement of any number stay inside their buffers, and leave the connection in such
  a state again.
\<close>
theorem sock_send_safe:
  assumes "kiss_link_ok l" and "s_type (l_sock l) = PATTY_AX25_SOCK_STREAM" and "s_mode (l_sock l) \<noteq> PATTY_AX25_SOCK_DM"
    and "n \<le> length buf" and "n \<le> unat (s_n_maxlen_tx (l_sock l))"
  shows "(\<exists>r l'. patty_ax25_sock_write buf n l = Some (r, l') \<and> kiss_link_ok l' \<and> (r = -1 \<or> r = int n))
    \<and> (\<exists>r l'. patty_ax25_sock_resend_pending l = Some (r, l') \<and> kiss_link_ok l')
    \<and> (\<exists>r l'. patty_ax25_sock_resend seq l = Some (r, l') \<and> kiss_link_ok l')
    \<and> (\<exists>r k'. patty_ax25_sock_ack (l_sock l) nr = Some (r, k') \<and> sock_ok k')
    \<and> (\<exists>r l'. patty_ax25_sock_send_rr cr pf l = Some (r, l') \<and> kiss_link_ok l')
    \<and> (\<exists>r l'. patty_ax25_sock_send_rnr cr pf l = Some (r, l') \<and> kiss_link_ok l')
    \<and> (\<exists>r l'. patty_ax25_sock_send_rej cr pf l = Some (r, l') \<and> kiss_link_ok l')
    \<and> (\<exists>r l'. patty_ax25_sock_send_srej cr l = Some (r, l') \<and> kiss_link_ok l')
    \<and> (\<exists>r l'. patty_ax25_sock_send_sabm pf l = Some (r, l') \<and> kiss_link_ok l')
    \<and> (\<exists>r l'. patty_ax25_sock_send_disc pf l = Some (r, l') \<and> kiss_link_ok l')"
proof -
  have l: "kiss_driver.link_ok 4096 l" using assms(1) by (simp add: kiss_link_ok_iff)
  have bare: "\<exists>r l'. frame_send cr c 0 NoInfo 0 l = Some (r, l') \<and> kiss_link_ok l'" for cr c
    by (rule kiss_driver.frame_send_ok [OF l, of NoInfo 0 c cr 0]) (auto simp: info_ok_def kiss_link_ok_iff)
  have "(\<exists>r l'. patty_ax25_sock_write buf n l = Some (r, l') \<and> kiss_link_ok l' \<and> (r = -1 \<or> r = int n))
    \<and> (\<exists>r l'. patty_ax25_sock_resend_pending l = Some (r, l') \<and> kiss_link_ok l')
    \<and> (\<exists>r l'. patty_ax25_sock_resend seq l = Some (r, l') \<and> kiss_link_ok l')
    \<and> (\<exists>r k'. patty_ax25_sock_ack (l_sock l) nr = Some (r, k') \<and> sock_ok k')"
    using kiss_driver.sock_write_ok [OF l assms(2-5)] kiss_driver.resend_pending_ok [OF l]
      kiss_driver.resend_ok [OF l, of seq] sock_ack_ok [of "l_sock l" nr] assms(1)
    unfolding kiss_link_ok_iff by (metis kiss_link_ok_iff kiss_link_ok_def)
  then show ?thesis
    by (simp add: bare patty_ax25_sock_send_rr_def patty_ax25_sock_send_rnr_def patty_ax25_sock_send_rej_def
        patty_ax25_sock_send_srej_def patty_ax25_sock_send_sabm_def patty_ax25_sock_send_disc_def Let_def)
qed

lemma station_ok_samples: "station_ok (callsign (addr_of [0x41] 1))" "station_ok (callsign (addr_of [0x42] 2))"
proof -
  have "station_chars (callsign (addr_of [0x41] 1)) False" "station_chars (callsign (addr_of [0x42] 2)) False"
    by code_simp+
  then show "station_ok (callsign (addr_of [0x41] 1))" "station_ok (callsign (addr_of [0x42] 2))"
    by (simp_all add: station_ok_iff addr_of_def)
qed

definition sample_link :: "tnc link" where
  "sample_link = \<lparr>l_sock = sample_sock, l_iface = Some (kiss_iface 3), l_world = world0 []\<rparr>"

lemma sample_sock_ok: "sock_ok sample_sock"
  using sample_sock_slots(1) station_ok_samples
  by (auto simp: sock_ok_def sock_addr_ok_def tx_buf_ok_def sample_sock_def sock_zero_def PATTY_AX25_MAX_HOPS_def)

lemma sample_link_ok: "kiss_link_ok sample_link"
  using sample_sock_ok kiss_iface_ok_new [of 4096 3] by (simp add: kiss_link_ok_def sample_link_def)

lemma sample_link_simps [simp]:
  "l_sock sample_link = sample_sock" "l_iface sample_link = Some (kiss_iface 3)" "l_world sample_link = world0 []"
  "s_type sample_sock = PATTY_AX25_SOCK_STREAM" "s_mode sample_sock = PATTY_AX25_SOCK_SABM"
  "s_n_maxlen_tx sample_sock = 127" "s_vs sample_sock = 0" "s_vr sample_sock = 0" "s_proto sample_sock = 0"
  by (simp_all add: sample_link_def sample_sock_def sock_zero_def)

lemma sock_send_safe_witness:
  "(\<exists>r l'. patty_ax25_sock_write [1, 2, 3] 3 sample_link = Some (r, l') \<and> (r = -1 \<or> r = 3))
   \<and> (\<exists>r l'. patty_ax25_sock_send_rej PATTY_AX25_FRAME_COMMAND 1 sample_link = Some (r, l') \<and> kiss_link_ok l')"
  using sock_send_safe [OF sample_link_ok, of 3 "[1, 2, 3]" 0 0 PATTY_AX25_FRAME_COMMAND 1]
  by (simp add: sample_link_simps) blast

lemma frame_send_encodes_witness:
  "\<exists>enc sent. patty_ax25_frame_encode (frame_of sample_sock PATTY_AX25_FRAME_COMMAND 0x03 0xf0 (Some [1, 2, 3]) 3)
        (replicate 200 0) 200 = Some (Inr (length enc), enc @ drop (length enc) (replicate 200 0))
    \<and> frame_send PATTY_AX25_FRAME_COMMAND 0x03 0xf0 (Info [1, 2, 3]) 3 sample_link
        = link_if_send sent (sample_link\<lparr>l_sock := sample_sock\<lparr>s_tx_buf := Some (sent @ drop (length sent) (replicate 200 0))\<rparr>\<rparr>)
    \<and> 15 < length enc \<and> enc ! 15 = 0xf0 \<and> sent = take 15 enc @ drop 16 enc"
proof -
  have "s_tx_buf sample_sock = Some (replicate 200 0)" by (simp add: sample_sock_def)
  moreover have "info_ok sample_sock (Info [1, 2, 3]) 3" by (simp add: info_ok_def)
  moreover have "PATTY_AX25_FRAME_CONTROL_UI 0x03" by (simp add: control_defs)
  moreover have "s_hops sample_sock = 0" by (simp add: sample_sock_def sock_zero_def)
  ultimately show ?thesis
    using frame_send_encodes [of sample_link "kiss_iface 3" "Info [1, 2, 3]" 3 "replicate 200 0"
        PATTY_AX25_FRAME_COMMAND "0x03" "0xf0"] sample_sock_ok
    by (simp add: sock_ok_def info_bytes_def Let_def)
qed





end
