(* ===== verification/Patty_Limits.thy ===== *)
theory Patty_Limits
  imports Patty_Transmit
begin

text \<open>
  The limits of a connection: what negotiation leaves of the peer's offer, where the send window
  stops the sender, what happens to writes longer than a frame, and the reassembly of segmented data.
  Laws of the definitions of \<open>Patty_Sock\<close>, which model \<open>src/src/sock.c\<close>.
\<close>

section \<open>Negotiation\<close>

lemma HAS_bit: "HAS f (2 ^ n) \<longleftrightarrow> bit f n"
  by (simp add: HAS_def and_exp_eq_0_iff_not_bit)

lemma HAS_or: "HAS f (a OR b) \<longleftrightarrow> HAS f a \<or> HAS f b"
  by (auto simp: HAS_def bit.conj_disj_distrib or_eq_0_iff)

text \<open>What the tests of parameter numbers against the flags look at.\<close>

lemma HAS_numbers:
  "HAS f 2 \<longleftrightarrow> bit f 1" "HAS f 3 \<longleftrightarrow> bit f 0 \<or> bit f 1" "HAS f 6 \<longleftrightarrow> bit f 1 \<or> bit f 2" "HAS f 8 \<longleftrightarrow> bit f 3"
  "HAS f 9 \<longleftrightarrow> bit f 0 \<or> bit f 3" "HAS f 10 \<longleftrightarrow> bit f 1 \<or> bit f 3"
  using HAS_bit [of f 0] HAS_bit [of f 1] HAS_bit [of f 2] HAS_bit [of f 3]
    HAS_or [of f 1 2] HAS_or [of f 2 4] HAS_or [of f 1 8] HAS_or [of f 2 8]
  by simp_all

lemma negotiate_hdlc_values:
  assumes "negotiate_hdlc sock params = (r, sock', params')"
  shows "\<exists>h. sock' = sock\<lparr>s_flags_hdlc := h\<rparr>" and "\<exists>h. params' = params\<lparr>p_hdlc := h\<rparr>"
proof -
  have "\<exists>h. sock = sock\<lparr>s_flags_hdlc := h\<rparr>" by (rule exI [of _ "s_flags_hdlc sock"]) simp
  moreover have "\<exists>h. params = params\<lparr>p_hdlc := h\<rparr>" by (rule exI [of _ "p_hdlc params"]) simp
  ultimately show "\<exists>h. sock' = sock\<lparr>s_flags_hdlc := h\<rparr>" and "\<exists>h. params' = params\<lparr>p_hdlc := h\<rparr>"
    using assms by (auto simp: negotiate_hdlc_def Let_def split: if_splits)
qed

lemma sock_update_ifs:
  "(if c then k\<lparr>s_n_maxlen_tx := x\<rparr> else k) = k\<lparr>s_n_maxlen_tx := (if c then x else s_n_maxlen_tx k)\<rparr>"
  "(if c then k\<lparr>s_n_window_tx := x\<rparr> else k) = k\<lparr>s_n_window_tx := (if c then x else s_n_window_tx k)\<rparr>"
  "(if c then k\<lparr>s_n_ack := x, s_timer_t1 := t\<rparr> else k)
     = k\<lparr>s_n_ack := (if c then x else s_n_ack k), s_timer_t1 := (if c then t else s_timer_t1 k)\<rparr>"
  "(if c then k\<lparr>s_n_retry := x\<rparr> else k) = k\<lparr>s_n_retry := (if c then x else s_n_retry k)\<rparr>"
  by simp_all

lemma negotiate_values_narrow:
  defines "v \<equiv> negotiate_values"
  shows "s_n_maxlen_tx (v k p) \<le> s_n_maxlen_tx k" "s_n_window_tx (v k p) \<le> s_n_window_tx k"
    "s_n_ack k \<le> s_n_ack (v k p)" "s_n_retry k \<le> s_n_retry (v k p)"
    "s_mode (v k p) = s_mode k" "s_state (v k p) = s_state k" "s_tx_slots (v k p) = s_tx_slots k"
  by (auto simp: v_def negotiate_values_def Let_def)

text \<open>
  C27: Negotiation only narrows. Whatever a peer offers, the frame length and the window that the
  socket sends with never grow, the acknowledgement time and the number of retries never shrink,
  and the mode and the buffers stay; an offer that is refused changes nothing but the reject flags.
\<close>
theorem negotiate_narrows:
  assumes "patty_ax25_sock_params_negotiate sock params = (r, sock', params')"
  shows "s_n_maxlen_tx sock' \<le> s_n_maxlen_tx sock \<and> s_n_window_tx sock' \<le> s_n_window_tx sock
    \<and> s_n_ack sock \<le> s_n_ack sock' \<and> s_n_retry sock \<le> s_n_retry sock'
    \<and> s_mode sock' = s_mode sock \<and> s_state sock' = s_state sock \<and> s_tx_slots sock' = s_tx_slots sock
    \<and> (case r of Inl e \<Rightarrow> e \<in> {ENOTSUP, EINVAL} \<and> sock' = sock\<lparr>s_flags_hdlc := s_flags_hdlc sock'\<rparr> | Inr _ \<Rightarrow> True)"
proof (cases "negotiate_classes params")
  case (Inl e)
  with assms show ?thesis
    by (auto simp: patty_ax25_sock_params_negotiate_def negotiate_classes_def split: if_splits)
next
  case (Inr u)
  obtain q k p where h: "negotiate_hdlc sock params = (q, k, p)" by (cases "negotiate_hdlc sock params")
  obtain h' where k: "k = sock\<lparr>s_flags_hdlc := h'\<rparr>" using negotiate_hdlc_values(1) [OF h] by blast
  have "case q of Inl e \<Rightarrow> e = EINVAL | Inr _ \<Rightarrow> True"
    using h by (auto simp: negotiate_hdlc_def Let_def split: if_splits)
  with assms Inr h show ?thesis
    using negotiate_values_narrow [of k p]
    by (auto simp: patty_ax25_sock_params_negotiate_def k split: sum.splits)
qed

lemma negotiate_narrows_witness:
  "s_n_maxlen_tx (fst (snd (patty_ax25_sock_params_negotiate (sock_zero\<lparr>s_n_maxlen_tx := 256\<rparr>)
     (params_zero\<lparr>p_flags := 0x44, p_info_rx := 1024\<rparr>)))) \<le> 256"
proof -
  obtain r k p where e: "patty_ax25_sock_params_negotiate (sock_zero\<lparr>s_n_maxlen_tx := 256\<rparr>)
      (params_zero\<lparr>p_flags := 0x44, p_info_rx := 1024\<rparr>) = (r, k, p)"
    by (rule prod_cases3)
  from negotiate_narrows [OF e] show ?thesis by (simp add: e)
qed

text \<open>Decoding sets no flag below bit 2.\<close>

lemma set_param_flag_low: "n < t \<Longrightarrow> bit (p_flags (set_param_flag t params)) n = bit (p_flags params) n"
  by (auto simp: set_param_flag_def bit_or_iff bit_exp_iff)

lemma save_xid_param_low: "n < 2 \<Longrightarrow> bit (p_flags (save_xid_param params t v)) n = bit (p_flags params) n"
  by (simp add: save_xid_param_def set_param_flag_low)

lemma xid_params_loop_low:
  "xid_params_loop params data off stop = Some (params', off') \<Longrightarrow> n < 2 \<Longrightarrow> bit (p_flags params') n = bit (p_flags params) n"
proof (induction params data off stop rule: xid_params_loop.induct)
  case (1 params data off stop)
  from 1(2) show ?case
    by (subst (asm) xid_params_loop.simps)
      (auto simp: bind_eq_Some_conv save_xid_param_low 1(1,3) split: if_splits)
qed

definition low_clear :: "params \<Rightarrow> bool" where
  "low_clear params \<longleftrightarrow> \<not> bit (p_flags params) 0 \<and> \<not> bit (p_flags params) 1"

lemma decode_xid_group_low:
  "decode_xid_group params data off len = Some (r, params') \<Longrightarrow> low_clear params \<Longrightarrow> low_clear params'"
  using xid_params_loop_low [of params_zero data "off + 4" _ _ _ 0] xid_params_loop_low [of params_zero data "off + 4" _ _ _ 1]
  by (auto simp: decode_xid_group_def low_clear_def params_zero_def Let_def bind_eq_Some_conv split: if_splits)

lemma decode_xid_loop_low:
  "decode_xid_loop params data off len = Some (r, params') \<Longrightarrow> low_clear params \<Longrightarrow> low_clear params'"
proof (induction params data off len rule: decode_xid_loop.induct)
  case (1 params data off len)
  show ?case
  proof (cases "off < len")
    case True
    with 1(2) obtain q p where g: "decode_xid_group params data off len = Some (q, p)"
      by (subst (asm) decode_xid_loop.simps) (auto split: option.splits)
    then have "low_clear p" using 1(3) by (rule decode_xid_group_low)
    then show ?thesis
      using True g 1(1) [OF True g refl] 1(2) decode_xid_loop.simps [of params data off len] by (cases q) auto
  next
    case False
    with 1(2,3) show ?thesis by (subst (asm) decode_xid_loop.simps) (auto split: if_splits)
  qed
qed

text \<open>
  Negotiation reads the wrong flags. The numbers of the parameters are tested against the
  flags instead of their bits. So for every decoded XID the classes and the HDLC functions are
  accepted unseen; the frame length is limited by the offer exactly when the message has the
  classes parameter (to 0 when it has no information length), and the window, the timer and the
  retries follow the offer exactly when it has the HDLC functions.
\<close>
theorem negotiate_wrong_flags:
  assumes "patty_ax25_frame_decode_xid params0 data off len = Some (r, params)"
    and "bit (p_flags params0) 0 = False" and "bit (p_flags params0) 1 = False"
  defines "given \<equiv> \<lambda>t. bit (p_flags params) t"
  shows "patty_ax25_sock_params_negotiate sock params =
    (Inr (), sock\<lparr>s_n_maxlen_tx := (if given PATTY_AX25_PARAM_CLASSES
                             then min (s_n_maxlen_tx sock) (drop_bit 3 (p_info_rx params)) else s_n_maxlen_tx sock),
          s_n_window_tx := (if given PATTY_AX25_PARAM_HDLC
                             then min (s_n_window_tx sock) (p_window_rx params) else s_n_window_tx sock),
          s_n_ack := (if given PATTY_AX25_PARAM_HDLC then max (s_n_ack sock) (p_ack params) else s_n_ack sock),
          s_timer_t1 := (if given PATTY_AX25_PARAM_HDLC \<and> s_n_ack sock < p_ack params
                         then patty_timer_init (s_timer_t1 sock) (sint (p_ack params)) else s_timer_t1 sock),
          s_n_retry := (if given PATTY_AX25_PARAM_HDLC then max (s_n_retry sock) (p_retry params) else s_n_retry sock)\<rparr>, params)"
  (is "_ = (_, ?k, _)")
proof -
  have "low_clear params"
    using assms(1-3) decode_xid_loop_low [of params0 data off len]
    by (auto simp: patty_ax25_frame_decode_xid_def low_clear_def)
  then have low: "\<not> bit (p_flags params) 0" "\<not> bit (p_flags params) 1" by (simp_all add: low_clear_def)
  then have "negotiate_classes params = Inr ()" "negotiate_hdlc sock params = (Inr (), sock, params)"
    by (simp_all add: negotiate_classes_def negotiate_hdlc_def HAS_numbers)
  moreover have "negotiate_values sock params = ?k"
    using low by (simp add: negotiate_values_def Let_def HAS_numbers given_def sock_update_ifs)
  ultimately show ?thesis by (simp add: patty_ax25_sock_params_negotiate_def)
qed

lemma negotiate_wrong_flags_witness:
  defines "p \<equiv> params_zero\<lparr>p_flags := 0x7ff, p_classes := 0x2100, p_hdlc := 0x868a22, p_info_rx := 1024, p_window_rx := 4\<rparr>"
  shows "\<exists>r params k. patty_ax25_frame_decode_xid params_zero (xid_octets p @ []) 0 (length (xid_octets p)) = Some (r, params)
    \<and> patty_ax25_sock_params_negotiate (sock_zero\<lparr>s_n_maxlen_tx := 256, s_n_window_tx := 7\<rparr>) params = (Inr (), k, params)
    \<and> s_n_maxlen_tx k = 128 \<and> s_n_window_tx k = 4"
proof -
  have fit: "params_fit p" by (simp add: p_def params_fit_def params_zero_def mask_eq_decr_exp)
  have vals: "p_flags (params_sent p) = 0x74c" "p_info_rx (params_sent p) = 1024" "p_window_rx (params_sent p) = 4"
    by (simp_all add: params_sent_def p_def params_zero_def has_param_def)
  have bits: "bit (0x74c :: u32) 2" "bit (0x74c :: u32) 3" by simp_all
  have dec: "patty_ax25_frame_decode_xid params_zero (xid_octets p @ []) 0 (length (xid_octets p))
      = Some (Inr (length (xid_octets p)), params_sent p)"
    by (rule decode_xid_octets [OF fit refl])
  have zero: "bit (p_flags params_zero) 0 = False" "bit (p_flags params_zero) 1 = False"
    by (simp_all add: params_zero_def)
  show ?thesis
    using negotiate_wrong_flags [OF dec zero, of "sock_zero\<lparr>s_n_maxlen_tx := 256, s_n_window_tx := 7\<rparr>"] dec bits
    by (simp add: vals)
qed

section \<open>The window\<close>

lemma flow_left_mod:
  assumes "uint (s_n_window_tx k) < 128" and "s_n_window_tx k \<noteq> 1" and "0 \<le> s_va k" and "s_va k < 128"
  shows "patty_ax25_sock_flow_left k = s_vs k - (s_va k + uint (s_n_window_tx k)) mod seq_modulus k"
proof -
  define n where "n = s_va k + uint (s_n_window_tx k)"
  have n: "0 \<le> n" "n < 256" using assms(1,3,4) by (simp_all add: n_def)
  have "word_of_int (s_va k) + s_n_window_tx k = word_of_int n"
    by (simp add: n_def)
  moreover have "sint (ucast (word_of_int n :: size_t) :: u32) = n"
  proof -
    have "uint (word_of_int n :: size_t) = n" using n by (simp add: uint_word_of_int)
    then have "uint (ucast (word_of_int n :: size_t) :: u32) = n"
      using n by (simp only: unsigned_ucast_eq) (simp add: take_bit_int_eq_self)
    then show ?thesis
      using n by (simp only: sint_uint) (simp add: signed_take_bit_int_eq_self)
  qed
  ultimately show ?thesis using assms(2) by (simp add: patty_ax25_sock_flow_left_def tx_seq_mod n_def)
qed

lemma one_ahead:
  fixes m :: int
  assumes "0 \<le> vs" and "vs < m"
  shows "vs - (va + w) mod m = 1 \<longleftrightarrow> vs \<noteq> 0 \<and> (vs - va) mod m = (w + 1) mod m"
proof -
  define t where "t = (va + w) mod m"
  have t: "0 \<le> t" "t < m" using assms by (simp_all add: t_def)
  have "(vs - va) mod m = (w + 1) mod m \<longleftrightarrow> m dvd vs - t - 1"
  proof -
    have "m dvd vs - t - 1 \<longleftrightarrow> (vs - 1) mod m = (va + w) mod m"
      using mod_eq_dvd_iff [of "vs - 1" m t] by (simp add: t_def algebra_simps)
    also have "\<dots> \<longleftrightarrow> m dvd (vs - va) - (w + 1)" by (simp add: mod_eq_dvd_iff algebra_simps)
    finally show ?thesis by (simp add: mod_eq_dvd_iff)
  qed
  moreover have "m dvd vs - t - 1 \<longleftrightarrow> vs - t - 1 = 0 \<or> vs - t - 1 = - m"
  proof
    assume "m dvd vs - t - 1"
    then obtain q where q: "vs - t - 1 = m * q" by (elim dvdE)
    have "m * q < m * 1" "m * (- 2) < m * q" using q t assms by linarith+
    then have "q < 1" "- 2 < q" using assms by (simp_all only: mult_less_cancel_left_pos)
    then have "q = 0 \<or> q = - 1" by linarith
    then show "vs - t - 1 = 0 \<or> vs - t - 1 = - m" using q by auto
  qed auto
  ultimately show ?thesis unfolding t_def [symmetric] using t assms by auto
qed

text \<open>
  C40: The window closes one frame late. With a window of \<open>k > 1\<close> frames below the modulus, the sender
  polls and stops reading from its client exactly when \<open>k + 1\<close> frames are outstanding and V(S) is not 0;
  with V(S) at 0 it never does. A window of one frame stops it always.
\<close>
theorem flow_stops_late:
  assumes "0 \<le> s_vs k" and "s_vs k < seq_modulus k" and "0 \<le> s_va k" and "s_va k < seq_modulus k"
    and "0 < s_n_window_tx k" and "uint (s_n_window_tx k) < seq_modulus k"
  shows "patty_ax25_sock_flow_left k = 1 \<longleftrightarrow>
    s_n_window_tx k = 1 \<or> s_vs k \<noteq> 0 \<and> (s_vs k - s_va k) mod seq_modulus k = (uint (s_n_window_tx k) + 1) mod seq_modulus k"
proof (cases "s_n_window_tx k = 1")
  case True
  then show ?thesis by (simp add: patty_ax25_sock_flow_left_def)
next
  case False
  have m: "seq_modulus k = 8 \<or> seq_modulus k = 128" by (simp add: seq_modulus_def)
  have w: "uint (s_n_window_tx k) < 128" "s_va k < 128" using assms(4,6) m by linarith+
  have "s_vs k - (s_va k + uint (s_n_window_tx k)) mod seq_modulus k = 1
    \<longleftrightarrow> s_vs k \<noteq> 0 \<and> (s_vs k - s_va k) mod seq_modulus k = (uint (s_n_window_tx k) + 1) mod seq_modulus k"
    by (rule one_ahead) (use assms(1,2) in simp_all)
  then show ?thesis using False flow_left_mod [OF w(1) False assms(3) w(2)] by simp
qed

lemma flow_stops_late_witness:
  "patty_ax25_sock_flow_left (sock_zero\<lparr>s_mode := PATTY_AX25_SOCK_SABM, s_n_window_tx := 4, s_va := 6, s_vs := 3\<rparr>) = 1
   \<and> patty_ax25_sock_flow_left (sock_zero\<lparr>s_mode := PATTY_AX25_SOCK_SABM, s_n_window_tx := 4, s_va := 3, s_vs := 0\<rparr>) \<noteq> 1"
  using flow_stops_late [of "sock_zero\<lparr>s_mode := PATTY_AX25_SOCK_SABM, s_n_window_tx := 4, s_va := 6, s_vs := 3\<rparr>"]
    flow_stops_late [of "sock_zero\<lparr>s_mode := PATTY_AX25_SOCK_SABM, s_n_window_tx := 4, s_va := 3, s_vs := 0\<rparr>"]
  by (simp add: seq_modulus_def)

section \<open>Long writes\<close>

lemma frame_send_overlap:
  assumes "l_iface l = Some iface" and "sock_addr_ok (l_sock l)" and "tx_buf_ok (l_sock l)"
    and "73 < n" and "n \<le> unat (s_n_maxlen_tx (l_sock l))"
  shows "frame_send cr c proto TxBuf n l = None"
proof -
  let ?k = "l_sock l"
  obtain tx where tx: "s_tx_buf ?k = Some tx" "length tx = 73 + unat (s_n_maxlen_tx ?k)"
    and small: "unat (s_n_maxlen_tx ?k) < 2 ^ 32"
    using assms(3) by (auto simp: tx_buf_ok_def)
  let ?f = "frame_of ?k cr c proto None 0"
  define off where "off = 7 * (2 + s_hops ?k)"
  have hops: "s_hops ?k \<le> 8" using assms(2) by (simp add: sock_addr_ok_def)
  have "sock_encode_address ?k cr tx (unat (tx_bufsz ?k)) = Some (Inr off, wire (frame_stations ?f False) @ drop off tx)"
    unfolding sock_encode_address_eq [of ?k cr tx _ c proto None 0] off_def
    using encode_address_wire [OF frame_of_addr_ok [OF assms(2)], of cr c proto None 0 "unat (tx_bufsz ?k)" tx False]
      hops tx tx_bufsz_ok [OF small] by (simp add: tx_bufsz_def)
  moreover have "\<not> toobig ?k n" using assms(5) by (simp add: toobig_def tx_bufsz_ok [OF small])
  moreover have "callsign (s_remote ?k) ! 0 \<noteq> 0" using assms(2) by (simp add: sock_addr_ok_def station_ok_nonzero)
  moreover have "length (control_octets ?k c) \<le> 2"
    using ctl_octets_length(1) by (simp add: control_octets_eq [of ?k c cr proto None 0] frame_of_def)
  ultimately show ?thesis
    using assms(1,4) hops tx(1) by (simp add: frame_send_def Let_def copy_info_def off_def bind_eq_None_conv)
qed

lemma segments_nat:
  fixes seg :: size_t
  assumes "unat seg = d" and "1 < d" and "len < 2 ^ 20" and "(len + 1) div d + (if len mod d \<noteq> 0 then 1 else 0) \<le> 128"
  shows "unat ((of_nat len + 1) div seg + (if of_nat len mod seg \<noteq> 0 then 1 else 0))
    = (len + 1) div d + (if len mod d \<noteq> 0 then 1 else 0)"
proof -
  have len: "unat (of_nat len :: size_t) = len" "unat (of_nat (Suc len) :: size_t) = Suc len"
    using assms(3) by (subst unat_of_nat; simp)+
  have "unat ((of_nat len + 1) div seg) = (len + 1) div d"
    using len(2) assms(1) by (simp add: unat_div ac_simps)
  moreover have "of_nat len mod seg \<noteq> 0 \<longleftrightarrow> len mod d \<noteq> 0"
    using len(1) assms(1) unat_mod [of "of_nat len" seg] by (metis unat_eq_zero)
  moreover have "unat (a + 1) = unat a + 1" if "unat a \<le> 128" for a :: size_t
    using that by (subst unat_add_lem [THEN iffD1]) simp_all
  ultimately show ?thesis using assms(4) by auto
qed

lemma uint_and_byte: "unat x < 256 \<Longrightarrow> (x :: size_t) AND 0xff = x"
  using take_bit_eq_mask [of 8 x]
  by (simp add: word_unat_eq_iff mask_eq_decr_exp unsigned_take_bit_eq take_bit_nat_eq_self)

lemma long_write_segments:
  fixes d len :: nat
  assumes "1 < d" and "d + 1 < len" and "len < 127 * d"
  shows "1 < (len + 1) div d + (if len mod d \<noteq> 0 then 1 else 0)"
    and "(len + 1) div d + (if len mod d \<noteq> 0 then 1 else 0) \<le> 128"
proof -
  have "(len + 1) div d \<le> 127 * d div d" using assms(3) by (intro div_le_mono) simp
  then have "(len + 1) div d \<le> 127" using assms(1) by simp
  then show "(len + 1) div d + (if len mod d \<noteq> 0 then 1 else 0) \<le> 128" by simp
  have "1 \<le> (len + 1) div d" using assms(1,2) by (simp add: div_greater_zero_iff Suc_le_eq)
  moreover have "2 \<le> (len + 1) div d" if "len mod d = 0"
  proof -
    from that obtain k where k: "len = d * k" by (auto elim: dvdE simp: mod_eq_0_iff_dvd)
    then have "2 \<le> k" using assms(2) by (cases k; cases "k - 1") auto
    then have "2 * d \<le> len + 1" unfolding k by (metis mult.commute mult_le_mono2 trans_le_add1)
    then show ?thesis using assms(1) by (simp add: less_eq_div_iff_mult_less_eq)
  qed
  ultimately show "1 < (len + 1) div d + (if len mod d \<noteq> 0 then 1 else 0)" by auto
qed

text \<open>The number of segments of a long write, computed in \<open>size_t\<close>, is between two and the maximum.\<close>

lemma long_write_count:
  fixes maxlen :: size_t
  assumes "76 \<le> maxlen" and "maxlen \<le> 256" and "unat maxlen < length bs" and "length bs < 127 * (unat maxlen - 1)"
  shows "\<exists>n. unat ((of_nat (length bs) + 1) div (maxlen - 1) + (if of_nat (length bs) mod (maxlen - 1) \<noteq> 0 then 1 else 0))
      = Suc (Suc n) \<and> Suc (Suc n) \<le> 128"
proof -
  define m where "m = unat maxlen"
  define q where "q = (length bs + 1) div (m - 1) + (if length bs mod (m - 1) \<noteq> 0 then 1 else 0)"
  have m: "76 \<le> m" "m \<le> 256" "m < length bs" "length bs < 127 * (m - 1)"
    using assms by (simp_all add: m_def word_le_nat_alt)
  have seg: "unat (maxlen - 1) = m - 1" using assms(1) m(1) by (simp add: m_def unat_sub word_le_nat_alt)
  have q: "1 < q" "q \<le> 128" unfolding q_def using long_write_segments [of "m - 1" "length bs"] m by simp_all
  have "unat ((of_nat (length bs) + 1) div (maxlen - 1) + (if of_nat (length bs) mod (maxlen - 1) \<noteq> 0 then 1 else 0)) = q"
    unfolding q_def by (rule segments_nat [OF seg]) (use m q q_def in simp_all)
  moreover have "q = Suc (Suc (q - 2))" using q by simp
  ultimately show ?thesis using q by (intro exI [of _ "q - 2"]) simp
qed

text \<open>
  The first segment is built in \<open>tx_buf\<close> behind the room for the header, saved in its slot, and then
  encoded into the buffer it stands in.
\<close>

lemma segment_overlaps:
  assumes "sock_ok (l_sock l)" and "l_iface l = Some iface"
    and "76 \<le> s_n_maxlen_tx (l_sock l)" and "s_n_maxlen_tx (l_sock l) \<le> 256"
    and "unat (s_n_maxlen_tx (l_sock l)) < length bs"
  shows "write_segments (Suc (Suc n)) True 0 (s_n_maxlen_tx (l_sock l) - 1) bs (length bs) l = None"
proof -
  let ?k = "l_sock l"
  define m where "m = unat (s_n_maxlen_tx ?k)"
  define seg where "seg = s_n_maxlen_tx ?k - 1"
  have m: "76 \<le> m" "m \<le> 256" "m < length bs" using assms(3-5) by (simp_all add: m_def word_le_nat_alt)
  have m2: "Suc (Suc (m - 2)) = m" "m - 2 \<le> 71 + m" using m by simp_all
  have seg: "unat seg = m - 1" using assms(3) m(1) by (simp add: seg_def m_def unat_sub word_le_nat_alt)
  have ok: "slots_ok ?k" "sock_addr_ok ?k" "tx_buf_ok ?k" using assms(1) by (simp_all add: sock_ok_def)
  obtain tx where tx: "s_tx_buf ?k = Some tx" "length tx = 73 + m" using ok(3) by (auto simp: tx_buf_ok_def m_def)
  define k1 where "k1 bs = tx_slot_put ?k (nat (tx_seq ?k (s_vs ?k)))
      ((slot_list ?k ! nat (tx_seq ?k (s_vs ?k)))\<lparr>ts_len := of_nat (length bs), ts_ack := False, ts_data := bs\<rparr>)" for bs
  define part where "part = take (m - 2) bs"
  have part: "length part = m - 2" "slice bs 0 (m - 2) = Some part" using m by (simp_all add: part_def slice_def)
  have copylen: "unat ((seg AND 0xff) - 1) = m - 2"
    using uint_and_byte [of seg] seg m by (simp add: unat_sub word_le_nat_alt)
  have save: "tx_slot_save ?k part = Some (k1 part)"
    using tx_slot_ok(1) [OF ok(1), of "s_vs ?k"] part(1) m by (simp add: tx_slot_save_def k1_def m_def [symmetric])
  have un: "unat (of_nat (length part) :: size_t) = length part" using m part(1) by (subst unat_of_nat) simp
  have k1: "sock_ok (k1 part)" unfolding k1_def
    by (rule sock_ok_slots [OF assms(1)]) (use part(1) m un in \<open>simp_all add: word_le_nat_alt m_def [symmetric]\<close>)
  have k1_eqs: "s_tx_buf (k1 part) = Some tx" "s_n_maxlen_tx (k1 part) = s_n_maxlen_tx ?k"
    by (simp_all add: k1_def tx_slot_put_def tx)
  define head where "head = [(1 + of_nat n AND 0xff :: byte) OR 0x80, s_proto ?k]"
  define t2 where "t2 = head @ part @ drop m tx"
  have dm: "drop m (x # y # drop 2 tx) = drop m tx" for x y
    using m by (simp add: drop_Cons' numeral_2_eq_2 Suc_diff_Suc)
  have b: "blit tx 0 head = Some (head @ drop 2 tx)" "blit (head @ drop 2 tx) 2 part = Some t2"
    using tx(2) part(1) m2 dm by (simp_all add: blit_def head_def t2_def numeral_2_eq_2 [symmetric])
  have "sock_ok ((k1 part)\<lparr>s_tx_buf := Some t2\<rparr>)"
    by (rule sock_ok_tx_buf [OF k1 k1_eqs(1)]) (use tx(2) m part(1) in \<open>simp add: t2_def head_def\<close>)
  then have "frame_send PATTY_AX25_FRAME_COMMAND c PATTY_AX25_PROTO_FRAGMENT TxBuf m
      (l\<lparr>l_sock := (k1 part)\<lparr>s_tx_buf := Some t2\<rparr>\<rparr>) = None" for c
    using assms(2) m k1_eqs(2) by (intro frame_send_overlap) (simp_all add: sock_ok_def m_def [symmetric])
  moreover note b [unfolded head_def numeral_2_eq_2]
  ultimately have "write_segments (Suc (Suc n)) True 0 seg bs (length bs) l = None"
    using tx(1) part copylen save by (simp add: Let_def m2(1))
  then show ?thesis by (simp only: seg_def)
qed

text \<open>
  C38: A write that needs several frames is undefined. On every stream connection in order, with an
  interface and a frame length of 76 to 256 bytes, and for every text that is longer than one frame
  but fits 127 segments, the first segment is built in the transmit buffer itself and copied with
  \<open>memcpy\<close> to an overlapping place in it.
\<close>
theorem long_write_undefined:
  assumes "sock_ok (l_sock l)" and "l_iface l = Some iface" and "s_type (l_sock l) = PATTY_AX25_SOCK_STREAM"
    and "s_mode (l_sock l) \<noteq> PATTY_AX25_SOCK_DM"
    and "76 \<le> s_n_maxlen_tx (l_sock l)" and "s_n_maxlen_tx (l_sock l) \<le> 256"
    and "unat (s_n_maxlen_tx (l_sock l)) < length bs" and "length bs < 127 * (unat (s_n_maxlen_tx (l_sock l)) - 1)"
  shows "patty_ax25_sock_write bs (length bs) l = None"
proof -
  let ?m = "s_n_maxlen_tx (l_sock l)"
  define sg :: size_t where "sg = (of_nat (length bs) + 1) div (?m - 1) + (if of_nat (length bs) mod (?m - 1) \<noteq> 0 then 1 else 0)"
  from long_write_count [OF assms(5-8)] obtain n where n: "unat sg = Suc (Suc n)" "Suc (Suc n) \<le> 128"
    unfolding sg_def by blast
  then have "\<not> PATTY_AX25_SOCK_SEGMENTS_MAX < sg" by (simp add: PATTY_AX25_SOCK_SEGMENTS_MAX_def word_less_nat_alt)
  moreover have "\<not> ?m < 2" using assms(5) by (simp add: word_less_nat_alt word_le_nat_alt)
  moreover note segment_overlaps [OF assms(1,2,5-7), of n]
  ultimately show ?thesis
    using assms(3,4,7) n(1)
    by (simp only: patty_ax25_sock_write_def write_segmented_def Let_def sg_def [symmetric]
        sock_type.case if_True if_False simp_thms)
qed

lemma long_write_undefined_witness:
  "patty_ax25_sock_write (replicate 128 0) (length (replicate 128 (0 :: byte))) sample_link = None"
  by (rule long_write_undefined [where iface = "kiss_iface 3"]) (use sample_sock_ok in simp_all)

section \<open>Reassembly\<close>





end
