(* ===== verification/Spec2Isabelle.thy ===== *)
theory Spec2Isabelle
  imports Patty_Examples Patty_Limits
begin

text \<open>
  Verification of patty, an AX.25 v2.2 protocol stack in C that runs in user space.

  \<^bold>\<open>The program.\<close> A daemon, \<open>pattyd\<close>, owns the radio devices. Programs talk to it over a Unix socket
  through a client library, and exchange the data of their connections with it over pseudo
  terminals, one per socket. Inside the daemon a single event loop serves the timers and data of the
  sockets, the requests of the clients and the frames that the interfaces receive. An interface hides
  its device behind a table of functions, of which there are two: a KISS modem on a serial line or a
  terminal, and a connection to an APRS-IS server. Frames are decoded once, dispatched by their type
  to a handler, and change the state of at most the connection they belong to. Two tools,
  \<open>ax25dump\<close> and \<open>tncd\<close>, watch an interface, and three samples show the use of the library.

  \<^bold>\<open>Theories and sources.\<close> In the order of their imports; paths are relative to \<open>src/\<close>.
  \<^item> \<open>Patty_Prelude\<close>: machine types, \<open>errno\<close>, the scripted system, lemma collections.
  \<^item> \<open>Patty_Util\<close>: \<open>src/util.c\<close>, \<open>src/error.c\<close>. \<open>Patty_Format\<close>: the conversions of \<open>printf\<close> and
    \<open>atoi\<close> that the front ends use (no source of this program).
  \<^item> \<open>Patty_Hash\<close>: \<open>src/hash.c\<close>. \<open>Patty_Dict\<close>: \<open>src/dict.c\<close>, a trie of buckets, with the interface
    \<open>key_store\<close> and its interpretation \<open>dict\<close>. \<open>Patty_List\<close>: \<open>src/list.c\<close> over a heap of items.
    \<open>Patty_Timer\<close>: \<open>src/timer.c\<close>.
  \<^item> \<open>Patty_Ax25\<close>: \<open>src/ax25.c\<close>, \<open>include/patty/ax25.h\<close>: stations, their text and hash, parameters.
    \<open>Patty_Frame\<close>: \<open>src/frame.c\<close>: addresses, control field, XID. \<open>Patty_Print\<close>: \<open>src/print.c\<close>.
  \<^item> \<open>Patty_Kiss\<close>, \<open>Patty_Tnc\<close>: \<open>src/kiss.c\<close>, \<open>src/tnc.c\<close>: framing, and the modem's life.
    \<open>Patty_If\<close>: \<open>src/if.c\<close>, with the interfaces \<open>link_driver\<close> and \<open>sending_driver\<close> and their
    interpretation \<open>kiss_driver\<close>. \<open>Patty_Aprs\<close>: \<open>src/aprs_is.c\<close>, interpretation \<open>aprs_driver\<close>.
    \<open>Patty_Route\<close>: \<open>src/route.c\<close>.
  \<^item> \<open>Patty_Sock\<close>: \<open>src/sock.c\<close>: parameters, buffers, sequence numbers, sending. \<open>Patty_Transmit\<close> and
    \<open>Patty_Limits\<close> hold its laws: invariants, what is put on the air, windows, segments.
  \<^item> \<open>Patty_Message\<close>: the messages of \<open>include/patty/client.h\<close>. \<open>src/server.c\<close> in the order of the
    file: \<open>Patty_Server\<close> (state and tables), \<open>Patty_Calls\<close> (requests of clients), \<open>Patty_Input\<close>
    (handlers of frames), \<open>Patty_Event\<close> (the event loop). \<open>Patty_Machine\<close> and \<open>Patty_Registry\<close> hold its
    laws: the state machine of connections, the registers of sockets.
  \<^item> \<open>Patty_Client\<close>: \<open>src/client.c\<close>, and the library and the server together.
  \<^item> \<open>Patty_Conf\<close>: \<open>src/conf.c\<close>. \<open>Patty_Daemon\<close>: \<open>src/daemon.c\<close>, \<open>bin/if.c\<close>, \<open>bin/kiss.c\<close>,
    \<open>bin/pattyd.c\<close>, interpretation \<open>net_driver\<close>. \<open>Patty_Tools\<close>: \<open>bin/ax25dump.c\<close>, \<open>bin/tncd.c\<close>.
    \<open>Patty_Examples\<close>: \<open>examples/connect.c\<close>, \<open>examples/listen.c\<close>, \<open>examples/login.c\<close>.

  \<^bold>\<open>How the model corresponds to the code.\<close> Definitions have the names of the C functions (static
  functions of the same name in two files are told apart by a word of their file), structs are
  records, enumerations are data types where the code treats them as such and words where it computes
  with them.
  \<^item> Undefined behaviour of C is \<open>None\<close> of the outermost \<open>option\<close>: following NULL or a freed pointer,
    leaving an allocation, reading what was never received, copying between overlapping memory. A
    failing call is a value: \<open>Inl\<close> of an \<open>errno\<close>, or the negative result of the C function, with
    \<open>errno\<close> in the world or the client.
  \<^item> The operating system is a script in the state (\<open>world\<close>). Every call that may fail takes the next
    reply; an empty script means success, and a read from an empty script finds the end of the input.
    What is written is logged in \<open>out\<close> by descriptor. Allocation is such a call too; a dictionary takes
    one reply for the allocations of one update. A write is done completely or not at all.
  \<^item> Interfaces, entries of interfaces, routes, sockets and dictionaries of clients live in maps from
    addresses; address 0 is NULL, and a freed object is not in its map.
  \<^item> \<open>size_t\<close> values that the code computes with are 64-bit words and wrap; offsets into buffers are
    natural numbers, checked at each access; sequence variables are integers, as the C \<open>int\<close>s that stay
    within the window's modulus. Structs on the wire follow the little-endian LP64 layout.
  \<^item> Uninitialised memory, \<open>strerror\<close>, the addresses that allocation gives, the results of
    \<open>getopt_long\<close>, the clock and the descriptors that \<open>select\<close> reports are arguments.

  \<^bold>\<open>Loops.\<close> Loops over data are structural or have a measure. The loops that read from a device until
  it has nothing more are \<open>partial_function (option)\<close>s: that the receive loop of an interface returns,
  whatever the device does, is \<open>iface_recv_returns\<close>, from the contract of drivers. The endless loops are
  bounded by an argument: those of the daemon and of login by the list of their turns, tncd's by its
  fuel; all end with the state reached, so that every finite part of a run is covered.

  \<^bold>\<open>What is shown.\<close>
  \<^item> Codecs: addresses, frames, XID parameters, KISS streams cut into any reads, APRS-IS lines, words of
    the configuration among blanks and comments, messages of clients and dumps come back as they were
    written; the address decoder never reads outside of the frame. The frames that sockets build by
    hand are those of the encoder, but for UI frames, which lack the protocol octet.
  \<^item> Containers: the dictionary refines a finite map except in deletion, whose exact effect is given;
    the list's forward operations refine those on sequences; timers expire when the ticks add up, as
    long as no tick borrows.
  \<^item> Connections: each handler changes the state of a socket at most as the state machine
    \<open>conn_step\<close> allows, and by induction over \<open>hears\<close>, the runs of any number of frames, frames alone
    neither change the state of closed and listening sockets nor make one listen, connect or
    disconnect; acknowledgements mark the window they cover; buffers and slots stay within their
    allocations; a write arrives at the other side as it was given; negotiation only narrows.
  \<^item> Server and client: saving a socket registers it under its keys and closing removes them, but only
    under the current address; a client's terminals lead to live sockets of its own; what bind and
    listen do at both ends.
  \<^item> Daemon and tools: a configuration leads to running, well-typed interfaces and their routes;
    \<open>ax25dump\<close> shows every frame whole but those whose XID parameters are undefined; login starts nothing but the login program.
  \<^item> The flaws the proofs uncovered are theorems as well: each says what the code does where that is not
    what it means to do.

  \<^bold>\<open>Not modelled.\<close> The destructors of dictionaries, lists and routing tables only free memory and have
  no effect here. Signals, partial writes and the parallel run of several processes are outside of the
  model: a script is one order of events at a time. The build files and the documents hold no code of
  the program.
\<close>

end
